(* ===== verification/Relay_Prelude.thy ===== *)
theory Relay_Prelude
  imports Complex_Main "HOL-Library.AList"
begin

section \<open>Shared vocabulary of the Horizon Relay development\<close>

text \<open>
  What every component uses: the exceptions of \<^verbatim>\<open>errors.py\<close> and of the Python
  runtime as one datatype, results that are either an exception or a value, the JSON-like values
  that models return and payloads carry, insertion-ordered dictionaries, and the numeric
  helpers (clamping, rounding) of the routing code. The simplification collections declared here are
  filled by the components.

  Python's unbounded integers are \<^typ>\<open>int\<close>. A finite float is a \<^typ>\<open>real\<close>: the models of
  the routing score and of the token statistics compute with exact real arithmetic, so a statement
  about a score is about its exact value, before the double's representation error. Values read from
  outside (a model's JSON, an environment variable) may also be an infinity or NaN; those are values of
  \<open>pyfloat\<close> until the code clamps or rejects them.
\<close>

named_theorems res_simps \<open>evaluation of results that may be an exception\<close>
named_theorems dict_simps \<open>lookup and update of insertion-ordered dictionaries\<close>
named_theorems text_simps \<open>lengths and shapes of text operations\<close>
named_theorems run_simps \<open>projections of the run state through its elementary updates\<close>

subsection \<open>Exceptions\<close>

text \<open>
  The first three constructors are the classes of \<^verbatim>\<open>errors.py\<close> (\<open>ValidationError\<close> and
  \<open>BudgetError\<close> are subclasses of \<open>RelayError\<close>); the others are the builtin exceptions the
  relay raises or meets. \<open>CancelledError\<close> is asyncio's cancellation coming from outside the run,
  \<open>DeadlineCancelled\<close> the cancellation with which the run's own deadline
  (\<open>asyncio.timeout(run_timeout)\<close>) interrupts the code inside it.
\<close>

datatype exn =
    RelayError string
  | ValidationError string
  | BudgetError string
  | ValueError string
  | KeyError
  | IndexError
  | TypeError
  | OverflowError
  | TimeoutError
  | OSError string
  | OtherError
  | CancelledError
  | DeadlineCancelled

text \<open>What \<open>except RelayError\<close> catches: the class and its two subclasses.\<close>

fun is_relay_error :: "exn \<Rightarrow> bool" where
  "is_relay_error (RelayError _) = True"
| "is_relay_error (ValidationError _) = True"
| "is_relay_error (BudgetError _) = True"
| "is_relay_error _ = False"

text \<open>What \<open>except Exception\<close> does not catch: asyncio's cancellation is a \<open>BaseException\<close>.\<close>

fun is_cancellation :: "exn \<Rightarrow> bool" where
  "is_cancellation CancelledError = True"
| "is_cancellation DeadlineCancelled = True"
| "is_cancellation _ = False"

text \<open>\<open>str(exc)\<close>: the message for the errors that carry one here.\<close>

fun exn_str :: "exn \<Rightarrow> string" where
  "exn_str (RelayError m) = m"
| "exn_str (ValidationError m) = m"
| "exn_str (BudgetError m) = m"
| "exn_str (ValueError m) = m"
| "exn_str (OSError m) = m"
| "exn_str _ = []"

lemma relay_error_not_cancellation: "is_relay_error e \<Longrightarrow> \<not> is_cancellation e"
  by (cases e) auto

subsection \<open>Results\<close>

type_synonym 'a res = "exn + 'a"

definition bindE :: "'a res \<Rightarrow> ('a \<Rightarrow> 'b res) \<Rightarrow> 'b res" where
  "bindE m f = (case m of Inl e \<Rightarrow> Inl e | Inr x \<Rightarrow> f x)"

text \<open>\<open>if not b: raise e\<close>.\<close>

definition requireE :: "bool \<Rightarrow> exn \<Rightarrow> unit res" where
  "requireE b e = (if b then Inr () else Inl e)"

lemma bindE_Inl [simp, res_simps]: "bindE (Inl e) f = Inl e"
  by (simp add: bindE_def)

lemma bindE_Inr [simp, res_simps]: "bindE (Inr x) f = f x"
  by (simp add: bindE_def)

lemma bindE_eq_Inr: "bindE m f = Inr y \<longleftrightarrow> (\<exists>x. m = Inr x \<and> f x = Inr y)"
  by (cases m) auto

lemma bindE_eq_Inl: "bindE m f = Inl e \<longleftrightarrow> m = Inl e \<or> (\<exists>x. m = Inr x \<and> f x = Inl e)"
  by (cases m) auto

lemma requireE_eq_Inr [simp, res_simps]: "requireE b e = Inr u \<longleftrightarrow> b"
  by (simp add: requireE_def)

lemma requireE_eq_Inl [simp, res_simps]: "requireE b e = Inl e' \<longleftrightarrow> \<not> b \<and> e' = e"
  by (auto simp: requireE_def)

lemma bindE_requireE: "bindE (requireE b e) f = (if b then f () else Inl e)"
  by (simp add: requireE_def)

text \<open>A \<open>for\<close> loop whose body may raise and collects one value per element.\<close>

fun mapE :: "('a \<Rightarrow> 'b res) \<Rightarrow> 'a list \<Rightarrow> 'b list res" where
  "mapE f [] = Inr []"
| "mapE f (x # xs) = bindE (f x) (\<lambda>y. bindE (mapE f xs) (\<lambda>ys. Inr (y # ys)))"

text \<open>A \<open>for\<close> loop whose body only checks.\<close>

fun allE :: "('a \<Rightarrow> unit res) \<Rightarrow> 'a list \<Rightarrow> unit res" where
  "allE f [] = Inr ()"
| "allE f (x # xs) = bindE (f x) (\<lambda>_. allE f xs)"

lemma mapE_eq_Inr: "mapE f xs = Inr ys \<longleftrightarrow> list_all2 (\<lambda>x y. f x = Inr y) xs ys"
  by (induction xs arbitrary: ys) (auto simp: bindE_eq_Inr list_all2_Cons1)

lemma mapE_total: "(\<And>x. x \<in> set xs \<Longrightarrow> f x = Inr (g x)) \<Longrightarrow> mapE f xs = Inr (map g xs)"
  by (induction xs) auto

lemma mapE_Inl: "mapE f xs = Inl e \<Longrightarrow> \<exists>x \<in> set xs. f x = Inl e"
  by (induction xs) (auto simp: bindE_eq_Inl)

lemma mapE_source: "mapE f xs = Inr ys \<Longrightarrow> y \<in> set ys \<Longrightarrow> \<exists>x \<in> set xs. f x = Inr y"
  by (induction xs arbitrary: ys) (auto simp: bindE_eq_Inr)

lemma mapE_length: "mapE f xs = Inr ys \<Longrightarrow> length ys = length xs"
  by (induction xs arbitrary: ys) (auto simp: bindE_eq_Inr)

lemma allE_eq_Inr: "allE f xs = Inr u \<longleftrightarrow> (\<forall>x \<in> set xs. f x = Inr ())"
  by (induction xs) (auto simp: bindE_eq_Inr)

lemma allE_Inl: "allE f xs = Inl e \<Longrightarrow> \<exists>x \<in> set xs. f x = Inl e"
  by (induction xs) (auto simp: bindE_eq_Inl)

subsection \<open>Values\<close>

text \<open>
  The values of parsed JSON: what a model's reply holds and what the validators inspect. An object is
  an association list in insertion order, as a Python dictionary is. Python's JSON reader accepts
  \<open>NaN\<close> and \<open>Infinity\<close>, so a float may be one of those (\<open>Infinity True\<close> is the negative one).
\<close>

datatype pyfloat = Fin real | Infinity bool | NaN

datatype pyval =
    PNone
  | PBool bool
  | PInt int
  | PFloat pyfloat
  | PStr string
  | PList "pyval list"
  | PDict "(string \<times> pyval) list"

type_synonym pydict = "(string \<times> pyval) list"

text \<open>Python's truth value of an object, as \<open>if v\<close>, \<open>not v\<close>, \<open>a or b\<close> and \<open>bool(v)\<close> read it.\<close>

fun truthy :: "pyval \<Rightarrow> bool" where
  "truthy PNone = False"
| "truthy (PBool b) = b"
| "truthy (PInt i) = (i \<noteq> 0)"
| "truthy (PFloat x) = (x \<noteq> Fin 0)"
| "truthy (PStr s) = (s \<noteq> [])"
| "truthy (PList vs) = (vs \<noteq> [])"
| "truthy (PDict d) = (d \<noteq> [])"

fun is_str :: "pyval \<Rightarrow> bool" where
  "is_str (PStr _) = True"
| "is_str _ = False"

fun the_str :: "pyval \<Rightarrow> string" where
  "the_str (PStr s) = s"
| "the_str _ = []"

lemma is_str_iff: "is_str v \<longleftrightarrow> (\<exists>s. v = PStr s)"
  by (cases v) auto

subsection \<open>Dictionaries\<close>

text \<open>
  A Python dictionary keeps the order in which keys were first inserted; assigning to a present key
  keeps its place. That is \<^const>\<open>AList.update\<close> on association lists whose keys are distinct.
\<close>

type_synonym ('k, 'v) dict = "('k \<times> 'v) list"

definition dict_keys :: "('k, 'v) dict \<Rightarrow> 'k list" where
  "dict_keys d = map fst d"

definition dict_set :: "'k \<Rightarrow> 'v \<Rightarrow> ('k, 'v) dict \<Rightarrow> ('k, 'v) dict" where
  "dict_set k v d = AList.update k v d"

definition dict_ok :: "('k, 'v) dict \<Rightarrow> bool" where
  "dict_ok d \<longleftrightarrow> distinct (map fst d)"

text \<open>\<open>d.get(k, default)\<close>.\<close>

definition dict_get_or :: "('k, 'v) dict \<Rightarrow> 'k \<Rightarrow> 'v \<Rightarrow> 'v" where
  "dict_get_or d k v = (case map_of d k of None \<Rightarrow> v | Some w \<Rightarrow> w)"

lemma dict_keys_iff [simp, dict_simps]: "k \<in> set (dict_keys d) \<longleftrightarrow> map_of d k \<noteq> None"
  by (auto simp: dict_keys_def map_of_eq_None_iff)

lemma map_of_dict_set [simp, dict_simps]: "map_of (dict_set k v d) = (map_of d)(k \<mapsto> v)"
  by (simp add: dict_set_def update_conv')

lemma dict_ok_set [simp, dict_simps]: "dict_ok d \<Longrightarrow> dict_ok (dict_set k v d)"
  by (simp add: dict_ok_def dict_set_def distinct_update)

lemma dict_set_keys [dict_simps]: "set (map fst (dict_set k v d)) = insert k (set (map fst d))"
  by (simp add: dict_set_def dom_update)

lemma dict_ok_Nil [simp, dict_simps]: "dict_ok []"
  by (simp add: dict_ok_def)

lemma dict_set_fresh: "map_of d k = None \<Longrightarrow> dict_set k v d = d @ [(k, v)]"
  by (induction d) (auto simp: dict_set_def split: if_splits)

lemma dict_set_values: "(k', w) \<in> set (dict_set k v d) \<Longrightarrow> (k' = k \<and> w = v) \<or> (k', w) \<in> set d"
  by (induction d) (auto simp: dict_set_def split: if_splits)

lemma dict_set_not_Nil [simp]: "dict_set k v d \<noteq> []"
  by (cases d) (auto simp: dict_set_def)

text \<open>\<open>d.update(fs)\<close> and \<open>{**d, **fs}\<close>.\<close>

definition dict_update :: "('k, 'v) dict \<Rightarrow> ('k, 'v) dict \<Rightarrow> ('k, 'v) dict" where
  "dict_update d fs = foldl (\<lambda>acc (k, v). dict_set k v acc) d fs"

lemma dict_update_Nil [simp, dict_simps]: "dict_update d [] = d"
  by (simp add: dict_update_def)

lemma dict_update_Cons [dict_simps]: "dict_update d ((k, v) # fs) = dict_update (dict_set k v d) fs"
  by (simp add: dict_update_def)

lemma map_of_dict_update: "dict_ok fs \<Longrightarrow> map_of (dict_update d fs) = map_of d ++ map_of fs"
proof (induction fs arbitrary: d)
  case (Cons kv fs)
  obtain k v where kv: "kv = (k, v)" by (cases kv)
  have "dict_ok fs" and new: "k \<notin> fst ` set fs" using Cons.prems by (auto simp: kv dict_ok_def)
  with Cons.IH have "map_of (dict_update d (kv # fs)) = (map_of d)(k \<mapsto> v) ++ map_of fs"
    by (simp add: kv dict_update_Cons)
  also have "\<dots> = map_of d ++ map_of (kv # fs)" using new by (simp add: kv map_add_upd_left dom_map_of_conv_image_fst)
  finally show ?case .
qed simp

lemma dict_ok_update: "dict_ok d \<Longrightarrow> dict_ok (dict_update d fs)"
  by (induction fs arbitrary: d) (auto simp: dict_update_Cons)

lemma dict_update_keys: "fst ` set (dict_update d fs) = fst ` set d \<union> fst ` set fs"
proof (induction fs arbitrary: d)
  case (Cons kv fs)
  then show ?case using dict_set_keys [of "fst kv" "snd kv" d] by (cases kv) (auto simp: dict_update_Cons)
qed simp

lemma dict_set_twice [simp]: "dict_set k v (dict_set k w d) = dict_set k v d"
  by (induction d) (auto simp: dict_set_def)

lemma dict_set_map:
  assumes "dict_ok M" and "p \<in> fst ` set M"
  shows "dict_set p v (map (\<lambda>(k, m). (k, F k m)) M) = map (\<lambda>(k, m). (k, if k = p then v else F k m)) M"
  using assms
proof (induction M)
  case (Cons km M)
  obtain k m where km: "km = (k, m)" by (cases km)
  show ?case
  proof (cases "k = p")
    case True
    then have "p \<notin> fst ` set M" using Cons.prems(1) by (auto simp: km dict_ok_def)
    then have "map (\<lambda>(k, m). (k, if k = p then v else F k m)) M = map (\<lambda>(k, m). (k, F k m)) M"
      by (intro map_cong) (auto simp: image_iff)
    then show ?thesis using True by (simp add: km dict_set_def)
  next
    case False
    then show ?thesis using Cons by (auto simp: km dict_set_def dict_ok_def)
  qed
qed simp

lemma dict_update_onto_nothing: "dict_ok (acc @ d) \<Longrightarrow> dict_update acc d = acc @ d"
proof (induction d arbitrary: acc)
  case (Cons kv d)
  obtain k v where kv: "kv = (k, v)" by (cases kv)
  have "map_of acc k = None" using Cons.prems by (auto simp: kv dict_ok_def map_of_eq_None_iff)
  then show ?case using Cons.IH [of "acc @ [kv]"] Cons.prems by (simp add: kv dict_update_Cons dict_set_fresh)
qed simp

lemma list_all_dict_update: "list_all P acc \<Longrightarrow> list_all P d \<Longrightarrow> list_all P (dict_update acc d)"
proof (induction d arbitrary: acc)
  case (Cons kv d)
  obtain k v where kv: "kv = (k, v)" by (cases kv)
  have "list_all P (dict_set k v acc)" using Cons.prems dict_set_values by (fastforce simp: kv list_all_iff)
  then show ?case using Cons.IH Cons.prems(2) by (simp add: kv dict_update_Cons)
qed simp

lemma dict_set_keys_same: "map_of M k \<noteq> None \<Longrightarrow> fst ` set (dict_set k v M) = fst ` set M"
  using dict_set_keys [of k v M] by (auto simp: map_of_eq_None_iff)

lemma list_all_lookup: "list_all (\<lambda>(k, m). P m) M \<Longrightarrow> map_of M k = Some m \<Longrightarrow> P m"
  by (auto simp: list_all_iff dest: map_of_SomeD)

text \<open>What may be an element of a set or a key: containers are unhashable (\<open>TypeError\<close>).\<close>

fun hashable :: "pyval \<Rightarrow> bool" where
  "hashable (PList _) = False"
| "hashable (PDict _) = False"
| "hashable _ = True"

text \<open>\<open>for x in v\<close>: a list's entries, a dictionary's keys, a text's characters.\<close>

fun iterate :: "pyval \<Rightarrow> pyval list res" where
  "iterate (PList vs) = Inr vs"
| "iterate (PDict d) = Inr (map (\<lambda>(k, v). PStr k) d)"
| "iterate (PStr s) = Inr (map (\<lambda>c. PStr [c]) s)"
| "iterate _ = Inl TypeError"

subsection \<open>Numbers\<close>

text \<open>The number a value is in a comparison with \<open><\<close>, and that comparison: NaN is below nothing and above nothing.\<close>

fun number_of :: "pyval \<Rightarrow> pyfloat res" where
  "number_of (PBool b) = Inr (Fin (if b then 1 else 0))"
| "number_of (PInt i) = Inr (Fin (of_int i))"
| "number_of (PFloat x) = Inr x"
| "number_of _ = Inl TypeError"

fun less_float :: "pyfloat \<Rightarrow> pyfloat \<Rightarrow> bool" where
  "less_float NaN _ = False"
| "less_float _ NaN = False"
| "less_float (Infinity a) (Infinity b) = (a \<and> \<not> b)"
| "less_float (Infinity a) (Fin _) = a"
| "less_float (Fin _) (Infinity b) = (\<not> b)"
| "less_float (Fin x) (Fin y) = (x < y)"

text \<open>\<open>policy._clamp\<close> with its default bounds.\<close>

definition clamp :: "real \<Rightarrow> real" where
  "clamp v = max 0 (min 1 v)"

lemma clamp_bounds [simp]: "0 \<le> clamp v" "clamp v \<le> 1"
  by (auto simp: clamp_def)

lemma clamp_id: "0 \<le> v \<Longrightarrow> v \<le> 1 \<Longrightarrow> clamp v = v"
  by (simp add: clamp_def)

text \<open>
  The same on a float that may not be finite: \<open>max(low, min(high, value))\<close> with Python's \<open>min\<close> and
  \<open>max\<close>, which keep their first argument when a comparison with NaN fails.
\<close>

fun clamp_float :: "pyfloat \<Rightarrow> real" where
  "clamp_float (Fin x) = clamp x"
| "clamp_float (Infinity neg) = (if neg then 0 else 1)"
| "clamp_float NaN = 1"

lemma clamp_float_bounds [simp]: "0 \<le> clamp_float v" "clamp_float v \<le> 1"
  by (cases v; simp)+

text \<open>Python's \<open>round\<close>: to the nearest integer, ties to the even one; \<open>round(x, 4)\<close> scales.\<close>

definition round_half_even :: "real \<Rightarrow> int" where
  "round_half_even x =
     (let f = \<lfloor>x\<rfloor>; d = x - of_int f
      in if d < 1 / 2 then f else if d > 1 / 2 then f + 1 else if even f then f else f + 1)"

definition round4 :: "real \<Rightarrow> real" where
  "round4 x = of_int (round_half_even (x * 10000)) / 10000"

lemma round_half_even_mono: "x \<le> y \<Longrightarrow> round_half_even x \<le> round_half_even y"
  using floor_mono [of x y] unfolding round_half_even_def Let_def
  by (cases "\<lfloor>x\<rfloor> = \<lfloor>y\<rfloor>") auto

lemma round_half_even_int [simp]: "round_half_even (of_int i) = i"
  by (simp add: round_half_even_def)

lemma round4_mono: "x \<le> y \<Longrightarrow> round4 x \<le> round4 y"
  by (simp add: round4_def round_half_even_mono divide_right_mono)

lemma round4_0 [simp]: "round4 0 = 0"
  using round_half_even_int [of 0] by (simp add: round4_def)

lemma round4_1 [simp]: "round4 1 = 1"
  using round_half_even_int [of 10000] by (simp add: round4_def)

lemma round4_bounds: "0 \<le> x \<Longrightarrow> x \<le> 1 \<Longrightarrow> 0 \<le> round4 x \<and> round4 x \<le> 1"
  using round4_mono [of 0 x] round4_mono [of x 1] by simp

text \<open>\<open>statistics.mean\<close> of a nonempty list.\<close>

definition mean :: "real list \<Rightarrow> real" where
  "mean xs = sum_list xs / real (length xs)"

lemma sum_list_bounds:
  assumes "\<And>x. x \<in> set xs \<Longrightarrow> l \<le> x \<and> x \<le> (u::real)"
  shows "l * real (length xs) \<le> sum_list xs \<and> sum_list xs \<le> u * real (length xs)"
  using assms by (induction xs) (auto simp: algebra_simps intro: add_mono)

lemma mean_bounds:
  assumes "xs \<noteq> []" and "\<And>x. x \<in> set xs \<Longrightarrow> l \<le> x \<and> x \<le> u"
  shows "l \<le> mean xs \<and> mean xs \<le> u"
proof -
  have "l * real (length xs) \<le> sum_list xs \<and> sum_list xs \<le> u * real (length xs)"
    using assms(2) by (rule sum_list_bounds)
  with assms(1) show ?thesis
    by (simp add: mean_def pos_le_divide_eq pos_divide_le_eq)
qed

text \<open>\<open>sum(b for b in ...)\<close> over truth values: how many hold.\<close>

definition count_true :: "bool list \<Rightarrow> nat" where
  "count_true bs = length (filter (\<lambda>b. b) bs)"

end
