(* ===== verification/Py_Text.thy ===== *)
theory Py_Text
  imports Relay_Prelude "HOL-Library.Sublist"
begin

section \<open>Text as the relay uses it\<close>

text \<open>
  The string operations of Python that the relay calls, on \<^typ>\<open>string\<close>: a character of the model
  is one code point, so \<open>len\<close> is \<^const>\<open>length\<close> and slicing is \<^const>\<open>take\<close> and \<^const>\<open>drop\<close>.
  The model's characters are the code points up to 255. The few typographic characters above that
  range which the relay's own messages contain are single stand-in characters of the unused C1 block
  (defined below), which keeps every length and every slice as it is in the code.
\<close>

subsection \<open>Stand-ins for typographic characters\<close>

definition ch_emdash :: string where "ch_emdash = [CHR 0x97]"
definition ch_ellipsis :: string where "ch_ellipsis = [CHR 0x86]"
definition ch_ge :: string where "ch_ge = [CHR 0x87]"
definition ch_ldquo :: string where "ch_ldquo = [CHR 0x93]"
definition ch_rdquo :: string where "ch_rdquo = [CHR 0x94]"
definition ch_rarrow :: string where "ch_rarrow = [CHR 0x88]"
definition ch_middot :: string where "ch_middot = [CHR 0xB7]"
definition ch_times :: string where "ch_times = [CHR 0xD7]"
definition newline :: string where "newline = [CHR 0x0A]"

subsection \<open>Characters\<close>

text \<open>\<open>str.isspace\<close> of one character, for code points up to 255.\<close>

definition is_space :: "char \<Rightarrow> bool" where
  "is_space c \<longleftrightarrow> (let n = (of_char c :: nat) in
     9 \<le> n \<and> n \<le> 13 \<or> 28 \<le> n \<and> n \<le> 32 \<or> n = 133 \<or> n = 160)"

definition is_digit :: "char \<Rightarrow> bool" where
  "is_digit c \<longleftrightarrow> (let n = (of_char c :: nat) in 48 \<le> n \<and> n \<le> 57)"

definition is_lower_az :: "char \<Rightarrow> bool" where
  "is_lower_az c \<longleftrightarrow> (let n = (of_char c :: nat) in 97 \<le> n \<and> n \<le> 122)"

definition is_upper_latin :: "char \<Rightarrow> bool" where
  "is_upper_latin c \<longleftrightarrow> (let n = (of_char c :: nat) in
     65 \<le> n \<and> n \<le> 90 \<or> 192 \<le> n \<and> n \<le> 222 \<and> n \<noteq> 215)"

definition is_lower_latin :: "char \<Rightarrow> bool" where
  "is_lower_latin c \<longleftrightarrow> (let n = (of_char c :: nat) in
     97 \<le> n \<and> n \<le> 122 \<or> 224 \<le> n \<and> n \<le> 254 \<and> n \<noteq> 247)"

definition lower_char :: "char \<Rightarrow> char" where
  "lower_char c = (if is_upper_latin c then char_of ((of_char c :: nat) + 32) else c)"

definition upper_char :: "char \<Rightarrow> char" where
  "upper_char c = (if is_lower_latin c then char_of ((of_char c :: nat) - 32) else c)"

subsection \<open>Case, stripping, searching\<close>

definition lower :: "string \<Rightarrow> string" where
  "lower s = map lower_char s"

definition lstrip :: "string \<Rightarrow> string" where
  "lstrip s = dropWhile is_space s"

definition rstrip :: "string \<Rightarrow> string" where
  "rstrip s = rev (dropWhile is_space (rev s))"

definition strip :: "string \<Rightarrow> string" where
  "strip s = rstrip (lstrip s)"

text \<open>\<open>s.rstrip(chars)\<close> and \<open>s.lstrip(chars)\<close>.\<close>

definition rstrip_chars :: "string \<Rightarrow> string \<Rightarrow> string" where
  "rstrip_chars cs s = rev (dropWhile (\<lambda>c. c \<in> set cs) (rev s))"

definition lstrip_chars :: "string \<Rightarrow> string \<Rightarrow> string" where
  "lstrip_chars cs s = dropWhile (\<lambda>c. c \<in> set cs) s"

text \<open>\<open>sub in s\<close>.\<close>

fun contains :: "string \<Rightarrow> string \<Rightarrow> bool" where
  "contains sub [] \<longleftrightarrow> sub = []"
| "contains sub (c # cs) \<longleftrightarrow> prefix sub (c # cs) \<or> contains sub cs"

lemma contains_iff: "contains sub s \<longleftrightarrow> sublist sub s"
  by (induction s) (auto simp: sublist_Cons_right)

lemma contains_refl [simp]: "contains s s"
  by (simp add: contains_iff)

definition count_char :: "char \<Rightarrow> string \<Rightarrow> nat" where
  "count_char c s = length (filter (\<lambda>d. d = c) s)"

lemma length_lower [simp, text_simps]: "length (lower s) = length s"
  by (simp add: lower_def)

lemma length_strip_le [text_simps]: "length (strip s) \<le> length s"
proof -
  have "length (rstrip t) \<le> length t" for t
    using length_dropWhile_le [of is_space "rev t"] by (simp add: rstrip_def)
  from this [of "lstrip s"] length_dropWhile_le [of is_space s] show ?thesis
    by (simp add: strip_def lstrip_def)
qed

lemma strip_Nil [simp]: "strip [] = []"
  by (simp add: strip_def lstrip_def rstrip_def)

lemma strip_eq_Nil_iff: "strip s = [] \<longleftrightarrow> list_all is_space s"
proof -
  have "strip s = [] \<longleftrightarrow> dropWhile is_space (rev (dropWhile is_space s)) = []"
    by (simp add: strip_def rstrip_def lstrip_def)
  also have "\<dots> \<longleftrightarrow> (\<forall>x \<in> set (dropWhile is_space s). is_space x)"
    by (simp add: dropWhile_eq_Nil_conv)
  also have "\<dots> \<longleftrightarrow> (\<forall>x \<in> set s. is_space x)"
    by (induction s) auto
  finally show ?thesis by (simp add: list_all_iff)
qed

subsection \<open>Splitting, joining, replacing\<close>

fun join :: "string \<Rightarrow> string list \<Rightarrow> string" where
  "join sep [] = []"
| "join sep [s] = s"
| "join sep (s # t # ss) = s @ sep @ join sep (t # ss)"

text \<open>\<open>s.split()\<close>: the maximal runs without white space.\<close>

function split_ws :: "string \<Rightarrow> string list" where
  "split_ws s =
     (let t = dropWhile is_space s
      in if t = [] then [] else takeWhile (Not \<circ> is_space) t # split_ws (dropWhile (Not \<circ> is_space) t))"
  by pat_completeness auto
termination
proof (relation "measure length", goal_cases)
  case 1
  then show ?case by simp
next
  case (2 s t)
  then have ne: "t \<noteq> []" and t: "t = dropWhile is_space s" by auto
  have "\<not> is_space (hd t)"
    using ne t hd_dropWhile [of is_space s] by auto
  then have "dropWhile (Not \<circ> is_space) t = dropWhile (Not \<circ> is_space) (tl t)"
    using ne by (cases t) auto
  then have "length (dropWhile (Not \<circ> is_space) t) \<le> length (tl t)"
    using length_dropWhile_le [of "Not \<circ> is_space" "tl t"] by (simp only:)
  also have "\<dots> < length t" using ne by simp
  also have "\<dots> \<le> length s" using t by (simp add: length_dropWhile_le)
  finally show ?case by simp
qed

declare split_ws.simps [simp del]

text \<open>
  \<open>s.partition(sep)\<close> for a one-character separator: (before, separator found, after). Without the
  separator Python returns the whole text before and empty text after.
\<close>

fun partition_at :: "char \<Rightarrow> string \<Rightarrow> string \<times> bool \<times> string" where
  "partition_at c [] = ([], False, [])"
| "partition_at c (d # ds) =
     (if d = c then ([], True, ds)
      else (case partition_at c ds of (a, found, b) \<Rightarrow> (d # a, found, b)))"

lemma partition_at_append: "c \<notin> set a \<Longrightarrow> partition_at c (a @ c # b) = (a, True, b)"
  by (induction a) auto

lemma partition_at_found: "partition_at c s = (a, True, b) \<Longrightarrow> s = a @ c # b \<and> c \<notin> set a"
  by (induction s arbitrary: a) (auto split: if_splits prod.splits)

lemma partition_at_not_found: "partition_at c s = (a, False, b) \<Longrightarrow> a = s \<and> b = []"
  by (induction s arbitrary: a) (auto split: if_splits prod.splits)

text \<open>\<open>s.split(c)\<close> for a one-character separator.\<close>

fun split_char :: "char \<Rightarrow> string \<Rightarrow> string list" where
  "split_char c [] = [[]]"
| "split_char c (d # ds) =
     (if d = c then [] # split_char c ds
      else (case split_char c ds of [] \<Rightarrow> [[d]] | w # ws \<Rightarrow> (d # w) # ws))"

lemma split_char_not_Nil [simp]: "split_char c s \<noteq> []"
  by (cases s) (auto split: list.splits)

text \<open>\<open>s.replace(old, new)\<close> for nonempty \<open>old\<close>, and the same with \<open>count=1\<close>.\<close>

function py_replace :: "string \<Rightarrow> string \<Rightarrow> string \<Rightarrow> string" where
  "py_replace old new s =
     (case s of [] \<Rightarrow> []
      | c # cs \<Rightarrow> if old \<noteq> [] \<and> prefix old s then new @ py_replace old new (drop (length old) s)
                  else c # py_replace old new cs)"
  by pat_completeness auto
termination
  by (relation "measure (\<lambda>(old, new, s). length s)") (auto simp: diff_less)

declare py_replace.simps [simp del]

fun py_replace1 :: "string \<Rightarrow> string \<Rightarrow> string \<Rightarrow> string" where
  "py_replace1 old new [] = []"
| "py_replace1 old new (c # cs) =
     (if old \<noteq> [] \<and> prefix old (c # cs) then new @ drop (length old) (c # cs)
      else c # py_replace1 old new cs)"

lemma py_replace_Nil [simp]: "py_replace old new [] = []"
  by (simp add: py_replace.simps)

subsection \<open>Numbers as text\<close>

definition digit_char :: "nat \<Rightarrow> char" where
  "digit_char d = char_of (48 + d)"

fun show_nat :: "nat \<Rightarrow> string" where
  "show_nat n = (if n < 10 then [digit_char n] else show_nat (n div 10) @ [digit_char (n mod 10)])"

declare show_nat.simps [simp del]

definition show_int :: "int \<Rightarrow> string" where
  "show_int i = (if i < 0 then ''-'' @ show_nat (nat (- i)) else show_nat (nat i))"

definition pad_zero :: "nat \<Rightarrow> string \<Rightarrow> string" where
  "pad_zero k s = replicate (k - length s) (CHR ''0'') @ s"

text \<open>A nonnegative integer scaled by \<open>10 ^ k\<close> in decimal notation with \<open>k\<close> places.\<close>

definition show_scaled :: "nat \<Rightarrow> nat \<Rightarrow> string" where
  "show_scaled k n = show_nat (n div 10 ^ k) @ ''.'' @ pad_zero k (show_nat (n mod 10 ^ k))"

text \<open>The format \<open>f"{x:.2f}"\<close>.\<close>

definition fmt2 :: "real \<Rightarrow> string" where
  "fmt2 x = (if x < 0 then ''-'' else []) @ show_scaled 2 (nat (round_half_even (\<bar>x\<bar> * 100)))"

text \<open>
  \<open>repr\<close> of a float: the shortest decimal that denotes it, in positional notation between
  \<open>10 ^ -4\<close> and \<open>10 ^ 16\<close> and with an exponent elsewhere, at most 17 places.
\<close>

fun dec_places :: "nat \<Rightarrow> real \<Rightarrow> nat" where
  "dec_places 0 x = 0"
| "dec_places (Suc n) x = (if x = of_int \<lfloor>x\<rfloor> then 0 else Suc (dec_places n (x * 10)))"

fun dec_exponent :: "nat \<Rightarrow> real \<Rightarrow> int" where
  "dec_exponent 0 x = 0"
| "dec_exponent (Suc n) x =
     (if 10 \<le> x then dec_exponent n (x / 10) + 1
      else if x < 1 then dec_exponent n (x * 10) - 1 else 0)"

definition show_decimal :: "nat \<Rightarrow> real \<Rightarrow> string" where
  "show_decimal least x =
     (let k = max least (dec_places 17 x); n = nat (round_half_even (x * 10 ^ k))
      in if k = 0 then show_nat n else show_scaled k n)"

definition real_repr :: "real \<Rightarrow> string" where
  "real_repr x =
     (let a = \<bar>x\<bar>
      in (if x < 0 then ''-'' else []) @
         (if a = 0 \<or> 1 / 10000 \<le> a \<and> a < 10 ^ 16 then show_decimal 1 a
          else let e = dec_exponent 400 a
               in show_decimal 0 (a / 10 powi e) @ ''e'' @ (if e < 0 then ''-'' else ''+'') @
                  pad_zero 2 (show_nat (nat \<bar>e\<bar>))))"

fun float_repr :: "pyfloat \<Rightarrow> string" where
  "float_repr (Fin x) = real_repr x"
| "float_repr (Infinity neg) = (if neg then ''-inf'' else ''inf'')"
| "float_repr NaN = ''nan''"

fun json_float :: "pyfloat \<Rightarrow> string" where
  "json_float (Fin x) = real_repr x"
| "json_float (Infinity neg) = (if neg then ''-Infinity'' else ''Infinity'')"
| "json_float NaN = ''NaN''"

definition hex_digit :: "nat \<Rightarrow> char" where
  "hex_digit d = (if d < 10 then char_of (48 + d) else char_of (87 + d))"

definition hex2 :: "nat \<Rightarrow> string" where
  "hex2 n = [hex_digit (n div 16), hex_digit (n mod 16)]"

subsection \<open>Values as text\<close>

text \<open>\<open>repr\<close> of a text: single quotes unless the text has those and no double quote.\<close>

definition repr_char :: "char \<Rightarrow> char \<Rightarrow> string" where
  "repr_char q c =
     (let n = (of_char c :: nat)
      in if c = q \<or> n = 92 then [CHR 0x5C, c]
         else if n = 10 then [CHR 0x5C, CHR ''n'']
         else if n = 13 then [CHR 0x5C, CHR ''r'']
         else if n = 9 then [CHR 0x5C, CHR ''t'']
         else if n < 32 \<or> 127 \<le> n \<and> n \<le> 160 \<or> n = 173 then [CHR 0x5C, CHR ''x''] @ hex2 n
         else [c])"

definition repr_text :: "string \<Rightarrow> string" where
  "repr_text s =
     (let q = (if CHR 0x27 \<in> set s \<and> CHR 0x22 \<notin> set s then CHR 0x22 else CHR 0x27)
      in [q] @ concat (map (repr_char q) s) @ [q])"

fun py_repr :: "pyval \<Rightarrow> string" where
  "py_repr PNone = ''None''"
| "py_repr (PBool b) = (if b then ''True'' else ''False'')"
| "py_repr (PInt i) = show_int i"
| "py_repr (PFloat x) = float_repr x"
| "py_repr (PStr s) = repr_text s"
| "py_repr (PList vs) = ''['' @ join '', '' (map py_repr vs) @ '']''"
| "py_repr (PDict d) = ''{'' @ join '', '' (map (\<lambda>(k, v). repr_text k @ '': '' @ py_repr v) d) @ ''}''"

definition py_str :: "pyval \<Rightarrow> string" where
  "py_str v = (case v of PStr s \<Rightarrow> s | _ \<Rightarrow> py_repr v)"

text \<open>\<open>json.dumps(v, ensure_ascii=False)\<close> with its default separators.\<close>

definition json_char :: "char \<Rightarrow> string" where
  "json_char c =
     (let n = (of_char c :: nat)
      in if n = 34 \<or> n = 92 then [CHR 0x5C, c]
         else if n = 10 then [CHR 0x5C, CHR ''n'']
         else if n = 13 then [CHR 0x5C, CHR ''r'']
         else if n = 9 then [CHR 0x5C, CHR ''t'']
         else if n = 8 then [CHR 0x5C, CHR ''b'']
         else if n = 12 then [CHR 0x5C, CHR ''f'']
         else if n < 32 then [CHR 0x5C, CHR ''u'', CHR ''0'', CHR ''0''] @ hex2 n
         else [c])"

definition json_text :: "string \<Rightarrow> string" where
  "json_text s = [CHR 0x22] @ concat (map json_char s) @ [CHR 0x22]"

fun json_dumps :: "pyval \<Rightarrow> string" where
  "json_dumps PNone = ''null''"
| "json_dumps (PBool b) = (if b then ''true'' else ''false'')"
| "json_dumps (PInt i) = show_int i"
| "json_dumps (PFloat x) = json_float x"
| "json_dumps (PStr s) = json_text s"
| "json_dumps (PList vs) = ''['' @ join '', '' (map json_dumps vs) @ '']''"
| "json_dumps (PDict d) = ''{'' @ join '', '' (map (\<lambda>(k, v). json_text k @ '': '' @ json_dumps v) d) @ ''}''"

text \<open>\<open>s.capitalize()\<close> and \<open>s.title()\<close>.\<close>

definition capitalize :: "string \<Rightarrow> string" where
  "capitalize s = (case s of [] \<Rightarrow> [] | c # cs \<Rightarrow> upper_char c # lower cs)"

fun title_from :: "bool \<Rightarrow> string \<Rightarrow> string" where
  "title_from start [] = []"
| "title_from start (c # cs) =
     (let cased = is_lower_latin c \<or> is_upper_latin c
      in (if \<not> cased then c else if start then upper_char c else lower_char c) # title_from (\<not> cased) cs)"

definition title :: "string \<Rightarrow> string" where
  "title s = title_from True s"

end
