(* ===== verification/Relay_Results.thy ===== *)
theory Relay_Results
  imports Py_Text "HOL-Library.Multiset"
begin

section \<open>Subtask results and their checks (results.py)\<close>

text \<open>
  The three validators, the table \<open>RESULT_TYPES\<close>, \<^verbatim>\<open>validate_result\<close> and
  \<^verbatim>\<open>split_judgment\<close>. A worker's value is a \<^typ>\<open>pyval\<close>; the inputs of a task map its
  references (\<open>sources.KEY\<close>, \<open>results.ID\<close>) to values, in the order of the task's \<open>input_refs\<close>.
  Each validator is shown equivalent to a declarative condition; the locale \<open>result_contract\<close> is what
  the engine relies on, interpreted for each of the three.
\<close>

type_synonym inputs = "(string, pyval) dict"

definition source_ref :: "string \<Rightarrow> string" where
  "source_ref key = ''sources.'' @ key"

definition is_source_ref :: "string \<Rightarrow> bool" where
  "is_source_ref ref \<longleftrightarrow> prefix ''sources.'' ref"

definition keys_are :: "pydict \<Rightarrow> string list \<Rightarrow> bool" where
  "keys_are d ks \<longleftrightarrow> set (map fst d) = set ks"

text \<open>\<open>value[k]\<close> where the keys have been checked before.\<close>

definition field :: "pydict \<Rightarrow> string \<Rightarrow> pyval" where
  "field d k = dict_get_or d k PNone"

subsection \<open>The validators\<close>

definition task_answer :: "pydict \<Rightarrow> inputs \<Rightarrow> unit res" where
  "task_answer value inputs =
     requireE (keys_are value [''answer''] \<and> is_str (field value ''answer'')
               \<and> 1 \<le> length (strip (the_str (field value ''answer'')))
               \<and> length (strip (the_str (field value ''answer''))) \<le> 16000)
       (ValidationError ''Task answer requires nonempty answer text of at most 16000 characters'')"

definition report_extraction :: "pydict \<Rightarrow> inputs \<Rightarrow> unit res" where
  "report_extraction value inputs =
     bindE (requireE (keys_are value [''report_id'', ''quote''])
              (ValidationError ''Extraction requires report_id and quote'')) (\<lambda>_.
     let report_id = field value ''report_id''; quote = field value ''quote''
     in bindE (requireE (is_str report_id \<and> is_str quote \<and> strip (the_str quote) \<noteq> [])
                 (ValidationError ''Invalid or empty report evidence'')) (\<lambda>_.
        let source = map_of inputs (source_ref (the_str report_id))
        in bindE (requireE (case source of Some (PStr s) \<Rightarrow> contains (the_str quote) s | _ \<Rightarrow> False)
                    (ValidationError ''Quote does not match the assigned source'')) (\<lambda>_.
           requireE (filter is_source_ref (map fst inputs) = [source_ref (the_str report_id)])
             (ValidationError ''Extraction must cover its single assigned source''))))"

text \<open>
  Elements of a Python set: equal numbers of different types are one element.
\<close>

fun hash_key :: "pyval \<Rightarrow> pyval" where
  "hash_key (PBool b) = PInt (if b then 1 else 0)"
| "hash_key (PFloat (Fin x)) = (if x = of_int \<lfloor>x\<rfloor> then PInt \<lfloor>x\<rfloor> else PFloat (Fin x))"
| "hash_key v = v"

text \<open>\<open>v["report_id"]\<close> of the inputs that are objects with that key.\<close>

definition input_report_ids :: "inputs \<Rightarrow> pyval list" where
  "input_report_ids inputs =
     concat (map (\<lambda>(ref, v). case v of PDict d \<Rightarrow> (case map_of d ''report_id'' of None \<Rightarrow> [] | Some r \<Rightarrow> [r])
                             | _ \<Rightarrow> []) inputs)"

definition expected_ids :: "inputs \<Rightarrow> pyval list res" where
  "expected_ids inputs =
     (if list_all hashable (input_report_ids inputs)
      then Inr (remdups (map hash_key (input_report_ids inputs))) else Inl TypeError)"

definition check_group :: "pyval \<Rightarrow> pyval list res" where
  "check_group grp =
     (case grp of
        PDict g \<Rightarrow>
          bindE (requireE (keys_are g [''label'', ''report_ids'']) (ValidationError ''Invalid group fields'')) (\<lambda>_.
          bindE (requireE (is_str (field g ''label'') \<and> 1 \<le> length (the_str (field g ''label''))
                            \<and> length (the_str (field g ''label'')) \<le> 300)
                   (ValidationError ''Invalid group label'')) (\<lambda>_.
          (case field g ''report_ids'' of
             PList ids \<Rightarrow> bindE (requireE (ids \<noteq> [] \<and> list_all is_str ids)
                                  (ValidationError ''Invalid group report IDs'')) (\<lambda>_. Inr ids)
           | _ \<Rightarrow> Inl (ValidationError ''Invalid group report IDs''))))
      | _ \<Rightarrow> Inl (ValidationError ''Invalid group fields''))"

definition report_groups :: "pydict \<Rightarrow> inputs \<Rightarrow> unit res" where
  "report_groups value inputs =
     (case field value ''groups'' of
        PList groups \<Rightarrow>
          bindE (requireE (keys_are value [''groups''] \<and> groups \<noteq> [])
                   (ValidationError ''Grouping requires nonempty groups'')) (\<lambda>_.
          bindE (expected_ids inputs) (\<lambda>expected.
          bindE (requireE (expected \<noteq> [] \<and> length expected = length inputs)
                   (ValidationError ''Grouping needs one extraction per report'')) (\<lambda>_.
          bindE (mapE check_group groups) (\<lambda>idss.
          let actual = concat idss
          in requireE (length actual = length expected \<and> set actual = set expected)
               (ValidationError ''Every report ID must occur exactly once'')))))
      | _ \<Rightarrow> Inl (ValidationError ''Grouping requires nonempty groups''))"

subsection \<open>The table of result types\<close>

record result_type =
  rt_checks :: "string list"
  rt_worker_format :: string
  rt_validate :: "pydict \<Rightarrow> inputs \<Rightarrow> unit res"

definition RESULT_TYPES :: "(string, result_type) dict" where
  \<open>RESULT_TYPES =
     [(''task_answer'',
       \<lparr>rt_checks = [''required_fields''],
        rt_worker_format = ''Return exactly {"answer":"your subtask result"}.'',
        rt_validate = task_answer\<rparr>),
      (''report_extraction'',
       \<lparr>rt_checks = [''required_fields'', ''source_quotes_match''],
        rt_worker_format = ''Return exactly {"report_id":"source key","quote":"verbatim source text"}.'',
        rt_validate = report_extraction\<rparr>),
      (''report_groups'',
       \<lparr>rt_checks = [''required_fields'', ''report_ids_preserved''],
        rt_worker_format = ''Return exactly {"groups":[{"label":"category","report_ids":["report_1"]}]}; include each assigned report once.'',
        rt_validate = report_groups\<rparr>)]\<close>

definition validate_result :: "string \<Rightarrow> pyval \<Rightarrow> inputs \<Rightarrow> unit res" where
  "validate_result rtype value inputs =
     (case map_of RESULT_TYPES rtype of
        None \<Rightarrow> Inl (ValidationError ''Unsupported result type'')
      | Some rt \<Rightarrow> (case value of
                      PDict d \<Rightarrow> rt_validate rt d inputs
                    | _ \<Rightarrow> Inl (ValidationError ''Worker must return an object'')))"

subsection \<open>Self-assessments\<close>

definition JUDGMENT_KEYS :: "string list" where
  "JUDGMENT_KEYS = [''confidence'', ''reason'', ''concern'']"

record self_judgment =
  j_confidence :: "string option"
  j_note :: string

definition or_val :: "pyval \<Rightarrow> pyval \<Rightarrow> pyval" where
  "or_val a b = (if truthy a then a else b)"

definition split_judgment :: "pyval \<Rightarrow> pyval \<times> self_judgment option" where
  "split_judgment value =
     (case value of
        PDict d \<Rightarrow>
          if \<not> list_ex (\<lambda>k. map_of d k \<noteq> None) JUDGMENT_KEYS then (value, None)
          else
            let rest = filter (\<lambda>(k, v). k \<notin> set JUDGMENT_KEYS) d;
                level = field d ''confidence'';
                note = or_val (field d ''reason'') (or_val (field d ''concern'') (PStr []));
                conf = (if level \<in> {PStr ''low'', PStr ''medium'', PStr ''high''} then Some (the_str level) else None);
                text = (case note of PStr s \<Rightarrow> take 300 (strip s) | _ \<Rightarrow> [])
            in (PDict rest, if conf \<noteq> None \<or> text \<noteq> [] then Some \<lparr>j_confidence = conf, j_note = text\<rparr> else None)
      | _ \<Rightarrow> (value, None))"

subsection \<open>What acceptance means\<close>

text \<open>
  The contract of a result type: its validator accepts exactly what its condition describes, and on
  inputs whose report identifiers are hashable (which accepted results and sources are) it
  rejects with a \<open>ValidationError\<close> and nothing else.
\<close>

definition inputs_ok :: "inputs \<Rightarrow> bool" where
  "inputs_ok inputs \<longleftrightarrow> dict_ok inputs \<and> list_all hashable (input_report_ids inputs)"

locale result_contract =
  fixes validate :: "pydict \<Rightarrow> inputs \<Rightarrow> unit res" and accepts :: "pydict \<Rightarrow> inputs \<Rightarrow> bool"
  assumes accepts_iff: "inputs_ok i \<Longrightarrow> validate d i = Inr () \<longleftrightarrow> accepts d i"
    and rejects_with: "inputs_ok i \<Longrightarrow> validate d i = Inl e \<Longrightarrow> \<exists>m. e = ValidationError m"
begin

lemma decides: "inputs_ok i \<Longrightarrow> accepts d i \<or> (\<exists>m. validate d i = Inl (ValidationError m))"
proof (cases "validate d i")
  case (Inl e)
  assume "inputs_ok i"
  with Inl rejects_with show ?thesis by blast
next
  case (Inr u)
  assume "inputs_ok i"
  with Inr accepts_iff show ?thesis by simp
qed

end

definition answer_accepts :: "pydict \<Rightarrow> inputs \<Rightarrow> bool" where
  "answer_accepts d i \<longleftrightarrow> (\<exists>s. keys_are d [''answer''] \<and> map_of d ''answer'' = Some (PStr s)
     \<and> strip s \<noteq> [] \<and> length (strip s) \<le> 16000)"

definition extraction_accepts :: "pydict \<Rightarrow> inputs \<Rightarrow> bool" where
  "extraction_accepts d i \<longleftrightarrow> (\<exists>key quote source. keys_are d [''report_id'', ''quote'']
     \<and> map_of d ''report_id'' = Some (PStr key) \<and> map_of d ''quote'' = Some (PStr quote)
     \<and> strip quote \<noteq> [] \<and> map_of i (source_ref key) = Some (PStr source) \<and> sublist quote source
     \<and> {ref \<in> set (map fst i). is_source_ref ref} = {source_ref key})"

definition group_of_ids :: "pyval \<Rightarrow> pyval list \<Rightarrow> bool" where
  "group_of_ids grp ids \<longleftrightarrow> (\<exists>g lab. grp = PDict g \<and> keys_are g [''label'', ''report_ids'']
     \<and> map_of g ''label'' = Some (PStr lab) \<and> 1 \<le> length lab \<and> length lab \<le> 300
     \<and> map_of g ''report_ids'' = Some (PList ids) \<and> ids \<noteq> [] \<and> list_all is_str ids)"

definition groups_accepts :: "pydict \<Rightarrow> inputs \<Rightarrow> bool" where
  "groups_accepts d i \<longleftrightarrow> (\<exists>groups idss. keys_are d [''groups''] \<and> map_of d ''groups'' = Some (PList groups)
     \<and> groups \<noteq> [] \<and> list_all2 group_of_ids groups idss
     \<and> i \<noteq> [] \<and> length (remdups (map hash_key (input_report_ids i))) = length i
     \<and> mset (concat idss) = mset_set (set (map hash_key (input_report_ids i))))"

lemma field_Some: "keys_are d ks \<Longrightarrow> k \<in> set ks \<Longrightarrow> map_of d k = Some (field d k)"
proof -
  assume "keys_are d ks" "k \<in> set ks"
  then have "k \<in> fst ` set d" by (auto simp: keys_are_def)
  then obtain v where "map_of d k = Some v"
    by (metis map_of_eq_None_iff not_Some_eq)
  then show ?thesis by (simp add: field_def dict_get_or_def)
qed

lemma field_eq: "map_of d k = Some v \<Longrightarrow> field d k = v"
  by (simp add: field_def dict_get_or_def)

lemma str_field_iff:
  "keys_are d ks \<Longrightarrow> k \<in> set ks \<Longrightarrow> is_str (field d k) \<longleftrightarrow> (\<exists>s. map_of d k = Some (PStr s))"
  using field_Some [of d ks k] by (auto simp: is_str_iff)

lemma task_answer_iff: "task_answer d i = Inr () \<longleftrightarrow> answer_accepts d i"
proof (cases "keys_are d [''answer'']")
  case True
  then show ?thesis
    using str_field_iff [OF True, of "''answer''"]
    by (auto simp: task_answer_def answer_accepts_def field_eq Suc_le_eq)
qed (simp add: task_answer_def answer_accepts_def)

lemma filter_singleton_iff:
  assumes "distinct xs"
  shows "filter P xs = [x] \<longleftrightarrow> {y \<in> set xs. P y} = {x}"
proof
  assume "{y \<in> set xs. P y} = {x}"
  then have "set (filter P xs) = {x}" by simp
  moreover have "distinct (filter P xs)" using assms by simp
  ultimately have "length (filter P xs) = 1" by (metis distinct_card is_singletonI is_singleton_altdef)
  with \<open>set (filter P xs) = {x}\<close> show "filter P xs = [x]" by (cases "filter P xs") auto
qed (metis list.set(1) list.set(2) set_filter)

lemma report_extraction_iff:
  assumes "dict_ok i"
  shows "report_extraction d i = Inr () \<longleftrightarrow> extraction_accepts d i"
proof (cases "keys_are d [''report_id'', ''quote'']")
  case True
  then have fields: "map_of d ''report_id'' = Some (field d ''report_id'')" "map_of d ''quote'' = Some (field d ''quote'')"
    by (auto intro: field_Some)
  have single: "filter is_source_ref (map fst i) = [source_ref key] \<longleftrightarrow>
      {ref \<in> set (map fst i). is_source_ref ref} = {source_ref key}" for key
    by (rule filter_singleton_iff) (use assms in \<open>simp add: dict_ok_def\<close>)
  show ?thesis
  proof (cases "is_str (field d ''report_id'') \<and> is_str (field d ''quote'')")
    case True
    then obtain key quote where "field d ''report_id'' = PStr key" "field d ''quote'' = PStr quote"
      by (auto simp: is_str_iff)
    with fields \<open>keys_are d _\<close> show ?thesis
      unfolding report_extraction_def extraction_accepts_def bindE_requireE Let_def
      by (auto simp: single contains_iff requireE_def split: option.split pyval.split)
  next
    case False
    with fields show ?thesis
      by (auto simp: report_extraction_def extraction_accepts_def bindE_requireE Let_def)
  qed
qed (simp add: report_extraction_def extraction_accepts_def bindE_eq_Inr)

lemma check_group_iff: "check_group grp = Inr ids \<longleftrightarrow> group_of_ids grp ids"
proof (cases grp)
  case (PDict g)
  show ?thesis
  proof (cases "keys_are g [''label'', ''report_ids'']")
    case True
    then have "map_of g ''label'' = Some (field g ''label'')" "map_of g ''report_ids'' = Some (field g ''report_ids'')"
      by (auto intro: field_Some)
    with True PDict show ?thesis
      unfolding check_group_def group_of_ids_def
      by (cases "field g ''label''"; cases "field g ''report_ids''") (auto simp: bindE_requireE split: if_splits)
  qed (auto simp: check_group_def group_of_ids_def PDict bindE_eq_Inr)
qed (auto simp: check_group_def group_of_ids_def)

lemma mset_eq_mset_set_iff:
  assumes "finite A"
  shows "mset xs = mset_set A \<longleftrightarrow> set xs = A \<and> length xs = card A"
proof
  assume eq: "mset xs = mset_set A"
  have "set xs = A" using arg_cong [OF eq, of set_mset] assms by simp
  moreover have "length xs = card A" using arg_cong [OF eq, of size] by simp
  ultimately show "set xs = A \<and> length xs = card A" ..
next
  assume "set xs = A \<and> length xs = card A"
  then show "mset xs = mset_set A" by (metis card_distinct mset_set_set)
qed

lemma report_groups_iff:
  assumes "list_all hashable (input_report_ids i)"
  shows "report_groups d i = Inr () \<longleftrightarrow> groups_accepts d i"
proof (cases "keys_are d [''groups'']")
  case True
  then have f: "map_of d ''groups'' = Some (field d ''groups'')" by (auto intro: field_Some)
  let ?ids = "map hash_key (input_report_ids i)"
  have len: "length (remdups ?ids) = card (set ?ids)" by (rule length_remdups_card_conv)
  show ?thesis
  proof (cases "field d ''groups''")
    case (PList gs)
    show ?thesis
      using assms True PList f len
      by (auto simp: report_groups_def groups_accepts_def expected_ids_def bindE_eq_Inr mapE_eq_Inr check_group_iff
          mset_eq_mset_set_iff Let_def)
  qed (use f in \<open>auto simp: report_groups_def groups_accepts_def\<close>)
qed (auto simp: report_groups_def groups_accepts_def bindE_eq_Inr split: pyval.splits)

lemma check_group_error: "check_group grp = Inl e \<Longrightarrow> \<exists>m. e = ValidationError m"
  by (auto simp: check_group_def bindE_eq_Inl split: pyval.splits)

lemma report_groups_error:
  "list_all hashable (input_report_ids i) \<Longrightarrow> report_groups d i = Inl e \<Longrightarrow> \<exists>m. e = ValidationError m"
  by (auto simp: report_groups_def bindE_eq_Inl expected_ids_def Let_def split: pyval.splits
      dest!: mapE_Inl check_group_error)

interpretation answers: result_contract task_answer answer_accepts
  by unfold_locales (auto simp: task_answer_iff, auto simp: task_answer_def)

interpretation extractions: result_contract report_extraction extraction_accepts
  by unfold_locales (auto simp: report_extraction_iff inputs_ok_def,
      auto simp: report_extraction_def bindE_eq_Inl Let_def)

interpretation groupings: result_contract report_groups groups_accepts
  by unfold_locales (auto simp: report_groups_iff inputs_ok_def dest: report_groups_error)

definition result_accepts :: "string \<Rightarrow> pydict \<Rightarrow> inputs \<Rightarrow> bool" where
  "result_accepts rtype d i \<longleftrightarrow>
     rtype = ''task_answer'' \<and> answer_accepts d i
     \<or> rtype = ''report_extraction'' \<and> extraction_accepts d i
     \<or> rtype = ''report_groups'' \<and> groups_accepts d i"

lemma validate_result_cases:
  "validate_result rtype (PDict d) i =
     (if rtype = ''task_answer'' then task_answer d i else if rtype = ''report_extraction'' then report_extraction d i
      else if rtype = ''report_groups'' then report_groups d i else Inl (ValidationError ''Unsupported result type''))"
  by (simp add: validate_result_def RESULT_TYPES_def)

text \<open>
  C11. Which worker results are accepted. For inputs with distinct references whose report ids are hashable,
  \<open>validate_result\<close> accepts exactly the objects its result type promises: a non-blank answer of at most 16000
  characters, a non-blank verbatim quote of the single assigned source, or groups in which every extracted report
  occurs exactly once. Everything else is refused with a validation error, which the worker turns into a retry.
\<close>

theorem validate_result_exact:
  assumes "inputs_ok i"
  shows "(validate_result rtype v i = Inr () \<longleftrightarrow> (\<exists>d. v = PDict d \<and> result_accepts rtype d i))
    \<and> (\<forall>e. validate_result rtype v i = Inl e \<longrightarrow> (\<exists>m. e = ValidationError m))"
proof (cases "\<exists>d. v = PDict d")
  case True
  then show ?thesis
    using assms answers.accepts_iff extractions.accepts_iff groupings.accepts_iff
      answers.rejects_with extractions.rejects_with groupings.rejects_with
    by (auto simp: validate_result_cases result_accepts_def split: if_splits)
next
  case False
  then show ?thesis by (cases v) (auto simp: validate_result_def split: option.splits)
qed

theorem validate_result_exact_witness:
  "validate_result ''report_extraction'' (PDict [(''report_id'', PStr ''a''), (''quote'', PStr ''bc'')]) [(''sources.a'', PStr ''abcd'')] = Inr ()
   \<and> result_accepts ''report_extraction'' [(''report_id'', PStr ''a''), (''quote'', PStr ''bc'')] [(''sources.a'', PStr ''abcd'')]"
proof -
  have ok: "inputs_ok [(''sources.a'', PStr ''abcd'')]"
    by (simp add: inputs_ok_def dict_ok_def input_report_ids_def)
  have "validate_result ''report_extraction'' (PDict [(''report_id'', PStr ''a''), (''quote'', PStr ''bc'')]) [(''sources.a'', PStr ''abcd'')] = Inr ()"
    by code_simp
  then show ?thesis using validate_result_exact [OF ok] by auto
qed

end
