(* ===== verification/Py_Regex.thy ===== *)
theory Py_Regex
  imports Py_Text
begin

section \<open>Regular expressions\<close>

text \<open>
  The part of Python's \<^verbatim>\<open>re\<close> module the relay uses. A pattern is a \<open>re\<close>; \<open>ms n r s\<close> lists
  the ways in which \<open>r\<close> matches a prefix of \<open>s\<close>, in the order in which the backtracking matcher
  tries them: each is the text left over and the groups set on the way. The first one is the
  match Python returns, so greedy and lazy repetition and the order of alternatives are as there.
  \<open>n\<close> is the length of the whole subject, which the anchors need.
\<close>

datatype re =
    REps
  | RSat "char \<Rightarrow> bool"
  | RSeq re re
  | RAlt re re
  | RStar re
  | RLazy re
  | RGroup nat re
  | RStart
  | REnd

type_synonym groups = "(nat \<times> string) list"

definition consumed :: "string \<Rightarrow> string \<Rightarrow> string" where
  "consumed s t = take (length s - length t) s"

function ms :: "nat \<Rightarrow> re \<Rightarrow> string \<Rightarrow> (string \<times> groups) list" where
  "ms n REps s = [(s, [])]"
| "ms n (RSat p) s = (case s of [] \<Rightarrow> [] | c # cs \<Rightarrow> if p c then [(cs, [])] else [])"
| "ms n (RSeq a b) s = concat (map (\<lambda>(t, g). map (\<lambda>(u, h). (u, h @ g)) (ms n b t)) (ms n a s))"
| "ms n (RAlt a b) s = ms n a s @ ms n b s"
| "ms n (RStar r) s =
     concat (map (\<lambda>(t, g). if length t < length s
                  then map (\<lambda>(u, h). (u, h @ g)) (ms n (RStar r) t) else []) (ms n r s)) @ [(s, [])]"
| "ms n (RLazy r) s =
     (s, []) # concat (map (\<lambda>(t, g). if length t < length s
                  then map (\<lambda>(u, h). (u, h @ g)) (ms n (RLazy r) t) else []) (ms n r s))"
| "ms n (RGroup i r) s = map (\<lambda>(t, g). (t, (i, consumed s t) # g)) (ms n r s)"
| "ms n RStart s = (if length s = n then [(s, [])] else [])"
| "ms n REnd s = (if s = [] \<or> s = [CHR 0x0A] then [(s, [])] else [])"
  by pat_completeness auto
termination
  by (relation "measures [\<lambda>(n, r, s). size r, \<lambda>(n, r, s). length s]") auto

text \<open>Derived patterns: a literal, a character class, an option, bounded repetition.\<close>

definition rlit :: "string \<Rightarrow> re" where
  "rlit s = foldr (\<lambda>c r. RSeq (RSat (\<lambda>d. d = c)) r) s REps"

definition ropt :: "re \<Rightarrow> re" where
  "ropt r = RAlt r REps"

definition rplus :: "re \<Rightarrow> re" where
  "rplus r = RSeq r (RStar r)"

fun rupto :: "nat \<Rightarrow> re \<Rightarrow> re" where
  "rupto 0 r = REps"
| "rupto (Suc k) r = RAlt (RSeq r (rupto k r)) REps"

fun rtimes :: "nat \<Rightarrow> re \<Rightarrow> re" where
  "rtimes 0 r = REps"
| "rtimes (Suc k) r = RSeq r (rtimes k r)"

fun rseqs :: "re list \<Rightarrow> re" where
  "rseqs [] = REps"
| "rseqs [r] = r"
| "rseqs (r # q # rs) = RSeq r (rseqs (q # rs))"

definition rspaces :: re where
  "rspaces = RStar (RSat is_space)"

definition rany :: re where
  "rany = RSat (\<lambda>_. True)"

definition rdot :: re where
  "rdot = RSat (\<lambda>c. c \<noteq> CHR 0x0A)"

text \<open>\<open>re.match\<close>, \<open>re.fullmatch\<close> and \<open>re.search\<close>: (before, matched, after, groups).\<close>

definition re_match :: "re \<Rightarrow> string \<Rightarrow> (string \<times> string \<times> groups) option" where
  "re_match r s =
     (case ms (length s) r s of [] \<Rightarrow> None | (t, g) # _ \<Rightarrow> Some (consumed s t, t, g))"

definition re_fullmatch :: "re \<Rightarrow> string \<Rightarrow> bool" where
  "re_fullmatch r s \<longleftrightarrow> list_ex (\<lambda>(t, g). t = []) (ms (length s) r s)"

fun search_from :: "nat \<Rightarrow> re \<Rightarrow> string \<Rightarrow> string \<Rightarrow> (string \<times> string \<times> string \<times> groups) option" where
  "search_from n r pre [] =
     (case ms n r [] of [] \<Rightarrow> None | (t, g) # _ \<Rightarrow> Some (rev pre, consumed [] t, t, g))"
| "search_from n r pre (c # cs) =
     (case ms n r (c # cs) of
        (t, g) # _ \<Rightarrow> Some (rev pre, consumed (c # cs) t, t, g)
      | [] \<Rightarrow> search_from n r (c # pre) cs)"

definition re_search :: "re \<Rightarrow> string \<Rightarrow> (string \<times> string \<times> string \<times> groups) option" where
  "re_search r s = search_from (length s) r [] s"

definition group_of :: "groups \<Rightarrow> nat \<Rightarrow> string" where
  "group_of g i = dict_get_or g i []"

text \<open>
  The scanning loop of \<open>re.findall\<close> and \<open>re.sub\<close>: matches from left to right without overlap. After an
  empty match the scan moves on by one character.
\<close>

function scan_from :: "nat \<Rightarrow> re \<Rightarrow> string \<Rightarrow> (string + string) list" where
  "scan_from n r s =
     (case s of [] \<Rightarrow> []
      | c # cs \<Rightarrow>
          (case ms n r s of
             [] \<Rightarrow> Inl [c] # scan_from n r cs
           | (t, g) # _ \<Rightarrow> if length t < length s then Inr (consumed s t) # scan_from n r t
                          else Inl [c] # scan_from n r cs))"
  by pat_completeness auto
termination
  by (relation "measure (\<lambda>(n, r, s). length s)") auto

declare scan_from.simps [simp del]

definition re_findall :: "re \<Rightarrow> string \<Rightarrow> string list" where
  "re_findall r s = concat (map (\<lambda>x. case x of Inl _ \<Rightarrow> [] | Inr m \<Rightarrow> [m]) (scan_from (length s) r s))"

definition re_sub :: "re \<Rightarrow> string \<Rightarrow> string \<Rightarrow> string" where
  "re_sub r new s = concat (map (\<lambda>x. case x of Inl c \<Rightarrow> c | Inr _ \<Rightarrow> new) (scan_from (length s) r s))"

text \<open>\<open>re.split(r, s, maxsplit=1)\<close>.\<close>

definition re_split1 :: "re \<Rightarrow> string \<Rightarrow> string list" where
  "re_split1 r s = (case re_search r s of None \<Rightarrow> [s] | Some (a, m, b, g) \<Rightarrow> [a, b])"

declare ms.simps(5,6) [simp del]

subsection \<open>What a match leaves is a suffix\<close>

lemma ms_suffix: "(t, g) \<in> set (ms n r s) \<Longrightarrow> suffix t s"
proof (induction n r s arbitrary: t g rule: ms.induct)
  case (2 n p s)
  then show ?case by (auto split: list.splits if_splits simp: suffix_ConsI)
next
  case (3 n a b s)
  then show ?case by (fastforce intro: suffix_order.trans)
next
  case (5 n r s)
  from "5.prems" consider "t = s"
    | u h h' where "(u, h) \<in> set (ms n r s)" "length u < length s" "(t, h') \<in> set (ms n (RStar r) u)"
    by (auto simp: ms.simps(5) [of n r s] split: if_splits)
  then show ?case
  proof cases
    case 2
    then have "suffix t u" using "5.IH"(2) [of "(u, h)" u h] by auto
    moreover have "suffix u s" using "5.IH"(1) 2 by blast
    ultimately show ?thesis by (rule suffix_order.trans)
  qed simp
next
  case (6 n r s)
  from "6.prems" consider "t = s"
    | u h h' where "(u, h) \<in> set (ms n r s)" "length u < length s" "(t, h') \<in> set (ms n (RLazy r) u)"
    by (auto simp: ms.simps(6) [of n r s] split: if_splits)
  then show ?case
  proof cases
    case 2
    then have "suffix t u" using "6.IH"(2) [of "(u, h)" u h] by auto
    moreover have "suffix u s" using "6.IH"(1) 2 by blast
    ultimately show ?thesis by (rule suffix_order.trans)
  qed simp
qed (auto split: if_splits)

lemma ms_head_suffix: "ms n r s = (t, g) # xs \<Longrightarrow> suffix t s"
  by (rule ms_suffix [of t g n r s]) simp

lemma consumed_suffix: "suffix t s \<Longrightarrow> consumed s t @ t = s"
  by (auto simp: suffix_def consumed_def)

lemma re_match_parts: "re_match r s = Some (m, t, g) \<Longrightarrow> m @ t = s"
  by (auto simp: re_match_def split: list.splits dest!: ms_head_suffix consumed_suffix)

lemma search_from_parts: "search_from n r pre s = Some (a, m, t, g) \<Longrightarrow> a @ m @ t = rev pre @ s"
proof (induction s arbitrary: pre)
  case Nil
  then show ?case by (auto split: list.splits simp: consumed_def dest!: ms_head_suffix)
next
  case (Cons c cs)
  show ?case
  proof (cases "ms n r (c # cs)")
    case Nil
    with Cons show ?thesis by force
  next
    case (Cons x xs)
    obtain t' g' where x: "x = (t', g')" by force
    with Cons have "suffix t' (c # cs)" by (simp add: ms_head_suffix)
    then show ?thesis using Cons.prems x \<open>ms n r (c # cs) = x # xs\<close>
      by (auto simp: consumed_suffix)
  qed
qed

lemma re_search_parts: "re_search r s = Some (a, m, t, g) \<Longrightarrow> a @ m @ t = s"
  by (auto simp: re_search_def dest: search_from_parts)

text \<open>Full matches of a first class and up to \<open>k\<close> characters of a second one.\<close>

lemma ms_rupto_end:
  "(\<exists>g. ([], g) \<in> set (ms n (rupto k (RSat p)) s)) \<longleftrightarrow> length s \<le> k \<and> list_all p s"
proof (induction k arbitrary: s)
  case 0
  show ?case by auto
next
  case (Suc k)
  show ?case by (cases s) (auto simp: Suc.IH [symmetric] image_iff Bex_def)
qed

lemma re_fullmatch_class_upto:
  "re_fullmatch (RSeq (RSat p) (rupto k (RSat q))) s \<longleftrightarrow>
     (\<exists>c cs. s = c # cs \<and> p c \<and> length cs \<le> k \<and> list_all q cs)"
proof (cases s)
  case Nil
  then show ?thesis by (simp add: re_fullmatch_def)
next
  case (Cons c cs)
  then show ?thesis
    using ms_rupto_end [of "Suc (length cs)" k q cs]
    by (auto simp: re_fullmatch_def list_ex_iff image_iff Bex_def split: prod.splits)
qed

end
