(* ===== verification/Relay_Plan.thy ===== *)
theory Relay_Plan
  imports Relay_Results Py_Regex
begin

section \<open>The planner's task graph (plan.py)\<close>

text \<open>
  \<^verbatim>\<open>Plan.parse\<close> with every check in the order of the code. The value comes from the cloud
  model and may be anything. \<open>valid_plan\<close> says declaratively what a plan is: bounded, with unique
  well-formed identifiers, declared inputs only, and an acyclic dependency relation. \<open>parse\<close>
  returns exactly the valid plans.
\<close>

record task =
  t_id :: string
  t_instruction :: string
  t_preferred_tier :: string
  t_input_refs :: "string list"
  t_depends_on :: "string list"
  t_result_type :: string
  t_checks :: "string list"
  t_why :: string

record plan =
  p_tasks :: "task list"
  p_final_instruction :: string

type_synonym sources = "(string, string) dict"

subsection \<open>Checking one row\<close>

definition text_keys :: "int \<Rightarrow> string list" where
  "text_keys version = [''id'', ''instruction'', ''preferred_tier'', ''result_type''] @ (if version = 1 then [] else [''why''])"

definition task_fields :: "int \<Rightarrow> string list" where
  "task_fields version = [''id'', ''instruction'', ''preferred_tier'', ''input_refs'', ''depends_on'', ''result_type'',
     ''checks''] @ (if version = 1 then [] else [''why''])"

definition check_text :: "pydict \<Rightarrow> string \<Rightarrow> unit res" where
  "check_text row key =
     requireE (is_str (field row key) \<and> 1 \<le> length (the_str (field row key)) \<and> length (the_str (field row key)) \<le> 2000)
       (ValidationError (''Invalid task '' @ key))"

text \<open>The pattern \<open>[a-z][a-z0-9_]{0,63}\<close>.\<close>

definition id_tail_char :: "char \<Rightarrow> bool" where
  "id_tail_char c \<longleftrightarrow> is_lower_az c \<or> is_digit c \<or> c = CHR ''_''"

definition id_pattern :: re where
  "id_pattern = RSeq (RSat is_lower_az) (rupto 63 (RSat id_tail_char))"

definition the_strs :: "pyval \<Rightarrow> string list" where
  "the_strs v = (case v of PList vs \<Rightarrow> map the_str vs | _ \<Rightarrow> [])"

definition check_list :: "pydict \<Rightarrow> string \<Rightarrow> unit res" where
  "check_list row key =
     requireE (case field row key of
                 PList vs \<Rightarrow> length vs \<le> 12 \<and> list_all is_str vs \<and> distinct (map the_str vs)
               | _ \<Rightarrow> False)
       (ValidationError (''Invalid task '' @ key))"

definition list_keys :: "string list" where
  "list_keys = [''input_refs'', ''depends_on'', ''checks'']"

definition check_row :: "int \<Rightarrow> string list \<Rightarrow> pyval \<Rightarrow> task res" where
  "check_row version tiers r =
     (case r of
        PDict row \<Rightarrow>
          bindE (requireE (keys_are row (task_fields version))
                   (ValidationError ''Unexpected or missing task fields'')) (\<lambda>_.
          bindE (allE (check_text row) (text_keys version)) (\<lambda>_.
          let s = (\<lambda>key. the_str (field row key)); ss = (\<lambda>key. the_strs (field row key))
          in bindE (requireE (re_fullmatch id_pattern (s ''id'')) (ValidationError ''Invalid task ID'')) (\<lambda>_.
             bindE (requireE (s ''preferred_tier'' \<in> set tiers \<and> map_of RESULT_TYPES (s ''result_type'') \<noteq> None)
                      (ValidationError ''Unknown task tier or result type'')) (\<lambda>_.
             bindE (allE (check_list row) list_keys) (\<lambda>_.
             bindE (requireE (case map_of RESULT_TYPES (s ''result_type'') of
                                Some rt \<Rightarrow> set (ss ''checks'') = set (rt_checks rt) | None \<Rightarrow> False)
                      (ValidationError ''Required checks cannot be omitted or replaced'')) (\<lambda>_.
             bindE (requireE (ss ''input_refs'' \<noteq> []) (ValidationError ''Task needs inputs'')) (\<lambda>_.
             Inr \<lparr>t_id = s ''id'', t_instruction = s ''instruction'', t_preferred_tier = s ''preferred_tier'',
                  t_input_refs = ss ''input_refs'', t_depends_on = ss ''depends_on'',
                  t_result_type = s ''result_type'', t_checks = ss ''checks'',
                  t_why = (if version = 1 then [] else s ''why'')\<rparr>)))))))
      | _ \<Rightarrow> Inl (ValidationError ''Unexpected or missing task fields''))"

subsection \<open>References and dependencies\<close>

definition ref_ok :: "sources \<Rightarrow> task \<Rightarrow> string \<Rightarrow> bool" where
  "ref_ok sources t ref =
     (case partition_at (CHR ''.'') ref of
        (pre, _, key) \<Rightarrow> pre = ''sources'' \<and> map_of sources key \<noteq> None
                       \<or> pre = ''results'' \<and> key \<in> set (t_depends_on t))"

definition check_links :: "sources \<Rightarrow> string list \<Rightarrow> task \<Rightarrow> unit res" where
  "check_links sources ids t =
     bindE (requireE (set (t_depends_on t) \<subseteq> set ids \<and> t_id t \<notin> set (t_depends_on t))
              (ValidationError ''Unknown or self dependency'')) (\<lambda>_.
     allE (\<lambda>ref. requireE (ref_ok sources t ref)
              (ValidationError ''Unknown source or undeclared result dependency'')) (t_input_refs t))"

definition ready_ids :: "task list \<Rightarrow> string list \<Rightarrow> string list" where
  "ready_ids tasks resolved =
     map t_id (filter (\<lambda>t. t_id t \<notin> set resolved \<and> set (t_depends_on t) \<subseteq> set resolved) tasks)"

text \<open>The loop that resolves dependencies round by round; a round that resolves nothing is a cycle.\<close>

function resolve :: "task list \<Rightarrow> string list \<Rightarrow> unit res" where
  "resolve tasks resolved =
     (if length resolved < length tasks
      then (let ready = ready_ids tasks resolved
            in if ready = [] then Inl (ValidationError ''Cyclic task dependencies'')
               else resolve tasks (resolved @ ready))
      else Inr ())"
  by pat_completeness auto
termination
  by (relation "measure (\<lambda>(tasks, resolved). length tasks - length resolved)") (auto simp: neq_Nil_conv)

declare resolve.simps [simp del]

definition parse :: "pyval \<Rightarrow> sources \<Rightarrow> int \<Rightarrow> string list \<Rightarrow> plan res" where
  "parse v sources max_tasks tiers =
     (case v of
        PDict value \<Rightarrow>
          bindE (requireE (keys_are value [''version'', ''tasks'', ''final_instruction''])
                   (ValidationError ''Plan must contain version, tasks, and final_instruction'')) (\<lambda>_.
          (case field value ''version'' of
             PInt version \<Rightarrow>
               bindE (requireE (version = 1 \<or> version = 2) (ValidationError ''Unsupported plan version'')) (\<lambda>_.
               (case field value ''tasks'' of
                  PList rows \<Rightarrow>
                    bindE (requireE (1 \<le> int (length rows) \<and> int (length rows) \<le> max_tasks)
                             (ValidationError ''Plan task count exceeds limits or is empty'')) (\<lambda>_.
                    let final = field value ''final_instruction''
                    in bindE (requireE (is_str final \<and> 1 \<le> length (the_str final) \<and> length (the_str final) \<le> 2000)
                                (ValidationError ''Invalid final instruction'')) (\<lambda>_.
                       bindE (mapE (check_row version tiers) rows) (\<lambda>tasks.
                       let ids = map t_id tasks
                       in bindE (requireE (distinct ids) (ValidationError ''Duplicate task IDs'')) (\<lambda>_.
                          bindE (allE (check_links sources ids) tasks) (\<lambda>_.
                          bindE (resolve tasks []) (\<lambda>_.
                          Inr \<lparr>p_tasks = tasks, p_final_instruction = the_str final\<rparr>))))))
                | _ \<Rightarrow> Inl (ValidationError ''Plan task count exceeds limits or is empty'')))
           | _ \<Rightarrow> Inl (ValidationError ''Unsupported plan version'')))
      | _ \<Rightarrow> Inl (ValidationError ''Plan must contain version, tasks, and final_instruction''))"

subsection \<open>What a plan is\<close>

definition task_id_ok :: "string \<Rightarrow> bool" where
  "task_id_ok s \<longleftrightarrow> (\<exists>c cs. s = c # cs \<and> is_lower_az c \<and> length cs \<le> 63 \<and> list_all id_tail_char cs)"

definition text_ok :: "string \<Rightarrow> bool" where
  "text_ok s \<longleftrightarrow> 1 \<le> length s \<and> length s \<le> 2000"

definition strings_ok :: "string list \<Rightarrow> bool" where
  "strings_ok xs \<longleftrightarrow> length xs \<le> 12 \<and> distinct xs"

definition task_ok :: "string list \<Rightarrow> task \<Rightarrow> bool" where
  "task_ok tiers t \<longleftrightarrow> task_id_ok (t_id t) \<and> text_ok (t_instruction t)
     \<and> text_ok (t_preferred_tier t) \<and> t_preferred_tier t \<in> set tiers
     \<and> (\<exists>rt. map_of RESULT_TYPES (t_result_type t) = Some rt \<and> set (t_checks t) = set (rt_checks rt))
     \<and> strings_ok (t_input_refs t) \<and> strings_ok (t_depends_on t) \<and> strings_ok (t_checks t)
     \<and> t_input_refs t \<noteq> []"

text \<open>\<open>(d, i)\<close>: task \<open>i\<close> depends on task \<open>d\<close>.\<close>

definition dep_rel :: "task list \<Rightarrow> (string \<times> string) set" where
  "dep_rel tasks = {(d, t_id t) | d t. t \<in> set tasks \<and> d \<in> set (t_depends_on t)}"

definition graph_ok :: "task list \<Rightarrow> bool" where
  "graph_ok tasks \<longleftrightarrow> distinct (map t_id tasks)
     \<and> (\<forall>t \<in> set tasks. set (t_depends_on t) \<subseteq> t_id ` set tasks)
     \<and> acyclic (dep_rel tasks)"

definition valid_plan :: "sources \<Rightarrow> int \<Rightarrow> string list \<Rightarrow> plan \<Rightarrow> bool" where
  "valid_plan sources max_tasks tiers p \<longleftrightarrow>
     p_tasks p \<noteq> [] \<and> int (length (p_tasks p)) \<le> max_tasks \<and> text_ok (p_final_instruction p)
     \<and> list_all (task_ok tiers) (p_tasks p)
     \<and> (list_all (\<lambda>t. t_why t = []) (p_tasks p) \<or> list_all (\<lambda>t. text_ok (t_why t)) (p_tasks p))
     \<and> graph_ok (p_tasks p)
     \<and> (\<forall>t \<in> set (p_tasks p). \<forall>ref \<in> set (t_input_refs t). ref_ok sources t ref)"

subsection \<open>The resolution loop decides acyclicity\<close>

lemma ready_ids_iff:
  "i \<in> set (ready_ids tasks resolved) \<longleftrightarrow>
     (\<exists>t \<in> set tasks. t_id t = i \<and> i \<notin> set resolved \<and> set (t_depends_on t) \<subseteq> set resolved)"
  by (auto simp: ready_ids_def)

lemma distinct_ready_ids: "distinct (map t_id tasks) \<Longrightarrow> distinct (ready_ids tasks resolved)"
  by (simp add: ready_ids_def distinct_map_filter)

text \<open>A cycle is a set of tasks each of which waits for another of the set.\<close>

lemma cyclic_knot:
  assumes "\<not> acyclic r"
  obtains C where "C \<noteq> {}" "\<forall>x \<in> C. \<exists>d \<in> C. (d, x) \<in> r"
proof -
  from assms obtain a where a: "(a, a) \<in> r\<^sup>+" by (auto simp: acyclic_def)
  define C where "C = {x. (a, x) \<in> r\<^sup>+ \<and> (x, a) \<in> r\<^sup>*}"
  have "\<exists>d \<in> C. (d, x) \<in> r" if "x \<in> C" for x
  proof -
    from that have ax: "(a, x) \<in> r\<^sup>+" and xa: "(x, a) \<in> r\<^sup>*" by (auto simp: C_def)
    from ax obtain d where d: "(a, d) \<in> r\<^sup>*" "(d, x) \<in> r" by (meson tranclD2)
    have "(d, a) \<in> r\<^sup>*" using d(2) xa by (rule converse_rtrancl_into_rtrancl)
    moreover have "(a, d) \<in> r\<^sup>+" using d(1) a by (rule trancl_rtrancl_trancl [rotated])
    ultimately show ?thesis using d(2) by (auto simp: C_def)
  qed
  moreover have "C \<noteq> {}" using a by (auto simp: C_def)
  ultimately show thesis using that by blast
qed

lemma same_task: "distinct (map t_id tasks) \<Longrightarrow> t \<in> set tasks \<Longrightarrow> t' \<in> set tasks \<Longrightarrow> t_id t = t_id t' \<Longrightarrow> t = t'"
  by (auto simp: distinct_map inj_on_def)

lemma ready_avoids_knot:
  assumes "distinct (map t_id tasks)" "\<forall>x \<in> C. \<exists>d \<in> C. (d, x) \<in> dep_rel tasks" "set resolved \<inter> C = {}"
  shows "set (ready_ids tasks resolved) \<inter> C = {}"
proof (rule ccontr)
  assume "set (ready_ids tasks resolved) \<inter> C \<noteq> {}"
  then obtain t where t: "t \<in> set tasks" "t_id t \<in> C" "set (t_depends_on t) \<subseteq> set resolved"
    by (auto simp: ready_ids_iff)
  then obtain d t' where "d \<in> C" "t' \<in> set tasks" "t_id t' = t_id t" "d \<in> set (t_depends_on t')"
    using assms(2) by (fastforce simp: dep_rel_def)
  with t assms(1,3) show False by (metis IntI empty_iff same_task subsetD)
qed

lemma resolve_avoids_knot:
  "\<lbrakk>distinct (map t_id tasks); c \<in> C; c \<in> t_id ` set tasks; \<forall>x \<in> C. \<exists>d \<in> C. (d, x) \<in> dep_rel tasks;
    distinct resolved; set resolved \<subseteq> t_id ` set tasks - C\<rbrakk> \<Longrightarrow> resolve tasks resolved \<noteq> Inr ()"
proof (induction tasks resolved rule: resolve.induct)
  case (1 tasks resolved)
  let ?R = "ready_ids tasks resolved"
  have "length resolved = card (set resolved)" using 1 by (simp add: distinct_card)
  also have "\<dots> < card (t_id ` set tasks)" using 1 by (intro psubset_card_mono) auto
  also have "\<dots> \<le> length tasks" by (metis card_length image_set length_map)
  finally have lt: "length resolved < length tasks" .
  have R: "set ?R \<inter> C = {}" using 1 by (intro ready_avoids_knot) auto
  show ?case
  proof (cases "?R = []")
    case True
    with lt show ?thesis by (simp add: resolve.simps)
  next
    case False
    have "distinct (resolved @ ?R)" "set (resolved @ ?R) \<subseteq> t_id ` set tasks - C"
      using 1 R distinct_ready_ids by (auto simp: ready_ids_iff)
    then have "resolve tasks (resolved @ ?R) \<noteq> Inr ()" using 1 lt False by simp
    with lt False show ?thesis by (simp add: resolve.simps [of tasks resolved])
  qed
qed

lemma finite_dep_rel: "finite (dep_rel tasks)"
proof -
  have "dep_rel tasks = (\<Union>t \<in> set tasks. (\<lambda>d. (d, t_id t)) ` set (t_depends_on t))"
    by (auto simp: dep_rel_def)
  then show ?thesis by simp
qed

lemma ready_exists:
  assumes "graph_ok tasks" "set resolved \<subseteq> t_id ` set tasks" "\<not> t_id ` set tasks \<subseteq> set resolved"
  shows "ready_ids tasks resolved \<noteq> []"
proof -
  have "wf (dep_rel tasks)"
    using assms(1) finite_dep_rel finite_acyclic_wf by (auto simp: graph_ok_def)
  moreover from assms(3) obtain i where "i \<in> t_id ` set tasks - set resolved" by auto
  ultimately obtain m where m: "m \<in> t_id ` set tasks - set resolved"
    and least: "\<And>d. (d, m) \<in> dep_rel tasks \<Longrightarrow> d \<notin> t_id ` set tasks - set resolved"
    by (rule wfE_min) blast
  from m obtain t where t: "t \<in> set tasks" "t_id t = m" by auto
  have "set (t_depends_on t) \<subseteq> set resolved"
  proof
    fix d assume d: "d \<in> set (t_depends_on t)"
    with t have "(d, m) \<in> dep_rel tasks" by (auto simp: dep_rel_def)
    with least have "d \<notin> t_id ` set tasks - set resolved" by blast
    moreover have "d \<in> t_id ` set tasks" using assms(1) t d by (auto simp: graph_ok_def)
    ultimately show "d \<in> set resolved" by blast
  qed
  with t m have "m \<in> set (ready_ids tasks resolved)" by (auto simp: ready_ids_iff)
  then show ?thesis by auto
qed

lemma resolve_complete:
  "graph_ok tasks \<Longrightarrow> distinct resolved \<Longrightarrow> set resolved \<subseteq> t_id ` set tasks \<Longrightarrow> resolve tasks resolved = Inr ()"
proof (induction tasks resolved rule: resolve.induct)
  case (1 tasks resolved)
  let ?R = "ready_ids tasks resolved"
  show ?case
  proof (cases "length resolved < length tasks")
    case True
    have "card (set resolved) < card (t_id ` set tasks)"
      using 1 True by (simp add: distinct_card graph_ok_def flip: set_map)
    then have "\<not> t_id ` set tasks \<subseteq> set resolved" by (meson List.finite_set card_mono leD)
    then have ne: "?R \<noteq> []" using 1 ready_exists by blast
    have "distinct (resolved @ ?R)" "set (resolved @ ?R) \<subseteq> t_id ` set tasks"
      using 1 distinct_ready_ids by (auto simp: ready_ids_iff graph_ok_def)
    then have "resolve tasks (resolved @ ?R) = Inr ()" using 1 True ne by simp
    with True ne show ?thesis by (simp add: resolve.simps [of tasks resolved])
  qed (simp add: resolve.simps)
qed

theorem resolve_iff_acyclic:
  assumes "distinct (map t_id tasks)" "\<forall>t \<in> set tasks. set (t_depends_on t) \<subseteq> t_id ` set tasks"
  shows "resolve tasks [] = Inr () \<longleftrightarrow> acyclic (dep_rel tasks)"
proof
  assume "acyclic (dep_rel tasks)"
  with assms show "resolve tasks [] = Inr ()" by (simp add: resolve_complete graph_ok_def)
next
  assume res: "resolve tasks [] = Inr ()"
  show "acyclic (dep_rel tasks)"
  proof (rule ccontr)
    assume "\<not> acyclic (dep_rel tasks)"
    then obtain C where C: "C \<noteq> {}" "\<forall>x \<in> C. \<exists>d \<in> C. (d, x) \<in> dep_rel tasks" by (rule cyclic_knot)
    then obtain c where "c \<in> C" "c \<in> t_id ` set tasks" by (fastforce simp: dep_rel_def)
    with resolve_avoids_knot [OF assms(1), of c C "[]"] C(2) res show False by auto
  qed
qed

subsection \<open>Parsing accepts exactly the valid plans\<close>

lemma id_pattern_iff: "re_fullmatch id_pattern s \<longleftrightarrow> task_id_ok s"
  by (simp add: id_pattern_def re_fullmatch_class_upto task_id_ok_def)

lemma task_id_ok_text: "task_id_ok s \<Longrightarrow> text_ok s"
  by (auto simp: task_id_ok_def text_ok_def)

lemma result_type_text: "map_of RESULT_TYPES s = Some rt \<Longrightarrow> text_ok s"
  by (auto simp: RESULT_TYPES_def text_ok_def split: if_splits)

lemma check_text_iff: "check_text row key = Inr () \<longleftrightarrow> is_str (field row key) \<and> text_ok (the_str (field row key))"
  by (auto simp: check_text_def text_ok_def)

lemma check_list_strings: "check_list row key = Inr () \<Longrightarrow> strings_ok (the_strs (field row key))"
  by (auto simp: check_list_def strings_ok_def the_strs_def split: pyval.splits)

lemma check_list_PList: "field row key = PList (map PStr xs) \<Longrightarrow> strings_ok xs \<Longrightarrow> check_list row key = Inr ()"
  by (simp add: check_list_def strings_ok_def list_all_iff o_def requireE_def)

lemma check_row_sound:
  assumes "check_row version tiers r = Inr t"
  shows "task_ok tiers t \<and> (if version = 1 then t_why t = [] else text_ok (t_why t))"
proof -
  from assms obtain row where r: "r = PDict row" by (cases r) (auto simp: check_row_def)
  let ?s = "\<lambda>key. the_str (field row key)" and ?ss = "\<lambda>key. the_strs (field row key)"
  from assms r have texts: "\<forall>key \<in> set (text_keys version). check_text row key = Inr ()"
    and lists: "\<forall>key \<in> set list_keys. check_list row key = Inr ()"
    and pat: "re_fullmatch id_pattern (?s ''id'')"
    and tier: "?s ''preferred_tier'' \<in> set tiers"
    and checks: "case map_of RESULT_TYPES (?s ''result_type'') of Some rt \<Rightarrow> set (?ss ''checks'') = set (rt_checks rt) | None \<Rightarrow> False"
    and refs: "?ss ''input_refs'' \<noteq> []"
    and t: "t = \<lparr>t_id = ?s ''id'', t_instruction = ?s ''instruction'', t_preferred_tier = ?s ''preferred_tier'',
                  t_input_refs = ?ss ''input_refs'', t_depends_on = ?ss ''depends_on'',
                  t_result_type = ?s ''result_type'', t_checks = ?ss ''checks'',
                  t_why = (if version = 1 then [] else ?s ''why'')\<rparr>"
    by (auto simp: check_row_def bindE_eq_Inr allE_eq_Inr Let_def)
  from lists have "strings_ok (?ss ''input_refs'')" "strings_ok (?ss ''depends_on'')" "strings_ok (?ss ''checks'')"
    by (auto simp: list_keys_def intro: check_list_strings)
  moreover from texts have "text_ok (?s ''instruction'')" "text_ok (?s ''preferred_tier'')"
    "version \<noteq> 1 \<longrightarrow> text_ok (?s ''why'')"
    by (auto simp: text_keys_def check_text_iff)
  ultimately show ?thesis
    using pat tier checks refs by (auto simp: task_ok_def t id_pattern_iff split: option.splits)
qed

text \<open>The JSON of a task (\<open>asdict\<close>) and of a plan, in the version that its reasons call for.\<close>

definition task_row :: "int \<Rightarrow> task \<Rightarrow> pydict" where
  "task_row version t =
     [(''id'', PStr (t_id t)), (''instruction'', PStr (t_instruction t)),
      (''preferred_tier'', PStr (t_preferred_tier t)), (''input_refs'', PList (map PStr (t_input_refs t))),
      (''depends_on'', PList (map PStr (t_depends_on t))), (''result_type'', PStr (t_result_type t)),
      (''checks'', PList (map PStr (t_checks t)))] @ (if version = 1 then [] else [(''why'', PStr (t_why t))])"

definition plan_version :: "plan \<Rightarrow> int" where
  "plan_version p = (if list_all (\<lambda>t. t_why t = []) (p_tasks p) then 1 else 2)"

definition plan_json :: "plan \<Rightarrow> pyval" where
  "plan_json p = PDict [(''version'', PInt (plan_version p)),
     (''tasks'', PList (map (\<lambda>t. PDict (task_row (plan_version p) t)) (p_tasks p))),
     (''final_instruction'', PStr (p_final_instruction p))]"

lemma task_row_fields:
  "field (task_row version t) ''id'' = PStr (t_id t)"
  "field (task_row version t) ''instruction'' = PStr (t_instruction t)"
  "field (task_row version t) ''preferred_tier'' = PStr (t_preferred_tier t)"
  "field (task_row version t) ''input_refs'' = PList (map PStr (t_input_refs t))"
  "field (task_row version t) ''depends_on'' = PList (map PStr (t_depends_on t))"
  "field (task_row version t) ''result_type'' = PStr (t_result_type t)"
  "field (task_row version t) ''checks'' = PList (map PStr (t_checks t))"
  "version \<noteq> 1 \<Longrightarrow> field (task_row version t) ''why'' = PStr (t_why t)"
  "keys_are (task_row version t) (task_fields version)"
  by (simp_all add: task_row_def task_fields_def field_def dict_get_or_def keys_are_def)

lemma the_strs_map [simp]: "the_strs (PList (map PStr xs)) = xs"
  by (simp add: the_strs_def o_def)

lemma check_row_complete:
  assumes "task_ok tiers t" "if version = 1 then t_why t = [] else text_ok (t_why t)"
  shows "check_row version tiers (PDict (task_row version t)) = Inr t"
proof -
  from assms(1) obtain rt where rt: "map_of RESULT_TYPES (t_result_type t) = Some rt" "set (t_checks t) = set (rt_checks rt)"
    by (auto simp: task_ok_def)
  have "allE (check_text (task_row version t)) (text_keys version) = Inr ()"
    using assms rt unfolding allE_eq_Inr
    by (auto simp: text_keys_def task_row_fields check_text_iff task_ok_def task_id_ok_text result_type_text
        split: if_splits)
  moreover have "allE (check_list (task_row version t)) list_keys = Inr ()"
    using assms unfolding allE_eq_Inr
    by (auto simp: list_keys_def task_ok_def task_row_fields intro: check_list_PList)
  ultimately show ?thesis
    using assms rt
    by (simp add: check_row_def task_row_fields id_pattern_iff task_ok_def requireE_def Let_def)
qed

lemma check_links_iff:
  "check_links sources ids t = Inr () \<longleftrightarrow> set (t_depends_on t) \<subseteq> set ids \<and> t_id t \<notin> set (t_depends_on t)
     \<and> (\<forall>ref \<in> set (t_input_refs t). ref_ok sources t ref)"
  by (auto simp: check_links_def bindE_eq_Inr allE_eq_Inr)

lemma acyclic_no_self: "acyclic (dep_rel tasks) \<Longrightarrow> t \<in> set tasks \<Longrightarrow> t_id t \<notin> set (t_depends_on t)"
  by (auto simp: acyclic_def dep_rel_def)

lemma parse_sound:
  assumes "parse v sources mt tiers = Inr p"
  shows "valid_plan sources mt tiers p"
proof -
  from assms obtain d version rows where v: "v = PDict d" "field d ''version'' = PInt version"
      "field d ''tasks'' = PList rows"
    by (auto simp: parse_def bindE_eq_Inr split: pyval.splits)
  from assms v obtain tasks where version: "version = 1 \<or> version = 2"
    and len: "1 \<le> int (length rows)" "int (length rows) \<le> mt"
    and final: "text_ok (p_final_instruction p)"
    and rows: "mapE (check_row version tiers) rows = Inr tasks"
    and dist: "distinct (map t_id tasks)"
    and links: "\<forall>t \<in> set tasks. check_links sources (map t_id tasks) t = Inr ()"
    and res: "resolve tasks [] = Inr ()"
    and p: "p_tasks p = tasks"
    by (auto simp: parse_def bindE_eq_Inr allE_eq_Inr Let_def text_ok_def)
  have each: "task_ok tiers t \<and> (if version = 1 then t_why t = [] else text_ok (t_why t))" if "t \<in> set tasks" for t
    using mapE_source [OF rows that] check_row_sound by blast
  have "graph_ok tasks"
    using dist links res resolve_iff_acyclic [of tasks] by (auto simp: graph_ok_def check_links_iff)
  moreover have "length tasks = length rows" using rows by (rule mapE_length)
  ultimately show ?thesis
    using len final each links p unfolding valid_plan_def list_all_iff
    by (cases "version = 1") (auto simp: check_links_iff)
qed

lemma parse_complete:
  assumes "valid_plan sources mt tiers p"
  shows "parse (plan_json p) sources mt tiers = Inr p"
proof -
  let ?v = "plan_version p"
  from assms have each: "task_ok tiers t \<and> (if ?v = 1 then t_why t = [] else text_ok (t_why t))" if "t \<in> set (p_tasks p)" for t
    using that by (auto simp: valid_plan_def plan_version_def list_all_iff)
  have rows: "mapE (check_row ?v tiers) (map (\<lambda>t. PDict (task_row ?v t)) (p_tasks p)) = Inr (p_tasks p)"
    using each check_row_complete by (auto simp: mapE_eq_Inr list_all2_map1 intro: list_all2_refl list.rel_refl_strong)
  have graph: "graph_ok (p_tasks p)" using assms by (simp add: valid_plan_def)
  have links: "allE (check_links sources (map t_id (p_tasks p))) (p_tasks p) = Inr ()"
    using assms by (auto simp: allE_eq_Inr check_links_iff valid_plan_def graph_ok_def acyclic_no_self)
  have res: "resolve (p_tasks p) [] = Inr ()"
    using graph by (intro resolve_complete) auto
  have "?v = 1 \<or> ?v = 2" by (simp add: plan_version_def)
  moreover have "1 \<le> int (length (p_tasks p))" using assms by (cases "p_tasks p") (auto simp: valid_plan_def)
  ultimately show ?thesis
    using assms rows links res graph
    by (simp add: parse_def plan_json_def keys_are_def field_def dict_get_or_def requireE_def Let_def
        valid_plan_def text_ok_def graph_ok_def)
qed

lemma resolve_error: "resolve tasks resolved = Inl e \<Longrightarrow> \<exists>m. e = ValidationError m"
proof (induction tasks resolved rule: resolve.induct)
  case (1 tasks resolved)
  then show ?case by (auto simp: resolve.simps [of tasks resolved] Let_def split: if_splits)
qed

lemma check_row_error: "check_row version tiers r = Inl e \<Longrightarrow> \<exists>m. e = ValidationError m"
  by (auto simp: check_row_def bindE_eq_Inl check_text_def check_list_def Let_def split: pyval.splits dest!: allE_Inl)

lemma check_links_error: "check_links sources ids t = Inl e \<Longrightarrow> \<exists>m. e = ValidationError m"
  by (auto simp: check_links_def bindE_eq_Inl dest!: allE_Inl)

lemma parse_error: "parse v sources mt tiers = Inl e \<Longrightarrow> \<exists>m. e = ValidationError m"
  by (auto simp: parse_def bindE_eq_Inl Let_def split: pyval.splits
      dest!: mapE_Inl allE_Inl check_row_error check_links_error resolve_error)

text \<open>
  C7. What the planner's reply may be. Whatever JSON value arrives, \<open>Plan.parse\<close> either raises a validation
  error or returns a valid plan: bounded, with known tiers, result types and required checks, with distinct ids,
  inputs that are sources or results of declared dependencies, and an acyclic graph. No valid plan is refused:
  written out as JSON, it is parsed back as itself.
\<close>

theorem plan_parse_exact:
  "(case parse v sources mt tiers of Inl e \<Rightarrow> \<exists>m. e = ValidationError m | Inr q \<Rightarrow> valid_plan sources mt tiers q)
   \<and> (valid_plan sources mt tiers p \<longleftrightarrow> parse (plan_json p) sources mt tiers = Inr p)"
  using parse_sound parse_complete by (auto split: sum.splits dest: parse_error)

end
