(* ===== verification/Relay_Tokens.thy ===== *)
theory Relay_Tokens
  imports Py_Regex
begin

section \<open>Token log-probabilities (tokens.py)\<close>

text \<open>
  \<^verbatim>\<open>answer_token_stats\<close> finds the tokens that spell the value of one JSON field in a reply
  and summarises how probable the model found them. Log-probabilities are finite reals.
\<close>

record token =
  tk_t :: string
  tk_lp :: real
  tk_top :: "(string \<times> real) list"

record shown_token =
  sh_t :: string
  sh_p :: real
  sh_alt :: "(string \<times> real) list"

record token_stats =
  ts_span :: string
  ts_count :: nat
  ts_mean_logprob :: real
  ts_prob :: real
  ts_hesitation :: real
  ts_median_prob :: real
  ts_min_prob :: real
  ts_min_token :: string
  ts_tokens :: "shown_token list"

definition MAX_TOKENS_SHOWN :: nat where
  "MAX_TOKENS_SHOWN = 120"

subsection \<open>The span of a field's value\<close>

text \<open>The loop over a quoted value: a backslash skips the character after it.\<close>

fun scan_quoted :: "string \<Rightarrow> nat \<Rightarrow> nat" where
  "scan_quoted [] pos = pos"
| "scan_quoted (c # cs) pos =
     (if c = CHR 0x22 then pos
      else if c = CHR 0x5C then (case cs of [] \<Rightarrow> pos + 2 | _ # ds \<Rightarrow> scan_quoted ds (pos + 2))
      else scan_quoted cs (pos + 1))"

fun scan_bare :: "string \<Rightarrow> nat \<Rightarrow> nat" where
  "scan_bare [] pos = pos"
| "scan_bare (c # cs) pos = (if c \<in> {CHR '','', CHR ''}'', CHR 0x0A} then pos else scan_bare cs (pos + 1))"

text \<open>The pattern \<open>"field"\s*:\s*\<close>.\<close>

definition field_pattern :: "string \<Rightarrow> re" where
  "field_pattern fld = rseqs [rlit ([CHR 0x22] @ fld @ [CHR 0x22]), rspaces, rlit '':'', rspaces]"

definition value_span :: "string \<Rightarrow> string \<Rightarrow> (nat \<times> nat) option" where
  "value_span txt fld =
     (case re_search (field_pattern fld) txt of
        None \<Rightarrow> None
      | Some (pre, matched, after, g) \<Rightarrow>
          let start = length pre + length matched
          in (case after of
                c # cs \<Rightarrow> if c = CHR 0x22
                          then Some (start + 1, min (scan_quoted cs (start + 1)) (length txt))
                          else Some (start, scan_bare after start)
              | [] \<Rightarrow> Some (start, start)))"

subsection \<open>Statistics\<close>

fun offsets_from :: "nat \<Rightarrow> token list \<Rightarrow> (nat \<times> nat) list" where
  "offsets_from pos [] = []"
| "offsets_from pos (t # ts) = (pos, pos + length (tk_t t)) # offsets_from (pos + length (tk_t t)) ts"

definition chosen_tokens :: "token list \<Rightarrow> (nat \<times> nat) option \<Rightarrow> token list" where
  "chosen_tokens tokens spn =
     (case spn of
        Some (lo, hi) \<Rightarrow> map fst (filter (\<lambda>(t, (a, b)). a < hi \<and> b > lo \<and> strip (tk_t t) \<noteq> [])
                                   (zip tokens (offsets_from 0 tokens)))
      | None \<Rightarrow> filter (\<lambda>t. strip (tk_t t) \<noteq> []) tokens)"

text \<open>\<open>min(chosen, key=lambda t: t["lp"])\<close>: the first of the least.\<close>

fun weakest_token :: "token \<Rightarrow> token list \<Rightarrow> token" where
  "weakest_token best [] = best"
| "weakest_token best (t # ts) = weakest_token (if tk_lp t < tk_lp best then t else best) ts"

text \<open>\<open>statistics.median\<close> of a nonempty list.\<close>

definition median :: "real list \<Rightarrow> real" where
  "median xs =
     (let s = sort xs; n = length xs
      in if odd n then s ! (n div 2) else (s ! (n div 2 - 1) + s ! (n div 2)) / 2)"

definition answer_token_stats :: "token list option \<Rightarrow> string \<Rightarrow> token_stats option" where
  "answer_token_stats reply fld =
     (case reply of
        None \<Rightarrow> None
      | Some [] \<Rightarrow> None
      | Some tokens \<Rightarrow>
          let spn = value_span (concat (map tk_t tokens)) fld
          in (case chosen_tokens tokens spn of
                [] \<Rightarrow> None
              | first # others \<Rightarrow>
                  let chosen = first # others;
                      mean_lp = mean (map tk_lp chosen);
                      probs = map (\<lambda>t. exp (tk_lp t)) chosen;
                      weakest = weakest_token first others
                  in Some \<lparr>ts_span = (if spn \<noteq> None then fld else ''output''),
                           ts_count = length chosen,
                           ts_mean_logprob = round4 mean_lp,
                           ts_prob = round4 (exp mean_lp),
                           ts_hesitation = round4 (real (count_true (map (\<lambda>p. p < 1 / 2) probs)) / real (length probs)),
                           ts_median_prob = round4 (median probs),
                           ts_min_prob = round4 (exp (tk_lp weakest)),
                           ts_min_token = tk_t weakest,
                           ts_tokens = map (\<lambda>t. \<lparr>sh_t = tk_t t, sh_p = round4 (exp (tk_lp t)),
                                                sh_alt = map (\<lambda>(a, lp). (a, round4 (exp lp))) (take 3 (tk_top t))\<rparr>)
                                         (take MAX_TOKENS_SHOWN chosen)\<rparr>))"

subsection \<open>Properties\<close>

lemma scan_quoted_ge: "pos \<le> scan_quoted s pos"
proof (induction s pos rule: scan_quoted.induct)
  case (2 c cs pos)
  show ?case
  proof (cases "c = CHR 0x22 \<or> c = CHR 0x5C \<and> cs = []")
    case False
    then consider d ds where "c = CHR 0x5C" "cs = d # ds" | "c \<noteq> CHR 0x22" "c \<noteq> CHR 0x5C"
      by (cases cs) auto
    then show ?thesis
    proof cases
      case 1
      with "2.IH"(1) [of d ds] show ?thesis by simp
    next
      case 2
      with "2.IH"(2) show ?thesis by simp
    qed
  qed auto
qed simp

lemma scan_bare_bounds: "pos \<le> scan_bare s pos \<and> scan_bare s pos \<le> pos + length s"
  by (induction s pos rule: scan_bare.induct) auto

text \<open>A span lies inside the text.\<close>

lemma value_span_bounds:
  assumes "value_span txt fld = Some (lo, hi)"
  shows "lo \<le> hi \<and> hi \<le> length txt"
proof -
  from assms obtain pre matched after g where s: "re_search (field_pattern fld) txt = Some (pre, matched, after, g)"
    by (auto simp: value_span_def split: option.splits)
  from re_search_parts [OF s] have len: "length txt = length pre + length matched + length after" by auto
  show ?thesis
  proof (cases after)
    case Nil
    with assms s len show ?thesis by (simp add: value_span_def Let_def)
  next
    case (Cons c cs)
    with assms s len scan_quoted_ge [of "length pre + length matched + 1" cs]
      scan_bare_bounds [of "length pre + length matched" after]
    show ?thesis by (auto simp: value_span_def Let_def split: if_splits)
  qed
qed

lemma weakest_token_le: "t \<in> set (best # ts) \<Longrightarrow> tk_lp (weakest_token best ts) \<le> tk_lp t"
proof (induction ts arbitrary: t best)
  case (Cons u ts)
  let ?b = "if tk_lp u < tk_lp best then u else best"
  have le: "tk_lp ?b \<le> tk_lp u" "tk_lp ?b \<le> tk_lp best" by auto
  show ?case
  proof (cases "t \<in> set ts")
    case True
    then show ?thesis using Cons.IH [of t ?b] by simp
  next
    case False
    then have "tk_lp ?b \<le> tk_lp t" using Cons.prems le by auto
    moreover have "tk_lp (weakest_token ?b ts) \<le> tk_lp ?b" by (rule Cons.IH) simp
    ultimately show ?thesis by simp
  qed
qed simp

lemma weakest_token_in: "weakest_token best ts \<in> set (best # ts)"
  by (induction ts arbitrary: best) auto

lemma chosen_tokens_subset: "set (chosen_tokens tokens spn) \<subseteq> {t \<in> set tokens. strip (tk_t t) \<noteq> []}"
  by (auto simp: chosen_tokens_def dest: set_zip_leftD split: option.splits)

lemma length_chosen_tokens: "length (chosen_tokens tokens spn) \<le> length tokens"
  by (auto simp: chosen_tokens_def split: option.splits intro: order_trans [OF length_filter_le])

text \<open>
  The token statistics of a reply with log-probabilities at most 0: the probabilities and the
  hesitation share are between 0 and 1, the weakest token is one of the reply's visible tokens and no
  counted token is less probable, the least probability is at most the average one, and no more tokens
  are listed than counted.
\<close>

theorem token_stats_sound:
  assumes stats: "answer_token_stats (Some tokens) fld = Some st"
    and lp: "\<forall>t \<in> set tokens. tk_lp t \<le> 0"
  shows "0 \<le> ts_min_prob st \<and> ts_min_prob st \<le> ts_prob st \<and> ts_prob st \<le> 1
    \<and> 0 \<le> ts_hesitation st \<and> ts_hesitation st \<le> 1
    \<and> ts_min_token st \<in> tk_t ` {t \<in> set tokens. strip (tk_t t) \<noteq> []}
    \<and> 1 \<le> ts_count st \<and> ts_count st \<le> length tokens \<and> length (ts_tokens st) \<le> ts_count st"
proof -
  let ?spn = "value_span (concat (map tk_t tokens)) fld"
  from stats obtain first others where chosen: "chosen_tokens tokens ?spn = first # others"
    by (auto simp: answer_token_stats_def Let_def split: list.splits)
  let ?c = "first # others" and ?w = "weakest_token first others"
  have sub: "set ?c \<subseteq> {t \<in> set tokens. strip (tk_t t) \<noteq> []}" using chosen_tokens_subset chosen by metis
  have ne: "tokens \<noteq> []" using sub by auto
  have w: "?w \<in> set ?c" by (rule weakest_token_in)
  have "tk_lp ?w \<le> tk_lp t" if "t \<in> set ?c" for t using that by (rule weakest_token_le)
  moreover have "tk_lp t \<le> 0" if "t \<in> set ?c" for t using that sub lp by auto
  ultimately have m: "tk_lp ?w \<le> mean (map tk_lp ?c) \<and> mean (map tk_lp ?c) \<le> 0"
    by (intro mean_bounds) auto
  let ?h = "real (count_true (map (\<lambda>p. p < 1 / 2) (map (\<lambda>t. exp (tk_lp t)) ?c))) / real (length (map (\<lambda>t. exp (tk_lp t)) ?c))"
  have "count_true (map (\<lambda>p. p < 1 / 2) (map (\<lambda>t. exp (tk_lp t)) ?c)) \<le> length ?c"
    unfolding count_true_def by (rule order_trans [OF length_filter_le]) simp
  then have h: "0 \<le> ?h" "?h \<le> 1" by (auto simp: divide_le_eq_1 simp del: of_nat_Suc)
  have p: "ts_prob st = round4 (exp (mean (map tk_lp ?c)))" "ts_min_prob st = round4 (exp (tk_lp ?w))"
    "ts_min_token st = tk_t ?w" "ts_count st = length ?c" "ts_hesitation st = round4 ?h"
    "length (ts_tokens st) \<le> length ?c"
    using stats chosen ne by (auto simp: answer_token_stats_def Let_def neq_Nil_conv)
  show ?thesis
    using p m h sub w round4_bounds [of ?h] round4_bounds [of "exp (tk_lp ?w)"]
      round4_mono [of "exp (tk_lp ?w)" "exp (mean (map tk_lp ?c))"] round4_mono [of "exp (mean (map tk_lp ?c))" 1]
      length_chosen_tokens [of tokens ?spn] chosen
    by auto
qed

theorem token_stats_sound_witness:
  "\<exists>st. answer_token_stats (Some [\<lparr>tk_t = ''yes'', tk_lp = - 1, tk_top = []\<rparr>]) ''answer'' = Some st
     \<and> ts_min_token st = ''yes'' \<and> ts_prob st \<le> 1 \<and> 0 \<le> ts_min_prob st"
proof -
  let ?t = "\<lparr>tk_t = ''yes'', tk_lp = - 1 :: real, tk_top = []\<rparr>"
  have "value_span ''yes'' ''answer'' = None" "strip ''yes'' \<noteq> []" by code_simp+
  then have "chosen_tokens [?t] (value_span (concat (map tk_t [?t])) ''answer'') = [?t]"
    by (simp add: chosen_tokens_def)
  then obtain st where st: "answer_token_stats (Some [?t]) ''answer'' = Some st"
    by (simp add: answer_token_stats_def Let_def)
  show ?thesis using st token_stats_sound [OF st] by (intro exI [of _ st]) auto
qed

end
