(* ===== verification/Py_Number.thy ===== *)
theory Py_Number
  imports Py_Regex
begin

section \<open>Reading numbers\<close>

text \<open>
  Python's \<open>int(s)\<close> and \<open>float(s)\<close> on text, and \<open>float(v)\<close> on a JSON value. Digits may be separated by
  single underscores; \<open>float\<close> also reads the names of the non-finite values.
\<close>

definition digits_value :: "string \<Rightarrow> int" where
  "digits_value s = foldl (\<lambda>acc c. if is_digit c then acc * 10 + (int (of_char c) - 48) else acc) 0 s"

definition rdigit :: re where
  "rdigit = RSat is_digit"

definition rdigits :: re where
  "rdigits = RSeq (rplus rdigit) (RStar (RSeq (rlit ''_'') (rplus rdigit)))"

definition rsign :: re where
  "rsign = ropt (RSat (\<lambda>c. c = CHR ''+'' \<or> c = CHR ''-''))"

text \<open>Text and groups of a pattern that matches the whole text.\<close>

definition full_groups :: "re \<Rightarrow> string \<Rightarrow> groups option" where
  "full_groups r s = (case filter (\<lambda>(t, g). t = []) (ms (length s) r s) of [] \<Rightarrow> None | (t, g) # _ \<Rightarrow> Some g)"

definition signed :: "string \<Rightarrow> 'a::uminus \<Rightarrow> 'a" where
  "signed sg x = (if sg = ''-'' then - x else x)"

definition py_int_str :: "string \<Rightarrow> int res" where
  "py_int_str s =
     (case full_groups (RSeq (RGroup 1 rsign) (RGroup 2 rdigits)) (strip s) of
        None \<Rightarrow> Inl (ValueError ''invalid literal for int()'')
      | Some g \<Rightarrow> Inr (signed (group_of g 1) (digits_value (group_of g 2))))"

definition float_pattern :: re where
  "float_pattern = rseqs
     [RGroup 1 rsign,
      RAlt (RSeq (RGroup 2 rdigits) (ropt (RSeq (rlit ''.'') (ropt (RGroup 3 rdigits)))))
           (RSeq (rlit ''.'') (RGroup 3 rdigits)),
      ropt (rseqs [RSat (\<lambda>c. c = CHR ''e''), RGroup 4 rsign, RGroup 5 rdigits])]"

definition count_digits :: "string \<Rightarrow> nat" where
  "count_digits s = length (filter is_digit s)"

definition decimal_value :: "groups \<Rightarrow> real" where
  "decimal_value g =
     (let whole = group_of g 2; frac = group_of g 3;
          mant = real_of_int (digits_value whole) + real_of_int (digits_value frac) / 10 ^ count_digits frac;
          e = signed (group_of g 4) (digits_value (group_of g 5))
      in signed (group_of g 1) (mant * 10 powi e))"

text \<open>
  The least magnitude that rounds to no finite double: a decimal text beyond it reads as an infinity,
  an integer beyond it raises \<open>OverflowError\<close>.
\<close>

definition double_limit :: int where
  "double_limit = 2 ^ 1024 - 2 ^ 970"

definition finite_or_inf :: "real \<Rightarrow> pyfloat" where
  "finite_or_inf x = (if real_of_int double_limit \<le> \<bar>x\<bar> then Infinity (x < 0) else Fin x)"

definition py_float_str :: "string \<Rightarrow> pyfloat res" where
  "py_float_str s =
     (let t = lower (strip s);
          body = (case t of [] \<Rightarrow> [] | c # cs \<Rightarrow> if c = CHR ''+'' \<or> c = CHR ''-'' then cs else t);
          neg = (case t of [] \<Rightarrow> False | c # _ \<Rightarrow> c = CHR ''-'')
      in if body = ''inf'' \<or> body = ''infinity'' then Inr (Infinity neg)
         else if body = ''nan'' then Inr NaN
         else (case full_groups float_pattern t of
                 None \<Rightarrow> Inl (ValueError ''could not convert string to float'')
               | Some g \<Rightarrow> Inr (finite_or_inf (decimal_value g))))"

text \<open>\<open>float(v)\<close>: numbers and truth values convert, text is read, anything else is a \<open>TypeError\<close>.\<close>

fun py_float :: "pyval \<Rightarrow> pyfloat res" where
  "py_float (PBool b) = Inr (Fin (if b then 1 else 0))"
| "py_float (PInt i) = (if double_limit \<le> \<bar>i\<bar> then Inl OverflowError else Inr (Fin (of_int i)))"
| "py_float (PFloat x) = Inr x"
| "py_float (PStr s) = py_float_str s"
| "py_float _ = Inl TypeError"

lemma py_float_errors: "py_float v = Inl e \<Longrightarrow> e \<in> {TypeError, OverflowError} \<or> (\<exists>m. e = ValueError m)"
  by (cases v) (auto simp: py_float_str_def Let_def split: if_splits option.splits)

end
