(* ===== verification/Relay_Settings.thy ===== *)
theory Relay_Settings
  imports Py_Number
begin

section \<open>Limits and endpoints (settings.py)\<close>

text \<open>
  \<^verbatim>\<open>Limits\<close> with the checks of its \<open>__post_init__\<close>, \<^verbatim>\<open>Endpoint\<close> and
  \<^verbatim>\<open>RelaySettings.from_env\<close>. The constructor's arguments are values of any type
  (\<open>raw_limits\<close>); what it accepts is the typed record \<open>limits\<close>. The environment is a dictionary of
  texts.
\<close>

subsection \<open>Limits\<close>

record limits =
  max_tasks :: int
  local_concurrency :: int
  cloud_calls :: int
  cloud_worker_calls :: int
  cloud_enabled :: bool
  call_timeout :: real
  run_timeout :: real

record raw_limits =
  raw_max_tasks :: pyval
  raw_local_concurrency :: pyval
  raw_cloud_calls :: pyval
  raw_cloud_worker_calls :: pyval
  raw_cloud_enabled :: pyval
  raw_call_timeout :: pyval
  raw_run_timeout :: pyval

text \<open>\<open>type(value) is not int or value < least\<close> raises: a truth value is not of type \<open>int\<close> here.\<close>

definition check_count :: "string \<Rightarrow> int \<Rightarrow> pyval \<Rightarrow> int res" where
  "check_count name least v =
     (case v of
        PInt i \<Rightarrow> if i < least then Inl (ValueError (''Invalid limit: '' @ name)) else Inr i
      | _ \<Rightarrow> Inl (ValueError (''Invalid limit: '' @ name)))"

text \<open>
  \<open>not isinstance(value, (int, float)) or not math.isfinite(value) or value <= 0\<close> raises; a truth
  value is an instance of \<open>int\<close>. \<open>math.isfinite\<close> converts to a double, so it raises
  \<open>OverflowError\<close> on an integer beyond that range.
\<close>

definition check_timeout :: "string \<Rightarrow> pyval \<Rightarrow> real res" where
  "check_timeout name v =
     (case v of
        PBool b \<Rightarrow> if b then Inr 1 else Inl (ValueError (''Invalid timeout: '' @ name))
      | PInt i \<Rightarrow> if double_limit \<le> \<bar>i\<bar> then Inl OverflowError
                  else if i \<le> 0 then Inl (ValueError (''Invalid timeout: '' @ name)) else Inr (of_int i)
      | PFloat (Fin x) \<Rightarrow> if x \<le> 0 then Inl (ValueError (''Invalid timeout: '' @ name)) else Inr x
      | _ \<Rightarrow> Inl (ValueError (''Invalid timeout: '' @ name)))"

definition Limits_init :: "raw_limits \<Rightarrow> limits res" where
  "Limits_init r =
     bindE (check_count ''max_tasks'' 1 (raw_max_tasks r)) (\<lambda>mt.
     bindE (check_count ''local_concurrency'' 1 (raw_local_concurrency r)) (\<lambda>lc.
     bindE (check_count ''cloud_calls'' 0 (raw_cloud_calls r)) (\<lambda>cc.
     bindE (check_count ''cloud_worker_calls'' 0 (raw_cloud_worker_calls r)) (\<lambda>cw.
     bindE (requireE (\<not> (mt > 12 \<or> lc > 4))
              (ValueError ''Prototype supports at most 12 tasks and 4 local workers'')) (\<lambda>_.
     bindE (check_timeout ''call_timeout'' (raw_call_timeout r)) (\<lambda>ct.
     bindE (check_timeout ''run_timeout'' (raw_run_timeout r)) (\<lambda>rt.
     Inr \<lparr>max_tasks = mt, local_concurrency = lc, cloud_calls = cc, cloud_worker_calls = cw,
          cloud_enabled = truthy (raw_cloud_enabled r), call_timeout = ct, run_timeout = rt\<rparr>)))))))"

definition default_raw_limits :: raw_limits where
  "default_raw_limits =
     \<lparr>raw_max_tasks = PInt 8, raw_local_concurrency = PInt 2, raw_cloud_calls = PInt 5,
      raw_cloud_worker_calls = PInt 2, raw_cloud_enabled = PBool True,
      raw_call_timeout = PFloat (Fin 30), raw_run_timeout = PFloat (Fin 180)\<rparr>"

definition default_limits :: limits where
  "default_limits =
     \<lparr>max_tasks = 8, local_concurrency = 2, cloud_calls = 5, cloud_worker_calls = 2,
      cloud_enabled = True, call_timeout = 30, run_timeout = 180\<rparr>"

subsection \<open>Endpoints and the environment\<close>

record endpoint =
  ep_url :: string
  ep_model :: string
  ep_key :: string
  ep_location :: string
  ep_reasoning_effort :: string

record relay_settings =
  set_local :: endpoint
  set_cloud :: endpoint
  set_limits :: limits
  set_mid :: "endpoint option"

type_synonym environ = "(string, string) dict"

definition env_or :: "environ \<Rightarrow> string \<Rightarrow> string \<Rightarrow> string" where
  "env_or env k d = dict_get_or env k d"

definition env_float :: "environ \<Rightarrow> string \<Rightarrow> real \<Rightarrow> pyfloat res" where
  "env_float env k d = (case map_of env k of None \<Rightarrow> Inr (Fin d) | Some s \<Rightarrow> py_float_str s)"

definition env_flag :: "environ \<Rightarrow> string \<Rightarrow> bool" where
  "env_flag env k \<longleftrightarrow> lower (env_or env k ''true'') = ''true''"

definition settings_from_env :: "environ \<Rightarrow> relay_settings res" where
  "settings_from_env env =
     (let effort = env_or env ''RELAY_REASONING_EFFORT'' ''low'';
          mid_url = env_or env ''MID_BASE_URL'' [];
          mid = (if mid_url = [] then None
                 else Some \<lparr>ep_url = mid_url, ep_model = env_or env ''MID_MODEL'' ''IFM/K2-Horizon-4B'',
                            ep_key = env_or env ''MID_API_KEY'' [], ep_location = env_or env ''MID_LOCATION'' [],
                            ep_reasoning_effort = env_or env ''MID_REASONING_EFFORT'' effort\<rparr>);
          loc = \<lparr>ep_url = env_or env ''LOCAL_BASE_URL'' ''http://model-runner.docker.internal/engines/v1'',
                 ep_model = env_or env ''LOCAL_MODEL'' ''hf.co/IFM/K2-Horizon-0.9B-GGUF:BF16'',
                 ep_key = env_or env ''LOCAL_API_KEY'' [], ep_location = env_or env ''LOCAL_LOCATION'' [],
                 ep_reasoning_effort = env_or env ''LOCAL_REASONING_EFFORT'' effort\<rparr>;
          cld = \<lparr>ep_url = env_or env ''CLOUD_BASE_URL'' ''https://api.ifm.ai/v1'',
                 ep_model = env_or env ''CLOUD_MODEL'' ''IFM/K2-Horizon-375B-A23B'',
                 ep_key = env_or env ''CLOUD_API_KEY'' [], ep_location = env_or env ''CLOUD_LOCATION'' [],
                 ep_reasoning_effort = env_or env ''CLOUD_REASONING_EFFORT'' []\<rparr>
      in bindE (env_float env ''RELAY_CALL_TIMEOUT'' 180) (\<lambda>ct.
         bindE (env_float env ''RELAY_RUN_TIMEOUT'' 900) (\<lambda>rt.
         bindE (Limits_init (default_raw_limits
                  \<lparr>raw_call_timeout := PFloat ct, raw_run_timeout := PFloat rt,
                   raw_cloud_enabled := PBool (env_flag env ''CLOUD_ENABLED'')\<rparr>)) (\<lambda>lims.
         Inr \<lparr>set_local = loc, set_cloud = cld, set_limits = lims, set_mid = mid\<rparr>))))"

subsection \<open>What the checks guarantee\<close>

definition limits_ok :: "limits \<Rightarrow> bool" where
  "limits_ok l \<longleftrightarrow> 1 \<le> max_tasks l \<and> max_tasks l \<le> 12 \<and> 1 \<le> local_concurrency l \<and> local_concurrency l \<le> 4
     \<and> 0 \<le> cloud_calls l \<and> 0 \<le> cloud_worker_calls l \<and> 0 < call_timeout l \<and> 0 < run_timeout l"

definition raw_of :: "limits \<Rightarrow> raw_limits" where
  "raw_of l = \<lparr>raw_max_tasks = PInt (max_tasks l), raw_local_concurrency = PInt (local_concurrency l),
     raw_cloud_calls = PInt (cloud_calls l), raw_cloud_worker_calls = PInt (cloud_worker_calls l),
     raw_cloud_enabled = PBool (cloud_enabled l), raw_call_timeout = PFloat (Fin (call_timeout l)),
     raw_run_timeout = PFloat (Fin (run_timeout l))\<rparr>"

lemma check_count_iff: "check_count name least v = Inr i \<longleftrightarrow> v = PInt i \<and> least \<le> i"
  by (auto simp: check_count_def split: pyval.splits if_splits)

lemma check_timeout_pos: "check_timeout name v = Inr x \<Longrightarrow> 0 < x"
  by (auto simp: check_timeout_def split: pyval.splits pyfloat.splits if_splits)

lemma check_timeout_Fin: "0 < x \<Longrightarrow> check_timeout name (PFloat (Fin x)) = Inr x"
  by (simp add: check_timeout_def)

lemma Limits_init_ok: "Limits_init r = Inr l \<Longrightarrow> limits_ok l"
  by (auto simp: Limits_init_def limits_ok_def bindE_eq_Inr check_count_iff dest: check_timeout_pos)

lemma Limits_init_complete: "limits_ok l \<Longrightarrow> Limits_init (raw_of l) = Inr l"
  by (simp add: Limits_init_def raw_of_def limits_ok_def check_count_def check_timeout_Fin requireE_def)

lemma default_limits_init: "Limits_init default_raw_limits = Inr default_limits"
  by (simp add: Limits_init_def default_raw_limits_def default_limits_def check_count_def
      check_timeout_def requireE_def)

lemma default_limits_ok: "limits_ok default_limits"
  by (simp add: limits_ok_def default_limits_def)

lemma settings_from_env_ok: "settings_from_env env = Inr s \<Longrightarrow> limits_ok (set_limits s)"
  by (auto simp: settings_from_env_def Let_def bindE_eq_Inr dest: Limits_init_ok)

text \<open>
  Which limits a run can have. The constructor of \<open>Limits\<close> returns exactly the limits within the bounds of
  the prototype: between 1 and 12 tasks, between 1 and 4 local workers, budgets that are not negative, and
  positive finite timeouts; the values of such limits are accepted unchanged.
\<close>

theorem limits_exact:
  "((\<exists>r. Limits_init r = Inr l) \<longleftrightarrow> limits_ok l) \<and> (limits_ok l \<longleftrightarrow> Limits_init (raw_of l) = Inr l)"
  using Limits_init_ok Limits_init_complete by blast

end
