(* ===== verification/Py_Difflib.thy ===== *)
theory Py_Difflib
  imports Relay_Prelude
begin

section \<open>Similarity of texts (difflib.SequenceMatcher)\<close>

text \<open>
  \<open>SequenceMatcher(None, a, b).ratio()\<close> of the standard library, which \<^verbatim>\<open>policy.agreement\<close>
  calls: twice the size of the matching blocks over the total size. A block is a longest common
  run, found by dynamic programming over the rows of \<open>a\<close>, extended to both sides; the texts
  left and right of it are matched the same way. In a text of 200 characters or more, characters that make up more
  than one percent start no run (the automatic junk heuristic).
\<close>

definition popular :: "'a list \<Rightarrow> 'a \<Rightarrow> bool" where
  "popular b c \<longleftrightarrow> 200 \<le> length b \<and> length (filter (\<lambda>d. d = c) b) > length b div 100 + 1"

text \<open>One row: the length of the run that ends at each position of \<open>b\<close>, given the row above.\<close>

definition run_row :: "('a \<Rightarrow> bool) \<Rightarrow> 'a \<Rightarrow> 'a list \<Rightarrow> nat list \<Rightarrow> nat list" where
  "run_row pop c b prev = map2 (\<lambda>d n. if d = c \<and> \<not> pop d then n + 1 else 0) b (0 # prev)"

text \<open>The best run so far is \<open>(i, j, k)\<close>; a longer one replaces it.\<close>

type_synonym block = "nat \<times> nat \<times> nat"

fun better_in_row :: "nat \<Rightarrow> nat \<Rightarrow> nat list \<Rightarrow> block \<Rightarrow> block" where
  "better_in_row i j [] best = best"
| "better_in_row i j (k # ks) (bi, bj, bk) =
     better_in_row i (j + 1) ks (if bk < k then (i + 1 - k, j + 1 - k, k) else (bi, bj, bk))"

fun best_run :: "('a \<Rightarrow> bool) \<Rightarrow> nat \<Rightarrow> 'a list \<Rightarrow> 'a list \<Rightarrow> nat list \<Rightarrow> block \<Rightarrow> block" where
  "best_run pop i [] b prev best = best"
| "best_run pop i (c # cs) b prev best =
     (let row = run_row pop c b prev in best_run pop (i + 1) cs b row (better_in_row i 0 row best))"

fun extend_left :: "'a list \<Rightarrow> 'a list \<Rightarrow> block \<Rightarrow> block" where
  "extend_left a b (i, j, k) =
     (if 0 < i \<and> 0 < j \<and> a ! (i - 1) = b ! (j - 1) then extend_left a b (i - 1, j - 1, k + 1) else (i, j, k))"

declare extend_left.simps [simp del]

function extend_right :: "'a list \<Rightarrow> 'a list \<Rightarrow> block \<Rightarrow> block" where
  "extend_right a b (i, j, k) =
     (if i + k < length a \<and> j + k < length b \<and> a ! (i + k) = b ! (j + k)
      then extend_right a b (i, j, k + 1) else (i, j, k))"
  by pat_completeness auto
termination
  by (relation "measure (\<lambda>(a, b, i, j, k). length a - (i + k))") auto

declare extend_right.simps [simp del]

definition find_longest_match :: "('a \<Rightarrow> bool) \<Rightarrow> 'a list \<Rightarrow> 'a list \<Rightarrow> block" where
  "find_longest_match pop a b =
     extend_right a b (extend_left a b (best_run pop 0 a b (replicate (length b) 0) (0, 0, 0)))"

subsection \<open>A block lies inside both texts\<close>

definition block_ok :: "'a list \<Rightarrow> 'a list \<Rightarrow> block \<Rightarrow> bool" where
  "block_ok a b blk = (case blk of (i, j, k) \<Rightarrow> i + k \<le> length a \<and> j + k \<le> length b)"

text \<open>A row's runs end at row \<open>i\<close>, so none is longer than \<open>i + 1\<close> or than its position in \<open>b\<close>.\<close>

definition row_ok :: "nat \<Rightarrow> nat list \<Rightarrow> bool" where
  "row_ok i row \<longleftrightarrow> (\<forall>j < length row. row ! j \<le> i \<and> row ! j \<le> j + 1)"

lemma run_row_ok:
  assumes "row_ok i prev" "length prev = length b"
  shows "row_ok (i + 1) (run_row pop c b prev) \<and> length (run_row pop c b prev) = length b"
proof -
  have "run_row pop c b prev ! j \<le> i + 1 \<and> run_row pop c b prev ! j \<le> j + 1" if "j < length b" for j
    using that assms by (cases j) (auto simp: run_row_def row_ok_def nth_Cons')
  then show ?thesis using assms(2) by (auto simp: row_ok_def run_row_def)
qed

lemma better_in_row_ok:
  assumes "block_ok a b best" "i < length a" "j + length ks \<le> length b"
    and "\<forall>n < length ks. ks ! n \<le> i + 1 \<and> ks ! n \<le> j + n + 1"
  shows "block_ok a b (better_in_row i j ks best)"
  using assms
proof (induction i j ks best rule: better_in_row.induct)
  case (2 i j k ks bi bj bk)
  have k: "k \<le> i + 1" "k \<le> j + 1" using "2.prems"(4) by force+
  have rest: "\<forall>n < length ks. ks ! n \<le> i + 1 \<and> ks ! n \<le> (j + 1) + n + 1"
    using "2.prems"(4) by (metis (no_types) Suc_less_eq add.assoc add_Suc_right length_Cons nth_Cons_Suc plus_1_eq_Suc)
  have "block_ok a b (if bk < k then (i + 1 - k, j + 1 - k, k) else (bi, bj, bk))"
    using "2.prems" k by (auto simp: block_ok_def)
  with "2.IH" "2.prems" rest show ?case by simp
qed simp

lemma best_run_ok:
  assumes "block_ok (pre @ a) b best" "row_ok (length pre) prev" "length prev = length b"
  shows "block_ok (pre @ a) b (best_run pop (length pre) a b prev best)"
  using assms
proof (induction a arbitrary: pre prev best)
  case (Cons c cs)
  let ?row = "run_row pop c b prev"
  have row: "row_ok (length pre + 1) ?row" "length ?row = length b" using run_row_ok [OF Cons.prems(2,3)] by auto
  then have "block_ok (pre @ c # cs) b (better_in_row (length pre) 0 ?row best)"
    using Cons.prems by (intro better_in_row_ok) (auto simp: row_ok_def)
  then show ?case
    using Cons.IH [of "pre @ [c]" "better_in_row (length pre) 0 ?row best" ?row] row by (simp add: Let_def)
qed simp

lemma extend_left_ok: "block_ok a b blk \<Longrightarrow> block_ok a b (extend_left a b blk)"
proof (induction a b blk rule: extend_left.induct)
  case (1 a b i j k)
  then show ?case by (subst extend_left.simps) (auto simp: block_ok_def)
qed

lemma extend_right_ok: "block_ok a b blk \<Longrightarrow> block_ok a b (extend_right a b blk)"
proof (induction a b blk rule: extend_right.induct)
  case (1 a b i j k)
  then show ?case by (subst extend_right.simps) (auto simp: block_ok_def)
qed

lemma find_longest_match_ok: "block_ok a b (find_longest_match pop a b)"
  using best_run_ok [of "[]" a b "(0, 0, 0)" "replicate (length b) 0" pop]
  by (auto simp: find_longest_match_def block_ok_def row_ok_def intro!: extend_right_ok [unfolded block_ok_def]
      extend_left_ok [unfolded block_ok_def])

subsection \<open>The ratio\<close>

text \<open>The total size of the matching blocks (\<open>get_matching_blocks\<close>).\<close>

function matches :: "('a \<Rightarrow> bool) \<Rightarrow> 'a list \<Rightarrow> 'a list \<Rightarrow> nat" where
  "matches pop a b =
     (case find_longest_match pop a b of
        (i, j, k) \<Rightarrow> if k = 0 then 0
                    else k + matches pop (take i a) (take j b) + matches pop (drop (i + k) a) (drop (j + k) b))"
  by pat_completeness auto
termination
proof (relation "measure (\<lambda>(pop, a, b). length a)", goal_cases)
  case 1
  then show ?case by simp
next
  case (2 pop a b i y j k)
  then show ?case using find_longest_match_ok [of a b pop] by (auto simp: block_ok_def)
next
  case (3 pop a b i y j k)
  then show ?case using find_longest_match_ok [of a b pop] by (auto simp: block_ok_def)
qed

declare matches.simps [simp del]

definition sm_ratio :: "'a list \<Rightarrow> 'a list \<Rightarrow> real" where
  "sm_ratio a b =
     (if length a + length b = 0 then 1
      else 2 * real (matches (popular b) a b) / real (length a + length b))"

lemma matches_le: "matches pop a b \<le> length a \<and> matches pop a b \<le> length b"
proof (induction pop a b rule: matches.induct)
  case (1 pop a b)
  obtain i j k where f: "find_longest_match pop a b = (i, j, k)" by (metis prod_cases3)
  show ?case
  proof (cases "k = 0")
    case True
    then show ?thesis by (simp add: matches.simps [of pop a b] f)
  next
    case False
    have "i + k \<le> length a" "j + k \<le> length b" using find_longest_match_ok [of a b pop] f by (auto simp: block_ok_def)
    moreover note "1.IH" [OF f [symmetric] refl False]
    ultimately show ?thesis using f False by (auto simp: matches.simps [of pop a b])
  qed
qed

lemma sm_ratio_bounds: "0 \<le> sm_ratio a b \<and> sm_ratio a b \<le> 1"
  using matches_le [of "popular b" a b] by (auto simp: sm_ratio_def divide_le_eq_1)

end
