(* ===== verification/Relay_Policy.thy ===== *)
theory Relay_Policy
  imports Relay_Plan Relay_Tokens Relay_Settings Py_Difflib
begin

section \<open>Routing rules (policy.py)\<close>

text \<open>
  When a local answer is trusted and what happens when it is not: reading a model's JSON into an
  assessment and a critique, the six signals, the rules, the score and the verdict, the choice between
  a direct cloud answer and a plan, and the tiers of a subtask's attempts.
\<close>

subsection \<open>Data\<close>

record assessment =
  as_answer :: string
  as_confidence :: real
  as_task_type :: string
  as_difficulty :: string
  as_needs_escalation :: bool
  as_reason :: string
  as_structured :: bool
  as_repaired :: bool
  as_token_prob :: "real option"
  as_token_stats :: "token_stats option"

record critique =
  cr_passed :: bool
  cr_severity :: real
  cr_critique :: string
  cr_skipped :: bool
  cr_tier :: string

record signals =
  sg_self_uncertainty :: real
  sg_token_uncertainty :: "real option"
  sg_inconsistency :: real
  sg_critic_risk :: real
  sg_task_complexity :: real
  sg_explicit_escalation :: real
  sg_combined_score :: real

record verdict =
  vd_tier :: string
  vd_samples :: "assessment list"
  vd_critique :: critique
  vd_signals :: signals
  vd_threshold :: real
  vd_escalate :: bool
  vd_reason :: string

text \<open>\<open>Verdict.answer\<close>: the first sample's answer.\<close>

definition vd_answer :: "verdict \<Rightarrow> string" where
  "vd_answer v = (case vd_samples v of [] \<Rightarrow> [] | s # _ \<Rightarrow> as_answer s)"

text \<open>
  A rule is a Python function object: its name, what it says of a verdict (\<open>True\<close> escalate, \<open>False\<close>
  keep local, \<open>None\<close> no opinion) and the attributes the factories set on it.
\<close>

record rule =
  rule_name :: string
  rule_says :: "verdict \<Rightarrow> bool option"
  rule_limit :: "real option"
  rule_min_tokens :: "nat option"
  rule_min_severity :: "real option"

definition escalate_when_requested :: rule where
  "escalate_when_requested =
     \<lparr>rule_name = ''escalate_when_requested'',
      rule_says = (\<lambda>v. if list_ex as_needs_escalation (vd_samples v) then Some True else None),
      rule_limit = None, rule_min_tokens = None, rule_min_severity = None\<rparr>"

definition reject_empty_answers :: rule where
  "reject_empty_answers =
     \<lparr>rule_name = ''reject_empty_answers'',
      rule_says = (\<lambda>v. if strip (vd_answer v) = [] then Some True else None),
      rule_limit = None, rule_min_tokens = None, rule_min_severity = None\<rparr>"

definition sample_tokens :: "assessment \<Rightarrow> nat" where
  "sample_tokens s = (case as_token_stats s of None \<Rightarrow> 0 | Some st \<Rightarrow> ts_count st)"

definition token_uncertainty_at_least :: "real \<Rightarrow> string list \<Rightarrow> nat \<Rightarrow> rule" where
  "token_uncertainty_at_least limit tiers min_tokens =
     \<lparr>rule_name = ''escalate_when_tokens_are_uncertain'',
      rule_says = (\<lambda>v.
        (case sg_token_uncertainty (vd_signals v) of
           Some u \<Rightarrow> if vd_tier v \<in> set tiers \<and> u \<ge> limit
                       \<and> fold max (map sample_tokens (vd_samples v)) 0 \<ge> min_tokens
                     then Some True else None
         | None \<Rightarrow> None)),
      rule_limit = Some limit, rule_min_tokens = Some min_tokens, rule_min_severity = None\<rparr>"

definition critic_fails :: "real \<Rightarrow> rule" where
  "critic_fails min_severity =
     \<lparr>rule_name = ''escalate_when_critic_rejects'',
      rule_says = (\<lambda>v. let c = vd_critique v
                       in if \<not> cr_skipped c \<and> \<not> cr_passed c \<and> cr_severity c \<ge> min_severity then Some True else None),
      rule_limit = None, rule_min_tokens = None, rule_min_severity = Some min_severity\<rparr>"

subsection \<open>Measures of a request\<close>

definition WEIGHTS :: "(string, real) dict" where
  "WEIGHTS = [(''self_uncertainty'', 0.25), (''token_uncertainty'', 0.30), (''inconsistency'', 0.25),
     (''critic_risk'', 0.25), (''task_complexity'', 0.10), (''explicit_escalation'', 0.10)]"

definition HARD_MARKERS :: "string list" where
  "HARD_MARKERS = [''prove'', ''derive'', ''counterexample'', ''debug'', ''race condition'', ''algorithm'', ''probability'',
     ''bayes'', ''causal'', ''optimize'', ''complexity'', ''contradiction'', ''multi-step'', ''constraint'',
     ''ambiguous'', ''legal'', ''medical'', ''financial'']"

definition MEDIUM_MARKERS :: "string list" where
  "MEDIUM_MARKERS = [''compare'', ''explain why'', ''analyze'', ''reason'', ''tradeoff'', ''plan'', ''design'', ''evaluate'',
     ''infer'', ''calculate'']"

definition DELIVERABLES :: "string list" where
  "DELIVERABLES = [''compare'', ''list'', ''summar'', ''extract'', ''suggest'', ''recommend'', ''identif'', ''outline'', ''draft'',
     ''plan'', ''write'', ''propose'', ''describe'', ''explain'', ''evaluate'', ''analy'', ''estimate'', ''calculate'',
     ''determine'', ''derive'', ''prove'', ''design'', ''classif'', ''rewrite'', ''translate'', ''review'',
     ''implement'', ''build'', ''create'', ''generate'', ''define'', ''document'', ''test '']"

definition markers_in :: "string list \<Rightarrow> string \<Rightarrow> nat" where
  "markers_in marks s = count_true (map (\<lambda>m. contains m s) marks)"

definition task_complexity :: "string \<Rightarrow> real" where
  "task_complexity txt =
     (let p = lower txt;
          score = 0.05 + 0.07 * real (markers_in MEDIUM_MARKERS p) + 0.12 * real (markers_in HARD_MARKERS p)
      in clamp (score + 0.10 * of_bool (length txt > 500) + 0.10 * of_bool (length txt > 1200)
                + 0.08 * of_bool (count_char (CHR ''?'') txt > 2)))"

definition request_parts :: "string \<Rightarrow> nat" where
  "request_parts txt =
     (let lowered = lower txt
      in max 1 (markers_in DELIVERABLES lowered + (count_char (CHR ''?'') lowered - 1)))"

subsection \<open>Agreement of two answers\<close>

definition STOPWORDS :: "string list" where
  "STOPWORDS = split_ws (''this that these those with from have been will would could should about into than then ''
     @ ''them they their there here which where when what does done doing because while also very ''
     @ ''such each other more most some only just like over under both same'')"

text \<open>The pattern \<open>[a-z][a-z0-9_]{3,}\<close>.\<close>

definition word_pattern :: re where
  "word_pattern = rseqs [RSat is_lower_az, rtimes 3 (RSat id_tail_char), RStar (RSat id_tail_char)]"

definition content_words :: "string \<Rightarrow> string set" where
  "content_words txt = set (filter (\<lambda>w. w \<notin> set STOPWORDS) (re_findall word_pattern (lower txt)))"

text \<open>The pattern \<open>-?\d+(?:[.,]\d+)*\<close>.\<close>

definition number_pattern :: re where
  "number_pattern = rseqs [ropt (rlit ''-''), rplus (RSat is_digit),
     RStar (RSeq (RSat (\<lambda>c. c = CHR ''.'' \<or> c = CHR '','')) (rplus (RSat is_digit)))]"

definition numbers_in :: "string \<Rightarrow> string set" where
  "numbers_in txt = set (map (\<lambda>n. py_replace '','' [] (rstrip_chars ''.'' n)) (re_findall number_pattern txt))"

definition squeeze :: "string \<Rightarrow> string" where
  "squeeze s = join '' '' (split_ws (lower s))"

definition agreement :: "string \<Rightarrow> string \<Rightarrow> real" where
  "agreement a b =
     (let surface = sm_ratio (squeeze a) (squeeze b);
          first = content_words a; second = content_words b;
          substance = (if first \<noteq> {} \<and> second \<noteq> {}
                       then real (card (first \<inter> second)) / real (min (card first) (card second)) else surface);
          left = numbers_in a; right = numbers_in b
      in if left \<noteq> {} \<and> right \<noteq> {}
         then (let shared = real (card (left \<inter> right)) / real (card (left \<union> right))
               in if shared = 0 then min surface 0.3 else max surface (max substance shared))
         else max surface substance)"

subsection \<open>Reading a model's judgment\<close>

definition key_pattern :: "string \<Rightarrow> re \<Rightarrow> re" where
  "key_pattern key value = rseqs [rlit ([CHR 0x22] @ key @ [CHR 0x22]), rspaces, rlit '':'', rspaces, value]"

definition rquote :: re where
  "rquote = rlit [CHR 0x22]"

text \<open>The text of group 1 of the first match, if any.\<close>

definition search1 :: "re \<Rightarrow> string \<Rightarrow> string option" where
  "search1 r s = map_option (\<lambda>(a, m, b, g). group_of g 1) (re_search r s)"

text \<open>The pattern \<open>"answer"\s*:\s*"((?:[^"\\]|\\.)*)"\<close>.\<close>

definition answer_pattern :: re where
  "answer_pattern = key_pattern ''answer''
     (rseqs [rquote,
             RGroup 1 (RStar (RAlt (RSat (\<lambda>c. c \<noteq> CHR 0x22 \<and> c \<noteq> CHR 0x5C)) (RSeq (rlit [CHR 0x5C]) rdot))),
             rquote])"

text \<open>The pattern \<open>"confidence"\s*:\s*([0-9]*\.?[0-9]+)\<close>.\<close>

definition confidence_pattern :: re where
  "confidence_pattern = key_pattern ''confidence''
     (RGroup 1 (rseqs [RStar (RSat is_digit), ropt (rlit ''.''), rplus (RSat is_digit)]))"

definition salvage :: "string \<Rightarrow> pydict option" where
  "salvage txt =
     (case (search1 answer_pattern txt, search1 confidence_pattern txt) of
        (Some ans, Some conf) \<Rightarrow>
          let text_field = (\<lambda>key. (case search1 (key_pattern key (rseqs [rquote, RGroup 1 (RStar (RSat (\<lambda>c. c \<noteq> CHR 0x22))), rquote])) txt of
                                     None \<Rightarrow> [] | Some s \<Rightarrow> [(key, PStr s)]));
              escalate = search1 (key_pattern ''needs_escalation'' (RGroup 1 (RAlt (rlit ''true'') (rlit ''false'')))) txt;
              reason = search1 (key_pattern ''reason'' (rseqs [rquote, RGroup 1 (RStar rany)])) txt
          in Some ([(''answer'', PStr (py_replace [CHR 0x5C, CHR 0x22] [CHR 0x22] ans)), (''confidence'', PStr conf)]
                   @ text_field ''task_type'' @ text_field ''difficulty''
                   @ [(''needs_escalation'', PBool (escalate = Some ''true'')),
                      (''reason'', PStr (case reason of None \<Rightarrow> [] | Some s \<Rightarrow> rstrip_chars [CHR 0x22, CHR ''}'', CHR '' '', CHR 0x0A] s))])
      | _ \<Rightarrow> None)"

text \<open>\<open>isinstance(v, (str, int, float))\<close>; a truth value is an \<open>int\<close>.\<close>

fun is_scalar :: "pyval \<Rightarrow> bool" where
  "is_scalar (PStr _) = True"
| "is_scalar (PInt _) = True"
| "is_scalar (PBool _) = True"
| "is_scalar (PFloat _) = True"
| "is_scalar _ = False"

text \<open>
  \<open>_clamp(float(v))\<close> under \<open>except (TypeError, ValueError)\<close>. An integer too large for a float raises
  \<open>OverflowError\<close>, which neither clause catches.
\<close>

definition clamped_or :: "real \<Rightarrow> pyval \<Rightarrow> real res" where
  "clamped_or dflt v =
     (case py_float v of
        Inr x \<Rightarrow> Inr (clamp_float x)
      | Inl OverflowError \<Rightarrow> Inl OverflowError
      | Inl _ \<Rightarrow> Inr dflt)"

definition read_assessment :: "pyval \<Rightarrow> token_stats option \<Rightarrow> assessment res" where
  "read_assessment v stats =
     (let salvaged = (case v of PStr s \<Rightarrow> salvage s | _ \<Rightarrow> None);
          repaired = (salvaged \<noteq> None);
          w = (case salvaged of Some d \<Rightarrow> PDict d | None \<Rightarrow> v);
          structured = (\<lambda>d. bindE (clamped_or 0.5 (dict_get_or d ''confidence'' (PFloat (Fin 0.5)))) (\<lambda>conf.
            Inr \<lparr>as_answer = py_str (field d ''answer''), as_confidence = conf,
                 as_task_type = take 80 (py_str (dict_get_or d ''task_type'' (PStr ''unknown''))),
                 as_difficulty = take 20 (py_str (dict_get_or d ''difficulty'' (PStr ''medium''))),
                 as_needs_escalation = truthy (dict_get_or d ''needs_escalation'' (PBool False)),
                 as_reason = take 500 (py_str (dict_get_or d ''reason'' (PStr []))),
                 as_structured = True, as_repaired = repaired,
                 as_token_prob = map_option ts_prob stats, as_token_stats = stats\<rparr>));
          unstructured = \<lparr>as_answer = take 4000 (py_str w), as_confidence = 0.15, as_task_type = ''unstructured'',
                 as_difficulty = ''high'', as_needs_escalation = True,
                 as_reason = ''The model did not return the required JSON, so its answer is treated as unreliable.'',
                 as_structured = False, as_repaired = False,
                 as_token_prob = map_option ts_prob stats, as_token_stats = stats\<rparr>
      in (case w of
            PDict d \<Rightarrow> if is_scalar (field d ''answer'') then structured d else Inr unstructured
          | _ \<Rightarrow> Inr unstructured))"

definition read_critique :: "pyval \<Rightarrow> critique res" where
  "read_critique v =
     (let invalid = \<lparr>cr_passed = False, cr_severity = 1,
             cr_critique = ''The critic did not return valid JSON, so verification counts as failed.'',
             cr_skipped = False, cr_tier = []\<rparr>
      in (case v of
            PDict d \<Rightarrow>
              (case map_of d ''severity'' of
                 None \<Rightarrow> Inr invalid
               | Some sev \<Rightarrow> bindE (clamped_or 1 sev) (\<lambda>severity.
                   Inr \<lparr>cr_passed = truthy (dict_get_or d ''passed'' (PBool False)), cr_severity = severity,
                        cr_critique = take 1000 (py_str (dict_get_or d ''critique'' (PStr []))),
                        cr_skipped = False, cr_tier = []\<rparr>))
          | _ \<Rightarrow> Inr invalid))"

definition answer_exact_extraction :: "string \<Rightarrow> sources \<Rightarrow> pyval \<Rightarrow> string option res" where
  "answer_exact_extraction goal sources candidate =
     (case sources of
        [(key, txt)] \<Rightarrow>
          (case validate_result ''report_extraction'' candidate [(source_ref key, PStr txt)] of
             Inl (ValidationError _) \<Rightarrow> Inr None
           | Inl e \<Rightarrow> Inl e
           | Inr _ \<Rightarrow>
               (case candidate of
                  PDict d \<Rightarrow> if field d ''quote'' \<noteq> PStr txt then Inr None
                             else Inr (Some (''**'' @ the_str (field d ''report_id'') @ ''**: '' @ the_str (field d ''quote'')))
                | _ \<Rightarrow> Inr None))
      | _ \<Rightarrow> Inr None)"

subsection \<open>RoutingPolicy\<close>

record policy =
  escalation_threshold :: real
  tier_thresholds :: "(string, real) dict"
  local_samples :: int
  use_critic :: bool
  token_signal :: string
  escalate_big_goals :: bool
  weights :: "(string, real) dict"
  rules :: "rule list"
  cross_critic :: bool
  skip_small_above :: "pyfloat option"
  cloud_mode :: string
  plan_min_parts :: int
  plan_min_chars :: int
  bulk_parts :: int
  min_parallel_local :: int
  local_worker_attempts :: int
  escalate_failed_local_tasks :: bool
  plan_attempts :: int

definition RoutingPolicy_init :: "policy \<Rightarrow> policy res" where
  "RoutingPolicy_init p =
     bindE (requireE (list_all (\<lambda>t. 0 \<le> t \<and> t \<le> 1) (escalation_threshold p # map snd (tier_thresholds p)))
              (ValueError ''thresholds must be between 0 and 1'')) (\<lambda>_.
     bindE (requireE (local_samples p \<ge> 1) (ValueError ''local_samples must be at least 1'')) (\<lambda>_.
     bindE (requireE (local_worker_attempts p \<ge> 1) (ValueError ''local_worker_attempts must be at least 1'')) (\<lambda>_.
     bindE (requireE (plan_attempts p \<ge> 1) (ValueError ''plan_attempts must be at least 1'')) (\<lambda>_.
     bindE (requireE (cloud_mode p \<in> {''auto'', ''plan'', ''direct''})
              (ValueError (''cloud_mode must be '' @ repr_text ''auto'' @ '', '' @ repr_text ''plan'' @ '' or '' @ repr_text ''direct''))) (\<lambda>_.
     bindE (requireE (set (map fst (weights p)) = set (map fst WEIGHTS))
              (ValueError (''weights must cover exactly '' @ py_repr (PList (map PStr
                 [''critic_risk'', ''explicit_escalation'', ''inconsistency'', ''self_uncertainty'', ''task_complexity'',
                  ''token_uncertainty'']))))) (\<lambda>_.
     Inr p))))))"

definition default_policy :: policy where
  "default_policy =
     \<lparr>escalation_threshold = 0.30, tier_thresholds = [(''mid'', 0.25)], local_samples = 2, use_critic = True,
      token_signal = ''mean'', escalate_big_goals = True, weights = WEIGHTS,
      rules = [escalate_when_requested, reject_empty_answers, critic_fails 0.5,
               token_uncertainty_at_least 0.12 [''local''] 3],
      cross_critic = True, skip_small_above = None, cloud_mode = ''auto'', plan_min_parts = 2, plan_min_chars = 120,
      bulk_parts = 4, min_parallel_local = 2, local_worker_attempts = 2, escalate_failed_local_tasks = True,
      plan_attempts = 2\<rparr>"

definition policy_from_env :: "environ \<Rightarrow> policy res" where
  "policy_from_env env =
     bindE (env_float env ''ESCALATION_THRESHOLD'' (escalation_threshold default_policy)) (\<lambda>thr.
     bindE (case map_of env ''LOCAL_SAMPLES'' of None \<Rightarrow> Inr (local_samples default_policy) | Some s \<Rightarrow> py_int_str s) (\<lambda>n.
     bindE (case map_of env ''SKIP_SMALL_ABOVE'' of
              None \<Rightarrow> Inr (skip_small_above default_policy)
            | Some s \<Rightarrow> if s = [] \<or> s = ''none'' then Inr (skip_small_above default_policy)
                        else bindE (py_float_str s) (\<lambda>x. Inr (Some x))) (\<lambda>skip.
     (case thr of
        Fin t \<Rightarrow> RoutingPolicy_init (default_policy
          \<lparr>escalation_threshold := t, local_samples := n, use_critic := env_flag env ''RELAY_USE_CRITIC'',
           cross_critic := env_flag env ''RELAY_CROSS_CRITIC'',
           cloud_mode := env_or env ''RELAY_CLOUD_MODE'' (cloud_mode default_policy), skip_small_above := skip\<rparr>)
      | _ \<Rightarrow> Inl (ValueError ''thresholds must be between 0 and 1'')))))"

definition local_tiers :: "string list \<Rightarrow> string list" where
  "local_tiers tiers = filter (\<lambda>t. t \<noteq> ''cloud'') tiers"

text \<open>The elements after the first occurrence of \<open>x\<close>.\<close>

fun following :: "'a \<Rightarrow> 'a list \<Rightarrow> 'a list" where
  "following x [] = []"
| "following x (y # ys) = (if y = x then ys else following x ys)"

definition critic_tier :: "policy \<Rightarrow> string \<Rightarrow> string list \<Rightarrow> string" where
  "critic_tier p tier tiers =
     (if cross_critic p \<and> tier \<in> set (local_tiers tiers)
      then (case following tier (local_tiers tiers) of [] \<Rightarrow> tier | t # _ \<Rightarrow> t) else tier)"

text \<open>\<open>x >= f\<close> on floats.\<close>

fun ge_float :: "real \<Rightarrow> pyfloat \<Rightarrow> bool" where
  "ge_float x (Fin y) = (x \<ge> y)"
| "ge_float x (Infinity neg) = neg"
| "ge_float x NaN = False"

definition skips :: "policy \<Rightarrow> string \<Rightarrow> string list \<Rightarrow> real \<Rightarrow> bool" where
  "skips p tier tiers complexity =
     (case skip_small_above p of
        None \<Rightarrow> False
      | Some limit \<Rightarrow> (case local_tiers tiers of
                        small # larger # _ \<Rightarrow> tier = small \<and> ge_float complexity limit
                      | _ \<Rightarrow> False))"

definition token_uncertainty :: "policy \<Rightarrow> assessment list \<Rightarrow> real option" where
  "token_uncertainty p samples =
     (let stats = concat (map (\<lambda>s. case as_token_stats s of None \<Rightarrow> [] | Some st \<Rightarrow> [st]) samples)
      in if stats = [] then None
         else if token_signal p = ''hesitation'' then Some (clamp (mean (map ts_hesitation stats)))
         else Some (clamp (1 - mean (map ts_prob stats))))"

type_synonym signal_values = "(string \<times> real option) list"

text \<open>The available signals with their weights.\<close>

definition weighted :: "(string, real) dict \<Rightarrow> signal_values \<Rightarrow> (real \<times> real) list" where
  "weighted ws vals =
     concat (map (\<lambda>(k, v). case (v, map_of ws k) of (Some x, Some w) \<Rightarrow> [(w, x)] | _ \<Rightarrow> []) vals)"

definition combine :: "policy \<Rightarrow> signal_values \<Rightarrow> real" where
  "combine p vals =
     (let available = weighted (weights p) vals; total = sum_list (map fst available)
      in if total = 0 then 0 else clamp (sum_list (map (\<lambda>(w, x). w * x) available) / total))"

definition sample_pairs :: "'a list \<Rightarrow> ('a \<times> 'a) list" where
  "sample_pairs xs = concat (map (\<lambda>i. map (Pair (xs ! i)) (drop (Suc i) xs)) [0..<length xs])"

definition signal_values_of :: "policy \<Rightarrow> string \<Rightarrow> assessment list \<Rightarrow> critique \<Rightarrow> signal_values" where
  "signal_values_of p txt samples crit =
     (let uncertainty = 1 - mean (map as_confidence samples);
          pairs = sample_pairs samples;
          inconsistency = (if pairs = [] then 0
                           else 1 - mean (map (\<lambda>(a, b). agreement (as_answer a) (as_answer b)) pairs))
      in [(''self_uncertainty'', Some uncertainty), (''token_uncertainty'', token_uncertainty p samples),
          (''inconsistency'', Some inconsistency), (''critic_risk'', Some (cr_severity crit)),
          (''task_complexity'', Some (task_complexity txt)),
          (''explicit_escalation'', Some (if list_ex as_needs_escalation samples then 1 else 0))])"

definition signal_of :: "signal_values \<Rightarrow> string \<Rightarrow> real option" where
  "signal_of vals k = map_option round4 (dict_get_or vals k None)"

definition policy_signals :: "policy \<Rightarrow> string \<Rightarrow> assessment list \<Rightarrow> critique \<Rightarrow> signals" where
  "policy_signals p txt samples crit =
     (let vals = signal_values_of p txt samples crit
      in \<lparr>sg_self_uncertainty = the (signal_of vals ''self_uncertainty''),
          sg_token_uncertainty = signal_of vals ''token_uncertainty'',
          sg_inconsistency = the (signal_of vals ''inconsistency''),
          sg_critic_risk = the (signal_of vals ''critic_risk''),
          sg_task_complexity = the (signal_of vals ''task_complexity''),
          sg_explicit_escalation = the (signal_of vals ''explicit_escalation''),
          sg_combined_score = round4 (combine p vals)\<rparr>)"

definition plans :: "policy \<Rightarrow> string \<Rightarrow> bool" where
  "plans p txt =
     (if cloud_mode p \<noteq> ''auto'' then cloud_mode p = ''plan''
      else int (request_parts txt) \<ge> plan_min_parts p \<and> int (length txt) \<ge> plan_min_chars p)"

definition check_plan :: "policy \<Rightarrow> plan \<Rightarrow> string \<Rightarrow> string option" where
  "check_plan p pl txt =
     (if int (request_parts txt) < bulk_parts p then None
      else if int (length (filter (\<lambda>t. t_preferred_tier t \<noteq> ''cloud'' \<and> t_depends_on t = []) (p_tasks pl)))
              \<ge> min_parallel_local p then None
      else Some (''The goal asks for several things, so it must not come back as one task that produces everything. ''
        @ ''Plan at least '' @ show_int (min_parallel_local p) @ '' local subtasks with empty depends_on, each producing one ''
        @ ''named piece of the deliverable (one function or group of functions, one section, one list), and ''
        @ ''keep the cloud task to the single hardest piece so the local models work while it does.''))"

definition threshold :: "policy \<Rightarrow> string \<Rightarrow> real" where
  "threshold p tier = dict_get_or (tier_thresholds p) tier (escalation_threshold p)"

definition underscores_to_spaces :: "string \<Rightarrow> string" where
  "underscores_to_spaces s = map (\<lambda>c. if c = CHR ''_'' then CHR '' '' else c) s"

definition rule_text :: "rule \<Rightarrow> verdict \<Rightarrow> string" where
  "rule_text r base =
     (let name = underscores_to_spaces (rule_name r)
      in name @
         (if name = ''escalate when critic rejects''
          then '' (severity '' @ fmt2 (cr_severity (vd_critique base)) @ '')'' else []) @
         (if name = ''escalate when tokens are uncertain''
          then (case (sg_token_uncertainty (vd_signals base), rule_limit r) of
                  (Some u, Some l) \<Rightarrow> '' ('' @ fmt2 u @ '' '' @ ch_ge @ '' '' @ fmt2 l @ '')''
                | _ \<Rightarrow> []) else []))"

text \<open>The loop over the rules: the first one with an opinion decides.\<close>

fun first_rule :: "rule list \<Rightarrow> verdict \<Rightarrow> (rule \<times> bool) option" where
  "first_rule [] base = None"
| "first_rule (r # rs) base = (case rule_says r base of Some forced \<Rightarrow> Some (r, forced) | None \<Rightarrow> first_rule rs base)"

definition base_verdict :: "policy \<Rightarrow> string \<Rightarrow> string \<Rightarrow> assessment list \<Rightarrow> critique \<Rightarrow> verdict" where
  "base_verdict p tier txt samples crit =
     \<lparr>vd_tier = tier, vd_samples = samples, vd_critique = crit, vd_signals = policy_signals p txt samples crit,
      vd_threshold = threshold p tier, vd_escalate = False, vd_reason = []\<rparr>"

definition decide :: "policy \<Rightarrow> string \<Rightarrow> string \<Rightarrow> assessment list \<Rightarrow> critique \<Rightarrow> verdict" where
  "decide p tier txt samples crit =
     (let base = base_verdict p tier txt samples crit; parts = request_parts txt;
          score = sg_combined_score (vd_signals base)
      in if escalate_big_goals p \<and> int parts \<ge> bulk_parts p
         then base\<lparr>vd_escalate := True,
                   vd_reason := ''A goal asking for '' @ show_nat parts @ '' things is worth planning and handing out''\<rparr>
         else (case first_rule (rules p) base of
                 Some (r, forced) \<Rightarrow> base\<lparr>vd_escalate := forced, vd_reason := ''Rule: '' @ rule_text r base\<rparr>
               | None \<Rightarrow>
                   let esc = (score \<ge> vd_threshold base)
                   in base\<lparr>vd_escalate := esc,
                           vd_reason := ''Score '' @ fmt2 score @ '' '' @ (if esc then ch_ge else ''<'')
                                        @ '' threshold '' @ fmt2 (vd_threshold base)\<rparr>))"

text \<open>\<open>tiers.index\<close> raises \<open>ValueError\<close> for a tier that is not available.\<close>

definition worker_tiers :: "policy \<Rightarrow> task \<Rightarrow> string list \<Rightarrow> string list res" where
  "worker_tiers p t tiers =
     (if t_preferred_tier t = ''cloud'' then Inr [''cloud'']
      else if t_preferred_tier t \<notin> set tiers then Inl (ValueError ''tuple.index(x): x not in tuple'')
      else Inr (replicate (nat (local_worker_attempts p)) (t_preferred_tier t)
                @ (if escalate_failed_local_tasks p then following (t_preferred_tier t) tiers else [])))"

subsection \<open>Properties of the measures\<close>

lemma card_Int_le_min:
  "finite A \<Longrightarrow> finite B \<Longrightarrow> card (A \<inter> B) \<le> min (card A) (card B)"
  by (simp add: card_mono)

lemma content_words_finite [simp]: "finite (content_words s)"
  by (simp add: content_words_def)

lemma numbers_in_finite [simp]: "finite (numbers_in s)"
  by (simp add: numbers_in_def)

lemma share_bounds: "n \<le> m \<Longrightarrow> 0 \<le> real n / real m \<and> real n / real m \<le> 1"
  by (cases m) (auto simp: divide_le_eq_1)

lemma agreement_bounds: "0 \<le> agreement a b \<and> agreement a b \<le> 1"
proof -
  define sub where "sub = real (card (content_words a \<inter> content_words b)) / real (min (card (content_words a)) (card (content_words b)))"
  define shr where "shr = real (card (numbers_in a \<inter> numbers_in b)) / real (card (numbers_in a \<union> numbers_in b))"
  have sub: "0 \<le> sub" "sub \<le> 1"
    unfolding sub_def using share_bounds card_Int_le_min [of "content_words a" "content_words b"] by auto
  have "card (numbers_in a \<inter> numbers_in b) \<le> card (numbers_in a \<union> numbers_in b)"
    by (rule card_mono) auto
  then have shr: "0 \<le> shr" "shr \<le> 1" unfolding shr_def using share_bounds by blast+
  note ratio = sm_ratio_bounds [of "squeeze a" "squeeze b"]
  show ?thesis
    unfolding agreement_def Let_def sub_def [symmetric] shr_def [symmetric]
    using sub shr ratio by (auto simp: max_def min_def)
qed

lemma task_complexity_bounds: "0 \<le> task_complexity t \<and> task_complexity t \<le> 1"
  by (simp add: task_complexity_def Let_def)

lemma request_parts_pos: "1 \<le> request_parts t"
  by (simp add: request_parts_def Let_def)

lemma clamped_or_bounds: "0 \<le> d \<Longrightarrow> d \<le> 1 \<Longrightarrow> clamped_or d v = Inr x \<Longrightarrow> 0 \<le> x \<and> x \<le> 1"
  by (auto simp: clamped_or_def split: sum.splits exn.splits)

definition sample_ok :: "assessment \<Rightarrow> bool" where
  "sample_ok s \<longleftrightarrow> 0 \<le> as_confidence s \<and> as_confidence s \<le> 1"

lemma read_assessment_ok: "read_assessment v st = Inr s \<Longrightarrow> sample_ok s"
  by (auto simp: read_assessment_def Let_def sample_ok_def bindE_eq_Inr split: pyval.splits option.splits if_splits
      dest!: clamped_or_bounds [rotated 2])

lemma read_critique_ok: "read_critique v = Inr c \<Longrightarrow> 0 \<le> cr_severity c \<and> cr_severity c \<le> 1"
  by (auto simp: read_critique_def Let_def bindE_eq_Inr split: pyval.splits option.splits
      dest!: clamped_or_bounds [rotated 2])

lemma read_assessment_error: "read_assessment v st = Inl e \<Longrightarrow> e = OverflowError"
  by (auto simp: read_assessment_def Let_def bindE_eq_Inl clamped_or_def split: pyval.splits option.splits if_splits
      sum.splits exn.splits)

lemma read_critique_error: "read_critique v = Inl e \<Longrightarrow> e = OverflowError"
  by (auto simp: read_critique_def Let_def bindE_eq_Inl clamped_or_def split: pyval.splits option.splits
      sum.splits exn.splits)

lemma token_uncertainty_bounds: "token_uncertainty p samples = Some u \<Longrightarrow> 0 \<le> u \<and> u \<le> 1"
  by (auto simp: token_uncertainty_def Let_def split: if_splits)

text \<open>The score is a weighted mean: with weights that are not negative it lies between the least and the greatest available signal.\<close>

lemma weighted_sum_bounds:
  assumes "\<And>w x. (w, x) \<in> set ps \<Longrightarrow> 0 \<le> w \<and> lo \<le> x \<and> x \<le> (hi::real)"
  shows "lo * sum_list (map fst ps) \<le> sum_list (map (\<lambda>(w, x). w * x) ps)
       \<and> sum_list (map (\<lambda>(w, x). w * x) ps) \<le> hi * sum_list (map fst ps)"
  using assms
proof (induction ps)
  case (Cons q ps)
  obtain w x where q: "q = (w, x)" by force
  have "0 \<le> w" "lo \<le> x" "x \<le> hi" using Cons.prems q by auto
  then have "lo * w \<le> w * x" "w * x \<le> hi * w"
    by (auto simp: mult.commute [of lo] mult.commute [of hi] intro: mult_left_mono)
  moreover have "lo * sum_list (map fst ps) \<le> sum_list (map (\<lambda>(w, x). w * x) ps)
       \<and> sum_list (map (\<lambda>(w, x). w * x) ps) \<le> hi * sum_list (map fst ps)"
    using Cons by auto
  ultimately show ?case by (auto simp: q algebra_simps)
qed simp

lemma weighted_in: "(w, x) \<in> set (weighted ws vals) \<Longrightarrow> \<exists>k. (k, Some x) \<in> set vals \<and> map_of ws k = Some w"
  by (auto simp: weighted_def split: option.splits)

lemma combine_between:
  assumes nonneg: "\<And>k w. map_of (weights p) k = Some w \<Longrightarrow> 0 \<le> w"
    and vals: "\<And>k x. (k, Some x) \<in> set vals \<Longrightarrow> lo \<le> x \<and> x \<le> hi" and range: "0 \<le> lo" "hi \<le> 1"
    and total: "sum_list (map fst (weighted (weights p) vals)) \<noteq> 0"
  shows "lo \<le> combine p vals \<and> combine p vals \<le> hi"
proof -
  let ?ps = "weighted (weights p) vals"
  have each: "0 \<le> w \<and> lo \<le> x \<and> x \<le> hi" if "(w, x) \<in> set ?ps" for w x
    using weighted_in [OF that] nonneg vals by blast
  then have "0 \<le> sum_list (map fst ?ps)" by (intro sum_list_nonneg) auto
  with total have pos: "0 < sum_list (map fst ?ps)" by simp
  let ?q = "sum_list (map (\<lambda>(w, x). w * x) ?ps) / sum_list (map fst ?ps)"
  have "lo \<le> ?q" "?q \<le> hi"
    using weighted_sum_bounds [of ?ps lo hi] each pos by (auto simp: pos_le_divide_eq pos_divide_le_eq)
  moreover from this range have "clamp ?q = ?q" by (intro clamp_id) auto
  moreover have "combine p vals = clamp ?q" using pos by (simp add: combine_def Let_def)
  ultimately show ?thesis by simp
qed

lemma combine_bounds: "0 \<le> combine p vals \<and> combine p vals \<le> 1"
  by (simp add: combine_def Let_def)

lemma sample_pairs_in: "(a, b) \<in> set (sample_pairs xs) \<Longrightarrow> a \<in> set xs \<and> b \<in> set xs"
  by (auto simp: sample_pairs_def dest: in_set_dropD)

text \<open>What \<open>judge_locally\<close> hands to the policy: at least one sample, read by \<open>read_assessment\<close>, and a severity in range.\<close>

definition evidence_ok :: "assessment list \<Rightarrow> critique \<Rightarrow> bool" where
  "evidence_ok samples crit \<longleftrightarrow> samples \<noteq> [] \<and> list_all sample_ok samples \<and> 0 \<le> cr_severity crit \<and> cr_severity crit \<le> 1"

lemma signal_values_bounds:
  assumes "evidence_ok samples crit" "(k, Some x) \<in> set (signal_values_of p goal_text samples crit)"
  shows "0 \<le> x \<and> x \<le> 1"
proof -
  have m: "0 \<le> mean (map as_confidence samples) \<and> mean (map as_confidence samples) \<le> 1"
    using assms(1) by (intro mean_bounds) (auto simp: evidence_ok_def sample_ok_def list_all_iff)
  let ?ag = "map (\<lambda>(a, b). agreement (as_answer a) (as_answer b)) (sample_pairs samples)"
  have "0 \<le> mean ?ag \<and> mean ?ag \<le> 1" if "sample_pairs samples \<noteq> []"
    using that agreement_bounds by (intro mean_bounds) auto
  then show ?thesis
    using assms m task_complexity_bounds [of goal_text]
    by (auto simp: signal_values_of_def Let_def evidence_ok_def dest: token_uncertainty_bounds [OF sym] split: if_splits)
qed

definition unit_interval :: "real \<Rightarrow> bool" where
  "unit_interval x \<longleftrightarrow> 0 \<le> x \<and> x \<le> 1"

definition signals_ok :: "signals \<Rightarrow> bool" where
  "signals_ok s \<longleftrightarrow> unit_interval (sg_self_uncertainty s) \<and> pred_option unit_interval (sg_token_uncertainty s)
     \<and> unit_interval (sg_inconsistency s) \<and> unit_interval (sg_critic_risk s) \<and> unit_interval (sg_task_complexity s)
     \<and> unit_interval (sg_explicit_escalation s) \<and> unit_interval (sg_combined_score s)"

lemma signal_of_bounds:
  assumes "evidence_ok samples crit" "signal_of (signal_values_of p goal_text samples crit) k = Some x"
  shows "unit_interval x"
proof -
  from assms(2) obtain y where y: "map_of (signal_values_of p goal_text samples crit) k = Some (Some y)" "x = round4 y"
    by (auto simp: signal_of_def dict_get_or_def split: option.splits)
  then have "0 \<le> y \<and> y \<le> 1" using signal_values_bounds [OF assms(1)] by (meson map_of_SomeD)
  then show ?thesis using y round4_bounds by (simp add: unit_interval_def)
qed

lemma signal_of_defined:
  "k \<in> {''self_uncertainty'', ''inconsistency'', ''critic_risk'', ''task_complexity'', ''explicit_escalation''} \<Longrightarrow>
     \<exists>x. signal_of (signal_values_of p goal_text samples crit) k = Some x"
  by (auto simp: signal_of_def signal_values_of_def dict_get_or_def Let_def)

lemma policy_signals_ok:
  assumes "evidence_ok samples crit"
  shows "signals_ok (policy_signals p goal_text samples crit)"
proof -
  let ?v = "signal_values_of p goal_text samples crit"
  have d: "unit_interval (the (signal_of ?v k))"
    if "k \<in> {''self_uncertainty'', ''inconsistency'', ''critic_risk'', ''task_complexity'', ''explicit_escalation''}" for k
    using signal_of_defined [OF that, of p goal_text samples crit] signal_of_bounds [OF assms] by fastforce
  have t: "pred_option unit_interval (signal_of ?v ''token_uncertainty'')"
    by (cases "signal_of ?v ''token_uncertainty''") (auto intro: signal_of_bounds [OF assms])
  have "unit_interval (round4 (combine p ?v))"
    using combine_bounds round4_bounds by (simp add: unit_interval_def)
  with d t show ?thesis
    by (simp add: signals_ok_def policy_signals_def Let_def)
qed

subsection \<open>When an answer is trusted\<close>

lemma decide_parts [simp]:
  "vd_tier (decide p tier goal_text samples crit) = tier"
  "vd_samples (decide p tier goal_text samples crit) = samples"
  "vd_critique (decide p tier goal_text samples crit) = crit"
  "vd_signals (decide p tier goal_text samples crit) = policy_signals p goal_text samples crit"
  "vd_threshold (decide p tier goal_text samples crit) = threshold p tier"
  by (auto simp: decide_def base_verdict_def Let_def split: option.splits)

text \<open>What a rule says does not depend on the fields that the decision fills in.\<close>

definition trusted_by_rules :: "rule list \<Rightarrow> verdict \<Rightarrow> bool" where
  "trusted_by_rules rs v \<longleftrightarrow> (\<forall>r \<in> set rs. rule_says r v \<noteq> Some True)"

lemma first_rule_None: "first_rule rs v = None \<longleftrightarrow> (\<forall>r \<in> set rs. rule_says r v = None)"
  by (induction rs) (auto split: option.splits)

lemma first_rule_Some: "first_rule rs v = Some (r, b) \<Longrightarrow> r \<in> set rs \<and> rule_says r v = Some b"
  by (induction rs) (auto split: option.splits)

text \<open>Rules that only ever escalate, as all the built-in ones do.\<close>

definition only_escalates :: "rule \<Rightarrow> bool" where
  "only_escalates r \<longleftrightarrow> (\<forall>v. rule_says r v \<noteq> Some False)"

lemma builtin_rules_only_escalate:
  "only_escalates escalate_when_requested" "only_escalates reject_empty_answers"
  "only_escalates (critic_fails s)" "only_escalates (token_uncertainty_at_least l ts n)"
  by (auto simp: only_escalates_def escalate_when_requested_def reject_empty_answers_def critic_fails_def
      token_uncertainty_at_least_def Let_def split: option.splits)

lemma decide_trusts_iff:
  assumes "\<forall>r \<in> set (rules p). only_escalates r"
  shows "\<not> vd_escalate (decide p tier goal_text samples crit) \<longleftrightarrow>
    \<not> (escalate_big_goals p \<and> int (request_parts goal_text) \<ge> bulk_parts p)
    \<and> (\<forall>r \<in> set (rules p). rule_says r (base_verdict p tier goal_text samples crit) = None)
    \<and> sg_combined_score (policy_signals p goal_text samples crit) < threshold p tier"
proof (cases "first_rule (rules p) (base_verdict p tier goal_text samples crit)")
  case None
  then show ?thesis
    by (auto simp: decide_def Let_def first_rule_None [symmetric] base_verdict_def not_le)
next
  case (Some rb)
  obtain r b where rb: "rb = (r, b)" by force
  with Some first_rule_Some have "r \<in> set (rules p)" "rule_says r (base_verdict p tier goal_text samples crit) = Some b"
    by blast+
  moreover from this assms have b by (cases b) (auto simp: only_escalates_def)
  ultimately show ?thesis using Some rb by (auto simp: decide_def Let_def)
qed


lemma agreement_disjoint_numbers:
  assumes "numbers_in a \<noteq> {}" "numbers_in b \<noteq> {}" "numbers_in a \<inter> numbers_in b = {}"
  shows "agreement a b \<le> 0.3"
  using assms by (simp add: agreement_def Let_def)

lemma agreement_self: "content_words a \<noteq> {} \<Longrightarrow> agreement a a = 1"
  using sm_ratio_bounds [of "squeeze a" "squeeze a"]
  by (auto simp: agreement_def Let_def max_def card_eq_0_iff)

lemma clamp_mono: "x \<le> y \<Longrightarrow> clamp x \<le> clamp y"
  by (auto simp: clamp_def)

lemma weighted_mono:
  assumes "list_all2 (rel_prod (=) (rel_option (\<le>))) vals vals'" "\<And>k w. map_of ws k = Some w \<Longrightarrow> 0 \<le> w"
  shows "map fst (weighted ws vals) = map fst (weighted ws vals')
       \<and> sum_list (map (\<lambda>(w, x). w * x) (weighted ws vals)) \<le> sum_list (map (\<lambda>(w, x). w * x) (weighted ws vals'))"
  using assms(1)
proof induction
  case (Cons x xs y ys)
  obtain k v v' where xy: "x = (k, v)" "y = (k, v')" "rel_option (\<le>) v v'"
    using Cons.hyps(1) by (cases x; cases y) auto
  show ?case
    using xy(3)
  proof (cases rule: option.rel_cases)
    case (Some a b)
    then show ?thesis
      using Cons.IH assms(2) [of k]
      by (auto simp: xy weighted_def mult_left_mono add_mono split: option.splits)
  qed (use Cons.IH in \<open>auto simp: xy weighted_def split: option.splits\<close>)
qed (simp add: weighted_def)

text \<open>
  Raising signals never lowers the score. With weights that are not negative, when every available
  signal of one reading is at most the same signal of another reading and the same signals are missing in
  both, the first combined score is at most the second: a worse critique, more disagreement or less
  confidence cannot turn an escalated answer into a trusted one by lowering its score.
\<close>

theorem combine_mono:
  assumes "list_all2 (rel_prod (=) (rel_option (\<le>))) vals vals'" "\<And>k w. map_of (weights p) k = Some w \<Longrightarrow> 0 \<le> w"
  shows "combine p vals \<le> combine p vals'"
proof -
  let ?s = "\<lambda>vs. sum_list (map (\<lambda>(w, x). w * x) (weighted (weights p) vs))"
  let ?t = "\<lambda>vs. sum_list (map fst (weighted (weights p) vs))"
  have eq: "?t vals = ?t vals'" and le: "?s vals \<le> ?s vals'" using weighted_mono [OF assms] by auto
  have "0 \<le> ?t vals'" by (intro sum_list_nonneg) (auto dest!: weighted_in assms(2))
  then have "clamp (?s vals / ?t vals) \<le> clamp (?s vals' / ?t vals')"
    using le unfolding eq by (intro clamp_mono divide_right_mono)
  then show ?thesis by (simp add: combine_def Let_def eq)
qed

theorem combine_mono_witness:
  "combine default_policy [(''self_uncertainty'', Some 0.1), (''token_uncertainty'', None), (''critic_risk'', Some 0)]
   \<le> combine default_policy [(''self_uncertainty'', Some 0.1), (''token_uncertainty'', None), (''critic_risk'', Some 0.9)]"
  by (rule combine_mono) (auto simp: default_policy_def WEIGHTS_def split: if_splits)

lemma fold_max_le: "fold max ns (m::nat) < n \<longleftrightarrow> m < n \<and> (\<forall>k \<in> set ns. k < n)"
  by (induction ns arbitrary: m) auto

lemma builtin_rules_silent:
  "rule_says escalate_when_requested v = None \<longleftrightarrow> (\<forall>a \<in> set (vd_samples v). \<not> as_needs_escalation a)"
  "rule_says reject_empty_answers v = None \<longleftrightarrow> strip (vd_answer v) \<noteq> []"
  "rule_says (critic_fails lo) v = None \<longleftrightarrow> cr_skipped (vd_critique v) \<or> cr_passed (vd_critique v) \<or> cr_severity (vd_critique v) < lo"
  "rule_says (token_uncertainty_at_least l ts n) v = None \<longleftrightarrow>
     (vd_tier v \<in> set ts \<longrightarrow> (\<forall>u. sg_token_uncertainty (vd_signals v) = Some u \<longrightarrow>
        u < l \<or> (0 < n \<and> (\<forall>a \<in> set (vd_samples v). sample_tokens a < n))))"
  using fold_max_le [of "map sample_tokens (vd_samples v)" 0 n]
  by (auto simp: escalate_when_requested_def reject_empty_answers_def critic_fails_def Let_def
      token_uncertainty_at_least_def list_ex_iff not_less split: option.splits)

lemma default_rules:
  "rules default_policy = [escalate_when_requested, reject_empty_answers, critic_fails 0.5, token_uncertainty_at_least 0.12 [''local''] 3]"
  by (simp add: default_policy_def)

text \<open>
  C8. When the default policy returns a local answer. \<open>decide\<close> trusts the samples of a model if and only
  if the goal asks for fewer than four things, no sample asks for a larger model, the first sample's
  answer is not blank, the critic did not reject it with severity 0.5 or more (or was skipped), the
  smallest model was not torn over an answer of three or more tokens (token uncertainty 0.12), and the
  combined score is below the tier's threshold, 0.25 for the mid tier and 0.30 for any other.
\<close>

theorem default_decision:
  "\<not> vd_escalate (decide default_policy tier goal (s # samples) crit) \<longleftrightarrow>
     request_parts goal < 4
     \<and> (\<forall>a \<in> set (s # samples). \<not> as_needs_escalation a)
     \<and> strip (as_answer s) \<noteq> []
     \<and> (cr_skipped crit \<or> cr_passed crit \<or> cr_severity crit < 0.5)
     \<and> (tier = ''local'' \<longrightarrow> (\<forall>u. sg_token_uncertainty (policy_signals default_policy goal (s # samples) crit) = Some u \<longrightarrow>
            u < 0.12 \<or> (\<forall>a \<in> set (s # samples). sample_tokens a < 3)))
     \<and> sg_combined_score (policy_signals default_policy goal (s # samples) crit) < (if tier = ''mid'' then 0.25 else 0.30)"
proof -
  have "\<forall>r \<in> set (rules default_policy). only_escalates r"
    by (simp add: default_policy_def builtin_rules_only_escalate)
  note iff = decide_trusts_iff [OF this, of tier goal "s # samples" crit]
  have rules: "(\<forall>r \<in> set (rules default_policy). rule_says r (base_verdict default_policy tier goal (s # samples) crit) = None) \<longleftrightarrow>
     (\<forall>a \<in> set (s # samples). \<not> as_needs_escalation a) \<and> strip (as_answer s) \<noteq> []
     \<and> (cr_skipped crit \<or> cr_passed crit \<or> cr_severity crit < 0.5)
     \<and> (tier = ''local'' \<longrightarrow> (\<forall>u. sg_token_uncertainty (policy_signals default_policy goal (s # samples) crit) = Some u \<longrightarrow>
            u < 0.12 \<or> (\<forall>a \<in> set (s # samples). sample_tokens a < 3)))"
    by (simp add: default_rules builtin_rules_silent) (simp add: base_verdict_def vd_answer_def)
  have thr: "threshold default_policy tier = (if tier = ''mid'' then 0.25 else 0.30)"
    by (simp add: threshold_def default_policy_def dict_get_or_def)
  have parts: "\<not> (escalate_big_goals default_policy \<and> int (request_parts goal) \<ge> bulk_parts default_policy) \<longleftrightarrow> request_parts goal < 4"
    by (auto simp: default_policy_def)
  show ?thesis unfolding iff rules thr parts by blast
qed

theorem default_decision_witness:
  "\<not> vd_escalate (decide default_policy ''local'' ''hi''
     [\<lparr>as_answer = ''Hello'', as_confidence = 1, as_task_type = ''chat'', as_difficulty = ''low'', as_needs_escalation = False, as_reason = [],
       as_structured = True, as_repaired = False, as_token_prob = None, as_token_stats = None\<rparr>]
     \<lparr>cr_passed = True, cr_severity = 0, cr_critique = [], cr_skipped = False, cr_tier = ''local''\<rparr>)"
proof -
  have "request_parts ''hi'' = 1" "task_complexity ''hi'' = 1 / 20" "strip ''Hello'' \<noteq> []" by code_simp+
  then show ?thesis
    unfolding default_decision
    by (simp add: policy_signals_def signal_values_of_def signal_of_def token_uncertainty_def combine_def weighted_def Let_def default_policy_def WEIGHTS_def mean_def sample_pairs_def clamp_def round4_def round_half_even_def dict_get_or_def)
qed

lemma read_assessment_unstructured:
  "read_assessment v st = Inr a \<Longrightarrow> \<not> as_structured a \<Longrightarrow> as_needs_escalation a \<and> as_confidence a = 0.15"
  by (auto simp: read_assessment_def Let_def bindE_eq_Inr split: pyval.splits option.splits if_splits)

lemma decide_requested:
  assumes "escalate_when_requested \<in> set (rules p)" "\<forall>r \<in> set (rules p). only_escalates r"
    "a \<in> set samples" "as_needs_escalation a"
  shows "vd_escalate (decide p tier goal samples crit)"
proof (rule ccontr)
  assume "\<not> ?thesis"
  then have "rule_says escalate_when_requested (base_verdict p tier goal samples crit) = None"
    using decide_trusts_iff [OF assms(2)] assms(1) by blast
  with assms(3,4) show False
    by (auto simp: escalate_when_requested_def base_verdict_def list_ex_iff split: if_splits)
qed

subsection \<open>Tiers of an attempt\<close>

lemma following_suffix: "\<exists>pre. x \<in> set xs \<longrightarrow> xs = pre @ x # following x xs \<and> x \<notin> set pre"
proof (induction xs)
  case (Cons y ys)
  then obtain pre where "x \<in> set ys \<longrightarrow> ys = pre @ x # following x ys \<and> x \<notin> set pre" by blast
  then show ?case
    by (cases "y = x") (auto intro: exI [of _ "[]"] exI [of _ "y # pre"])
qed simp

lemma following_split: "x \<in> set xs \<Longrightarrow> \<exists>pre. xs = pre @ x # following x xs \<and> x \<notin> set pre"
  using following_suffix by metis

lemma following_subset: "set (following x xs) \<subseteq> set xs"
  by (induction xs) auto

lemma critic_tier_local:
  assumes "tier \<noteq> ''cloud''" "tier \<in> set tiers"
  shows "critic_tier p tier tiers \<noteq> ''cloud'' \<and> critic_tier p tier tiers \<in> set tiers"
proof -
  have "set (following tier (local_tiers tiers)) \<subseteq> set tiers - {''cloud''}"
    using following_subset [of tier "local_tiers tiers"] by (auto simp: local_tiers_def)
  with assms show ?thesis by (auto simp: critic_tier_def split: list.splits)
qed

lemma worker_tiers_available:
  assumes "t_preferred_tier t \<in> set tiers"
  shows "\<exists>ts. worker_tiers p t tiers = Inr ts \<and> set ts \<subseteq> set tiers"
  using assms following_subset [of "t_preferred_tier t" tiers] by (auto simp: worker_tiers_def)

text \<open>
  The attempts of a local subtask. With a policy that passed its own checks and escalates failed
  subtasks, the attempts at a task start on the tier the plan chose, at least once, never go to a smaller
  tier, and then try every larger available tier exactly in order, smallest first.
\<close>

theorem worker_tiers_escalate:
  assumes "tiers = smaller @ t_preferred_tier t # larger" "t_preferred_tier t \<notin> set smaller" "t_preferred_tier t \<noteq> ''cloud''"
    and "RoutingPolicy_init p = Inr p" "escalate_failed_local_tasks p"
  shows "\<exists>n \<ge> 1. worker_tiers p t tiers = Inr (replicate n (t_preferred_tier t) @ larger)"
proof -
  have "following (t_preferred_tier t) tiers = larger"
    using assms(2) unfolding assms(1) by (induction smaller) auto
  moreover have "1 \<le> local_worker_attempts p" using assms(4) by (auto simp: RoutingPolicy_init_def bindE_eq_Inr)
  ultimately show ?thesis using assms by (intro exI [of _ "nat (local_worker_attempts p)"]) (auto simp: worker_tiers_def)
qed

theorem worker_tiers_escalate_witness:
  "\<exists>n \<ge> 1. worker_tiers default_policy
      \<lparr>t_id = ''a'', t_instruction = ''List the parts'', t_preferred_tier = ''local'', t_input_refs = [],
       t_depends_on = [], t_result_type = ''task_answer'', t_checks = [], t_why = ''short''\<rparr> [''local'', ''mid'', ''cloud'']
    = Inr (replicate n ''local'' @ [''mid'', ''cloud''])"
  using worker_tiers_escalate [of "[''local'', ''mid'', ''cloud'']" "[]"
      "\<lparr>t_id = ''a'', t_instruction = ''List the parts'', t_preferred_tier = ''local'', t_input_refs = [],
       t_depends_on = [], t_result_type = ''task_answer'', t_checks = [], t_why = ''short''\<rparr>" "[''mid'', ''cloud'']" default_policy]
  by (simp add: RoutingPolicy_init_def default_policy_def WEIGHTS_def requireE_def)

text \<open>
  C10. The opt-in exact extraction returns nothing but the source. When \<open>answer_exact_extraction\<close> accepts a
  local model's candidate, there is exactly one source, its text is not blank, and the answer shown is that
  source's key and its whole text, verbatim.
\<close>

theorem exact_extraction_verbatim:
  assumes "answer_exact_extraction goal sources candidate = Inr (Some ans)"
  shows "\<exists>key quote. sources = [(key, quote)] \<and> strip quote \<noteq> [] \<and> ans = ''**'' @ key @ ''**: '' @ quote"
proof -
  obtain key quote where s: "sources = [(key, quote)]"
    using assms by (auto simp: answer_exact_extraction_def split: list.splits prod.splits)
  let ?i = "[(source_ref key, PStr quote)]"
  obtain d where d: "candidate = PDict d" "validate_result ''report_extraction'' candidate ?i = Inr ()"
      "field d ''quote'' = PStr quote" "ans = ''**'' @ the_str (field d ''report_id'') @ ''**: '' @ quote"
    using assms s by (auto simp: answer_exact_extraction_def split: sum.splits exn.splits pyval.splits if_splits)
  then have "report_extraction d ?i = Inr ()"
    by (auto simp: validate_result_def RESULT_TYPES_def bindE_eq_Inr)
  then have "extraction_accepts d ?i"
    by (subst (asm) report_extraction_iff) (auto simp: dict_ok_def)
  then obtain k q src where acc: "map_of d ''report_id'' = Some (PStr k)" "map_of d ''quote'' = Some (PStr q)"
      "strip q \<noteq> []" "map_of ?i (source_ref k) = Some (PStr src)"
    unfolding extraction_accepts_def by blast
  from acc(4) have "k = key" by (simp add: source_ref_def split: if_splits)
  moreover have "q = quote" using acc(2) d(3) by (simp add: field_def dict_get_or_def)
  ultimately show ?thesis using s d(4) acc(1,3) by (simp add: field_def dict_get_or_def)
qed


theorem exact_extraction_verbatim_witness:
  "\<exists>key quote. [(''R1'', ''late crate'')] = [(key, quote)] \<and> strip quote \<noteq> [] \<and> ''**R1**: late crate'' = ''**'' @ key @ ''**: '' @ quote"
  by (rule exact_extraction_verbatim [of "''copy''" _ "PDict [(''report_id'', PStr ''R1''), (''quote'', PStr ''late crate'')]"]) code_simp

text \<open>
  C9. The routing signals are probabilities. Whatever JSON the solver and the critic returned, the signals
  computed from what was read of it, the combined score included, are between 0 and 1; only the token signal
  may be missing.
\<close>

theorem signals_bounded:
  assumes "samples \<noteq> []" and "\<forall>s \<in> set samples. \<exists>v st. read_assessment v st = Inr s" and "read_critique w = Inr crit"
  shows "signals_ok (policy_signals p goal_text samples crit)"
  using assms read_assessment_ok read_critique_ok
  by (intro policy_signals_ok) (auto simp: evidence_ok_def list_all_iff)

theorem signals_bounded_witness:
  "\<exists>s crit. read_assessment (PNone) None = Inr s \<and> read_critique (PStr ''fine'') = Inr crit
     \<and> signals_ok (policy_signals default_policy ''Name the capital'' [s] crit)"
proof -
  obtain s where s: "read_assessment (PNone) None = Inr s"
    by (simp add: read_assessment_def)
  obtain crit where c: "read_critique (PStr ''fine'') = Inr crit" by (simp add: read_critique_def)
  have "signals_ok (policy_signals default_policy ''Name the capital'' [s] crit)"
    by (rule signals_bounded [OF _ _ c]) (use s in auto)
  with s c show ?thesis by blast
qed

text \<open>
  The agreement of two answers is between 0 and 1, an answer with any content word agrees fully with itself,
  and two answers that state numbers but share none agree by at most 0.3, however similar their prose is.
\<close>

theorem agreement_of_answers:
  "0 \<le> agreement a b
   \<and> agreement a b \<le> (if numbers_in a \<noteq> {} \<and> numbers_in b \<noteq> {} \<and> numbers_in a \<inter> numbers_in b = {} then 0.3 else 1)
   \<and> (content_words a = {} \<or> agreement a a = 1)"
  using agreement_bounds agreement_disjoint_numbers [of a b] agreement_self [of a] by auto

end
