(* ===== verification/Relay_Budget.thy ===== *)
theory Relay_Budget
  imports Relay_Settings
begin

section \<open>Cloud call accounting (budget.py)\<close>

text \<open>
  \<^verbatim>\<open>CloudBudget\<close> counts the cloud calls of one run and holds one back for the call that writes
  the final answer. \<open>spend\<close> is the method of that name: an exception leaves the counters as they
  were. The locale \<open>call_ledger\<close> is what the engine relies on; \<open>CloudBudget\<close> is its interpretation.
\<close>

text \<open>The steps a model call is made for (the \<open>operation\<close> strings of \<^verbatim>\<open>prompts.py\<close>).\<close>

datatype operation = Solve | Critique | Answer | Attempt | PlanOp | Work | Synthesize | Direct

record budget =
  b_calls :: int
  b_worker_calls :: int

definition CloudBudget_init :: budget where
  "CloudBudget_init = \<lparr>b_calls = 0, b_worker_calls = 0\<rparr>"

definition is_final :: "operation \<Rightarrow> bool" where
  "is_final oper \<longleftrightarrow> oper = Synthesize \<or> oper = Answer"

definition spend :: "limits \<Rightarrow> operation \<Rightarrow> budget \<Rightarrow> budget res" where
  "spend lims oper b =
     (if \<not> cloud_enabled lims then Inl (BudgetError ''Cloud is disabled and no local answer was trusted'')
      else let reserve = (if is_final oper then 0 else 1)
      in if b_calls b \<ge> cloud_calls lims - reserve
         then Inl (BudgetError ''Cloud call budget exhausted (final synthesis reserved)'')
         else if oper = Work \<and> b_worker_calls b \<ge> cloud_worker_calls lims
         then Inl (BudgetError ''Cloud worker budget exhausted'')
         else Inr \<lparr>b_calls = b_calls b + 1,
                   b_worker_calls = (if oper = Work then b_worker_calls b + 1 else b_worker_calls b)\<rparr>)"

text \<open>
  The calls of a run as they are attempted one after the other, with the ones that were made; a
  refused call changes nothing.
\<close>

fun grants :: "('op \<Rightarrow> 'b \<Rightarrow> 'b res) \<Rightarrow> 'op list \<Rightarrow> 'b \<Rightarrow> 'b \<times> 'op list" where
  "grants grant [] b = (b, [])"
| "grants grant (oper # ops) b =
     (case grant oper b of
        Inl _ \<Rightarrow> grants grant ops b
      | Inr b' \<Rightarrow> (case grants grant ops b' of (b'', ok) \<Rightarrow> (b'', oper # ok)))"

subsection \<open>The contract\<close>

text \<open>
  A ledger grants or refuses calls. What the engine needs of it: a granted call raises the count by one
  and never past the cap, a nonfinal call leaves one call free, and while the ledger is open a final
  call is granted as long as one is free.
\<close>

locale call_ledger =
  fixes grant :: "'op \<Rightarrow> 'b \<Rightarrow> 'b res" and used :: "'b \<Rightarrow> int" and cap :: int
    and final :: "'op \<Rightarrow> bool" and is_open :: bool
  assumes grant_counts: "grant oper b = Inr b' \<Longrightarrow> used b' = used b + 1"
    and grant_cap: "grant oper b = Inr b' \<Longrightarrow> used b' \<le> cap"
    and grant_reserves: "grant oper b = Inr b' \<Longrightarrow> \<not> final oper \<Longrightarrow> used b' < cap"
    and final_granted: "is_open \<Longrightarrow> final oper \<Longrightarrow> used b < cap \<Longrightarrow> \<exists>b'. grant oper b = Inr b'"
begin

lemma grants_count: "grants grant ops b = (b', ok) \<Longrightarrow> used b' = used b + int (length ok)"
  by (induction ops arbitrary: b b' ok) (auto split: sum.splits prod.splits dest: grant_counts)

lemma grants_cap: "grants grant ops b = (b', ok) \<Longrightarrow> used b \<le> cap \<Longrightarrow> used b' \<le> cap"
  by (induction ops arbitrary: b b' ok) (auto split: sum.splits prod.splits dest: grant_cap)

lemma grants_reserve:
  "grants grant ops b = (b', ok) \<Longrightarrow> used b < cap \<Longrightarrow> list_all (\<lambda>oper. \<not> final oper) ok \<Longrightarrow> used b' < cap"
proof (induction ops arbitrary: b b' ok)
  case (Cons oper ops)
  show ?case
  proof (cases "grant oper b")
    case (Inl e)
    with Cons show ?thesis by simp
  next
    case (Inr b1)
    with Cons.prems obtain ok1 where g: "grants grant ops b1 = (b', ok1)" and ok: "ok = oper # ok1"
      by (auto split: prod.splits)
    with Cons.prems Inr have "used b1 < cap" by (auto dest: grant_reserves)
    with Cons.IH g ok Cons.prems(3) show ?thesis by simp
  qed
qed simp

lemma final_after_nonfinal:
  assumes "grants grant ops b = (b', ok)" "used b < cap" "list_all (\<lambda>oper. \<not> final oper) ok" "final oper"
    and "is_open"
  shows "\<exists>b''. grant oper b' = Inr b''"
  using assms(5,4) grants_reserve [OF assms(1-3)] by (rule final_granted)

end

subsection \<open>CloudBudget keeps the contract\<close>

lemma spend_counts: "spend lims oper b = Inr b' \<Longrightarrow> b_calls b' = b_calls b + 1"
  by (auto simp: spend_def Let_def split: if_splits)

lemma spend_work_counts:
  "spend lims oper b = Inr b' \<Longrightarrow>
     b_worker_calls b' = b_worker_calls b + (if oper = Work then 1 else 0)"
  by (auto simp: spend_def Let_def split: if_splits)

lemma spend_cap: "spend lims oper b = Inr b' \<Longrightarrow> b_calls b' \<le> cloud_calls lims"
  by (auto simp: spend_def Let_def split: if_splits)

lemma spend_reserves: "spend lims oper b = Inr b' \<Longrightarrow> \<not> is_final oper \<Longrightarrow> b_calls b' < cloud_calls lims"
  by (auto simp: spend_def Let_def split: if_splits)

lemma spend_worker_cap:
  "spend lims oper b = Inr b' \<Longrightarrow> b_worker_calls b \<le> cloud_worker_calls lims \<Longrightarrow>
     b_worker_calls b' \<le> cloud_worker_calls lims"
  by (auto simp: spend_def Let_def split: if_splits)

lemma spend_enabled: "spend lims oper b = Inr b' \<Longrightarrow> cloud_enabled lims"
  by (auto simp: spend_def split: if_splits)

lemma spend_final:
  "cloud_enabled lims \<Longrightarrow> is_final oper \<Longrightarrow> b_calls b < cloud_calls lims \<Longrightarrow>
     spend lims oper b = Inr (b\<lparr>b_calls := b_calls b + 1\<rparr>)"
  by (auto simp: spend_def is_final_def)

lemma spend_raises_budget_error: "spend lims oper b = Inl e \<Longrightarrow> \<exists>m. e = BudgetError m"
  by (auto simp: spend_def Let_def split: if_splits)

interpretation cb: call_ledger "spend lims" b_calls "cloud_calls lims" is_final "cloud_enabled lims"
  by unfold_locales (auto simp: spend_final dest: spend_counts spend_cap spend_reserves)

lemma grants_disabled: "\<not> cloud_enabled lims \<Longrightarrow> grants (spend lims) ops b = (b, [])"
  by (induction ops) (auto simp: spend_def)

lemma grants_worker_cap:
  "grants (spend lims) ops b = (b', ok) \<Longrightarrow> b_worker_calls b \<le> cloud_worker_calls lims \<Longrightarrow>
     b_worker_calls b' \<le> cloud_worker_calls lims"
  by (induction ops arbitrary: b ok) (auto split: sum.splits prod.splits dest: spend_worker_cap)

lemma grants_worker_counts:
  "grants (spend lims) ops b = (b', ok) \<Longrightarrow>
     b_worker_calls b' = b_worker_calls b + int (length (filter (\<lambda>oper. oper = Work) ok))"
  by (induction ops arbitrary: b ok) (auto split: sum.splits prod.splits dest: spend_work_counts)

text \<open>
  Over any sequence of attempted cloud calls of a fresh run the budget grants at most
  \<open>cloud_calls\<close> calls in all and at most \<open>cloud_worker_calls\<close> subtask calls, its counters are the
  numbers of granted calls, and as long as no final call (synthesis or direct answer) was granted, an
  enabled budget with at least one call still grants one: the call that writes the final answer is
  never spent on anything else.
\<close>

theorem spend_respects_limits:
  assumes "limits_ok lims" and "grants (spend lims) ops CloudBudget_init = (b, ok)"
  shows "b_calls b = int (length ok) \<and> b_calls b \<le> cloud_calls lims
    \<and> b_worker_calls b = int (length (filter (\<lambda>oper. oper = Work) ok))
    \<and> b_worker_calls b \<le> cloud_worker_calls lims
    \<and> (cloud_enabled lims \<and> 1 \<le> cloud_calls lims \<and> list_all (\<lambda>oper. \<not> is_final oper) ok \<longrightarrow>
         (\<exists>b'. spend lims Synthesize b = Inr b') \<and> (\<exists>b'. spend lims Answer b = Inr b'))"
proof -
  have init: "b_calls CloudBudget_init = 0" "b_worker_calls CloudBudget_init = 0"
    by (simp_all add: CloudBudget_init_def)
  have "\<exists>b'. spend lims oper b = Inr b'"
    if "cloud_enabled lims" "1 \<le> cloud_calls lims" "list_all (\<lambda>oper. \<not> is_final oper) ok" "is_final oper" for oper
    using cb.final_after_nonfinal [OF assms(2) _ that(3,4,1)] that(2) init by simp
  then show ?thesis
    using assms(1) cb.grants_count [OF assms(2)] cb.grants_cap [OF assms(2)]
      grants_worker_cap [OF assms(2)] grants_worker_counts [OF assms(2)] init
    by (auto simp: limits_ok_def is_final_def)
qed

theorem spend_respects_limits_witness:
  "limits_ok default_limits \<and>
   (let (b, ok) = grants (spend default_limits) [PlanOp, Work, Work, Work, PlanOp, PlanOp] CloudBudget_init
    in ok = [PlanOp, Work, Work, PlanOp] \<and> b_calls b = 4 \<and> (\<exists>b'. spend default_limits Synthesize b = Inr b'))"
proof -
  have g: "grants (spend default_limits) [PlanOp, Work, Work, Work, PlanOp, PlanOp] CloudBudget_init
      = (\<lparr>b_calls = 4, b_worker_calls = 2\<rparr>, [PlanOp, Work, Work, PlanOp])"
    by (simp add: spend_def default_limits_def CloudBudget_init_def is_final_def)
  show ?thesis
    using spend_respects_limits [OF default_limits_ok g] g default_limits_ok
    by (simp add: is_final_def default_limits_def)
qed

end
