(* ===== verification/Relay_Provider.thy ===== *)
theory Relay_Provider
  imports Relay_Budget Relay_Tokens Relay_Results
begin

section \<open>Providers (providers/\_\_init\_\_.py)\<close>

text \<open>
  What the engine sees of a model server: a reply, the tiers a provider serves, and how a call can end.
  The servers themselves are outside the program; a provider is a parameter of the engine's model.
\<close>

record reply =
  rp_value :: pyval
  rp_model :: string
  rp_prompt_tokens :: "int option"
  rp_completion_tokens :: "int option"
  rp_tokens :: "token list option"
  rp_thinking :: string
  rp_text :: string

text \<open>\<open>Reply(value, model)\<close> with the other fields at their defaults.\<close>

definition plain_reply :: "pyval \<Rightarrow> string \<Rightarrow> reply" where
  "plain_reply v m = \<lparr>rp_value = v, rp_model = m, rp_prompt_tokens = None, rp_completion_tokens = None,
                      rp_tokens = None, rp_thinking = [], rp_text = []\<rparr>"

definition TIER_ORDER :: "string list" where
  "TIER_ORDER = [''local'', ''mid'', ''cloud'']"

text \<open>\<open>models\<close> is the provider's optional attribute; a missing or empty one stands for local and cloud.\<close>

definition available_tiers :: "(string, string) dict option \<Rightarrow> string list" where
  "available_tiers models =
     (let ms = (case models of None \<Rightarrow> [(''local'', ''local''), (''cloud'', ''cloud'')]
                | Some m \<Rightarrow> if m = [] then [(''local'', ''local''), (''cloud'', ''cloud'')] else m)
      in filter (\<lambda>t. map_of ms t \<noteq> None) TIER_ORDER)"

text \<open>The names of the operations as the payloads, records and prompts spell them.\<close>

fun op_name :: "operation \<Rightarrow> string" where
  "op_name Solve = ''solve''"
| "op_name Critique = ''critique''"
| "op_name Answer = ''answer''"
| "op_name Attempt = ''attempt''"
| "op_name PlanOp = ''plan''"
| "op_name Work = ''work''"
| "op_name Synthesize = ''synthesize''"
| "op_name Direct = ''direct''"

text \<open>
  How one awaited \<open>provider.complete\<close> ends: with a reply, with an object that is not a \<open>Reply\<close>, or with an
  exception. \<open>Raised TimeoutError\<close> is the call's own deadline (\<open>asyncio.timeout(call_timeout)\<close>);
  \<open>Raised CancelledError\<close> and \<open>Raised DeadlineCancelled\<close> are the two ways the call is interrupted.
\<close>

datatype outcome = Replied reply | NotAReply | Raised exn

lemma op_name_inj [simp]: "op_name a = op_name b \<longleftrightarrow> a = b"
  by (cases a; cases b) auto

lemma available_tiers_order: "subseq (available_tiers models) TIER_ORDER"
  by (simp add: available_tiers_def Let_def subseq_filter_left)

lemma available_tiers_distinct [simp]: "distinct (available_tiers models)"
  by (simp add: available_tiers_def Let_def TIER_ORDER_def)

lemma available_tiers_cloud_last:
  assumes "''cloud'' \<in> set (available_tiers models)"
  shows "\<exists>ts. available_tiers models = ts @ [''cloud''] \<and> ''cloud'' \<notin> set ts"
proof -
  have "filter P TIER_ORDER = filter P [''local'', ''mid''] @ [''cloud'']" if "P ''cloud''" for P
    using that by (simp add: TIER_ORDER_def)
  moreover obtain P where P: "available_tiers models = filter P TIER_ORDER"
    by (simp add: available_tiers_def Let_def)
  ultimately show ?thesis using assms by (auto intro!: exI [of _ "filter P [''local'', ''mid'']"])
qed

end
