(* ===== verification/Relay_Run.thy ===== *)
theory Relay_Run
  imports Relay_Policy Relay_Provider
begin

section \<open>The state of one run (engine.py, events.py)\<close>

text \<open>
  The state of \<^verbatim>\<open>_Run\<close> and its elementary operations: publishing an event, starting a model
  call, following its output, finishing it. What the run depends on but does not compute is the record
  \<open>env\<close>: the provider's attributes and its answer to each call, the limits and the policy, whether a
  callback listens, the clock, and where a cancellation arrives.

  Every call has a number, its position in \<open>calls\<close>; \<open>e_complete\<close> answers call \<open>i\<close>, so that a provider
  may answer the same payload differently each time. \<open>e_live i\<close> is what the model has written so far
  each time the watcher of call \<open>i\<close> wakes up. \<open>e_interrupt n\<close> says whether a cancellation arrives while
  event \<open>n\<close> is being delivered; everything else that goes wrong in a callback is swallowed there.
\<close>

subsection \<open>Dictionaries made of dataclasses\<close>

definition PReal :: "real \<Rightarrow> pyval" where
  "PReal x = PFloat (Fin x)"

definition opt_val :: "('a \<Rightarrow> pyval) \<Rightarrow> 'a option \<Rightarrow> pyval" where
  "opt_val f v = (case v of None \<Rightarrow> PNone | Some x \<Rightarrow> f x)"

definition task_dict :: "task \<Rightarrow> pyval" where
  "task_dict t = PDict
     [(''id'', PStr (t_id t)), (''instruction'', PStr (t_instruction t)), (''preferred_tier'', PStr (t_preferred_tier t)),
      (''input_refs'', PList (map PStr (t_input_refs t))), (''depends_on'', PList (map PStr (t_depends_on t))),
      (''result_type'', PStr (t_result_type t)), (''checks'', PList (map PStr (t_checks t))), (''why'', PStr (t_why t))]"

definition token_stats_dict :: "token_stats \<Rightarrow> pyval" where
  "token_stats_dict s = PDict
     [(''span'', PStr (ts_span s)), (''count'', PInt (int (ts_count s))), (''mean_logprob'', PReal (ts_mean_logprob s)),
      (''prob'', PReal (ts_prob s)), (''hesitation'', PReal (ts_hesitation s)), (''median_prob'', PReal (ts_median_prob s)),
      (''min_prob'', PReal (ts_min_prob s)), (''min_token'', PStr (ts_min_token s)),
      (''tokens'', PList (map (\<lambda>t. PDict [(''t'', PStr (sh_t t)), (''p'', PReal (sh_p t)),
         (''alt'', PList (map (\<lambda>(a, p). PList [PStr a, PReal p]) (sh_alt t)))]) (ts_tokens s)))]"

definition assessment_dict :: "assessment \<Rightarrow> pyval" where
  "assessment_dict a = PDict
     [(''answer'', PStr (as_answer a)), (''confidence'', PReal (as_confidence a)), (''task_type'', PStr (as_task_type a)),
      (''difficulty'', PStr (as_difficulty a)), (''needs_escalation'', PBool (as_needs_escalation a)),
      (''reason'', PStr (as_reason a)), (''structured'', PBool (as_structured a)), (''repaired'', PBool (as_repaired a)),
      (''token_prob'', opt_val PReal (as_token_prob a)), (''token_stats'', opt_val token_stats_dict (as_token_stats a))]"

definition critique_dict :: "critique \<Rightarrow> pyval" where
  "critique_dict c = PDict
     [(''passed'', PBool (cr_passed c)), (''severity'', PReal (cr_severity c)), (''critique'', PStr (cr_critique c)),
      (''skipped'', PBool (cr_skipped c)), (''tier'', PStr (cr_tier c))]"

definition signals_dict :: "signals \<Rightarrow> pyval" where
  "signals_dict s = PDict
     [(''self_uncertainty'', PReal (sg_self_uncertainty s)), (''token_uncertainty'', opt_val PReal (sg_token_uncertainty s)),
      (''inconsistency'', PReal (sg_inconsistency s)), (''critic_risk'', PReal (sg_critic_risk s)),
      (''task_complexity'', PReal (sg_task_complexity s)), (''explicit_escalation'', PReal (sg_explicit_escalation s)),
      (''combined_score'', PReal (sg_combined_score s))]"

definition verdict_dict :: "verdict \<Rightarrow> pyval" where
  "verdict_dict v = PDict
     [(''tier'', PStr (vd_tier v)), (''samples'', PList (map assessment_dict (vd_samples v))),
      (''critique'', critique_dict (vd_critique v)), (''signals'', signals_dict (vd_signals v)),
      (''threshold'', PReal (vd_threshold v)), (''escalate'', PBool (vd_escalate v)), (''reason'', PStr (vd_reason v))]"

definition judgment_dict :: "self_judgment \<Rightarrow> pyval" where
  "judgment_dict j = PDict [(''confidence'', opt_val PStr (j_confidence j)), (''note'', PStr (j_note j))]"

subsection \<open>Records of calls and events\<close>

record call_record =
  r_tier :: string
  r_operation :: operation
  r_task_id :: pyval
  r_attempt :: pyval
  r_for_tier :: pyval
  r_model :: "string option"
  r_prompt_tokens :: "int option"
  r_completion_tokens :: "int option"
  r_outcome :: string
  r_elapsed_ms :: int
  r_judgment :: "self_judgment option"
  r_token_stats :: "token_stats option"
  r_output :: "(string \<times> string) option"
  r_started_ms :: int

definition record_dict :: "call_record \<Rightarrow> pydict" where
  "record_dict r =
     [(''tier'', PStr (r_tier r)), (''operation'', PStr (op_name (r_operation r))), (''task_id'', r_task_id r),
      (''attempt'', r_attempt r), (''for_tier'', r_for_tier r), (''model'', opt_val PStr (r_model r)),
      (''prompt_tokens'', opt_val PInt (r_prompt_tokens r)), (''completion_tokens'', opt_val PInt (r_completion_tokens r)),
      (''outcome'', PStr (r_outcome r)), (''elapsed_ms'', PInt (r_elapsed_ms r)),
      (''judgment'', opt_val judgment_dict (r_judgment r)), (''token_stats'', opt_val token_stats_dict (r_token_stats r)),
      (''output'', opt_val (\<lambda>(th, an). PDict [(''thinking'', PStr th), (''answer'', PStr an)]) (r_output r)),
      (''started_ms'', PInt (r_started_ms r))]"

record relay_event =
  ev_run_id :: string
  ev_seq :: nat
  ev_name :: string
  ev_message :: string
  ev_done :: bool
  ev_simulated :: bool
  ev_data :: pydict

record run_state =
  seq :: nat
  events :: "relay_event list"
  calls :: "call_record list"
  results :: "(string, pyval) dict"
  budget_of :: budget
  route :: "string option"
  verdicts :: "verdict list"
  skipped :: "string list"
  slots :: nat

subsection \<open>What a run depends on\<close>

record env =
  e_run_id :: string
  e_limits :: limits
  e_policy :: policy
  e_models :: "(string, string) dict option"
  e_simulated :: bool
  e_notice :: "string option"
  e_streams :: bool
  e_emit :: bool
  e_on_delta :: bool
  e_locations :: "pyval res option"
  e_complete :: "nat \<Rightarrow> string \<Rightarrow> operation \<Rightarrow> pydict \<Rightarrow> outcome"
  e_live :: "nat \<Rightarrow> string list"
  e_interrupt :: "nat \<Rightarrow> exn option"
  e_started_ms :: "nat \<Rightarrow> int"
  e_elapsed_ms :: "nat \<Rightarrow> int"
  e_run_ms :: int

definition tiers_of :: "env \<Rightarrow> string list" where
  "tiers_of env = available_tiers (e_models env)"

text \<open>\<open>self.models.get(tier, tier)\<close> and \<open>self.models.get(tier)\<close>.\<close>

definition models_of :: "env \<Rightarrow> (string, string) dict" where
  "models_of env = (case e_models env of None \<Rightarrow> [] | Some m \<Rightarrow> m)"

definition model_name :: "env \<Rightarrow> string \<Rightarrow> string" where
  "model_name env tier = dict_get_or (models_of env) tier tier"

definition model_val :: "env \<Rightarrow> string \<Rightarrow> pyval" where
  "model_val env tier = opt_val PStr (map_of (models_of env) tier)"

definition Run_init :: "env \<Rightarrow> run_state" where
  "Run_init env = \<lparr>seq = 0, events = [], calls = [], results = [], budget_of = CloudBudget_init, route = None,
                   verdicts = [], skipped = [], slots = nat (local_concurrency (e_limits env))\<rparr>"

subsection \<open>Computations on the state\<close>

text \<open>A step of the run returns or raises, and leaves the state it reached in either case.\<close>

type_synonym 'a comp = "run_state \<Rightarrow> 'a res \<times> run_state"

definition ret :: "'a \<Rightarrow> 'a comp" where
  "ret x s = (Inr x, s)"

definition raise :: "exn \<Rightarrow> 'a comp" where
  "raise e s = (Inl e, s)"

definition after :: "'a comp \<Rightarrow> ('a \<Rightarrow> 'b comp) \<Rightarrow> 'b comp" where
  "after m f s = (case m s of (Inl e, s') \<Rightarrow> (Inl e, s') | (Inr x, s') \<Rightarrow> f x s')"

definition update :: "(run_state \<Rightarrow> run_state) \<Rightarrow> unit comp" where
  "update f s = (Inr (), f s)"

definition read :: "(run_state \<Rightarrow> 'a) \<Rightarrow> 'a comp" where
  "read f s = (Inr (f s), s)"

text \<open>A pure computation that may raise.\<close>

definition lift :: "'a res \<Rightarrow> 'a comp" where
  "lift r s = (r, s)"

text \<open>\<open>try: m except E as exc: h\<close>, where \<open>catches\<close> says which exceptions are \<open>E\<close>.\<close>

definition catch :: "(exn \<Rightarrow> bool) \<Rightarrow> 'a comp \<Rightarrow> (exn \<Rightarrow> 'a comp) \<Rightarrow> 'a comp" where
  "catch catches m h s = (case m s of (Inl e, s') \<Rightarrow> if catches e then h e s' else (Inl e, s') | r \<Rightarrow> r)"

subsection \<open>Events\<close>

definition publish :: "env \<Rightarrow> string \<Rightarrow> string \<Rightarrow> bool \<Rightarrow> pydict \<Rightarrow> run_state \<Rightarrow> run_state" where
  "publish env name message fin data s =
     (let n = seq s + 1
      in s\<lparr>seq := n,
           events := events s @
             (if e_emit env
              then [\<lparr>ev_run_id = e_run_id env, ev_seq = n, ev_name = name, ev_message = message, ev_done = fin,
                     ev_simulated = e_simulated env, ev_data = data\<rparr>] else [])\<rparr>)"

text \<open>\<open>await self.event(...)\<close>: without a callback there is nothing to wait for.\<close>

definition event :: "env \<Rightarrow> string \<Rightarrow> string \<Rightarrow> bool \<Rightarrow> pydict \<Rightarrow> unit comp" where
  "event env name message fin data s =
     (let s' = publish env name message fin data s
      in if e_emit env then (case e_interrupt env (seq s') of Some e \<Rightarrow> if is_cancellation e then (Inl e, s') else (Inr (), s')
                             | None \<Rightarrow> (Inr (), s'))
         else (Inr (), s'))"

subsection \<open>Model calls\<close>

definition LIVE_LIMIT :: nat where
  "LIVE_LIMIT = 6000"

definition new_record :: "env \<Rightarrow> nat \<Rightarrow> string \<Rightarrow> operation \<Rightarrow> pydict \<Rightarrow> call_record" where
  "new_record env i tier oper payload =
     \<lparr>r_tier = tier, r_operation = oper,
      r_task_id = (case field payload ''task'' of PDict t \<Rightarrow> field t ''id'' | _ \<Rightarrow> PNone),
      r_attempt = field payload ''attempt'', r_for_tier = field payload ''for_tier'', r_model = None,
      r_prompt_tokens = None, r_completion_tokens = None, r_outcome = ''started'', r_elapsed_ms = 0, r_judgment = None,
      r_token_stats = None, r_output = None, r_started_ms = e_started_ms env i\<rparr>"

text \<open>The first part of \<open>call_with_record\<close>: the budget, then the record. It returns the call's number.\<close>

definition begin_call :: "env \<Rightarrow> string \<Rightarrow> operation \<Rightarrow> pydict \<Rightarrow> nat comp" where
  "begin_call env tier oper payload s =
     (case (if tier = ''cloud'' then spend (e_limits env) oper (budget_of s) else Inr (budget_of s)) of
        Inl e \<Rightarrow> (Inl e, s)
      | Inr b \<Rightarrow> (Inr (length (calls s)),
                  s\<lparr>budget_of := b, calls := calls s @ [new_record env (length (calls s)) tier oper payload]\<rparr>))"

definition set_record :: "nat \<Rightarrow> (call_record \<Rightarrow> call_record) \<Rightarrow> run_state \<Rightarrow> run_state" where
  "set_record i f s = s\<lparr>calls := (calls s)[i := f (calls s ! i)]\<rparr>"

text \<open>
  \<open>follow\<close>: the texts seen each time the watcher wakes up; nothing is published when the length has not
  changed. It runs only for a streaming provider with a callback.
\<close>

definition live_texts :: "env \<Rightarrow> nat \<Rightarrow> string list" where
  "live_texts env i = (if e_streams env \<and> e_emit env then e_live env i else [])"

definition follow_tick :: "env \<Rightarrow> nat \<Rightarrow> nat \<Rightarrow> string \<Rightarrow> run_state \<Rightarrow> nat \<times> run_state" where
  "follow_tick env i shown live s =
     (if length live = shown then (shown, s)
      else (length live,
            let r = calls s ! i
            in publish env ''call_output'' ''Model is writing'' False
                 [(''tier'', PStr (r_tier r)), (''operation'', PStr (op_name (r_operation r))), (''task_id'', r_task_id r),
                  (''for_tier'', r_for_tier r), (''attempt'', r_attempt r),
                  (''output'', PStr (drop (length live - LIVE_LIMIT) live)), (''written'', PInt (int (length live)))] s))"

fun follow :: "env \<Rightarrow> nat \<Rightarrow> nat \<Rightarrow> string list \<Rightarrow> run_state \<Rightarrow> run_state" where
  "follow env i shown [] s = s"
| "follow env i shown (live # lives) s =
     (case follow_tick env i shown live s of (shown', s') \<Rightarrow> follow env i shown' lives s')"

text \<open>What \<open>live["text"]\<close> holds when the call ends.\<close>

definition live_text :: "env \<Rightarrow> nat \<Rightarrow> string" where
  "live_text env i = (if (e_emit env \<or> e_on_delta env) \<and> e_streams env \<and> e_live env i \<noteq> [] then last (e_live env i) else [])"

text \<open>The checks on the reply: the value, the judgment split off it, and the reply itself.\<close>

definition read_reply :: "operation \<Rightarrow> outcome \<Rightarrow> (pyval \<times> self_judgment option \<times> reply) res" where
  "read_reply oper out =
     (case out of
        Raised e \<Rightarrow> Inl e
      | NotAReply \<Rightarrow> Inl (RelayError ''Invalid provider response envelope'')
      | Replied rp \<Rightarrow>
          if rp_model rp = [] then Inl (RelayError ''Invalid provider response envelope'')
          else (case (if oper = Attempt \<or> oper = Work then split_judgment (rp_value rp) else (rp_value rp, None)) of
                  (v, j) \<Rightarrow> Inr (v, j, rp)))"

definition cancelled_record :: "env \<Rightarrow> nat \<Rightarrow> call_record \<Rightarrow> call_record" where
  "cancelled_record env i r = r\<lparr>r_outcome := ''cancelled'', r_elapsed_ms := e_elapsed_ms env i\<rparr>"

definition failed_record :: "env \<Rightarrow> nat \<Rightarrow> call_record \<Rightarrow> call_record" where
  "failed_record env i r =
     r\<lparr>r_outcome := ''failed'', r_elapsed_ms := e_elapsed_ms env i, r_output := Some ([], take LIVE_LIMIT (live_text env i))\<rparr>"

definition completed_record :: "env \<Rightarrow> nat \<Rightarrow> self_judgment option \<Rightarrow> reply \<Rightarrow> call_record \<Rightarrow> call_record" where
  "completed_record env i j rp r =
     r\<lparr>r_model := Some (rp_model rp), r_prompt_tokens := rp_prompt_tokens rp, r_completion_tokens := rp_completion_tokens rp,
       r_outcome := ''completed'', r_judgment := j, r_token_stats := answer_token_stats (rp_tokens rp) ''answer'',
       r_output := Some (take LIVE_LIMIT (rp_thinking rp), take LIVE_LIMIT (rp_text rp)), r_elapsed_ms := e_elapsed_ms env i\<rparr>"

definition call_event :: "env \<Rightarrow> nat \<Rightarrow> string \<Rightarrow> run_state \<Rightarrow> unit res \<times> run_state" where
  "call_event env i how s =
     (let r = calls s ! i
      in event env ''call_finished'' (r_tier r @ '' '' @ op_name (r_operation r) @ '' call '' @ how) False (record_dict r) s)"

text \<open>
  The rest of \<open>call_with_record\<close>, once the provider has answered call \<open>i\<close>: a cancelled call is recorded
  and nothing is published, a failed one is recorded and published before the exception goes on.
\<close>

definition end_call :: "env \<Rightarrow> nat \<Rightarrow> operation \<Rightarrow> outcome \<Rightarrow> (pyval \<times> call_record) comp" where
  "end_call env i oper out s =
     (case read_reply oper out of
        Inl e \<Rightarrow>
          if is_cancellation e then (Inl e, set_record i (cancelled_record env i) s)
          else after (call_event env i ''failed'') (\<lambda>_. raise e) (set_record i (failed_record env i) s)
      | Inr (v, j, rp) \<Rightarrow>
          after (call_event env i ''finished'') (\<lambda>_ s'. (Inr (v, calls s' ! i), s')) (set_record i (completed_record env i j rp) s))"

definition call_with_record :: "env \<Rightarrow> string \<Rightarrow> operation \<Rightarrow> pydict \<Rightarrow> (pyval \<times> call_record) comp" where
  "call_with_record env tier oper payload =
     after (begin_call env tier oper payload) (\<lambda>i.
     after (update (follow env i 0 (live_texts env i))) (\<lambda>_.
     end_call env i oper (e_complete env i tier oper payload)))"

definition call :: "env \<Rightarrow> string \<Rightarrow> operation \<Rightarrow> pydict \<Rightarrow> pyval comp" where
  "call env tier oper payload = after (call_with_record env tier oper payload) (\<lambda>(v, r). ret v)"

end
