(* ===== verification/Relay_Tasks.thy ===== *)
theory Relay_Tasks
  imports Relay_Run "HOL-Library.Multiset"
begin

section \<open>Subtasks (engine.py: worker, run\_tasks)\<close>

text \<open>
  Plan mode runs the subtasks of a plan in batches of concurrent jobs. A job is a small state machine
  whose phases are the points at which the coroutine is suspended; the order in which the event loop
  resumes the jobs is a parameter (\<open>schedule\<close>), so every statement about \<open>run_batch\<close> and \<open>run_tasks\<close>
  is about every interleaving. \<open>run_batch\<close> ends because a step moves one job forward in a well-founded
  order and the others not at all; \<open>run_tasks\<close> ends because a batch removes its tasks.
\<close>

subsection \<open>Inputs and previews\<close>

text \<open>
  The loop that collects a task's inputs: \<open>prefix, key = ref.split(".", 1)\<close> fails on a reference without
  a dot, and the two lookups on a missing key.
\<close>

definition input_value :: "sources \<Rightarrow> (string, pyval) dict \<Rightarrow> string \<Rightarrow> pyval res" where
  "input_value sources done ref =
     (case partition_at (CHR ''.'') ref of
        (pre, False, _) \<Rightarrow> Inl (ValueError ''not enough values to unpack (expected 2, got 1)'')
      | (pre, True, key) \<Rightarrow>
          (case (if pre = ''sources'' then map_option PStr (map_of sources key) else map_of done key) of
             None \<Rightarrow> Inl KeyError
           | Some v \<Rightarrow> Inr v))"

fun collect_inputs :: "sources \<Rightarrow> (string, pyval) dict \<Rightarrow> string list \<Rightarrow> inputs \<Rightarrow> inputs res" where
  "collect_inputs sources done [] acc = Inr acc"
| "collect_inputs sources done (ref # refs) acc =
     bindE (input_value sources done ref) (\<lambda>v. collect_inputs sources done refs (dict_set ref v acc))"

text \<open>\<open>_preview\<close> of an accepted result; a result with the one key \<open>answer\<close> has passed \<open>task_answer\<close>, so its answer is text.\<close>

definition preview :: "pyval \<Rightarrow> string" where
  "preview v =
     (let body = (case v of PDict d \<Rightarrow> if keys_are d [''answer''] then the_str (field d ''answer'') else json_dumps v
                  | _ \<Rightarrow> json_dumps v)
      in if length body \<le> 600 then body else take 599 body @ ch_ellipsis)"

subsection \<open>One subtask\<close>

text \<open>
  Where a worker is suspended. Between two phases other workers may run; a step is what happens from one
  \<open>await\<close> to the next. \<open>Waiting\<close> is the semaphore's \<open>acquire\<close>, \<open>Calling\<close> the provider's answer to a numbered call
  together with what its watcher has still to publish.
\<close>

datatype phase =
    Entry
  | Trying
  | Waiting nat string
  | Starting nat string
  | Sending nat string
  | Calling nat string nat nat "string list"
  | Returned nat string "(pyval \<times> call_record) res"
  | Finished "pyval res"

record worker =
  w_task :: task
  w_inputs :: inputs
  w_left :: "(nat \<times> string) list"
  w_errors :: "string list"
  w_previous :: string
  w_phase :: phase

definition new_worker :: "task \<Rightarrow> worker" where
  "new_worker t = \<lparr>w_task = t, w_inputs = [], w_left = [], w_errors = [], w_previous = t_preferred_tier t, w_phase = Entry\<rparr>"

fun is_finished :: "phase \<Rightarrow> bool" where
  "is_finished (Finished _) = True"
| "is_finished _ = False"

text \<open>Whether a worker is inside \<open>async with self.local_slots\<close>.\<close>

fun in_slot :: "phase \<Rightarrow> bool" where
  "in_slot (Starting _ tier) = (tier \<noteq> ''cloud'')"
| "in_slot (Sending _ tier) = (tier \<noteq> ''cloud'')"
| "in_slot (Calling _ tier _ _ _) = (tier \<noteq> ''cloud'')"
| "in_slot (Returned _ tier _) = (tier \<noteq> ''cloud'')"
| "in_slot _ = False"

definition take_slot :: "string \<Rightarrow> run_state \<Rightarrow> run_state" where
  "take_slot tier s = (if tier = ''cloud'' then s else s\<lparr>slots := slots s - 1\<rparr>)"

definition release_slot :: "string \<Rightarrow> run_state \<Rightarrow> run_state" where
  "release_slot tier s = (if tier = ''cloud'' then s else s\<lparr>slots := slots s + 1\<rparr>)"

text \<open>A worker's own task is cancelled only by \<open>run_tasks\<close>, so delivering its events is not interrupted.\<close>

definition inner :: "env \<Rightarrow> env" where
  "inner env = env\<lparr>e_interrupt := (\<lambda>_. None)\<rparr>"

definition work_payload :: "string \<Rightarrow> worker \<Rightarrow> nat \<Rightarrow> pydict" where
  "work_payload goal w attempt =
     [(''task'', task_dict (w_task w)), (''inputs'', PDict (w_inputs w)), (''goal'', PStr goal),
      (''attempt'', PInt (int attempt)), (''errors'', PList (map PStr (w_errors w)))]"

definition last_error :: "worker \<Rightarrow> pyval" where
  "last_error w = (if w_errors w = [] then PNone else PStr (last (w_errors w)))"

definition invalid_event :: "env \<Rightarrow> worker \<Rightarrow> nat \<Rightarrow> string \<Rightarrow> string \<Rightarrow> string \<Rightarrow> pyval \<Rightarrow> run_state \<Rightarrow> run_state" where
  "invalid_event env w attempt tier why err judged =
     publish env ''task_invalid'' (t_id (w_task w) @ why) False
       [(''task_id'', PStr (t_id (w_task w))), (''tier'', PStr tier), (''attempt'', PInt (int attempt)),
        (''error'', PStr err), (''judgment'', judged)]"

text \<open>What the loop body does with the outcome of an attempt.\<close>

definition settle :: "env \<Rightarrow> worker \<Rightarrow> nat \<Rightarrow> string \<Rightarrow> (pyval \<times> call_record) res \<Rightarrow> run_state \<Rightarrow> worker \<times> run_state" where
  "settle env w attempt tier r s =
     (case r of
        Inl (BudgetError m) \<Rightarrow> (w\<lparr>w_phase := Finished (Inl (BudgetError m))\<rparr>, s)
      | Inl e \<Rightarrow>
          if is_relay_error e
          then (w\<lparr>w_errors := w_errors w @ [exn_str e], w_phase := Trying\<rparr>,
                invalid_event env w attempt tier '': call failed'' (exn_str e) PNone s)
          else (w\<lparr>w_phase := Finished (Inl e)\<rparr>, s)
      | Inr (v, rec) \<Rightarrow>
          (case validate_result (t_result_type (w_task w)) v (w_inputs w) of
             Inl (ValidationError m) \<Rightarrow>
               (w\<lparr>w_errors := w_errors w @ [m], w_phase := Trying\<rparr>,
                invalid_event env w attempt tier '': result failed checks'' m (opt_val judgment_dict (r_judgment rec)) s)
           | Inl e \<Rightarrow> (w\<lparr>w_phase := Finished (Inl e)\<rparr>, s)
           | Inr _ \<Rightarrow>
               (w\<lparr>w_phase := Finished (Inr v)\<rparr>,
                publish env ''task_completed''
                  (t_id (w_task w) @ '': '' @ (if t_result_type (w_task w) = ''task_answer'' then ''output format checked'' else ''checks passed''))
                  False
                  [(''task_id'', PStr (t_id (w_task w))), (''tier'', PStr tier), (''attempt'', PInt (int attempt)),
                   (''judgment'', opt_val judgment_dict (r_judgment rec)), (''result'', PStr (preview v))]
                  (s\<lparr>results := dict_set (t_id (w_task w)) v (results s)\<rparr>))))"

definition step_worker :: "env \<Rightarrow> string \<Rightarrow> sources \<Rightarrow> worker \<Rightarrow> run_state \<Rightarrow> worker \<times> run_state" where
  "step_worker env goal sources w s =
     (let t = w_task w in
      case w_phase w of
        Entry \<Rightarrow>
          (case bindE (collect_inputs sources (results s) (t_input_refs t) []) (\<lambda>ins.
                bindE (worker_tiers (e_policy env) t (tiers_of env)) (\<lambda>ts. Inr (ins, ts))) of
             Inl e \<Rightarrow> (w\<lparr>w_phase := Finished (Inl e)\<rparr>, s)
           | Inr (ins, ts) \<Rightarrow> (w\<lparr>w_inputs := ins, w_left := zip [1..<length ts + 1] ts, w_phase := Trying\<rparr>, s))
      | Trying \<Rightarrow>
          (case w_left w of
             [] \<Rightarrow> (w\<lparr>w_phase := Finished (Inl (ValidationError (''Subtask '' @ t_id t @ '' failed validation; dependent tasks were not run'')))\<rparr>, s)
           | (attempt, tier) # rest \<Rightarrow>
               (w\<lparr>w_left := rest, w_previous := tier, w_phase := Waiting attempt tier\<rparr>,
                if tier \<noteq> w_previous w
                then publish env ''task_escalated'' (''Escalating only '' @ t_id t @ '' to '' @ tier) False
                       [(''task_id'', PStr (t_id t)), (''tier'', PStr tier), (''from_tier'', PStr (w_previous w)),
                        (''attempt'', PInt (int attempt)), (''reason'', last_error w)] s
                else s))
      | Waiting attempt tier \<Rightarrow> (w\<lparr>w_phase := Starting attempt tier\<rparr>, take_slot tier s)
      | Starting attempt tier \<Rightarrow>
          (w\<lparr>w_phase := Sending attempt tier\<rparr>,
           publish env ''task_started'' (t_id t @ '': '' @ tier @ '' attempt '' @ show_nat attempt) False
             [(''task_id'', PStr (t_id t)), (''tier'', PStr tier), (''attempt'', PInt (int attempt)),
              (''model'', model_val env tier)] s)
      | Sending attempt tier \<Rightarrow>
          (case begin_call env tier Work (work_payload goal w attempt) s of
             (Inl e, s') \<Rightarrow> (w\<lparr>w_phase := Returned attempt tier (Inl e)\<rparr>, s')
           | (Inr i, s') \<Rightarrow> (w\<lparr>w_phase := Calling attempt tier i 0 (live_texts env i)\<rparr>, s'))
      | Calling attempt tier i shown [] \<Rightarrow>
          (case end_call (inner env) i Work (e_complete env i tier Work (work_payload goal w attempt)) s of
             (r, s') \<Rightarrow> (w\<lparr>w_phase := Returned attempt tier r\<rparr>, s'))
      | Calling attempt tier i shown (live # lives) \<Rightarrow>
          (case follow_tick env i shown live s of
             (shown', s') \<Rightarrow> (w\<lparr>w_phase := Calling attempt tier i shown' lives\<rparr>, s'))
      | Returned attempt tier r \<Rightarrow> settle env w attempt tier r (release_slot tier s)
      | Finished r \<Rightarrow> (w, s))"

fun can_step :: "run_state \<Rightarrow> phase \<Rightarrow> bool" where
  "can_step s (Finished _) = False"
| "can_step s (Waiting _ tier) = (tier = ''cloud'' \<or> slots s > 0)"
| "can_step s _ = True"

text \<open>\<open>job.cancel()\<close>: a call that is waiting is recorded as cancelled, a held slot is given back.\<close>

definition cancel_worker :: "env \<Rightarrow> worker \<Rightarrow> run_state \<Rightarrow> worker \<times> run_state" where
  "cancel_worker env w s =
     (case w_phase w of
        Finished r \<Rightarrow> (w, s)
      | Calling attempt tier i shown lives \<Rightarrow>
          (w\<lparr>w_phase := Finished (Inl CancelledError)\<rparr>, release_slot tier (set_record i (cancelled_record env i) s))
      | Starting attempt tier \<Rightarrow> (w\<lparr>w_phase := Finished (Inl CancelledError)\<rparr>, release_slot tier s)
      | Sending attempt tier \<Rightarrow> (w\<lparr>w_phase := Finished (Inl CancelledError)\<rparr>, release_slot tier s)
      | Returned attempt tier r \<Rightarrow> (w\<lparr>w_phase := Finished (Inl CancelledError)\<rparr>, release_slot tier s)
      | _ \<Rightarrow> (w\<lparr>w_phase := Finished (Inl CancelledError)\<rparr>, s))"

fun cancel_all :: "env \<Rightarrow> worker list \<Rightarrow> run_state \<Rightarrow> worker list \<times> run_state" where
  "cancel_all env [] s = ([], s)"
| "cancel_all env (w # ws) s =
     (case cancel_worker env w s of (w', s') \<Rightarrow> (case cancel_all env ws s' of (ws', s'') \<Rightarrow> (w' # ws', s'')))"

subsection \<open>A batch of subtasks\<close>

text \<open>
  The event loop decides which job runs next. \<open>Step k\<close> lets job \<open>k\<close> run (the first one that can, if it
  cannot); once a job has failed, \<open>CancelRest\<close> is the moment at which \<open>gather\<close> has raised in \<open>run_tasks\<close> and the
  \<open>finally\<close> block cancels the others; \<open>Interrupt\<close> is a cancellation of the whole run.
\<close>

datatype choice = Step nat | CancelRest | Interrupt exn

type_synonym schedule = "run_state \<Rightarrow> worker list \<Rightarrow> choice"

definition pick :: "nat \<Rightarrow> worker list \<Rightarrow> run_state \<Rightarrow> nat option" where
  "pick k ws s =
     (if k < length ws \<and> can_step s (w_phase (ws ! k)) then Some k
      else find (\<lambda>i. can_step s (w_phase (ws ! i))) [0..<length ws])"

definition next_job :: "schedule \<Rightarrow> worker list \<Rightarrow> run_state \<Rightarrow> nat option" where
  "next_job sched ws s = pick (case sched s ws of Step k \<Rightarrow> k | _ \<Rightarrow> 0) ws s"

text \<open>Whether the rest of the batch is cancelled now, and with which exception \<open>gather\<close> left.\<close>

definition stops :: "schedule \<Rightarrow> exn option \<Rightarrow> worker list \<Rightarrow> run_state \<Rightarrow> exn option" where
  "stops sched first ws s =
     (case sched s ws of
        Interrupt e \<Rightarrow> if is_cancellation e then Some e else None
      | CancelRest \<Rightarrow> first
      | Step k \<Rightarrow> None)"

definition first_failure :: "exn option \<Rightarrow> worker \<Rightarrow> exn option" where
  "first_failure first w =
     (case first of Some e \<Rightarrow> Some e | None \<Rightarrow> (case w_phase w of Finished (Inl e) \<Rightarrow> Some e | _ \<Rightarrow> None))"

text \<open>The order in which a worker moves on: it never returns to an earlier phase of the same attempt.\<close>

fun phase_rank :: "phase \<Rightarrow> nat \<times> nat" where
  "phase_rank Entry = (0, 0)"
| "phase_rank (Waiting _ _) = (6, 0)"
| "phase_rank (Starting _ _) = (5, 0)"
| "phase_rank (Sending _ _) = (4, 0)"
| "phase_rank (Calling _ _ _ _ lives) = (3, length lives)"
| "phase_rank (Returned _ _ _) = (2, 0)"
| "phase_rank Trying = (1, 0)"
| "phase_rank (Finished _) = (0, 0)"

definition rank :: "worker \<Rightarrow> nat \<times> nat \<times> nat \<times> nat" where
  "rank w = ((if w_phase w = Entry then 1 else 0), length (w_left w), phase_rank (w_phase w))"

definition rank_less :: "((nat \<times> nat \<times> nat \<times> nat) \<times> (nat \<times> nat \<times> nat \<times> nat)) set" where
  "rank_less = less_than <*lex*> less_than <*lex*> less_than <*lex*> less_than"

lemma wf_rank_less: "wf rank_less"
  unfolding rank_less_def by (intro wf_lex_prod wf_less_than)

lemma settle_moves:
  assumes "settle env w a tier r s = (w', s')" "w_phase w = Returned a tier r"
  shows "(rank w', rank w) \<in> rank_less"
  using assms unfolding settle_def rank_def rank_less_def
  by (auto split: sum.splits exn.splits if_splits)

lemma step_worker_moves:
  assumes "step_worker env goal sources w s = (w', s')" "\<not> is_finished (w_phase w)"
  shows "(rank w', rank w) \<in> rank_less"
proof (cases "w_phase w")
  case (Calling a tier i shown lives)
  with assms(1) show ?thesis
    by (cases lives) (auto simp: step_worker_def rank_def rank_less_def Let_def split: prod.splits)
next
  case (Returned a tier r)
  with assms(1) show ?thesis
    using settle_moves [of env w a tier r "release_slot tier s" w' s'] by (simp add: step_worker_def Let_def)
qed (use assms in \<open>auto simp: step_worker_def rank_def rank_less_def Let_def split: sum.splits list.splits prod.splits\<close>)

lemma mset_update_less:
  assumes "(r w', r (ws ! i)) \<in> R" "i < length ws"
  shows "(mset (map r (ws[i := w'])), mset (map r ws)) \<in> mult R"
proof -
  let ?M = "mset (map r ws) - {#r (ws ! i)#}"
  have "mset (map r ws) = ?M + {#r (ws ! i)#}" using assms(2) by simp
  moreover have "mset (map r (ws[i := w'])) = ?M + {#r w'#}"
    using assms(2) by (simp add: map_update mset_update)
  moreover have "(?M + {#r w'#}, ?M + {#r (ws ! i)#}) \<in> mult R"
    using assms(1) by (intro one_step_implies_mult) auto
  ultimately show ?thesis by simp
qed

lemma can_step_not_finished: "can_step s ph \<Longrightarrow> \<not> is_finished ph"
  by (cases ph) auto

lemma pick_can_step: "pick k ws s = Some i \<Longrightarrow> i < length ws \<and> can_step s (w_phase (ws ! i))"
  by (auto simp: pick_def find_Some_iff split: if_splits)

lemma next_job_moves:
  assumes "next_job sched ws s = Some i" "(w', s') = step_worker env goal sources (ws ! i) s"
  shows "(mset (map rank (ws[i := w'])), mset (map rank ws)) \<in> mult rank_less"
proof -
  have i: "i < length ws" "can_step s (w_phase (ws ! i))"
    using assms(1) pick_can_step by (auto simp: next_job_def)
  show ?thesis
    using i step_worker_moves [OF assms(2) [symmetric] can_step_not_finished [OF i(2)]] by (intro mset_update_less)
qed

function (sequential) run_batch ::
  "env \<Rightarrow> string \<Rightarrow> sources \<Rightarrow> schedule \<Rightarrow> exn option \<Rightarrow> worker list \<Rightarrow> run_state \<Rightarrow> exn option \<times> worker list \<times> run_state" where
  "run_batch env goal sources sched first ws s =
     (if list_all (\<lambda>w. is_finished (w_phase w)) ws then (first, ws, s)
      else (case stops sched first ws s of
              Some e \<Rightarrow> (Some e, cancel_all env ws s)
            | None \<Rightarrow>
                (case next_job sched ws s of
                   None \<Rightarrow> (Some DeadlineCancelled, cancel_all env ws s)
                 | Some i \<Rightarrow>
                     (case step_worker env goal sources (ws ! i) s of
                        (w', s') \<Rightarrow> run_batch env goal sources sched (first_failure first w') (ws[i := w']) s'))))"
  by pat_completeness auto
termination
  by (relation "inv_image (mult rank_less) (\<lambda>(env, goal, sources, sched, first, ws, s). mset (map rank ws))")
    (auto intro!: wf_inv_image wf_mult wf_rank_less simp del: mset_map dest: next_job_moves)

declare run_batch.simps [simp del]

subsection \<open>The task graph\<close>

text \<open>\<open>{t.id: t for t in plan.tasks}\<close>, as the list of its values.\<close>

definition pending_tasks :: "plan \<Rightarrow> task list" where
  "pending_tasks p = map snd (foldl (\<lambda>d t. dict_set (t_id t) t d) [] (p_tasks p))"

definition ready_tasks :: "task list \<Rightarrow> run_state \<Rightarrow> task list" where
  "ready_tasks pending s = filter (\<lambda>t. set (t_depends_on t) \<subseteq> set (dict_keys (results s))) pending"

definition worker_value :: "worker \<Rightarrow> pyval" where
  "worker_value w = (case w_phase w of Finished (Inr v) \<Rightarrow> v | _ \<Rightarrow> PNone)"

definition store_values :: "task list \<Rightarrow> worker list \<Rightarrow> run_state \<Rightarrow> run_state" where
  "store_values ready ws s =
     foldl (\<lambda>st (t, w). st\<lparr>results := dict_set (t_id t) (worker_value w) (results st)\<rparr>) s (zip ready ws)"

function (sequential) run_tasks ::
  "env \<Rightarrow> string \<Rightarrow> sources \<Rightarrow> schedule \<Rightarrow> task list \<Rightarrow> run_state \<Rightarrow> unit res \<times> run_state" where
  "run_tasks env goal sources sched pending s =
     (if pending = [] then (Inr (), s)
      else if ready_tasks pending s = [] then (Inl (ValidationError ''No executable task remains''), s)
      else (case run_batch env goal sources sched None (map new_worker (ready_tasks pending s)) s of
              (Some e, ws, s') \<Rightarrow> (Inl e, s')
            | (None, ws, s') \<Rightarrow>
                run_tasks env goal sources sched
                  (filter (\<lambda>t. t_id t \<notin> set (map t_id (ready_tasks pending s))) pending)
                  (store_values (ready_tasks pending s) ws s')))"
  by pat_completeness auto
termination
proof (relation "measure (\<lambda>(env, goal, sources, sched, pending, s). length pending)")
  fix env :: env and goal :: string and sources :: "sources" and sched :: schedule and pending s s'
  assume "ready_tasks pending s \<noteq> []"
  then obtain t where t: "t \<in> set (ready_tasks pending s)" by (cases "ready_tasks pending s") auto
  then have "t \<in> set pending" by (simp add: ready_tasks_def)
  then have "length (filter (\<lambda>t. t_id t \<notin> set (map t_id (ready_tasks pending s))) pending) < length pending"
    using t by (intro length_filter_less) auto
  then show "((env, goal, sources, sched, filter (\<lambda>t. t_id t \<notin> set (map t_id (ready_tasks pending s))) pending, s'),
      (env, goal, sources, sched, pending, s)) \<in> measure (\<lambda>(env, goal, sources, sched, pending, s). length pending)"
    by simp
qed auto

declare run_tasks.simps [simp del]

end
