(* ===== verification/Relay_Conversation.thy ===== *)
theory Relay_Conversation
  imports Relay_Results
begin

section \<open>Conversations (conversation.py)\<close>

text \<open>
  A chat conversation becomes a relay request: the latest user message is the goal, the whole
  conversation the source. \<open>messages\<close> is whatever the caller passed, a \<^typ>\<open>pyval\<close>.
\<close>

definition LOCAL_EXTRACT_COMMAND :: string where
  "LOCAL_EXTRACT_COMMAND = ''/local-extract''"

definition MAX_CONVERSATION_CHARS :: nat where
  "MAX_CONVERSATION_CHARS = 24000"

record relay_request =
  rq_goal :: string
  rq_sources :: "(string, string) dict"
  rq_local_extract :: bool

definition ROLES :: "pyval list" where
  "ROLES = [PStr ''system'', PStr ''user'', PStr ''assistant'']"

fun message_ok :: "pyval \<Rightarrow> bool" where
  "message_ok (PDict m) \<longleftrightarrow> field m ''role'' \<in> set ROLES \<and> is_str (field m ''content'')"
| "message_ok _ \<longleftrightarrow> False"

text \<open>The role and the content of a checked message.\<close>

fun msg_role :: "pyval \<Rightarrow> string" where
  "msg_role (PDict m) = the_str (field m ''role'')"
| "msg_role _ = []"

fun msg_content :: "pyval \<Rightarrow> string" where
  "msg_content (PDict m) = the_str (field m ''content'')"
| "msg_content _ = []"

definition transcript :: "pyval list \<Rightarrow> string" where
  "transcript ms = join (newline @ newline) (map (\<lambda>m. msg_role m @ '': '' @ msg_content m) ms)"

definition check_messages :: "pyval \<Rightarrow> pyval list res" where
  "check_messages messages =
     (case messages of
        PList ms \<Rightarrow>
          bindE (requireE (ms \<noteq> [] \<and> list_all message_ok ms)
            (RelayError ''Horizon Relay currently accepts text-only conversations without tools or attachments'')) (\<lambda>_.
          bindE (requireE (\<not> length (transcript ms) > MAX_CONVERSATION_CHARS)
            (RelayError (''Conversation exceeds the prototype'' @ [CHR 0x27] @ ''s '' @ show_nat MAX_CONVERSATION_CHARS
                         @ ''-character limit; start a shorter chat''))) (\<lambda>_.
          Inr ms))
      | _ \<Rightarrow> Inl (RelayError ''Horizon Relay currently accepts text-only conversations without tools or attachments''))"

text \<open>\<open>next((m["content"].strip() for m in reversed(messages) if m["role"] == "user"), "")\<close>.\<close>

definition last_user :: "pyval list \<Rightarrow> string" where
  "last_user ms = (case filter (\<lambda>m. msg_role m = ''user'') (rev ms) of [] \<Rightarrow> [] | m # _ \<Rightarrow> strip (msg_content m))"

definition to_request :: "pyval \<Rightarrow> relay_request res" where
  "to_request messages =
     bindE (check_messages messages) (\<lambda>ms.
       let goal = last_user ms
       in if prefix (LOCAL_EXTRACT_COMMAND @ '' '') goal
          then Inr \<lparr>rq_goal = ''Extract the text source verbatim'',
                    rq_sources = [(''text'', drop (length LOCAL_EXTRACT_COMMAND + 1) goal)], rq_local_extract = True\<rparr>
          else Inr \<lparr>rq_goal = goal, rq_sources = [(''conversation'', transcript ms)], rq_local_extract = False\<rparr>)"

subsection \<open>Properties\<close>

lemma check_messages_errors: "check_messages v = Inl e \<Longrightarrow> is_relay_error e"
  by (auto simp: check_messages_def bindE_eq_Inl split: pyval.splits)

lemma check_messages_ok:
  "check_messages v = Inr ms \<longleftrightarrow>
     v = PList ms \<and> ms \<noteq> [] \<and> list_all message_ok ms \<and> length (transcript ms) \<le> MAX_CONVERSATION_CHARS"
  by (auto simp: check_messages_def bindE_eq_Inr split: pyval.splits)

lemma transcript_not_Nil: "ms \<noteq> [] \<Longrightarrow> transcript ms \<noteq> []"
  by (cases ms rule: list.exhaust; cases "tl ms") (auto simp: transcript_def)

lemma length_join: "s \<in> set ss \<Longrightarrow> length s \<le> length (join sep ss)"
  by (induction sep ss rule: join.induct) auto

lemma last_user_length: "length (last_user ms) \<le> length (transcript ms)"
proof (cases "filter (\<lambda>m. msg_role m = ''user'') (rev ms)")
  case (Cons m rest)
  then have "m \<in> set (filter (\<lambda>m. msg_role m = ''user'') (rev ms))" by simp
  then have m: "m \<in> set ms" by simp
  have "length (strip (msg_content m)) \<le> length (msg_role m @ '': '' @ msg_content m)"
    using length_strip_le [of "msg_content m"] by simp
  also have "\<dots> \<le> length (transcript ms)" unfolding transcript_def by (rule length_join) (use m in auto)
  finally show ?thesis using Cons by (simp add: last_user_def)
qed (simp add: last_user_def)

lemma strip_last: "strip s \<noteq> [] \<Longrightarrow> \<not> is_space (last (strip s))"
  unfolding strip_def rstrip_def using hd_dropWhile [of is_space "rev (lstrip s)"]
  by (simp add: last_rev del: dropWhile_eq_Nil_conv)

lemma last_user_last: "last_user ms \<noteq> [] \<Longrightarrow> \<not> is_space (last (last_user ms))"
  by (auto simp: last_user_def strip_last split: list.splits)

lemma extract_text_not_Nil:
  assumes "prefix (LOCAL_EXTRACT_COMMAND @ '' '') (last_user ms)"
  shows "drop (length LOCAL_EXTRACT_COMMAND + 1) (last_user ms) \<noteq> []"
proof
  assume "drop (length LOCAL_EXTRACT_COMMAND + 1) (last_user ms) = []"
  moreover obtain rest where rest: "last_user ms = LOCAL_EXTRACT_COMMAND @ '' '' @ rest"
    using assms by (auto simp: prefix_def)
  ultimately have "last_user ms = LOCAL_EXTRACT_COMMAND @ '' ''" by simp
  then have "last (last_user ms) = CHR '' ''" "last_user ms \<noteq> []" by auto
  with last_user_last [of ms] show False by (simp add: is_space_def)
qed

text \<open>
  What a conversation becomes. Whatever is passed, \<open>to_request\<close> raises only a relay error; an accepted
  conversation becomes a request with exactly one source, whose text is not empty and has at most 24000
  characters, and with a goal of at most 24000 characters that neither the source limit of
  \<open>RelayEngine.run\<close> nor its empty-source check can refuse; the exact-extraction route is taken only for the
  command.
\<close>

theorem to_request_shape:
  "(case to_request messages of
      Inl e \<Rightarrow> is_relay_error e
    | Inr r \<Rightarrow> (\<exists>key body. rq_sources r = [(key, body)] \<and> body \<noteq> [] \<and> length body \<le> 24000)
             \<and> length (rq_goal r) \<le> 24000
             \<and> (rq_local_extract r \<longleftrightarrow> (\<exists>ms. messages = PList ms \<and> prefix ''/local-extract '' (last_user ms))))"
proof (cases "check_messages messages")
  case (Inl e)
  then show ?thesis by (simp add: to_request_def check_messages_errors)
next
  case (Inr ms)
  then have ok: "messages = PList ms" "ms \<noteq> []" "length (transcript ms) \<le> 24000"
    by (auto simp: check_messages_ok MAX_CONVERSATION_CHARS_def)
  have len: "length (last_user ms) \<le> 24000" using last_user_length [of ms] ok(3) by linarith
  show ?thesis
  proof (cases "prefix (LOCAL_EXTRACT_COMMAND @ '' '') (last_user ms)")
    case True
    with Inr ok len extract_text_not_Nil [OF True] show ?thesis
      by (simp add: to_request_def Let_def LOCAL_EXTRACT_COMMAND_def)
  next
    case False
    with Inr ok len transcript_not_Nil [OF ok(2)] show ?thesis
      by (simp add: to_request_def Let_def LOCAL_EXTRACT_COMMAND_def)
  qed
qed

end
