(* ===== verification/Relay_Engine.thy ===== *)
theory Relay_Engine
  imports Relay_Tasks Relay_Conversation
begin

section \<open>The engine (engine.py, relay.py)\<close>

text \<open>
  \<^verbatim>\<open>RelayEngine.run\<close> and \<^verbatim>\<open>_Run.execute\<close>: the local models answer and are judged,
  smallest first; if none is trusted the cloud answers, or plans, delegates and assembles. Everything the
  run does to its state goes through the elementary operations of \<open>Relay_Run\<close> and \<open>Relay_Tasks\<close>.
\<close>

definition sources_dict :: "sources \<Rightarrow> pyval" where
  "sources_dict sources = PDict (map (\<lambda>(k, v). (k, PStr v)) sources)"

definition blank_line :: string where
  "blank_line = newline @ newline"

definition task_text :: "string \<Rightarrow> sources \<Rightarrow> string" where
  "task_text goal sources =
     (case sources of
        [(''conversation'', conversation)] \<Rightarrow>
          if strip conversation = ''user: '' @ goal then goal
          else conversation @ blank_line @ ''Respond to the last user message.''
      | _ \<Rightarrow> goal @ blank_line @ join blank_line (map (\<lambda>(key, body). ''['' @ key @ '']'' @ newline @ body) sources))"

definition SIMULATED_LABEL :: string where
  "SIMULATED_LABEL = ''**SIMULATED DEMO '' @ ch_emdash @ '' built-in bug reports; no real model or API calls.**'' @ blank_line"

definition label :: "env \<Rightarrow> string \<Rightarrow> string" where
  "label env answer = (if e_simulated env then SIMULATED_LABEL @ answer else answer)"

subsection \<open>Metrics\<close>

record metrics =
  m_simulated :: bool
  m_route :: "string option"
  m_verdicts :: "verdict list"
  m_skipped :: "string list"
  m_elapsed_ms :: int
  m_local_calls :: nat
  m_cloud_calls :: int
  m_completed_tasks :: "string list"
  m_calls :: "call_record list"

definition metrics_of :: "env \<Rightarrow> run_state \<Rightarrow> metrics" where
  "metrics_of env s =
     \<lparr>m_simulated = e_simulated env, m_route = route s, m_verdicts = verdicts s, m_skipped = skipped s,
      m_elapsed_ms = e_run_ms env, m_local_calls = count_true (map (\<lambda>c. r_tier c \<noteq> ''cloud'') (calls s)),
      m_cloud_calls = b_calls (budget_of s), m_completed_tasks = dict_keys (results s), m_calls = calls s\<rparr>"

definition metrics_dict :: "metrics \<Rightarrow> pyval" where
  "metrics_dict m = PDict
     [(''simulated'', PBool (m_simulated m)), (''route'', opt_val PStr (m_route m)),
      (''verdicts'', PList (map verdict_dict (m_verdicts m))), (''skipped'', PList (map PStr (m_skipped m))),
      (''elapsed_ms'', PInt (m_elapsed_ms m)), (''local_calls'', PInt (int (m_local_calls m))),
      (''cloud_calls'', PInt (m_cloud_calls m)), (''completed_tasks'', PList (map PStr (m_completed_tasks m))),
      (''calls'', PList (map (\<lambda>c. PDict (record_dict c)) (m_calls m)))]"

record run_result =
  rr_run_id :: string
  rr_content :: string
  rr_results :: "(string, pyval) dict"
  rr_metrics :: metrics

definition summary :: "run_result \<Rightarrow> string" where
  "summary r =
     (let m = rr_metrics r; cs = m_calls m;
          usage = (if m_simulated m then ''unavailable (simulation)''
                   else if list_all (\<lambda>c. r_prompt_tokens c \<noteq> None \<and> r_completion_tokens c \<noteq> None) cs
                   then show_int (sum_list (map (\<lambda>c. the (r_prompt_tokens c) + the (r_completion_tokens c)) cs))
                   else ''unavailable for some calls'')
      in ''Relay: '' @ show_nat (m_local_calls m) @ '' local calls '' @ ch_middot @ '' '' @ show_int (m_cloud_calls m)
         @ '' cloud calls '' @ ch_middot @ '' tokens: '' @ usage @ ''.'')"

subsection \<open>Exact extraction\<close>

definition try_extract :: "env \<Rightarrow> string \<Rightarrow> sources \<Rightarrow> string option comp" where
  "try_extract env goal sources =
     after (event env ''local_attempt'' ''Trying an exact local extraction'' False
              [(''tier'', PStr ''local''), (''model'', model_val env ''local'')]) (\<lambda>_.
     after (call env ''local'' Attempt
              [(''goal'', PStr goal), (''sources'', sources_dict sources), (''local_extract'', PBool True)]) (\<lambda>candidate.
     after (lift (answer_exact_extraction goal sources candidate)) (\<lambda>answer.
     (case answer of
        None \<Rightarrow>
          after (event env ''extract_failed'' ''Extraction did not match the source exactly'' False [(''tier'', PStr ''local'')])
            (\<lambda>_. ret None)
      | Some ans \<Rightarrow>
          after (update (\<lambda>s. s\<lparr>results := dict_set ''local_answer'' candidate (results s)\<rparr>)) (\<lambda>_.
          after (event env ''local_accepted'' ''Source evidence checked; answered locally'' False [(''tier'', PStr ''local'')]) (\<lambda>_.
          ret (Some ans)))))))"

subsection \<open>One local model\<close>

text \<open>The solver's value when its call failed.\<close>

definition failed_solve :: "exn \<Rightarrow> pyval" where
  "failed_solve e = PDict
     [(''answer'', PStr []), (''confidence'', PReal 0), (''task_type'', PStr ''failed''), (''difficulty'', PStr ''high''),
      (''needs_escalation'', PBool True), (''reason'', PStr (''The call failed: '' @ exn_str e))]"

definition solve_payload :: "string \<Rightarrow> string \<Rightarrow> nat \<Rightarrow> pydict" where
  "solve_payload tier body i =
     [(''task'', PStr body), (''temperature'', PReal ((25 + 15 * real i) / 100)), (''attempt'', PInt (int i + 1)),
      (''for_tier'', PStr tier)]"

text \<open>The loop over the samples from number \<open>i\<close> on; \<open>n\<close> of them are left.\<close>

fun sample_loop :: "env \<Rightarrow> string \<Rightarrow> string \<Rightarrow> nat \<Rightarrow> nat \<Rightarrow> assessment list \<Rightarrow> assessment list comp" where
  "sample_loop env tier body i 0 samples = ret samples"
| "sample_loop env tier body i (Suc n) samples =
     after (catch is_relay_error
              (after (call_with_record env tier Solve (solve_payload tier body i)) (\<lambda>(v, r). ret (v, r_token_stats r)))
              (\<lambda>e. ret (failed_solve e, None))) (\<lambda>(v, stats).
     after (lift (read_assessment v stats)) (\<lambda>sample.
     after (event env ''local_sample''
              (model_name env tier @ '' answer '' @ show_nat (i + 1) @ '': confidence '' @ fmt2 (as_confidence sample)) False
              [(''tier'', PStr tier), (''attempt'', PInt (int i + 1)), (''assessment'', assessment_dict sample)]) (\<lambda>_.
     if as_needs_escalation sample then ret (samples @ [sample])
     else sample_loop env tier body (i + 1) n (samples @ [sample]))))"

definition critique_loop :: "env \<Rightarrow> string \<Rightarrow> string \<Rightarrow> assessment list \<Rightarrow> critique comp" where
  "critique_loop env tier body samples =
     (let p = e_policy env; critic = critic_tier p tier (tiers_of env)
      in if \<not> use_critic p
         then ret \<lparr>cr_passed = True, cr_severity = 0, cr_critique = ''Critic disabled by policy.'', cr_skipped = True, cr_tier = []\<rparr>
         else if list_ex as_needs_escalation samples
         then ret \<lparr>cr_passed = False, cr_severity = 1,
                   cr_critique = ''Critic skipped: the model already asked for a larger model.'', cr_skipped = True, cr_tier = []\<rparr>
         else
           after (event env ''local_critique'' (model_name env critic @ '' is checking the answer'') False
                    [(''tier'', PStr tier), (''critic_tier'', PStr critic), (''model'', PStr (model_name env critic))]) (\<lambda>_.
           catch is_relay_error
             (after (call env critic Critique
                       [(''task'', PStr body), (''answer'', PStr (case samples of [] \<Rightarrow> [] | a # _ \<Rightarrow> as_answer a)),
                        (''attempt'', PInt (int (length samples) + 1)), (''for_tier'', PStr tier)]) (\<lambda>raw.
              after (lift (read_critique raw)) (\<lambda>c. ret (c\<lparr>cr_tier := critic\<rparr>))))
             (\<lambda>e. ret \<lparr>cr_passed = False, cr_severity = 1, cr_critique = ''The critic call failed: '' @ exn_str e,
                       cr_skipped = False, cr_tier = critic\<rparr>)))"

definition judge_locally :: "env \<Rightarrow> string \<Rightarrow> string \<Rightarrow> verdict comp" where
  "judge_locally env tier body =
     after (event env ''local_solve'' (model_name env tier @ '' is answering'') False
              [(''tier'', PStr tier), (''model'', PStr (model_name env tier))]) (\<lambda>_.
     after (sample_loop env tier body 0 (nat (local_samples (e_policy env))) []) (\<lambda>samples.
     after (critique_loop env tier body samples) (\<lambda>crit.
     let v = decide (e_policy env) tier body samples crit
     in after (event env ''local_verdict'' (vd_reason v) False
                 [(''tier'', PStr tier), (''verdict'', verdict_dict v),
                  (''weights'', PDict (map (\<lambda>(k, x). (k, PReal x)) (weights (e_policy env))))]) (\<lambda>_.
        ret v))))"

subsection \<open>Planning\<close>

definition plan_payload :: "env \<Rightarrow> string \<Rightarrow> sources \<Rightarrow> pyval list \<Rightarrow> string option \<Rightarrow> nat \<Rightarrow> pydict" where
  "plan_payload env goal sources attempts err attempt =
     [(''goal'', PStr goal), (''sources'', sources_dict sources), (''validation_error'', opt_val PStr err),
      (''tiers'', PList (map PStr (tiers_of env))), (''local_attempts'', PList attempts), (''attempt'', PInt (int attempt))]"

definition read_plan :: "env \<Rightarrow> string \<Rightarrow> sources \<Rightarrow> pyval \<Rightarrow> plan res" where
  "read_plan env goal sources raw =
     bindE (parse raw sources (max_tasks (e_limits env)) (tiers_of env)) (\<lambda>p.
     (case check_plan (e_policy env) p (task_text goal sources) of
        None \<Rightarrow> Inr p
      | Some wasteful \<Rightarrow> Inl (ValidationError wasteful)))"

text \<open>The attempts from number \<open>attempt\<close> on; \<open>n\<close> of them are left.\<close>

fun plan_loop :: "env \<Rightarrow> string \<Rightarrow> sources \<Rightarrow> pyval list \<Rightarrow> string option \<Rightarrow> nat \<Rightarrow> nat \<Rightarrow> plan comp" where
  "plan_loop env goal sources attempts err attempt 0 =
     raise (ValidationError (''Planner returned an invalid graph '' @ show_int (plan_attempts (e_policy env)) @ '' times''))"
| "plan_loop env goal sources attempts err attempt (Suc n) =
     after (call env ''cloud'' PlanOp (plan_payload env goal sources attempts err attempt)) (\<lambda>raw.
     (case read_plan env goal sources raw of
        Inr p \<Rightarrow>
          after (event env ''plan_created'' (''Validated plan with '' @ show_nat (length (p_tasks p)) @ '' subtasks'') False
                   [(''tasks'', PList (map task_dict (p_tasks p))), (''final_instruction'', PStr (p_final_instruction p))])
            (\<lambda>_. ret p)
      | Inl (ValidationError m) \<Rightarrow>
          after (event env ''plan_invalid'' ''Planner returned an invalid graph'' False
                   [(''attempt'', PInt (int attempt)), (''error'', PStr m)])
            (\<lambda>_. plan_loop env goal sources attempts (Some m) (attempt + 1) n)
      | Inl e \<Rightarrow> raise e))"

definition make_plan :: "env \<Rightarrow> string \<Rightarrow> sources \<Rightarrow> pyval list \<Rightarrow> plan comp" where
  "make_plan env goal sources attempts = plan_loop env goal sources attempts None 1 (nat (plan_attempts (e_policy env)))"

subsection \<open>One request\<close>

text \<open>The loop over the local models: the first one whose answer is trusted.\<close>

fun try_tiers :: "env \<Rightarrow> string \<Rightarrow> string list \<Rightarrow> string option comp" where
  "try_tiers env body [] = ret None"
| "try_tiers env body (tier # rest) =
     (if skips (e_policy env) tier (tiers_of env) (task_complexity body)
      then
        after (update (\<lambda>s. s\<lparr>skipped := skipped s @ [tier]\<rparr>)) (\<lambda>_.
        after (event env ''local_skipped'' (model_name env tier @ '' skipped: request looks hard'') False
                 [(''tier'', PStr tier), (''complexity'', PReal (round4 (task_complexity body))),
                  (''threshold'', opt_val PFloat (skip_small_above (e_policy env)))]) (\<lambda>_.
        try_tiers env body rest))
      else
        after (judge_locally env tier body) (\<lambda>v.
        after (update (\<lambda>s. s\<lparr>verdicts := verdicts s @ [v]\<rparr>)) (\<lambda>_.
        if \<not> vd_escalate v
        then
          after (update (\<lambda>s. s\<lparr>route := Some tier\<rparr>)) (\<lambda>_.
          after (event env ''local_accepted'' (model_name env tier @ '' answer trusted'') False
                   [(''tier'', PStr tier), (''reason'', PStr (vd_reason v))]) (\<lambda>_.
          ret (Some (label env (vd_answer v)))))
        else try_tiers env body rest)))"

definition attempt_context :: "env \<Rightarrow> verdict \<Rightarrow> pyval" where
  "attempt_context env v = PDict
     [(''tier'', PStr (vd_tier v)), (''model'', PStr (model_name env (vd_tier v))), (''answer'', PStr (take 4000 (vd_answer v))),
      (''reason'', PStr (vd_reason v @ ''. Critic: '' @ cr_critique (vd_critique v)))]"

text \<open>\<open>if not isinstance(answer, str) or not answer.strip(): raise\<close>.\<close>

definition final_text :: "string \<Rightarrow> pyval \<Rightarrow> string comp" where
  "final_text complaint v =
     (case v of PStr a \<Rightarrow> if strip a = [] then raise (ValidationError complaint) else ret a
      | _ \<Rightarrow> raise (ValidationError complaint))"

definition answer_directly :: "env \<Rightarrow> string \<Rightarrow> pyval list \<Rightarrow> string comp" where
  "answer_directly env body context =
     after (event env ''answering'' ''Cloud model answering'' False [(''tier'', PStr ''cloud'')]) (\<lambda>_.
     after (call env ''cloud'' Answer [(''task'', PStr body), (''local_attempts'', PList context)]) (\<lambda>v.
     after (final_text ''Cloud answer was empty'' v) (\<lambda>a. ret (label env a))))"

definition plan_and_delegate :: "env \<Rightarrow> schedule \<Rightarrow> string \<Rightarrow> sources \<Rightarrow> pyval list \<Rightarrow> string comp" where
  "plan_and_delegate env sched goal sources context =
     after (make_plan env goal sources context) (\<lambda>p.
     after (run_tasks env goal sources sched (pending_tasks p)) (\<lambda>_.
     after (event env ''synthesizing'' ''Cloud model assembling accepted results'' False [(''tier'', PStr ''cloud'')]) (\<lambda>_.
     after (read results) (\<lambda>done.
     after (call env ''cloud'' Synthesize
              [(''goal'', PStr goal), (''sources'', sources_dict sources), (''instruction'', PStr (p_final_instruction p)),
               (''results'', PDict done)]) (\<lambda>v.
     after (final_text ''Synthesis returned no answer'' v) (\<lambda>a. ret (label env a)))))))"

definition escalate :: "env \<Rightarrow> schedule \<Rightarrow> string \<Rightarrow> sources \<Rightarrow> string \<Rightarrow> string comp" where
  "escalate env sched goal sources body =
     after (update (\<lambda>s. s\<lparr>route := Some ''cloud''\<rparr>)) (\<lambda>_.
     after (read verdicts) (\<lambda>vs.
     let context = map (attempt_context env) vs; planned = plans (e_policy env) body
     in after (event env ''escalated'' ''Local answers not trusted; the cloud takes over'' False
                 [(''tier'', PStr ''cloud''), (''mode'', PStr (if planned then ''plan'' else ''direct'')),
                  (''parts'', PInt (int (request_parts body))), (''length'', PInt (int (length body))),
                  (''reason'', if vs = [] then PNone else PStr (vd_reason (last vs)))]) (\<lambda>_.
        if planned then plan_and_delegate env sched goal sources context else answer_directly env body context)))"

definition execute :: "env \<Rightarrow> schedule \<Rightarrow> string \<Rightarrow> sources \<Rightarrow> bool \<Rightarrow> string comp" where
  "execute env sched goal sources local_extract =
     (let body = task_text goal sources
      in after (if local_extract then try_extract env goal sources else ret None) (\<lambda>extracted.
         (case extracted of
            Some answer \<Rightarrow> after (update (\<lambda>s. s\<lparr>route := Some ''local''\<rparr>)) (\<lambda>_. ret (label env answer))
          | None \<Rightarrow>
              after (try_tiers env body (local_tiers (tiers_of env))) (\<lambda>trusted.
              (case trusted of
                 Some answer \<Rightarrow> ret answer
               | None \<Rightarrow> escalate env sched goal sources body)))))"

text \<open>\<open>_locations\<close>: the optional hook's dictionary; a hook that fails or returns something else counts as none.\<close>

definition locations :: "env \<Rightarrow> pydict comp" where
  "locations env =
     (case e_locations env of
        None \<Rightarrow> ret []
      | Some (Inl e) \<Rightarrow> if is_cancellation e then raise e else ret []
      | Some (Inr (PDict d)) \<Rightarrow> ret d
      | Some (Inr _) \<Rightarrow> ret [])"

text \<open>
  The body of \<open>run\<close> under \<open>asyncio.timeout(run_timeout)\<close>: the announcement, the work, and the result with
  its final event.
\<close>

definition announce :: "env \<Rightarrow> string \<Rightarrow> unit comp" where
  "announce env goal =
     after (locations env) (\<lambda>locs.
     after (event env ''run_started'' ''Starting relay'' False
              [(''goal'', PStr (take 2000 goal)),
               (''tiers'', PList (map (\<lambda>t. PDict [(''id'', PStr t), (''model'', PStr (model_name env t)),
                                                  (''location'', dict_get_or locs t (PStr []))]) (tiers_of env)))]) (\<lambda>_.
     (case e_notice env of
        Some n \<Rightarrow> if n = [] then ret () else event env ''provider_notice'' n False []
      | None \<Rightarrow> ret ())))"

definition conclude :: "env \<Rightarrow> string \<Rightarrow> run_result comp" where
  "conclude env content =
     after (read (metrics_of env)) (\<lambda>m.
     after (event env ''run_completed'' ''Relay complete'' True [(''metrics'', metrics_dict m)]) (\<lambda>_.
     read (\<lambda>s. \<lparr>rr_run_id = e_run_id env, rr_content = content, rr_results = results s, rr_metrics = metrics_of env s\<rparr>)))"

definition run_body :: "env \<Rightarrow> schedule \<Rightarrow> string \<Rightarrow> sources \<Rightarrow> bool \<Rightarrow> run_result comp" where
  "run_body env sched goal sources local_extract =
     after (announce env goal) (\<lambda>_.
     after (execute env sched goal sources local_extract) (conclude env))"

text \<open>Once the deadline's block has been left, only a cancellation from outside can still arrive.\<close>

definition outside :: "env \<Rightarrow> env" where
  "outside env = env\<lparr>e_interrupt := (\<lambda>n. if e_interrupt env n = Some CancelledError then Some CancelledError else None)\<rparr>"

definition final_event :: "env \<Rightarrow> string \<Rightarrow> string \<Rightarrow> unit comp" where
  "final_event env name message s =
     event (outside env) name message True [(''metrics'', metrics_dict (metrics_of env s))] s"

definition check_request :: "limits \<Rightarrow> string \<Rightarrow> sources \<Rightarrow> unit res" where
  "check_request lims goal sources =
     bindE (requireE (1 \<le> length goal \<and> length goal \<le> 8000) (RelayError ''Goal must be text of at most 8000 characters'')) (\<lambda>_.
     requireE (\<not> (sources = [] \<or> int (length sources) > max_tasks lims \<or> list_ex (\<lambda>(k, v). v = []) sources
                  \<or> sum_list (map (\<lambda>(k, v). length v) sources) > 32000))
       (RelayError (''Sources must be nonempty text within the prototype'' @ [CHR 0x27] @ ''s 32000-character limit'')))"

text \<open>The \<open>except\<close> clauses of \<open>run\<close>; leaving the deadline's block turns its cancellation into \<open>TimeoutError\<close>.\<close>

definition fail_run :: "env \<Rightarrow> exn \<Rightarrow> run_result comp" where
  "fail_run env e =
     (if e = CancelledError
      then after (final_event env ''run_cancelled'' ''Relay cancelled'') (\<lambda>_. raise CancelledError)
      else if e = TimeoutError \<or> e = DeadlineCancelled
      then after (final_event env ''run_failed'' ''Relay deadline exceeded'') (\<lambda>_.
             raise (RelayError ''Relay deadline exceeded; no complete answer was produced''))
      else after (final_event env ''run_failed'' ''Relay stopped before completion'') (\<lambda>_.
             raise (if is_relay_error e then e else RelayError ''Relay provider failed; no complete answer was produced'')))"

definition run :: "env \<Rightarrow> schedule \<Rightarrow> string \<Rightarrow> sources \<Rightarrow> bool \<Rightarrow> run_result res \<times> run_state" where
  "run env sched goal sources local_extract =
     (case check_request (e_limits env) goal sources of
        Inl e \<Rightarrow> (Inl e, Run_init env)
      | Inr _ \<Rightarrow> catch (\<lambda>_. True) (run_body env sched goal sources local_extract) (fail_run env) (Run_init env))"

text \<open>\<open>Relay.chat\<close>.\<close>

definition chat :: "env \<Rightarrow> schedule \<Rightarrow> pyval \<Rightarrow> run_result res \<times> run_state" where
  "chat env sched messages =
     (case to_request messages of
        Inl e \<Rightarrow> (Inl e, Run_init env)
      | Inr r \<Rightarrow> run env sched (rq_goal r) (rq_sources r) (rq_local_extract r))"

text \<open>\<open>Relay.complete\<close>: one call to the local model outside any run; only its value is returned.\<close>

definition complete :: "env \<Rightarrow> pyval \<Rightarrow> pyval res" where
  "complete env messages =
     bindE (check_messages messages) (\<lambda>ms.
     (case e_complete env 0 ''local'' Direct [(''messages'', PList ms)] of
        Raised e \<Rightarrow> Inl e
      | NotAReply \<Rightarrow> Inl OtherError
      | Replied rp \<Rightarrow> Inr (rp_value rp)))"

end
