(* ===== verification/Relay_Laws.thy ===== *)
theory Relay_Laws
  imports Relay_Engine
begin

section \<open>Invariants of the engine\<close>

text \<open>
  The interface between the elementary operations on a run's state and the statements about whole runs: a
  predicate that survives the elementary operations (the assumptions of \<open>run_invariant\<close> and
  \<open>request_invariant\<close>) survives every composite operation, for every provider and every schedule.
\<close>

subsection \<open>Rules for computations\<close>

definition keeps :: "(run_state \<Rightarrow> bool) \<Rightarrow> 'a comp \<Rightarrow> bool" where
  "keeps P m \<longleftrightarrow> (\<forall>s. P s \<longrightarrow> P (snd (m s)))"

lemma keepsI: "(\<And>s. P s \<Longrightarrow> P (snd (m s))) \<Longrightarrow> keeps P m"
  by (simp add: keeps_def)

lemma keepsD: "keeps P m \<Longrightarrow> P s \<Longrightarrow> P (snd (m s))"
  by (simp add: keeps_def)

lemma keeps_ret [intro!]: "keeps P (ret x)"
  by (simp add: keeps_def ret_def)

lemma keeps_raise [intro!]: "keeps P (raise e)"
  by (simp add: keeps_def raise_def)

lemma keeps_lift [intro!]: "keeps P (lift r)"
  by (simp add: keeps_def lift_def)

lemma keeps_read [intro!]: "keeps P (read f)"
  by (simp add: keeps_def read_def)

lemma keeps_update: "(\<And>s. P s \<Longrightarrow> P (f s)) \<Longrightarrow> keeps P (update f)"
  by (simp add: keeps_def update_def)

lemma keeps_after: "keeps P m \<Longrightarrow> (\<And>x. keeps P (f x)) \<Longrightarrow> keeps P (after m f)"
  by (fastforce simp: keeps_def after_def split: prod.splits sum.splits)

lemma keeps_catch: "keeps P m \<Longrightarrow> (\<And>e. keeps P (h e)) \<Longrightarrow> keeps P (catch c m h)"
  by (fastforce simp: keeps_def catch_def split: prod.splits sum.splits)

subsection \<open>Invariants of a run\<close>

text \<open>
  Every batch ends in one of two ways: all its jobs have finished, or the ones that have not are
  cancelled. A predicate that every step of a job keeps holds in the last state before that.
\<close>

lemma run_batch_reaches:
  assumes "run_batch env goal sources sched first ws s = (f', ws', s')" "Q first ws s"
    and "\<And>first ws s i w' s'. Q first ws s \<Longrightarrow> i < length ws \<Longrightarrow> can_step s (w_phase (ws ! i)) \<Longrightarrow>
           step_worker env goal sources (ws ! i) s = (w', s') \<Longrightarrow> Q (first_failure first w') (ws[i := w']) s'"
  obtains f2 ws2 s2 where "Q f2 ws2 s2"
    "(list_all (\<lambda>w. is_finished (w_phase w)) ws2 \<and> f' = f2 \<and> (ws', s') = (ws2, s2))
     \<or> (\<not> list_all (\<lambda>w. is_finished (w_phase w)) ws2 \<and> (ws', s') = cancel_all env ws2 s2
        \<and> (f' \<noteq> None \<and> f' = stops sched f2 ws2 s2 \<or> f' = Some DeadlineCancelled \<and> next_job sched ws2 s2 = None))"
  using assms
proof (induction env goal sources sched first ws s arbitrary: thesis rule: run_batch.induct)
  case (1 env goal sources sched first ws s)
  note run = "1.prems"(2)
  consider (ended) "list_all (\<lambda>w. is_finished (w_phase w)) ws"
    | (stop) e where "\<not> list_all (\<lambda>w. is_finished (w_phase w)) ws" "stops sched first ws s = Some e"
    | (stuck) "\<not> list_all (\<lambda>w. is_finished (w_phase w)) ws" "stops sched first ws s = None" "next_job sched ws s = None"
    | (step) i where "\<not> list_all (\<lambda>w. is_finished (w_phase w)) ws" "stops sched first ws s = None" "next_job sched ws s = Some i"
    by (cases "stops sched first ws s"; cases "next_job sched ws s") auto
  then show ?case
  proof cases
    case step
    obtain w2 s2 where w2: "step_worker env goal sources (ws ! i) s = (w2, s2)" by force
    have i: "i < length ws" "can_step s (w_phase (ws ! i))"
      using step(3) pick_can_step by (auto simp: next_job_def)
    have run2: "run_batch env goal sources sched (first_failure first w2) (ws[i := w2]) s2 = (f', ws', s')"
      using run step w2 by (simp add: run_batch.simps [of _ _ _ _ _ ws s])
    show ?thesis
      by (rule "1.IH" [OF step w2 [symmetric] _ run2]) (use "1.prems" i w2 in \<open>blast+\<close>)
  next
    case stop
    then have "f' = Some e" "(ws', s') = cancel_all env ws s"
      using run by (auto simp: run_batch.simps [of _ _ _ _ _ ws s])
    with stop "1.prems"(1) [of first ws s] "1.prems"(3) show ?thesis by simp
  qed (use run "1.prems"(1) [of first ws s] "1.prems"(3) in \<open>auto simp: run_batch.simps [of _ _ _ _ _ ws s]\<close>)
qed

lemma ready_shrinks:
  assumes "ready_tasks pending s \<noteq> []"
  shows "length (filter (\<lambda>t. t_id t \<notin> set (map t_id (ready_tasks pending s))) pending) < length pending"
proof -
  obtain t where "t \<in> set (ready_tasks pending s)" using assms by (cases "ready_tasks pending s") auto
  moreover from this have "t \<in> set pending" by (simp add: ready_tasks_def)
  ultimately show ?thesis by (intro length_filter_less) auto
qed

text \<open>
  What an invariant has to survive: the elementary operations on the run state. \<open>allowed\<close> says which
  operations on which tiers are considered. From these the lemmas below conclude that every composite operation keeps it.
\<close>

locale run_invariant =
  fixes env :: env and Inv :: "run_state \<Rightarrow> bool" and allowed :: "string \<Rightarrow> operation \<Rightarrow> bool"
  assumes publish_keeps: "Inv s \<Longrightarrow> Inv (publish env name message False data s)"
    and begin_keeps: "allowed tier oper \<Longrightarrow> Inv s \<Longrightarrow> begin_call env tier oper payload s = (Inr i, s') \<Longrightarrow> Inv s'"
    and record_keeps: "Inv s \<Longrightarrow> (\<And>r. r_tier (f r) = r_tier r \<and> r_operation (f r) = r_operation r) \<Longrightarrow> Inv (set_record i f s)"
    and results_keeps: "Inv s \<Longrightarrow> Inv (s\<lparr>results := d\<rparr>)"
    and slots_keeps: "Inv s \<Longrightarrow> Inv (s\<lparr>slots := n\<rparr>)"
begin

lemma event_keeps: "keeps Inv (event env name message False data)"
  using publish_keeps by (auto simp: keeps_def event_def Let_def split: option.splits)

lemma publish_inner: "publish (inner env) = publish env"
  by (simp add: fun_eq_iff publish_def inner_def)

lemma inner_event_keeps: "keeps Inv (event (inner env) name message False data)"
  using publish_keeps by (auto simp: keeps_def event_def Let_def publish_inner split: option.splits)

lemma begin_call_keeps: "allowed tier oper \<Longrightarrow> keeps Inv (begin_call env tier oper payload)"
proof (rule keepsI)
  fix s assume a: "allowed tier oper" "Inv s"
  obtain r s' where e: "begin_call env tier oper payload s = (r, s')" by force
  show "Inv (snd (begin_call env tier oper payload s))"
  proof (cases r)
    case (Inl x)
    then show ?thesis using e a(2) by (auto simp: begin_call_def split: sum.splits if_splits)
  next
    case (Inr i)
    then show ?thesis using begin_keeps [OF a] e by auto
  qed
qed

lemma follow_tick_keeps: "Inv s \<Longrightarrow> Inv (snd (follow_tick env i shown live s))"
  by (simp add: follow_tick_def Let_def publish_keeps)

lemma follow_keeps: "Inv s \<Longrightarrow> Inv (follow env i shown lives s)"
proof (induction lives arbitrary: shown s)
  case (Cons live lives)
  then show ?case using follow_tick_keeps [OF Cons.prems] by (simp add: split_beta)
qed simp

lemma end_call_keeps_for:
  assumes "\<And>name message data. keeps Inv (event e name message False data)"
  shows "keeps Inv (end_call e i oper out)"
proof (rule keepsI)
  fix s assume s: "Inv s"
  have ce: "keeps Inv (call_event e i how)" for how
    using assms by (simp add: keeps_def call_event_def Let_def)
  have upd: "Inv (set_record i (cancelled_record e i) s)" "Inv (set_record i (failed_record e i) s)"
    "\<And>j rp. Inv (set_record i (completed_record e i j rp) s)"
    using s by (auto intro!: record_keeps simp: cancelled_record_def failed_record_def completed_record_def)
  have "keeps Inv (after (call_event e i how) (\<lambda>_. raise x))"
    "keeps Inv (after (call_event e i how) (\<lambda>_ s'. (Inr (v, calls s' ! i), s')))" for how x and v :: pyval
    by (intro keeps_after ce keeps_raise, simp add: keeps_after ce keepsI)
  then show "Inv (snd (end_call e i oper out s))"
    using upd by (auto simp: end_call_def keeps_def split: sum.splits)
qed

lemmas end_call_keeps = end_call_keeps_for [OF event_keeps]
lemmas inner_end_call_keeps = end_call_keeps_for [OF inner_event_keeps]

lemma call_with_record_keeps: "allowed tier oper \<Longrightarrow> keeps Inv (call_with_record env tier oper payload)"
  unfolding call_with_record_def
  by (intro keeps_after begin_call_keeps keeps_update follow_keeps end_call_keeps)

lemma call_keeps: "allowed tier oper \<Longrightarrow> keeps Inv (call env tier oper payload)"
  unfolding call_def by (intro keeps_after call_with_record_keeps) auto

lemma try_extract_keeps: "allowed ''local'' Attempt \<Longrightarrow> keeps Inv (try_extract env goal sources)"
  unfolding try_extract_def
  by (intro keeps_after event_keeps call_keeps keeps_lift)
    (auto split: option.split intro!: keeps_after event_keeps keeps_update results_keeps)

lemma sample_loop_keeps: "allowed tier Solve \<Longrightarrow> keeps Inv (sample_loop env tier body i n samples)"
proof (induction n arbitrary: i samples)
  case (Suc n)
  then show ?case
    by (auto intro!: keeps_after keeps_catch event_keeps call_with_record_keeps)
qed auto

lemma critique_loop_keeps:
  "allowed (critic_tier (e_policy env) tier (tiers_of env)) Critique \<Longrightarrow> keeps Inv (critique_loop env tier body samples)"
  unfolding critique_loop_def Let_def
  by (auto intro!: keeps_after keeps_catch event_keeps call_keeps)

lemma judge_locally_keeps:
  "allowed tier Solve \<Longrightarrow> allowed (critic_tier (e_policy env) tier (tiers_of env)) Critique \<Longrightarrow>
     keeps Inv (judge_locally env tier body)"
  unfolding judge_locally_def Let_def
  by (intro keeps_after event_keeps sample_loop_keeps critique_loop_keeps keeps_ret)

lemma plan_loop_keeps: "allowed ''cloud'' PlanOp \<Longrightarrow> keeps Inv (plan_loop env goal sources attempts err attempt n)"
proof (induction n arbitrary: err attempt)
  case (Suc n)
  then show ?case
    by (auto split: sum.split exn.split intro!: keeps_after event_keeps call_keeps)
qed auto

lemma release_slot_keeps: "Inv s \<Longrightarrow> Inv (release_slot tier s)"
  by (simp add: release_slot_def slots_keeps)

lemma take_slot_keeps: "Inv s \<Longrightarrow> Inv (take_slot tier s)"
  by (simp add: take_slot_def slots_keeps)

lemma settle_keeps: "Inv s \<Longrightarrow> Inv (snd (settle env w attempt tier r s))"
  by (auto simp: settle_def invalid_event_def publish_keeps results_keeps split: sum.splits exn.splits prod.splits)

lemma step_worker_keeps:
  assumes all: "\<And>tier. allowed tier Work" and s: "Inv s"
  shows "Inv (snd (step_worker env goal sources w s))"
proof (cases "w_phase w")
  case (Sending attempt tier)
  then show ?thesis
    using keepsD [OF begin_call_keeps [OF all] s, of tier "work_payload goal w attempt"]
    by (auto simp: step_worker_def Let_def split: prod.splits sum.splits)
next
  case (Calling attempt tier i shown lives)
  then show ?thesis
    using keepsD [OF inner_end_call_keeps s] follow_tick_keeps [OF s]
    by (cases lives) (simp_all add: step_worker_def Let_def split_beta)
next
  case (Returned attempt tier r)
  then show ?thesis using settle_keeps [OF release_slot_keeps [OF s]] by (simp add: step_worker_def Let_def)
qed (use s in \<open>auto simp: step_worker_def Let_def publish_keeps take_slot_keeps split: sum.splits list.splits prod.splits\<close>)

lemma cancel_worker_keeps: "Inv s \<Longrightarrow> Inv (snd (cancel_worker env w s))"
  by (auto simp: cancel_worker_def cancelled_record_def release_slot_keeps record_keeps split: phase.splits)

lemma cancel_all_keeps: "Inv s \<Longrightarrow> Inv (snd (cancel_all env ws s))"
proof (induction ws arbitrary: s)
  case (Cons w ws)
  then show ?case using cancel_worker_keeps [OF Cons.prems, of w] by (simp add: split_beta)
qed simp

lemma store_values_keeps: "Inv s \<Longrightarrow> Inv (store_values ready ws s)"
proof -
  have "Inv st \<Longrightarrow> Inv (foldl (\<lambda>st (t, w). st\<lparr>results := dict_set (t_id t) (worker_value w) (results st)\<rparr>) st xs)" for st xs
    by (induction xs arbitrary: st) (auto simp: results_keeps split_beta)
  then show "Inv s \<Longrightarrow> Inv (store_values ready ws s)" by (simp add: store_values_def)
qed

lemma run_batch_keeps:
  assumes all: "\<And>tier. allowed tier Work" and s: "Inv s"
  shows "Inv (snd (snd (run_batch env goal sources sched first ws s)))"
proof -
  obtain f' ws' s' where r: "run_batch env goal sources sched first ws s = (f', ws', s')" by (metis prod_cases3)
  obtain f2 ws2 s2 where "Inv s2" "(ws', s') = (ws2, s2) \<or> (ws', s') = cancel_all env ws2 s2"
    by (rule run_batch_reaches [OF r, where Q = "\<lambda>f ws s. Inv s"])
      (use s step_worker_keeps [OF all] in \<open>auto simp: split_beta, metis snd_conv\<close>)
  then show ?thesis using cancel_all_keeps [of s2 ws2] by (auto simp: r prod_eq_iff)
qed

lemma run_tasks_keeps:
  assumes all: "\<And>tier. allowed tier Work"
  shows "keeps Inv (run_tasks env goal sources sched pending)"
proof (rule keepsI)
  fix s assume "Inv s"
  then show "Inv (snd (run_tasks env goal sources sched pending s))"
  proof (induction "length pending" arbitrary: pending s rule: less_induct)
    case less
    obtain f' ws' s' where r: "run_batch env goal sources sched None (map new_worker (ready_tasks pending s)) s = (f', ws', s')"
      by (metis prod_cases3)
    have s': "Inv s'" using run_batch_keeps [OF all less.prems, of goal sources sched None "map new_worker (ready_tasks pending s)"] r by simp
    let ?rest = "filter (\<lambda>t. t_id t \<notin> set (map t_id (ready_tasks pending s))) pending"
    show ?case
    proof (cases "pending = [] \<or> ready_tasks pending s = [] \<or> f' \<noteq> None")
      case True
      then show ?thesis using less.prems s' r by (auto simp: run_tasks.simps [of _ _ _ _ pending s])
    next
      case False
      then have "length ?rest < length pending" by (intro ready_shrinks) auto
      with less.hyps [of ?rest] store_values_keeps [OF s'] False show ?thesis
        by (auto simp: run_tasks.simps [of _ _ _ _ pending s] r)
    qed
  qed
qed

lemma escalate_keeps_body:
  assumes all: "\<And>tier oper. allowed tier oper"
  shows "keeps Inv (plan_and_delegate env sched goal sources context)" "keeps Inv (answer_directly env body context)"
proof -
  have fin: "keeps Inv (final_text c v)" for c v by (auto simp: final_text_def split: pyval.split)
  show "keeps Inv (plan_and_delegate env sched goal sources context)"
    unfolding plan_and_delegate_def make_plan_def
    by (intro keeps_after plan_loop_keeps run_tasks_keeps event_keeps call_keeps keeps_read keeps_ret fin all)
  show "keeps Inv (answer_directly env body context)"
    unfolding answer_directly_def by (intro keeps_after event_keeps call_keeps keeps_ret fin all)
qed

end

text \<open>The operations of \<open>execute\<close> itself also set the route and collect verdicts and skipped tiers.\<close>

locale request_invariant = run_invariant +
  assumes route_keeps: "Inv s \<Longrightarrow> Inv (s\<lparr>route := r\<rparr>)"
    and verdicts_keeps: "Inv s \<Longrightarrow> Inv (s\<lparr>verdicts := vs\<rparr>)"
    and skipped_keeps: "Inv s \<Longrightarrow> Inv (s\<lparr>skipped := ts\<rparr>)"
begin

lemma try_tiers_keeps:
  assumes "\<And>tier. tier \<in> set ts \<Longrightarrow> allowed tier Solve \<and> allowed (critic_tier (e_policy env) tier (tiers_of env)) Critique"
  shows "keeps Inv (try_tiers env body ts)"
  using assms
proof (induction ts)
  case (Cons tier ts)
  then show ?case
    by (auto intro!: keeps_after keeps_update event_keeps judge_locally_keeps
        intro: route_keeps verdicts_keeps skipped_keeps)
qed auto

lemma execute_keeps:
  assumes all: "\<And>tier oper. allowed tier oper"
  shows "keeps Inv (execute env sched goal sources local_extract)"
  unfolding execute_def escalate_def Let_def
  by (auto split: option.split
      intro!: keeps_after keeps_update event_keeps try_extract_keeps try_tiers_keeps escalate_keeps_body all route_keeps)

lemma announce_keeps: "keeps Inv (announce env goal)"
proof -
  have "keeps Inv (locations env)"
    by (auto simp: locations_def split: option.split sum.split pyval.split)
  then show ?thesis
    unfolding announce_def by (auto split: option.split intro!: keeps_after event_keeps)
qed

end

text \<open>An invariant of whole runs also holds at the start and survives the final event.\<close>

locale whole_run = request_invariant +
  assumes all_allowed: "allowed tier oper"
    and init_holds: "Inv (Run_init env)"
    and final_keeps: "Inv s \<Longrightarrow> Inv (publish env name message True data s)"
begin

lemma final_publish_keeps: "keeps Inv (event env name message True data)" "keeps Inv (event (outside env) name message True data)"
proof -
  have "publish (outside env) = publish env" by (simp add: fun_eq_iff publish_def outside_def)
  then show "keeps Inv (event env name message True data)" "keeps Inv (event (outside env) name message True data)"
    using final_keeps by (auto simp: keeps_def event_def Let_def split: option.splits)
qed

lemma run_body_keeps: "keeps Inv (run_body env sched goal sources local_extract)"
proof -
  have "keeps Inv (conclude env content)" for content
    unfolding conclude_def by (intro keeps_after keeps_read final_publish_keeps)
  then show ?thesis
    unfolding run_body_def by (intro keeps_after announce_keeps execute_keeps all_allowed)
qed

lemma fail_run_keeps: "keeps Inv (fail_run env e)"
proof -
  have "keeps Inv (final_event env name message)" for name message
    using final_publish_keeps(2) by (simp add: keeps_def final_event_def)
  then show ?thesis by (auto simp: fail_run_def intro!: keeps_after)
qed

lemma run_holds: "Inv (snd (run env sched goal sources local_extract))"
proof (cases "check_request (e_limits env) goal sources")
  case (Inr u)
  have "keeps Inv (catch (\<lambda>_. True) (run_body env sched goal sources local_extract) (fail_run env))"
    by (intro keeps_catch run_body_keeps fail_run_keeps)
  then show ?thesis using Inr init_holds by (simp add: run_def keeps_def)
qed (simp add: run_def init_holds)

end

end
