(* ===== verification/Relay_Guarantees.thy ===== *)
theory Relay_Guarantees
  imports Relay_Laws
begin

section \<open>What a run guarantees\<close>

text \<open>
  The interpretations of the engine's invariants (\<open>books\<close>: the cloud budget agrees with the recorded calls,
  \<open>progress\<close>: the events are numbered, \<open>at_home\<close>: no cloud call yet, \<open>routed\<close>: the route is set) and the
  statements about \<^const>\<open>run\<close> that follow from them.
\<close>

subsection \<open>Accounting\<close>

definition call_kinds :: "run_state \<Rightarrow> (string \<times> operation) list" where
  "call_kinds s = map (\<lambda>c. (r_tier c, r_operation c)) (calls s)"

definition cloud_made :: "run_state \<Rightarrow> nat" where
  "cloud_made s = length (filter (\<lambda>c. r_tier c = ''cloud'') (calls s))"

definition cloud_work_made :: "run_state \<Rightarrow> nat" where
  "cloud_work_made s = length (filter (\<lambda>c. r_tier c = ''cloud'' \<and> r_operation c = Work) (calls s))"

lemma cloud_made_kinds:
  "cloud_made s = length (filter (\<lambda>k. fst k = ''cloud'') (call_kinds s))"
  "cloud_work_made s = length (filter (\<lambda>k. fst k = ''cloud'' \<and> snd k = Work) (call_kinds s))"
  by (simp_all add: cloud_made_def cloud_work_made_def call_kinds_def filter_map comp_def)

lemma call_kinds_set_record:
  "(\<And>r. r_tier (f r) = r_tier r \<and> r_operation (f r) = r_operation r) \<Longrightarrow> call_kinds (set_record i f s) = call_kinds s"
  by (cases "i < length (calls s)")
    (auto intro!: nth_equalityI simp: call_kinds_def set_record_def nth_list_update list_update_beyond)

lemma begin_call_Inr:
  assumes "begin_call env tier oper payload s = (Inr i, s')"
  shows "\<exists>b. s' = s\<lparr>budget_of := b, calls := calls s @ [new_record env (length (calls s)) tier oper payload]\<rparr>
    \<and> i = length (calls s) \<and> (if tier = ''cloud'' then spend (e_limits env) oper (budget_of s) = Inr b else b = budget_of s)"
proof (cases "if tier = ''cloud'' then spend (e_limits env) oper (budget_of s) else Inr (budget_of s)")
  case (Inl e)
  with assms show ?thesis by (simp add: begin_call_def)
next
  case (Inr b)
  with assms show ?thesis by (intro exI [of _ b]) (simp add: begin_call_def split: if_splits)
qed

lemma new_record_kind [simp]: "r_tier (new_record env i tier oper payload) = tier" "r_operation (new_record env i tier oper payload) = oper"
  by (simp_all add: new_record_def)

lemma publish_parts [simp]:
  "calls (publish env n m f d s) = calls s" "budget_of (publish env n m f d s) = budget_of s"
  "results (publish env n m f d s) = results s" "route (publish env n m f d s) = route s"
  "verdicts (publish env n m f d s) = verdicts s" "skipped (publish env n m f d s) = skipped s"
  "slots (publish env n m f d s) = slots s" "seq (publish env n m f d s) = Suc (seq s)"
  by (simp_all add: publish_def Let_def)

lemma set_record_parts [simp]:
  "budget_of (set_record i f s) = budget_of s" "results (set_record i f s) = results s" "route (set_record i f s) = route s"
  "seq (set_record i f s) = seq s" "events (set_record i f s) = events s" "slots (set_record i f s) = slots s"
  "length (calls (set_record i f s)) = length (calls s)"
  by (simp_all add: set_record_def)

definition books_ok :: "limits \<Rightarrow> run_state \<Rightarrow> bool" where
  "books_ok lims s \<longleftrightarrow> b_calls (budget_of s) = int (cloud_made s) \<and> b_worker_calls (budget_of s) = int (cloud_work_made s)
     \<and> b_calls (budget_of s) \<le> (if cloud_enabled lims then max 0 (cloud_calls lims) else 0)
     \<and> b_worker_calls (budget_of s) \<le> (if cloud_enabled lims then max 0 (cloud_worker_calls lims) else 0)"

lemma spend_books:
  assumes "spend lims oper b = Inr b'" "b_worker_calls b \<le> (if cloud_enabled lims then max 0 (cloud_worker_calls lims) else 0)"
  shows "b_calls b' = b_calls b + 1" "b_worker_calls b' = b_worker_calls b + (if oper = Work then 1 else 0)"
    "b_calls b' \<le> (if cloud_enabled lims then max 0 (cloud_calls lims) else 0)"
    "b_worker_calls b' \<le> (if cloud_enabled lims then max 0 (cloud_worker_calls lims) else 0)"
  using assms by (auto simp: spend_def Let_def split: if_splits)

interpretation books: request_invariant env "books_ok (e_limits env)" "\<lambda>tier oper. True"
proof unfold_locales
  fix tier oper payload i and s s' :: run_state
  assume ok: "books_ok (e_limits env) s" and "begin_call env tier oper payload s = (Inr i, s')"
  then obtain b where s': "s' = s\<lparr>budget_of := b, calls := calls s @ [new_record env (length (calls s)) tier oper payload]\<rparr>"
    and b: "if tier = ''cloud'' then spend (e_limits env) oper (budget_of s) = Inr b else b = budget_of s"
    using begin_call_Inr by blast
  show "books_ok (e_limits env) s'"
  proof (cases "tier = ''cloud''")
    case True
    with b have "spend (e_limits env) oper (budget_of s) = Inr b" by simp
    note spent = spend_books [OF this]
    show ?thesis using ok spent True by (simp add: s' books_ok_def cloud_made_def cloud_work_made_def)
  qed (use ok b in \<open>simp add: s' books_ok_def cloud_made_def cloud_work_made_def\<close>)
qed (auto simp: books_ok_def cloud_made_kinds call_kinds_set_record, auto simp: call_kinds_def)

subsection \<open>Event numbers\<close>

definition numbered :: "env \<Rightarrow> run_state \<Rightarrow> bool" where
  "numbered env s \<longleftrightarrow> map ev_seq (events s) = (if e_emit env then [1..<Suc (seq s)] else [])"

definition none_done :: "run_state \<Rightarrow> bool" where
  "none_done s \<longleftrightarrow> list_all (\<lambda>e. \<not> ev_done e) (events s)"

lemma begin_call_events: "begin_call env tier oper payload s = (Inr i, s') \<Longrightarrow> events s' = events s \<and> seq s' = seq s \<and> route s' = route s"
  by (drule begin_call_Inr) auto

lemma publish_numbered: "numbered env s \<Longrightarrow> numbered env (publish env name message fin data s)"
  by (simp add: numbered_def publish_def Let_def)

interpretation progress: request_invariant env "\<lambda>s. numbered env s \<and> none_done s" "\<lambda>tier oper. True"
proof unfold_locales
  fix tier oper payload i and s s' :: run_state
  assume "numbered env s \<and> none_done s" "begin_call env tier oper payload s = (Inr i, s')"
  then show "numbered env s' \<and> none_done s'"
    by (simp add: numbered_def none_done_def begin_call_events)
qed (simp_all add: publish_numbered, simp_all add: numbered_def none_done_def publish_def Let_def)

subsection \<open>The local route\<close>

definition all_local :: "run_state \<Rightarrow> bool" where
  "all_local s \<longleftrightarrow> list_all (\<lambda>k. fst k \<noteq> ''cloud'') (call_kinds s) \<and> b_calls (budget_of s) = 0"

interpretation at_home: request_invariant env all_local "\<lambda>tier oper. tier \<noteq> ''cloud''"
proof unfold_locales
  fix tier oper payload i and s s' :: run_state
  assume "tier \<noteq> ''cloud''" "all_local s" "begin_call env tier oper payload s = (Inr i, s')"
  then show "all_local s'"
    by (auto dest!: begin_call_Inr simp: all_local_def call_kinds_def)
qed (auto simp: all_local_def call_kinds_set_record, auto simp: call_kinds_def)

interpretation routed: run_invariant env "\<lambda>s. route s = Some ''cloud''" "\<lambda>tier oper. True"
  by unfold_locales (auto dest: begin_call_events)

interpretation run_books: whole_run env "books_ok (e_limits env)" "\<lambda>tier oper. True"
  by unfold_locales
    (auto simp: books_ok_def Run_init_def CloudBudget_init_def cloud_made_def cloud_work_made_def)

interpretation run_progress: whole_run env "numbered env" "\<lambda>tier oper. True"
proof unfold_locales
  fix tier oper payload i and s s' :: run_state
  assume "numbered env s" "begin_call env tier oper payload s = (Inr i, s')"
  then show "numbered env s'" by (simp add: numbered_def begin_call_events)
qed (simp_all add: publish_numbered, simp_all add: numbered_def Run_init_def)

text \<open>
  C1. Cloud spending of a whole run. Whatever the providers answer, however the jobs are interleaved and
  wherever the run is cancelled, the cloud calls it reports are exactly the calls it made to the cloud,
  there are at most \<open>cloud_calls\<close> of them, at most \<open>cloud_worker_calls\<close> for subtasks, and none at all
  when the cloud is disabled.
\<close>

theorem run_cloud_spending:
  "let s = snd (run env sched goal sources local_extract); lims = e_limits env
   in m_cloud_calls (metrics_of env s) = int (cloud_made s)
      \<and> int (cloud_made s) \<le> (if cloud_enabled lims then max 0 (cloud_calls lims) else 0)
      \<and> int (cloud_work_made s) \<le> (if cloud_enabled lims then max 0 (cloud_worker_calls lims) else 0)"
  using run_books.run_holds [of env sched goal sources local_extract]
  by (auto simp: books_ok_def metrics_of_def Let_def)

lemma final_event_errors: "fst (final_event env name message s) = Inl e \<Longrightarrow> e = CancelledError"
  by (auto simp: final_event_def event_def outside_def Let_def split: option.splits if_splits)

lemma after_final_event:
  "fst (after (final_event env name message) (\<lambda>_. raise y) s) \<in> {Inl y, Inl CancelledError}"
  using final_event_errors [of env name message s]
  by (cases "final_event env name message s"; cases "fst (final_event env name message s)")
    (auto simp: after_def raise_def)

lemma fail_run_errors: "\<exists>x. fst (fail_run env e s) = Inl x \<and> (is_relay_error x \<or> x = CancelledError)"
proof -
  have out: "\<exists>x. fst (after (final_event env name message) (\<lambda>_. raise y) s) = Inl x \<and> (is_relay_error x \<or> x = CancelledError)"
    if "is_relay_error y \<or> y = CancelledError" for name message y
    using after_final_event [of env name message y s] that by auto
  show ?thesis
    unfolding fail_run_def
    by (cases "e = CancelledError"; cases "e = TimeoutError \<or> e = DeadlineCancelled") (auto intro!: out simp del: is_relay_error.simps simp: is_relay_error.simps(1))
qed

lemma check_request_errors: "check_request lims goal sources = Inl e \<Longrightarrow> is_relay_error e"
  by (auto simp: check_request_def bindE_eq_Inl)

lemma run_raises:
  "case fst (run env sched goal sources local_extract) of Inl e \<Rightarrow> is_relay_error e \<or> e = CancelledError | Inr r \<Rightarrow> True"
proof (cases "check_request (e_limits env) goal sources")
  case (Inl e)
  then show ?thesis using check_request_errors [OF Inl] by (simp add: run_def)
next
  case (Inr u)
  obtain r s where rs: "run_body env sched goal sources local_extract (Run_init env) = (r, s)" by force
  show ?thesis
  proof (cases r)
    case (Inl e)
    then show ?thesis using fail_run_errors [of env e s] Inr rs by (auto simp: run_def catch_def)
  qed (simp add: run_def catch_def Inr rs)
qed

text \<open>
  C3. What can escape a run. \<open>RelayEngine.run\<close> raises nothing but a relay error or, when its task was
  cancelled from outside, that cancellation: a provider that raises anything else, a call that exceeds its
  deadline, an unreadable number or a missing key never reaches the caller as such.
\<close>

theorem run_errors:
  "case fst (run env sched goal sources local_extract) of Inl e \<Rightarrow> is_relay_error e \<or> e = CancelledError | Inr r \<Rightarrow> True"
  by (rule run_raises)


subsection \<open>Which route\<close>

lemma judge_locally_at_home:
  assumes "tier \<in> set (local_tiers (tiers_of env))"
  shows "keeps all_local (judge_locally env tier body)"
  using assms critic_tier_local [of tier "tiers_of env" "e_policy env"]
  by (intro at_home.judge_locally_keeps) (auto simp: local_tiers_def)

lemma try_tiers_at_home: "set ts \<subseteq> set (local_tiers (tiers_of env)) \<Longrightarrow> keeps all_local (try_tiers env body ts)"
  using critic_tier_local [of _ "tiers_of env" "e_policy env"]
  by (intro at_home.try_tiers_keeps) (auto simp: local_tiers_def)

lemma try_extract_at_home: "keeps all_local (try_extract env goal sources)"
  by (rule at_home.try_extract_keeps) simp

lemma after_cases:
  assumes "after m f s = (Inr y, s')"
  obtains x s1 where "m s = (Inr x, s1)" "f x s1 = (Inr y, s')"
  using assms by (auto simp: after_def split: prod.splits sum.splits)

lemma event_Inr: "event env name message fin data s = (Inr u, s') \<Longrightarrow> s' = publish env name message fin data s"
  by (auto simp: event_def Let_def split: if_splits option.splits)

lemma event_state: "snd (event env name message fin data s) = publish env name message fin data s"
  by (auto simp: event_def Let_def split: option.splits)

lemma after_update: "after (update g) f s = f () (g s)"
  by (simp add: after_def update_def)

lemma escalate_route: "route (snd (escalate env sched goal sources body s)) = Some ''cloud''"
  unfolding escalate_def after_update Let_def
  by (rule keepsD [where P = "\<lambda>s. route s = Some ''cloud''"])
    (auto intro!: keeps_after routed.event_keeps routed.escalate_keeps_body)

lemma execute_route:
  assumes "execute env sched goal sources local_extract s = (Inr content, s')" "all_local s"
  shows "route s' = Some ''cloud'' \<or> all_local s'"
proof -
  let ?first = "if local_extract then try_extract env goal sources else ret None"
  obtain x s1 where first: "?first s = (Inr x, s1)"
    and rest: "(case x of Some answer \<Rightarrow> after (update (\<lambda>s. s\<lparr>route := Some ''local''\<rparr>)) (\<lambda>_. ret (label env answer))
       | None \<Rightarrow> after (try_tiers env (task_text goal sources) (local_tiers (tiers_of env))) (\<lambda>trusted.
              (case trusted of Some answer \<Rightarrow> ret answer | None \<Rightarrow> escalate env sched goal sources (task_text goal sources)))) s1
       = (Inr content, s')"
    using assms(1) unfolding execute_def Let_def by (rule after_cases)
  have "keeps all_local ?first" using try_extract_at_home by auto
  from keepsD [OF this assms(2)] first have s1: "all_local s1" by simp
  show ?thesis
  proof (cases x)
    case (Some answer)
    with rest s1 show ?thesis
      by (auto simp: after_def update_def ret_def intro: at_home.route_keeps)
  next
    case None
    then obtain y s2 where tiers: "try_tiers env (task_text goal sources) (local_tiers (tiers_of env)) s1 = (Inr y, s2)"
      and last: "(case y of Some answer \<Rightarrow> ret answer | None \<Rightarrow> escalate env sched goal sources (task_text goal sources)) s2 = (Inr content, s')"
      using rest by (auto elim: after_cases)
    have "all_local s2" using keepsD [OF try_tiers_at_home s1] tiers by (metis order_refl snd_conv)
    then show ?thesis using last escalate_route [of env sched goal sources "task_text goal sources" s2]
      by (cases y) (auto simp: ret_def)
  qed
qed

lemma run_Inr:
  assumes "run env sched goal sources local_extract = (Inr r, s)"
  shows "run_body env sched goal sources local_extract (Run_init env) = (Inr r, s)"
proof (cases "check_request (e_limits env) goal sources")
  case (Inr u)
  obtain x s1 where body: "run_body env sched goal sources local_extract (Run_init env) = (x, s1)" by force
  show ?thesis
  proof (cases x)
    case (Inl e)
    then have "fail_run env e s1 = (Inr r, s)" using assms body \<open>check_request _ _ _ = Inr u\<close> by (simp add: run_def catch_def)
    with fail_run_errors [of env e s1] show ?thesis by auto
  qed (use assms body Inr in \<open>simp add: run_def catch_def\<close>)
qed (use assms in \<open>simp add: run_def\<close>)

lemma announce_state:
  "calls (snd (announce env goal s)) = calls s \<and> budget_of (snd (announce env goal s)) = budget_of s
   \<and> route (snd (announce env goal s)) = route s \<and> results (snd (announce env goal s)) = results s"
proof -
  have "keeps (\<lambda>s'. calls s' = calls s \<and> budget_of s' = budget_of s \<and> route s' = route s \<and> results s' = results s) (announce env goal)"
    unfolding announce_def locations_def
    by (intro keeps_after) (auto split: option.split sum.split pyval.split simp: keeps_def event_state ret_def raise_def)
  from keepsD [OF this, of s] show ?thesis by simp
qed

text \<open>What a completed run went through: it was announced, executed and announced again.\<close>

lemma run_body_Inr:
  assumes "run_body env sched goal sources local_extract (Run_init env) = (Inr r, s)"
  obtains s0 content s1 where "execute env sched goal sources local_extract s0 = (Inr content, s1)"
    "event env ''run_completed'' ''Relay complete'' True [(''metrics'', metrics_dict (metrics_of env s1))] s1 = (Inr (), s)"
    "rr_metrics r = metrics_of env s" "calls s0 = []" "budget_of s0 = CloudBudget_init" "route s0 = None" "rr_content r = content"
    "results s0 = []"
proof -
  obtain u s0 where ann: "announce env goal (Run_init env) = (Inr u, s0)"
    and "after (execute env sched goal sources local_extract) (conclude env) s0 = (Inr r, s)"
    using assms unfolding run_body_def by (rule after_cases)
  then obtain content s1 where ex: "execute env sched goal sources local_extract s0 = (Inr content, s1)"
    and con: "conclude env content s1 = (Inr r, s)"
    by (elim after_cases)
  have "calls s0 = []" "budget_of s0 = CloudBudget_init" "route s0 = None" "results s0 = []"
    using announce_state [of env goal "Run_init env"] ann by (auto simp: Run_init_def)
  moreover have "event env ''run_completed'' ''Relay complete'' True [(''metrics'', metrics_dict (metrics_of env s1))] s1 = (Inr (), s)"
    "rr_metrics r = metrics_of env s" "rr_content r = content"
    using con by (auto simp: conclude_def after_def read_def split: prod.splits sum.splits)
  ultimately show thesis using that ex by blast
qed

lemma run_locally_free:
  "case run env sched goal sources local_extract of
     (Inr r, s) \<Rightarrow> rr_metrics r = metrics_of env s \<and> (m_route (rr_metrics r) = Some ''cloud'' \<or> (cloud_made s = 0 \<and> m_cloud_calls (rr_metrics r) = 0))
   | (Inl e, s) \<Rightarrow> True"
proof (cases "run env sched goal sources local_extract")
  case (Pair x s)
  show ?thesis
  proof (cases x)
    case (Inr r)
    then have "run_body env sched goal sources local_extract (Run_init env) = (Inr r, s)"
      using Pair run_Inr by simp
    then obtain s0 content s1 where ex: "execute env sched goal sources local_extract s0 = (Inr content, s1)"
        and ev: "event env ''run_completed'' ''Relay complete'' True [(''metrics'', metrics_dict (metrics_of env s1))] s1 = (Inr (), s)"
        and r: "rr_metrics r = metrics_of env s" and s0: "calls s0 = []" "budget_of s0 = CloudBudget_init"
      by (rule run_body_Inr)
    have "all_local s0" using s0 by (simp add: all_local_def call_kinds_def CloudBudget_init_def)
    then have "route s1 = Some ''cloud'' \<or> all_local s1" by (rule execute_route [OF ex])
    moreover have "route s = route s1" "calls s = calls s1" "budget_of s = budget_of s1" using event_Inr [OF ev] by auto
    ultimately show ?thesis using r Pair Inr
      by (auto simp: metrics_of_def all_local_def call_kinds_def cloud_made_def list_all_iff filter_empty_conv)
  qed (simp add: Pair)
qed

text \<open>
  C2. A local answer costs no cloud call. A run that returns an answer either reports the route \<open>cloud\<close>
  or has made no cloud call at all, and its result carries the metrics of the state it ended in.
\<close>

theorem run_local_route:
  "case run env sched goal sources local_extract of
     (Inr r, s) \<Rightarrow> rr_metrics r = metrics_of env s \<and> (m_route (rr_metrics r) = Some ''cloud'' \<or> (cloud_made s = 0 \<and> m_cloud_calls (rr_metrics r) = 0))
   | (Inl e, s) \<Rightarrow> True"
  by (rule run_locally_free)

subsection \<open>The final event\<close>

lemma conclude_runs:
  assumes "\<And>n. e_interrupt env n = None"
  shows "\<exists>r. conclude env content s =
    (Inr r, publish env ''run_completed'' ''Relay complete'' True [(''metrics'', metrics_dict (metrics_of env s))] s)"
  by (simp add: conclude_def after_def read_def event_def Let_def assms)

lemma run_body_events:
  assumes "\<And>n. e_interrupt env n = None" "run_body env sched goal sources local_extract (Run_init env) = (x, s)"
  shows "case x of Inl e \<Rightarrow> none_done s \<and> numbered env s
    | Inr r \<Rightarrow> (\<exists>s1 data. none_done s1 \<and> numbered env s1 \<and> s = publish env ''run_completed'' ''Relay complete'' True data s1)"
proof -
  let ?I = "\<lambda>s. numbered env s \<and> none_done s"
  obtain y s0 where a: "announce env goal (Run_init env) = (y, s0)" by force
  have "?I (Run_init env)" by (simp add: numbered_def none_done_def Run_init_def)
  from keepsD [OF progress.announce_keeps this, of goal] a have s0: "?I s0" by simp
  show ?thesis
  proof (cases y)
    case (Inl e)
    then show ?thesis using assms(2) a s0 by (auto simp: run_body_def after_def)
  next
    case (Inr u)
    obtain z s1 where ex: "execute env sched goal sources local_extract s0 = (z, s1)" by force
    have "keeps ?I (execute env sched goal sources local_extract)" by (rule progress.execute_keeps) simp
    from keepsD [OF this s0] ex have s1: "?I s1" by simp
    show ?thesis
    proof (cases z)
      case (Inl e)
      then show ?thesis using assms(2) a \<open>y = Inr u\<close> ex s1 by (auto simp: run_body_def after_def)
    next
      case (Inr content)
      obtain r where "conclude env content s1 =
          (Inr r, publish env ''run_completed'' ''Relay complete'' True [(''metrics'', metrics_dict (metrics_of env s1))] s1)"
        using conclude_runs [OF assms(1)] by blast
      then have "x = Inr r" "s = publish env ''run_completed'' ''Relay complete'' True [(''metrics'', metrics_dict (metrics_of env s1))] s1"
        using assms(2) a \<open>y = Inr u\<close> ex Inr by (auto simp: run_body_def after_def)
      then show ?thesis using s1 by auto
    qed
  qed
qed

lemma fail_run_state:
  assumes "\<And>n. e_interrupt env n = None"
  shows "\<exists>name message data. snd (fail_run env e s) = publish env name message True data s"
proof -
  have "snd (after (final_event env name message) (\<lambda>_. raise y) s)
      = publish env name message True [(''metrics'', metrics_dict (metrics_of env s))] s" for name message y
    using assms by (simp add: after_def final_event_def event_def raise_def Let_def publish_def outside_def)
  then show ?thesis unfolding fail_run_def by (cases "e = CancelledError"; cases "e = TimeoutError \<or> e = DeadlineCancelled") (auto; blast)+
qed



text \<open>A run whose servers cannot be reached: the default configuration, with every call refused.\<close>

definition offline_env :: env where
  "offline_env =
     \<lparr>e_run_id = ''r1'', e_limits = default_limits, e_policy = default_policy,
      e_models = Some [(''local'', ''horizon-0.9b''), (''cloud'', ''horizon-375b'')], e_simulated = False, e_notice = None,
      e_streams = True, e_emit = True, e_on_delta = False, e_locations = None,
      e_complete = (\<lambda>i tier oper payload. Raised (RelayError (''Cannot connect to the '' @ tier @ '' model endpoint''))),
      e_live = (\<lambda>i. []), e_interrupt = (\<lambda>n. None), e_started_ms = (\<lambda>i. 0), e_elapsed_ms = (\<lambda>i. 0), e_run_ms = 0\<rparr>"


end
