(* ===== verification/Relay_Demo.thy ===== *)
theory Relay_Demo
  imports Relay_Guarantees
begin

section \<open>The scripted provider and the demo (providers/simulated.py, demo.py)\<close>

text \<open>
  A provider without models: its answers depend on the scenario, the tier, the operation and the payload.
  \<open>run_demo\<close> runs the engine on it over the two built-in bug reports.
\<close>

definition SCENARIOS :: "string list" where
  "SCENARIOS = [''standard'', ''trusted'', ''local'', ''repair'', ''escalate'']"

text \<open>The fixture \<open>bug_reports.json\<close>.\<close>

definition demo_sources :: "sources" where
  "demo_sources =
     [(''report_1'', ''Checkout fails after applying the SAVE10 coupon. Reproduce: add an item, enter SAVE10, and press Pay. The page shows error 500; the order is not created.''),
      (''report_2'', ''The cart subtotal does not refresh after removing an item. Reproduce: add two items, remove one, and inspect the subtotal. Reloading the page fixes the displayed amount.'')]"

definition SimulatedProvider_init :: "string \<Rightarrow> real \<Rightarrow> unit res" where
  "SimulatedProvider_init scenario delay =
     bindE (requireE (scenario \<in> set SCENARIOS) (ValueError ''Unknown demo scenario'')) (\<lambda>_.
     requireE (0 \<le> delay \<and> delay \<le> 2) (ValueError ''Demo delay must be between 0 and 2 seconds''))"

definition simulated_models :: "(string, string) dict" where
  "simulated_models = [(''local'', ''simulated-horizon-local''), (''cloud'', ''simulated-horizon-cloud'')]"

definition simulated_notice :: "string \<Rightarrow> string option" where
  "simulated_notice scenario =
     (if scenario = ''repair'' \<or> scenario = ''escalate'' then Some ''Demo intentionally injects an invalid worker quote'' else None)"

text \<open>\<open>d[k]\<close>.\<close>

definition at_key :: "pydict \<Rightarrow> string \<Rightarrow> pyval res" where
  "at_key d k = (case map_of d k of None \<Rightarrow> Inl KeyError | Some v \<Rightarrow> Inr v)"

definition dict_at :: "pydict \<Rightarrow> string \<Rightarrow> pydict res" where
  "dict_at d k = (case map_of d k of None \<Rightarrow> Inl KeyError | Some (PDict e) \<Rightarrow> Inr e | Some _ \<Rightarrow> Inl TypeError)"

definition simulated_solve :: "string \<Rightarrow> pyval" where
  "simulated_solve scenario =
     (if scenario = ''trusted''
      then PDict [(''answer'', PStr ''report_1 is a checkout failure after the SAVE10 coupon (error 500).''),
                  (''confidence'', PReal 0.93), (''task_type'', PStr ''summary''), (''difficulty'', PStr ''low''),
                  (''needs_escalation'', PBool False), (''reason'', PStr ''The report states it directly.'')]
      else PDict [(''answer'', PStr ''Report 1 may matter more, but I cannot rank all reports reliably.''),
                  (''confidence'', PReal 0.3), (''task_type'', PStr ''prioritization''), (''difficulty'', PStr ''high''),
                  (''needs_escalation'', PBool True), (''reason'', PStr ''Several reports to compare and prioritize.'')])"

definition extract_task :: "string \<Rightarrow> pyval" where
  "extract_task report_id = PDict
     [(''id'', PStr (''extract_'' @ report_id)), (''instruction'', PStr ''Extract the report verbatim as evidence.''),
      (''why'', PStr ''Copying one report word for word is literal and checkable.''),
      (''preferred_tier'', PStr ''local''), (''input_refs'', PList [PStr (''sources.'' @ report_id)]),
      (''depends_on'', PList []), (''result_type'', PStr ''report_extraction''),
      (''checks'', PList [PStr ''required_fields'', PStr ''source_quotes_match''])]"

definition simulated_plan :: "string list \<Rightarrow> pyval" where
  "simulated_plan report_ids =
     (let ids = map (\<lambda>r. ''extract_'' @ r) report_ids
      in PDict [(''version'', PInt 2),
           (''tasks'', PList (map extract_task report_ids @ [PDict
              [(''id'', PStr ''group_reports''), (''instruction'', PStr ''Group the extracted reports by symptom.''),
               (''why'', PStr ''Sorting a few short reports into groups needs little reasoning.''),
               (''preferred_tier'', PStr ''local''), (''input_refs'', PList (map (\<lambda>i. PStr (''results.'' @ i)) ids)),
               (''depends_on'', PList (map PStr ids)), (''result_type'', PStr ''report_groups''),
               (''checks'', PList [PStr ''required_fields'', PStr ''report_ids_preserved''])]])),
           (''final_instruction'', PStr ''Prioritize fixes using the evidence.'')])"

definition group_entry :: "pyval \<Rightarrow> pyval res" where
  "group_entry v =
     (case v of
        PDict d \<Rightarrow> bindE (at_key d ''report_id'') (\<lambda>rid.
          Inr (PDict [(''label'', PStr (if rid = PStr ''report_1'' then ''Checkout failure'' else ''Cart display'')),
                      (''report_ids'', PList [rid])]))
      | _ \<Rightarrow> Inl TypeError)"

definition injected_failures :: "string \<Rightarrow> int" where
  "injected_failures scenario = (if scenario = ''repair'' then 1 else if scenario = ''escalate'' then 2 else 0)"

definition simulated_work :: "string \<Rightarrow> string \<Rightarrow> pydict \<Rightarrow> pyval res" where
  "simulated_work scenario tier payload =
     bindE (dict_at payload ''task'') (\<lambda>t.
     bindE (at_key payload ''attempt'') (\<lambda>attempt.
     bindE (dict_at payload ''inputs'') (\<lambda>inputs.
     if field t ''id'' = PStr ''extract_report_1'' \<and> tier = ''local''
        \<and> (case attempt of PInt a \<Rightarrow> a \<le> injected_failures scenario | _ \<Rightarrow> False)
     then Inr (PDict [(''report_id'', PStr ''report_1''), (''quote'', PStr ''INJECTED INVALID QUOTE''), (''confidence'', PStr ''low''),
                      (''concern'', PStr ''Scripted fault: the quote is deliberately wrong.'')])
     else if field t ''result_type'' = PStr ''report_extraction''
     then (case inputs of
             [] \<Rightarrow> Inl OtherError
           | (ref, body) # _ \<Rightarrow>
               (case partition_at (CHR ''.'') ref of
                  (pre, True, key) \<Rightarrow> Inr (PDict [(''report_id'', PStr key), (''quote'', body), (''confidence'', PStr ''high'')])
                | _ \<Rightarrow> Inl IndexError))
     else bindE (mapE (\<lambda>(k, v). group_entry v) inputs) (\<lambda>groups. Inr (PDict [(''groups'', PList groups)])))))"

definition evidence_line :: "pyval \<Rightarrow> string" where
  "evidence_line v = (case v of PDict d \<Rightarrow> ''**'' @ py_str (field d ''report_id'') @ ''**: '' @ py_str (field d ''quote'') | _ \<Rightarrow> [])"

definition has_quote :: "pyval \<Rightarrow> bool" where
  "has_quote v = (case v of PDict d \<Rightarrow> map_of d ''quote'' \<noteq> None | _ \<Rightarrow> False)"

definition simulated_synthesis :: "pydict \<Rightarrow> string" where
  "simulated_synthesis done =
     ''### Engineering plan (scripted fixture)'' @ blank_line
     @ ''1. Investigate the coupon checkout failure first; it prevents order creation.'' @ newline
     @ ''2. Fix cart subtotal refresh and add a regression check for item removal.'' @ blank_line
     @ ''Evidence checked against the supplied fixture:'' @ blank_line
     @ join blank_line (map evidence_line (filter has_quote (map snd done)))"

definition simulated_complete :: "string \<Rightarrow> string \<Rightarrow> operation \<Rightarrow> pydict \<Rightarrow> reply res" where
  "simulated_complete scenario tier oper payload =
     (let reply_with = (\<lambda>v. Inr (plain_reply v (''simulated-horizon-'' @ tier)))
      in case oper of
           Solve \<Rightarrow> reply_with (simulated_solve scenario)
         | Critique \<Rightarrow> reply_with (PDict [(''passed'', PBool True), (''severity'', PReal 0.05), (''critique'', PStr ''Matches the report.'')])
         | Answer \<Rightarrow> reply_with (PStr (''### Direct cloud answer (scripted fixture)'' @ blank_line @ ''Fix the coupon checkout failure first.''))
         | Attempt \<Rightarrow>
             if scenario = ''local''
             then bindE (bindE (dict_at payload ''sources'') (\<lambda>d. at_key d ''report_1'')) (\<lambda>q.
                  reply_with (PDict [(''report_id'', PStr ''report_1''), (''quote'', q), (''confidence'', PStr ''high'')]))
             else reply_with (PDict [(''needs_plan'', PBool True), (''confidence'', PStr ''low''),
                                     (''reason'', PStr ''Several reports to compare and prioritize.'')])
         | PlanOp \<Rightarrow> bindE (dict_at payload ''sources'') (\<lambda>d. reply_with (simulated_plan (map fst d)))
         | Work \<Rightarrow> bindE (simulated_work scenario tier payload) reply_with
         | Synthesize \<Rightarrow> bindE (dict_at payload ''results'') (\<lambda>d. reply_with (PStr (simulated_synthesis d)))
         | Direct \<Rightarrow> reply_with (PStr ''Simulated reply; no model called.''))"

text \<open>The demo's engine: default limits and a policy that always plans. A demo run is never cancelled.\<close>

definition demo_env :: "string \<Rightarrow> bool \<Rightarrow> bool \<Rightarrow> env" where
  "demo_env scenario cloud emitting =
     \<lparr>e_run_id = ''demo'', e_limits = default_limits\<lparr>cloud_enabled := cloud\<rparr>, e_policy = default_policy\<lparr>cloud_mode := ''plan''\<rparr>,
      e_models = Some simulated_models, e_simulated = True, e_notice = simulated_notice scenario, e_streams = False,
      e_emit = emitting, e_on_delta = False, e_locations = None,
      e_complete = (\<lambda>i tier oper payload. case simulated_complete scenario tier oper payload of Inr r \<Rightarrow> Replied r | Inl e \<Rightarrow> Raised e),
      e_live = (\<lambda>i. []), e_interrupt = (\<lambda>n. None), e_started_ms = (\<lambda>i. 0), e_elapsed_ms = (\<lambda>i. 0), e_run_ms = 0\<rparr>"

definition demo_goal :: "string \<Rightarrow> string" where
  "demo_goal scenario =
     (if scenario = ''local'' then ''Extract report 1 verbatim''
      else if scenario = ''trusted'' then ''Summarize report 1 in one sentence''
      else ''Prioritize fixes for the supplied bug reports'')"

definition run_demo :: "schedule \<Rightarrow> string \<Rightarrow> real \<Rightarrow> bool \<Rightarrow> bool \<Rightarrow> run_result res \<times> run_state" where
  "run_demo sched scenario delay cloud emitting =
     (case SimulatedProvider_init scenario delay of
        Inl e \<Rightarrow> (Inl e, Run_init (demo_env scenario cloud emitting))
      | Inr _ \<Rightarrow>
          run (demo_env scenario cloud emitting) sched (demo_goal scenario)
            (if scenario = ''local'' then take 1 demo_sources else demo_sources) (scenario = ''local''))"

end
