(* ===== verification/Relay_Graph.thy ===== *)
theory Relay_Graph
  imports Relay_Demo Relay_Prompts
begin

section \<open>The decision graph (graph.py)\<close>

text \<open>
  \<^verbatim>\<open>RunGraph\<close> folds a run's events into nodes and edges. A node and an attempt are plain
  dictionaries, as in the source, so a handler may add keys to them; a missing key is a \<open>KeyError\<close>. A
  handler returns the new graph or the exception it raises.
\<close>

definition POLICY :: string where
  "POLICY = ''Routing policy''"

definition task_title :: "string \<Rightarrow> string" where
  "task_title task_id =
     (let t = capitalize (strip (map (\<lambda>c. if c = CHR ''_'' then CHR '' '' else c) task_id)) in if t = [] then task_id else t)"

record edge =
  ed_from :: string
  ed_to :: string
  ed_type :: string
  ed_label :: pyval

record lane =
  ln_id :: string
  ln_model :: string
  ln_location :: pyval

record run_graph =
  g_run_id :: pyval
  g_status :: string
  g_message :: string
  g_simulated :: bool
  g_goal :: pyval
  g_lanes :: "lane list"
  g_nodes :: "(string, pydict) dict"
  g_edges :: "edge list"
  g_task_lane :: "(string, string) dict"
  g_accepted :: "(string, string) dict"
  g_final_instruction :: string
  g_direct_reason :: string
  g_metrics :: pyval
  g_route :: pyval

definition RunGraph_init :: run_graph where
  "RunGraph_init =
     \<lparr>g_run_id = PNone, g_status = ''running'', g_message = [], g_simulated = False, g_goal = PStr [], g_lanes = [],
      g_nodes = [], g_edges = [], g_task_lane = [], g_accepted = [], g_final_instruction = [], g_direct_reason = [],
      g_metrics = PNone, g_route = PNone\<rparr>"

subsection \<open>Nodes, attempts, edges\<close>

text \<open>A text that has to be there: \<open>d[k]\<close> used as a name.\<close>

definition str_item :: "pydict \<Rightarrow> string \<Rightarrow> string res" where
  "str_item d k = bindE (item d k) (\<lambda>v. case v of PStr s \<Rightarrow> Inr s | _ \<Rightarrow> Inl TypeError)"

definition dict_item :: "pydict \<Rightarrow> string \<Rightarrow> pydict res" where
  "dict_item d k = bindE (item d k) (\<lambda>v. case v of PDict e \<Rightarrow> Inr e | _ \<Rightarrow> Inl TypeError)"

text \<open>A number in a comparison or a format: a float of the engine's events.\<close>

definition real_item :: "pydict \<Rightarrow> string \<Rightarrow> real res" where
  "real_item d k = bindE (item d k) (\<lambda>v. case v of PFloat (Fin x) \<Rightarrow> Inr x | _ \<Rightarrow> Inl TypeError)"

definition fmt2_item :: "pydict \<Rightarrow> string \<Rightarrow> string res" where
  "fmt2_item d k = bindE (item d k) (\<lambda>v. case v of
       PFloat (Fin x) \<Rightarrow> Inr (fmt2 x) | PFloat x \<Rightarrow> Inr (float_repr x) | _ \<Rightarrow> Inl TypeError)"

definition model_of :: "run_graph \<Rightarrow> string \<Rightarrow> string" where
  "model_of g tier = (case filter (\<lambda>l. ln_id l = tier) (g_lanes g) of [] \<Rightarrow> tier | l # _ \<Rightarrow> ln_model l)"

definition new_node :: "string \<Rightarrow> pydict \<Rightarrow> pydict" where
  "new_node node_id fs = dict_update
     [(''id'', PStr node_id), (''status'', PStr ''queued''), (''attempts'', PList []), (''judgment'', PNone), (''result'', PNone),
      (''why'', PStr []), (''by'', PStr []), (''instruction'', PStr []), (''depends_on'', PList []), (''task_id'', PNone)] fs"

definition ensure_node :: "string \<Rightarrow> pydict \<Rightarrow> run_graph \<Rightarrow> run_graph" where
  "ensure_node node_id fs g =
     (if map_of (g_nodes g) node_id \<noteq> None then g
      else g\<lparr>g_nodes := dict_set node_id (new_node node_id fs) (g_nodes g)\<rparr>)"

definition node_of :: "run_graph \<Rightarrow> string \<Rightarrow> pydict res" where
  "node_of g node_id = (case map_of (g_nodes g) node_id of None \<Rightarrow> Inl KeyError | Some n \<Rightarrow> Inr n)"

definition set_node :: "string \<Rightarrow> pydict \<Rightarrow> run_graph \<Rightarrow> run_graph" where
  "set_node node_id n g = g\<lparr>g_nodes := dict_set node_id n (g_nodes g)\<rparr>"

definition update_node :: "string \<Rightarrow> pydict \<Rightarrow> run_graph \<Rightarrow> run_graph res" where
  "update_node node_id fs g = bindE (node_of g node_id) (\<lambda>n. Inr (set_node node_id (dict_update n fs) g))"

text \<open>\<open>_task_node\<close>: the node's id, in a graph that has the node.\<close>

definition task_node :: "string \<Rightarrow> string \<Rightarrow> run_graph \<Rightarrow> string \<times> run_graph" where
  "task_node task_id tier g =
     (if tier = dict_get_or (g_task_lane g) task_id tier then (task_id, ensure_node task_id [] g)
      else
        let original = (case map_of (g_nodes g) task_id of None \<Rightarrow> [] | Some n \<Rightarrow> n);
            node_id = task_id @ ''@'' @ tier
        in (node_id, ensure_node node_id
             [(''kind'', PStr ''retry''), (''lane'', PStr tier), (''round'', dict_get_or original ''round'' (PInt 1)),
              (''title'', dict_get_or original ''title'' (PStr (task_title task_id))), (''task_id'', PStr task_id),
              (''instruction'', dict_get_or original ''instruction'' (PStr [])), (''inputs'', dict_get_or original ''inputs'' (PList [])),
              (''result_type'', field original ''result_type''), (''by'', PStr POLICY),
              (''why'', PStr (''Its checks failed on the smaller model, so the routing policy gives only this ''
                 @ ''subtask a try on '' @ model_of g tier @ ''. The rest of the plan is unaffected.''))] g))"

definition attempts_of :: "pydict \<Rightarrow> pyval list" where
  "attempts_of n = elements (field n ''attempts'')"

fun attempt_number :: "pyval \<Rightarrow> pyval" where
  "attempt_number (PDict a) = field a ''n''"
| "attempt_number _ = PNone"

definition new_attempt :: "run_graph \<Rightarrow> pyval \<Rightarrow> string \<Rightarrow> pydict" where
  "new_attempt g n lane =
     [(''n'', n), (''lane'', PStr lane), (''model'', PStr (model_of g lane)), (''outcome'', PStr ''running''), (''check'', PNone),
      (''ms'', PNone), (''tokens'', PNone), (''judgment'', PNone)]"

text \<open>The first attempt numbered \<open>n\<close> is updated.\<close>

fun update_attempt :: "pyval \<Rightarrow> pydict \<Rightarrow> pyval list \<Rightarrow> pyval list" where
  "update_attempt n fs [] = []"
| "update_attempt n fs (a # as) =
     (case a of
        PDict d \<Rightarrow> if attempt_number a = n then PDict (dict_update d fs) # as else a # update_attempt n fs as
      | _ \<Rightarrow> a # update_attempt n fs as)"

text \<open>\<open>self._attempt(node, n).update(fs)\<close>: the attempt is created when the node has none of that number.\<close>

definition put_attempt :: "string \<Rightarrow> pyval \<Rightarrow> pydict \<Rightarrow> run_graph \<Rightarrow> run_graph res" where
  "put_attempt node_id n fs g =
     bindE (node_of g node_id) (\<lambda>nd.
     if list_ex (\<lambda>a. attempt_number a = n) (attempts_of nd)
     then Inr (set_node node_id (dict_set ''attempts'' (PList (update_attempt n fs (attempts_of nd))) nd) g)
     else bindE (str_item nd ''lane'') (\<lambda>lane.
          Inr (set_node node_id (dict_set ''attempts''
                 (PList (attempts_of nd @ [PDict (dict_update (new_attempt g n lane) fs)])) nd) g)))"

definition attempt_field :: "string \<Rightarrow> pyval \<Rightarrow> string \<Rightarrow> run_graph \<Rightarrow> pyval" where
  "attempt_field node_id n k g =
     (case map_of (g_nodes g) node_id of
        None \<Rightarrow> PNone
      | Some nd \<Rightarrow> (case filter (\<lambda>a. attempt_number a = n) (attempts_of nd) of PDict a # _ \<Rightarrow> field a k | _ \<Rightarrow> PNone))"

definition add_edge :: "string \<Rightarrow> string \<Rightarrow> string \<Rightarrow> pyval \<Rightarrow> run_graph \<Rightarrow> run_graph" where
  "add_edge source target kind lab g =
     (let e = \<lparr>ed_from = source, ed_to = target, ed_type = kind, ed_label = lab\<rparr>
      in if e \<in> set (g_edges g) then g else g\<lparr>g_edges := g_edges g @ [e]\<rparr>)"

definition node_kind :: "pydict \<Rightarrow> pyval" where
  "node_kind n = field n ''kind''"

definition judge_id :: "string \<Rightarrow> string" where
  "judge_id tier = ''judge:'' @ tier"

definition plan_node :: "run_graph \<Rightarrow> run_graph" where
  "plan_node g = ensure_node ''plan''
     [(''kind'', PStr ''plan''), (''lane'', PStr ''cloud''), (''round'', PInt 0), (''title'', PStr ''Plan the work''), (''by'', PStr POLICY),
      (''instruction'', PStr ''Split the request into subtasks and give each to the smallest model that can handle it.''),
      (''why'', PStr (''No local answer was trusted, so the large model breaks the request down and delegates ''
         @ ''each piece to the smallest model expected to handle it (cloud_mode=plan).''))] g"

fun int_of :: "pyval \<Rightarrow> int" where
  "int_of (PInt i) = i"
| "int_of _ = 0"

definition last_round :: "run_graph \<Rightarrow> int" where
  "last_round g = fold max (map (\<lambda>(k, n). int_of (field n ''round''))
     (filter (\<lambda>(k, n). node_kind n = PStr ''task'' \<or> node_kind n = PStr ''retry'') (g_nodes g))) 0"

definition answer_node :: "bool \<Rightarrow> run_graph \<Rightarrow> run_graph" where
  "answer_node direct g =
     (if direct
      then ensure_node ''answer''
        [(''kind'', PStr ''answer''), (''lane'', PStr ''cloud''), (''round'', PInt (last_round g)), (''title'', PStr ''Answer in the cloud''),
         (''by'', PStr POLICY), (''instruction'', PStr ''Solve the original request, using the local attempts only as clues.''),
         (''why'', PStr (if g_direct_reason g \<noteq> [] then g_direct_reason g
                         else ''No local answer was trusted, so the large model answers.''))] g
      else ensure_node ''answer''
        [(''kind'', PStr ''answer''), (''lane'', PStr ''cloud''), (''round'', PInt (last_round g + 1)), (''title'', PStr ''Write the answer''),
         (''by'', PStr POLICY),
         (''instruction'', PStr (if g_final_instruction g \<noteq> [] then g_final_instruction g
                                 else ''Answer the original request from the checked subtask results.'')),
         (''inputs'', PList (map (\<lambda>(k, n). PStr (''Result of '' @ py_str (field n ''title'')))
              (filter (\<lambda>(k, n). node_kind n = PStr ''task'') (g_nodes g)) @ [PStr ''The original request''])),
         (''why'', PStr (''Only the large model writes the final answer. Subtask results are format-checked, ''
            @ ''not fact-checked, so it reviews their reasoning here.''))] g)"

subsection \<open>Event handlers\<close>

definition read_lane :: "pyval \<Rightarrow> lane res" where
  "read_lane t =
     (case t of
        PDict d \<Rightarrow> bindE (str_item d ''id'') (\<lambda>i. bindE (str_item d ''model'') (\<lambda>m.
          Inr \<lparr>ln_id = i, ln_model = m, ln_location = dict_get_or d ''location'' (PStr [])\<rparr>))
      | _ \<Rightarrow> Inl TypeError)"

definition on_run_started :: "pydict \<Rightarrow> run_graph \<Rightarrow> run_graph res" where
  "on_run_started d g =
     bindE (mapE read_lane (elements (dict_get_or d ''tiers'' (PList [])))) (\<lambda>ls.
     Inr (g\<lparr>g_goal := dict_get_or d ''goal'' (PStr []), g_lanes := ls\<rparr>))"

definition on_local_attempt :: "run_graph \<Rightarrow> run_graph res" where
  "on_local_attempt g =
     put_attempt ''triage'' (PInt 1) [] (ensure_node ''triage''
       [(''kind'', PStr ''triage''), (''lane'', PStr ''local''), (''round'', PInt 0), (''title'', PStr ''Exact extraction''),
        (''status'', PStr ''running''), (''instruction'', g_goal g), (''by'', PStr POLICY),
        (''why'', PStr ''You asked for an exact copy (/local-extract), which can be checked word for word locally.'')] g)"

text \<open>\<open>_node_for_call\<close>: the id of the node, if there is one, in a graph that may have gained it.\<close>

definition node_for_call :: "pydict \<Rightarrow> run_graph \<Rightarrow> (string option \<times> run_graph) res" where
  "node_for_call d g =
     bindE (str_item d ''operation'') (\<lambda>oper. bindE (str_item d ''tier'') (\<lambda>tier.
     let existing = (\<lambda>i. if map_of (g_nodes g) i \<noteq> None then Some i else None)
     in if oper = ''attempt'' then Inr (existing ''triage'', g)
        else if oper = ''solve'' \<or> oper = ''critique''
        then Inr (existing (judge_id (the_str (or_val (field d ''for_tier'') (PStr tier)))), g)
        else if oper = ''answer'' then Inr (Some ''answer'', answer_node True g)
        else if oper = ''plan'' then Inr (Some ''plan'', plan_node g)
        else if oper = ''synthesize'' then Inr (Some ''answer'', answer_node False g)
        else if oper = ''work'' \<and> truthy (field d ''task_id'')
        then bindE (str_item d ''task_id'') (\<lambda>t. case task_node t tier g of (i, g') \<Rightarrow> Inr (Some i, g'))
        else Inr (None, g)))"

definition on_call_output :: "pydict \<Rightarrow> run_graph \<Rightarrow> run_graph res" where
  "on_call_output d g =
     bindE (node_for_call d g) (\<lambda>(node, g1).
     (case node of
        None \<Rightarrow> Inr g1
      | Some i \<Rightarrow>
          let live = dict_get_or d ''output'' (PStr [])
          in bindE (update_node i [(''live'', live)] g1)
               (put_attempt i (or_val (field d ''attempt'') (PInt 1)) [(''live'', live)])))"

definition call_tokens :: "pydict \<Rightarrow> pyval" where
  "call_tokens d =
     (case (field d ''prompt_tokens'', field d ''completion_tokens'') of
        (PInt p, PInt c) \<Rightarrow> PInt (p + c)
      | _ \<Rightarrow> PNone)"

definition call_texts :: "pydict \<Rightarrow> pydict" where
  "call_texts d =
     (case field d ''output'' of
        PDict out \<Rightarrow> if out = [] then []
                     else [(''thinking'', or_val (field out ''thinking'') (PStr [])), (''text'', or_val (field out ''answer'') (PStr []))]
      | _ \<Rightarrow> [])"

definition on_call_finished :: "pydict \<Rightarrow> run_graph \<Rightarrow> run_graph res" where
  "on_call_finished d g =
     bindE (node_for_call d g) (\<lambda>(node, g1).
     (case node of
        None \<Rightarrow> Inr g1
      | Some i \<Rightarrow>
          bindE (str_item d ''operation'') (\<lambda>oper. bindE (str_item d ''tier'') (\<lambda>tier.
          let n = or_val (field d ''attempt'') (PInt 1)
          in bindE (update_node i [(''live'', PNone)] g1) (\<lambda>g2.
             bindE (put_attempt i n ([(''live'', PNone)] @ call_texts d) g2) (\<lambda>g3.
             bindE (put_attempt i n [(''lane'', PStr tier), (''model'', or_val (field d ''model'') (attempt_field i n ''model'' g3)),
                      (''ms'', field d ''elapsed_ms''), (''tokens'', call_tokens d), (''judgment'', field d ''judgment'')] g3) (\<lambda>g4.
             bindE (if truthy (field d ''judgment'') then update_node i [(''judgment'', field d ''judgment'')] g4 else Inr g4) (\<lambda>g5.
             if field d ''outcome'' = PStr ''failed''
             then bindE (put_attempt i n [(''outcome'', PStr ''error''),
                         (''check'', PStr ''The model call failed (connection, timeout or invalid reply).'')] g5)
                    (update_node i [(''status'', PStr ''failed'')])
             else if oper \<notin> {''work'', ''solve'', ''critique''} then put_attempt i n [(''outcome'', PStr ''passed'')] g5
             else Inr g5))))))))"

definition on_extract_failed :: "run_graph \<Rightarrow> run_graph res" where
  "on_extract_failed g =
     update_node ''triage'' [(''status'', PStr ''escalated''), (''result'', PStr ''Not an exact copy of the source'')] g"

definition judge_fields :: "run_graph \<Rightarrow> string \<Rightarrow> string \<Rightarrow> pyval \<Rightarrow> string \<Rightarrow> string \<Rightarrow> pydict" where
  "judge_fields g tier status decision reason why =
     [(''kind'', PStr ''judge''), (''lane'', PStr tier), (''round'', PInt 0), (''title'', PStr ''Answer locally''), (''status'', PStr status),
      (''instruction'', g_goal g), (''by'', PStr POLICY), (''samples'', PList []), (''critique'', PNone), (''signals'', PNone),
      (''weights'', PNone), (''threshold'', PNone), (''decision'', decision), (''reason'', PStr reason), (''why'', PStr why)]"

definition judges :: "run_graph \<Rightarrow> (string \<times> pydict) list" where
  "judges g = filter (\<lambda>(k, n). node_kind n = PStr ''judge'') (g_nodes g)"

definition on_local_solve :: "pydict \<Rightarrow> run_graph \<Rightarrow> run_graph res" where
  "on_local_solve d g =
     bindE (str_item d ''tier'') (\<lambda>tier.
     let previous = judges g;
         why = (if previous = []
                then ''Every request starts on the smallest model. It answers and rates its own confidence, a ''
                     @ ''critic checks the answer, and the answer is trusted only if the combined risk score ''
                     @ ''stays under the threshold.''
                else ''The smaller model'' @ [CHR 0x27] @ ''s answer was not trusted, so the next model up answers and is scored '' @ ''the same way.'');
         g1 = ensure_node (judge_id tier) (judge_fields g tier ''running'' PNone [] why) g;
         source = (if previous \<noteq> [] then Some (last previous)
                   else map_option (Pair ''triage'') (map_of (g_nodes g) ''triage''))
     in Inr (case source of
               None \<Rightarrow> g1
             | Some (i, n) \<Rightarrow>
                 add_edge i (judge_id tier) ''escalated''
                   (if node_kind n = PStr ''judge'' then field n ''reason'' else PStr ''Not an exact copy'') g1))"

definition on_local_sample :: "pydict \<Rightarrow> run_graph \<Rightarrow> run_graph res" where
  "on_local_sample d g =
     bindE (str_item d ''tier'') (\<lambda>tier. bindE (dict_item d ''assessment'') (\<lambda>sample.
     let i = judge_id tier
     in bindE (node_of g i) (\<lambda>nd.
        bindE (item d ''attempt'') (\<lambda>n.
        let g1 = set_node i (dict_set ''samples'' (PList (elements (field nd ''samples'') @ [PDict sample])) nd) g
        in bindE (real_item sample ''confidence'') (\<lambda>conf.
           bindE (put_attempt i n [(''label'', PStr (''Answer '' @ py_str n)), (''confidence'', PReal conf),
                                   (''token_prob'', field sample ''token_prob'')] g1) (\<lambda>g2.
           bindE (item sample ''needs_escalation'') (\<lambda>needs. bindE (item sample ''structured'') (\<lambda>struct. bindE (item sample ''reason'') (\<lambda>reason.
           bindE (if truthy needs
                  then put_attempt i n [(''outcome'', PStr ''failed''),
                         (''check'', PStr ((if truthy struct then ''Asked for a larger model: '' else [])
                                           @ py_str (or_val reason (PStr ''no reason given''))))] g2
                  else put_attempt i n [(''outcome'', PStr ''passed'')] g2) (\<lambda>g3.
           update_node i [(''judgment'', PDict
             [(''confidence'', PStr (if conf < 0.5 then ''low'' else if conf < 0.8 then ''medium'' else ''high'')),
              (''score'', PReal conf), (''note'', reason)])] g3))))))))))"

definition on_local_skipped :: "pydict \<Rightarrow> run_graph \<Rightarrow> run_graph res" where
  "on_local_skipped d g =
     bindE (str_item d ''tier'') (\<lambda>tier. bindE (fmt2_item d ''complexity'') (\<lambda>c. bindE (fmt2_item d ''threshold'') (\<lambda>t.
     Inr (ensure_node (judge_id tier)
       (judge_fields g tier ''skipped'' (PStr ''skip'') (''Complexity '' @ c @ '' '' @ ch_ge @ '' '' @ t)
          (''This request looks hard (task complexity at or above the policy'' @ [CHR 0x27] @ ''s skip_small_above), so the ''
           @ ''smallest model is not asked at all.'')) g))))"

definition last_path_part :: "string \<Rightarrow> string" where
  "last_path_part s = last (split_char (CHR ''/'') s)"

definition on_local_critique :: "pydict \<Rightarrow> run_graph \<Rightarrow> run_graph res" where
  "on_local_critique d g =
     bindE (str_item d ''tier'') (\<lambda>tier.
     bindE (node_of g (judge_id tier)) (\<lambda>nd.
     let critic = the_str (or_val (field d ''critic_tier'') (PStr tier));
         lab = (if critic = tier then ''Critic'' else ''Critic ('' @ last_path_part (model_of g critic) @ '')'')
     in put_attempt (judge_id tier) (PInt (int (length (elements (field nd ''samples''))) + 1))
          [(''label'', PStr lab), (''lane'', PStr critic), (''model'', PStr (model_of g critic))] g))"

definition first_answer :: "pydict \<Rightarrow> pyval res" where
  "first_answer verdict =
     bindE (item verdict ''samples'') (\<lambda>ss. case ss of
       PList (PDict a # _) \<Rightarrow> item a ''answer'' | PList [] \<Rightarrow> Inl IndexError | _ \<Rightarrow> Inl TypeError)"

definition on_local_verdict :: "pydict \<Rightarrow> run_graph \<Rightarrow> run_graph res" where
  "on_local_verdict d g =
     bindE (str_item d ''tier'') (\<lambda>tier. bindE (dict_item d ''verdict'') (\<lambda>v.
     bindE (node_of g (judge_id tier)) (\<lambda>nd.
     bindE (dict_item v ''critique'') (\<lambda>crit. bindE (item v ''signals'') (\<lambda>sig. bindE (item v ''threshold'') (\<lambda>thr.
     bindE (item v ''escalate'') (\<lambda>esc. bindE (item v ''reason'') (\<lambda>reason. bindE (first_answer v) (\<lambda>ans.
     bindE (update_node (judge_id tier)
              [(''critique'', PDict crit), (''signals'', sig), (''threshold'', thr), (''weights'', field d ''weights''),
               (''decision'', PStr (if truthy esc then ''escalate'' else ''trust'')), (''reason'', reason),
               (''status'', PStr (if truthy esc then ''escalated'' else ''passed'')), (''result'', ans)] g) (\<lambda>g1.
     bindE (item crit ''skipped'') (\<lambda>skip. bindE (item crit ''passed'') (\<lambda>passed.
     if truthy skip then Inr g1
     else bindE (if truthy passed then Inr PNone
                 else bindE (fmt2_item crit ''severity'') (\<lambda>s. bindE (item crit ''critique'') (\<lambda>c.
                      Inr (PStr (''Severity '' @ s @ '': '' @ py_str c))))) (\<lambda>check.
          put_attempt (judge_id tier) (PInt (int (length (elements (field nd ''samples''))) + 1))
            [(''outcome'', PStr (if truthy passed then ''passed'' else ''failed'')), (''check'', check)] g1)))))))))))))"

definition on_local_accepted :: "pydict \<Rightarrow> string \<Rightarrow> run_graph \<Rightarrow> run_graph res" where
  "on_local_accepted d message g =
     (let i = judge_id (py_str (field d ''tier''))
      in if map_of (g_nodes g) i \<noteq> None then update_node i [(''status'', PStr ''passed'')] g
         else if map_of (g_nodes g) ''triage'' \<noteq> None
         then update_node ''triage'' [(''status'', PStr ''answered''), (''result'', PStr message)] g
         else Inr g)"

definition on_escalated :: "pydict \<Rightarrow> run_graph \<Rightarrow> run_graph res" where
  "on_escalated d g =
     (let direct = (field d ''mode'' = PStr ''direct'') in
      bindE (if direct \<and> field d ''parts'' \<noteq> PNone
             then bindE (item d ''length'') (\<lambda>len.
                  Inr (g\<lparr>g_direct_reason := ''No local answer was trusted. The request asks for '' @ py_str (field d ''parts'') @ '' thing''
                         @ (if field d ''parts'' \<noteq> PInt 1 then ''s'' else []) @ '' in '' @ py_str len @ '' characters, too little to be worth ''
                         @ ''splitting into subtasks, so the large model answers it itself.''\<rparr>))
             else Inr g) (\<lambda>g1.
      let source = find (\<lambda>(k, n). node_kind n = PStr ''judge'' \<or> node_kind n = PStr ''triage'') (rev (g_nodes g1));
          target = (if direct then ''answer'' else ''plan'');
          g2 = (if direct then answer_node True g1 else plan_node g1)
      in bindE (update_node target [(''status'', PStr ''running'')] g2) (\<lambda>g3.
         Inr (case source of
                None \<Rightarrow> g3
              | Some (i, n) \<Rightarrow> add_edge i target ''escalated'' (or_val (field n ''reason'') (PStr ''Escalated'')) g3))))"

definition on_answering :: "run_graph \<Rightarrow> run_graph res" where
  "on_answering g = update_node ''answer'' [(''status'', PStr ''running'')] (answer_node True g)"

definition on_plan_invalid :: "pydict \<Rightarrow> run_graph \<Rightarrow> run_graph res" where
  "on_plan_invalid d g =
     put_attempt ''plan'' (or_val (field d ''attempt'') (PInt 1)) [(''outcome'', PStr ''failed''), (''check'', field d ''error'')] (plan_node g)"

text \<open>A task of the plan as the event carries it.\<close>

record graph_task =
  gt_id :: string
  gt_instruction :: string
  gt_preferred_tier :: string
  gt_input_refs :: "string list"
  gt_depends_on :: "string list"
  gt_result_type :: pyval
  gt_why :: pyval

definition strs_item :: "pydict \<Rightarrow> string \<Rightarrow> string list res" where
  "strs_item d k = bindE (item d k) (\<lambda>v. case v of
       PList vs \<Rightarrow> mapE (\<lambda>x. case x of PStr s \<Rightarrow> Inr s | _ \<Rightarrow> Inl TypeError) vs | _ \<Rightarrow> Inl TypeError)"

definition read_graph_task :: "pyval \<Rightarrow> graph_task res" where
  "read_graph_task v =
     (case v of
        PDict d \<Rightarrow>
          bindE (str_item d ''id'') (\<lambda>i. bindE (str_item d ''instruction'') (\<lambda>ins. bindE (str_item d ''preferred_tier'') (\<lambda>tier.
          bindE (strs_item d ''input_refs'') (\<lambda>refs. bindE (strs_item d ''depends_on'') (\<lambda>deps. bindE (item d ''result_type'') (\<lambda>rt.
          Inr \<lparr>gt_id = i, gt_instruction = ins, gt_preferred_tier = tier, gt_input_refs = refs, gt_depends_on = deps,
               gt_result_type = rt, gt_why = or_val (field d ''why'') (PStr [])\<rparr>))))))
      | _ \<Rightarrow> Inl TypeError)"

text \<open>
  The loop that finds each task's dependency depth: one pass over the pending tasks gives a round to each whose
  dependencies have one. The loop has no end on a cyclic graph, so the passes are bounded and \<open>None\<close> is a
  loop that has not ended within the bound; \<open>rounds_of_plan\<close> in \<open>Relay_Graph_Laws\<close> shows that as many passes as tasks are enough for
  every validated plan.
\<close>

definition round_of :: "(string, nat) dict \<Rightarrow> string list \<Rightarrow> nat" where
  "round_of rounds deps = 1 + fold max (map (\<lambda>d. the (map_of rounds d)) deps) 0"

fun rounds_pass :: "graph_task list \<Rightarrow> (string, nat) dict \<Rightarrow> (string, nat) dict \<times> graph_task list" where
  "rounds_pass [] rounds = (rounds, [])"
| "rounds_pass (t # ts) rounds =
     (if list_all (\<lambda>d. map_of rounds d \<noteq> None) (gt_depends_on t)
      then rounds_pass ts (dict_set (gt_id t) (round_of rounds (gt_depends_on t)) rounds)
      else (case rounds_pass ts rounds of (rounds', left) \<Rightarrow> (rounds', t # left)))"

fun rounds_loop :: "nat \<Rightarrow> graph_task list \<Rightarrow> (string, nat) dict \<Rightarrow> (string, nat) dict option" where
  "rounds_loop n [] rounds = Some rounds"
| "rounds_loop 0 (t # ts) rounds = None"
| "rounds_loop (Suc n) (t # ts) rounds = (case rounds_pass (t # ts) rounds of (rounds', left) \<Rightarrow> rounds_loop n left rounds')"

definition describe_ref :: "string list \<Rightarrow> string \<Rightarrow> string" where
  "describe_ref ids ref =
     (case partition_at (CHR ''.'') ref of
        (kind, _, key) \<Rightarrow>
          if kind = ''results'' then ''Result of '' @ (if key \<in> set ids then task_title key else key)
          else if key = ''conversation'' then ''The conversation''
          else ''Source '' @ ch_ldquo @ key @ ch_rdquo)"

definition task_fields_of :: "(string, nat) dict \<Rightarrow> string \<Rightarrow> string list \<Rightarrow> graph_task \<Rightarrow> pydict" where
  "task_fields_of rounds planner ids t =
     [(''kind'', PStr ''task''), (''lane'', PStr (gt_preferred_tier t)), (''round'', PInt (int (dict_get_or rounds (gt_id t) 0))),
      (''title'', PStr (task_title (gt_id t))), (''task_id'', PStr (gt_id t)), (''instruction'', PStr (gt_instruction t)),
      (''inputs'', PList (map (\<lambda>r. PStr (describe_ref ids r)) (gt_input_refs t))), (''result_type'', gt_result_type t),
      (''depends_on'', PList (map PStr (gt_depends_on t))), (''why'', gt_why t),
      (''by'', PStr (''Assigned by '' @ planner @ '' in the plan''))]"

definition add_task :: "(string, nat) dict \<Rightarrow> string \<Rightarrow> string list \<Rightarrow> graph_task \<Rightarrow> run_graph \<Rightarrow> run_graph" where
  "add_task rounds planner ids t g =
     (let g1 = g\<lparr>g_task_lane := dict_set (gt_id t) (gt_preferred_tier t) (g_task_lane g)\<rparr>;
          g2 = ensure_node (gt_id t) (task_fields_of rounds planner ids t) g1;
          g3 = add_edge ''plan'' (gt_id t) (if gt_preferred_tier t \<noteq> ''cloud'' then ''delegated'' else ''assigned'') PNone g2
      in foldl (\<lambda>acc dep. add_edge dep (gt_id t) ''result'' PNone acc) g3 (gt_depends_on t))"

definition plan_summary :: "run_graph \<Rightarrow> graph_task list \<Rightarrow> string \<Rightarrow> pydict" where
  "plan_summary g tasks final =
     [(''status'', PStr ''passed''),
      (''summary'', PStr (show_nat (length tasks) @ '' subtasks '' @ ch_middot @ '' ''
         @ show_nat (length (filter (\<lambda>t. gt_preferred_tier t \<noteq> ''cloud'') tasks)) @ '' delegated'')),
      (''subtasks'', PList (map (\<lambda>t. PDict [(''title'', PStr (task_title (gt_id t))),
          (''model'', PStr (model_of g (gt_preferred_tier t))), (''lane'', PStr (gt_preferred_tier t)),
          (''instruction'', PStr (gt_instruction t)), (''why'', gt_why t)]) tasks)),
      (''result'', if final \<noteq> [] then PStr (''Final answer instruction: '' @ final) else PNone)]"

text \<open>Without an end of the rounds loop the handler does not return; that case is \<open>OtherError\<close> here.\<close>

definition on_plan_created :: "pydict \<Rightarrow> run_graph \<Rightarrow> run_graph res" where
  "on_plan_created d g =
     bindE (mapE read_graph_task (elements (dict_get_or d ''tasks'' (PList [])))) (\<lambda>tasks.
     (case rounds_loop (length tasks) tasks [] of
        None \<Rightarrow> Inl OtherError
      | Some rounds \<Rightarrow>
          let g1 = plan_node g;
              final = the_str (or_val (field d ''final_instruction'') (PStr []));
              ids = map gt_id tasks;
              g2 = g1\<lparr>g_final_instruction := final\<rparr>
          in bindE (update_node ''plan'' (plan_summary g1 tasks final) g2) (\<lambda>g3.
             Inr (foldl (\<lambda>acc t. add_task rounds (model_of g1 ''cloud'') ids t acc) g3 tasks))))"

definition is_failed_attempt :: "pyval \<Rightarrow> bool" where
  "is_failed_attempt a = (case a of PDict d \<Rightarrow> field d ''outcome'' = PStr ''failed'' | _ \<Rightarrow> False)"

definition on_task_escalated :: "pydict \<Rightarrow> run_graph \<Rightarrow> run_graph res" where
  "on_task_escalated d g =
     bindE (str_item d ''task_id'') (\<lambda>task_id. bindE (str_item d ''from_tier'') (\<lambda>from_tier. bindE (str_item d ''tier'') (\<lambda>tier.
     (case task_node task_id from_tier g of (source, g1) \<Rightarrow>
     (case task_node task_id tier g1 of (target, g2) \<Rightarrow>
     bindE (update_node source [(''status'', PStr ''escalated'')] g2) (\<lambda>g3.
     bindE (node_of g3 source) (\<lambda>nd.
     let failures = length (filter is_failed_attempt (attempts_of nd));
         lab = (if failures \<noteq> 0
                then show_nat failures @ '' failed check'' @ (if failures \<noteq> 1 then ''s'' else []) @ '' '' @ ch_middot @ '' escalated''
                else ''Escalated'')
     in update_node target [(''escalated_from'', PStr source), (''escalation_reason'', field d ''reason'')]
          (add_edge source target ''escalated'' (PStr lab) g3))))))))"

definition on_task_started :: "pydict \<Rightarrow> run_graph \<Rightarrow> run_graph res" where
  "on_task_started d g =
     bindE (str_item d ''task_id'') (\<lambda>task_id. bindE (str_item d ''tier'') (\<lambda>tier. bindE (item d ''attempt'') (\<lambda>n.
     (case task_node task_id tier g of (i, g1) \<Rightarrow>
     bindE (update_node i [(''status'', PStr ''running'')] g1)
       (put_attempt i n [(''lane'', PStr tier), (''model'', or_val (field d ''model'') (PStr (model_of g tier)))])))))"

definition on_task_invalid :: "pydict \<Rightarrow> run_graph \<Rightarrow> run_graph res" where
  "on_task_invalid d g =
     bindE (str_item d ''task_id'') (\<lambda>task_id. bindE (str_item d ''tier'') (\<lambda>tier. bindE (item d ''attempt'') (\<lambda>n.
     (case task_node task_id tier g of (i, g1) \<Rightarrow>
     bindE (put_attempt i n [(''outcome'', PStr ''failed''), (''check'', field d ''error''), (''judgment'', field d ''judgment'')] g1) (\<lambda>g2.
     update_node i ([(''status'', PStr ''failed'')]
       @ (if truthy (field d ''judgment'') then [(''judgment'', field d ''judgment'')] else [])) g2)))))"

definition on_task_completed :: "pydict \<Rightarrow> run_graph \<Rightarrow> run_graph res" where
  "on_task_completed d g =
     bindE (str_item d ''task_id'') (\<lambda>task_id. bindE (str_item d ''tier'') (\<lambda>tier. bindE (item d ''attempt'') (\<lambda>n.
     (case task_node task_id tier g of (i, g1) \<Rightarrow>
     bindE (put_attempt i n [(''outcome'', PStr ''passed''), (''judgment'', field d ''judgment'')] g1) (\<lambda>g2.
     bindE (update_node i ([(''status'', PStr ''passed''), (''result'', field d ''result'')]
       @ (if truthy (field d ''judgment'') then [(''judgment'', field d ''judgment'')] else [])) g2) (\<lambda>g3.
     Inr (g3\<lparr>g_accepted := dict_set task_id i (g_accepted g3)\<rparr>)))))))"

definition needed_ids :: "run_graph \<Rightarrow> string set" where
  "needed_ids g = (\<Union>(k, n) \<in> set (filter (\<lambda>(k, n). node_kind n = PStr ''task'') (g_nodes g)).
     the_str ` set (elements (field n ''depends_on'')))"

definition on_synthesizing :: "run_graph \<Rightarrow> run_graph res" where
  "on_synthesizing g =
     bindE (update_node ''answer'' [(''status'', PStr ''running'')] (answer_node False g)) (\<lambda>g1.
     Inr (foldl (\<lambda>acc t. if t \<notin> needed_ids g1 then add_edge t ''answer'' ''result'' PNone acc else acc) g1
           (dict_keys (g_task_lane g1))))"

definition on_run_completed :: "pydict \<Rightarrow> string \<Rightarrow> run_graph \<Rightarrow> run_graph res" where
  "on_run_completed d message g =
     (let m = field d ''metrics'';
          g1 = g\<lparr>g_status := ''completed'', g_message := message, g_metrics := m,
                 g_route := (case m of PDict md \<Rightarrow> field md ''route'' | _ \<Rightarrow> PNone)\<rparr>
      in if map_of (g_nodes g1) ''answer'' \<noteq> None
         then update_node ''answer'' [(''status'', PStr ''passed''), (''result'', PStr ''Shown below the graph.'')] g1
         else Inr g1)"

definition stop_attempt :: "pyval \<Rightarrow> pyval" where
  "stop_attempt a =
     (case a of
        PDict d \<Rightarrow> if field d ''outcome'' = PStr ''running'' then PDict (dict_set ''outcome'' (PStr ''stopped'') d) else a
      | _ \<Rightarrow> a)"

definition stop_node :: "pydict \<Rightarrow> pydict" where
  "stop_node n =
     (let n1 = (if field n ''status'' \<in> {PStr ''running'', PStr ''queued''} then dict_set ''status'' (PStr ''stopped'') n else n)
      in dict_set ''attempts'' (PList (map stop_attempt (attempts_of n))) n1)"

definition stop :: "string \<Rightarrow> string \<Rightarrow> pyval \<Rightarrow> run_graph \<Rightarrow> run_graph" where
  "stop status message metrics g =
     g\<lparr>g_status := status, g_message := message, g_metrics := metrics, g_nodes := map (\<lambda>(k, n). (k, stop_node n)) (g_nodes g)\<rparr>"

text \<open>\<open>add\<close>: the handler is found by the event's name; an event without one only updates the run's id.\<close>

definition handle :: "relay_event \<Rightarrow> run_graph \<Rightarrow> run_graph res" where
  "handle e g =
     (let d = ev_data e; name = ev_name e; message = ev_message e
      in if name = ''run_started'' then on_run_started d g
         else if name = ''local_attempt'' then on_local_attempt g
         else if name = ''call_output'' then on_call_output d g
         else if name = ''call_finished'' then on_call_finished d g
         else if name = ''extract_failed'' then on_extract_failed g
         else if name = ''local_solve'' then on_local_solve d g
         else if name = ''local_sample'' then on_local_sample d g
         else if name = ''local_skipped'' then on_local_skipped d g
         else if name = ''local_critique'' then on_local_critique d g
         else if name = ''local_verdict'' then on_local_verdict d g
         else if name = ''local_accepted'' then on_local_accepted d message g
         else if name = ''escalated'' then on_escalated d g
         else if name = ''answering'' then on_answering g
         else if name = ''plan_invalid'' then on_plan_invalid d g
         else if name = ''plan_created'' then on_plan_created d g
         else if name = ''task_escalated'' then on_task_escalated d g
         else if name = ''task_started'' then on_task_started d g
         else if name = ''task_invalid'' then on_task_invalid d g
         else if name = ''task_completed'' then on_task_completed d g
         else if name = ''synthesizing'' then on_synthesizing g
         else if name = ''run_completed'' then on_run_completed d message g
         else if name = ''run_failed'' then Inr (stop ''failed'' message (field d ''metrics'') g)
         else if name = ''run_cancelled'' then Inr (stop ''cancelled'' message (field d ''metrics'') g)
         else Inr g)"

definition add_event :: "relay_event \<Rightarrow> run_graph \<Rightarrow> run_graph res" where
  "add_event e g = handle e (g\<lparr>g_run_id := PStr (ev_run_id e), g_simulated := ev_simulated e\<rparr>)"

fun add_events :: "relay_event list \<Rightarrow> run_graph \<Rightarrow> run_graph res" where
  "add_events [] g = Inr g"
| "add_events (e # es) g = bindE (add_event e g) (add_events es)"

subsection \<open>Output\<close>

definition shown_edges :: "run_graph \<Rightarrow> edge list" where
  "shown_edges g =
     concat (map (\<lambda>e. let source = (if ed_type e = ''result'' then dict_get_or (g_accepted g) (ed_from e) (ed_from e) else ed_from e)
                      in if map_of (g_nodes g) source \<noteq> None \<and> map_of (g_nodes g) (ed_to e) \<noteq> None
                         then [e\<lparr>ed_from := source\<rparr>] else []) (g_edges g))"

definition edge_dict :: "edge \<Rightarrow> pyval" where
  "edge_dict e = PDict [(''from'', PStr (ed_from e)), (''to'', PStr (ed_to e)), (''type'', PStr (ed_type e)), (''label'', ed_label e)]"

definition graph_dict :: "run_graph \<Rightarrow> pyval" where
  "graph_dict g = PDict
     [(''version'', PInt 1), (''run_id'', g_run_id g), (''status'', PStr (g_status g)), (''message'', PStr (g_message g)),
      (''simulated'', PBool (g_simulated g)), (''goal'', g_goal g),
      (''lanes'', PList (map (\<lambda>l. PDict [(''id'', PStr (ln_id l)), (''model'', PStr (ln_model l)), (''location'', ln_location l)]) (g_lanes g))),
      (''route'', g_route g), (''nodes'', PList (map (\<lambda>(k, n). PDict n) (g_nodes g))),
      (''edges'', PList (map edge_dict (shown_edges g))), (''metrics'', g_metrics g)]"

text \<open>The data inlined into the page: \<open>json.dumps(graph).replace("</", "<\/")\<close>.\<close>

definition inline_data :: "pyval \<Rightarrow> string" where
  "inline_data graph = py_replace ''</'' [CHR ''<'', CHR 0x5C, CHR ''/''] (json_dumps graph)"

definition render_html :: "string \<Rightarrow> pyval \<Rightarrow> string" where
  "render_html template graph = py_replace1 ''/*RELAY_GRAPH*/null'' (inline_data graph) template"

end
