(* ===== verification/Relay_Graph_Laws.thy ===== *)
theory Relay_Graph_Laws
  imports Relay_Graph
begin

section \<open>Properties of the decision graph (graph.py)\<close>

text \<open>
  How a plan is laid out (the loop that finds the depth of each task ends on every plan that was accepted), what the graph keeps
  through every event handler, and that the data inlined into the page cannot end its script.
\<close>

subsection \<open>The depth of a plan's tasks\<close>

text \<open>A task as the engine's event carries it and the handler reads it.\<close>

definition gtask :: "task \<Rightarrow> graph_task" where
  "gtask t = \<lparr>gt_id = t_id t, gt_instruction = t_instruction t, gt_preferred_tier = t_preferred_tier t, gt_input_refs = t_input_refs t,
     gt_depends_on = t_depends_on t, gt_result_type = PStr (t_result_type t), gt_why = PStr (t_why t)\<rparr>"

lemma gtask_fields [simp]:
  "gt_id (gtask t) = t_id t" "gt_depends_on (gtask t) = t_depends_on t" "gt_preferred_tier (gtask t) = t_preferred_tier t"
  by (simp_all add: gtask_def)

lemma strs_of_PStr: "mapE (\<lambda>x. case x of PStr s \<Rightarrow> Inr s | _ \<Rightarrow> Inl TypeError) (map PStr xs) = Inr xs"
  by (induction xs) simp_all

lemma read_task_dict: "read_graph_task (task_dict t) = Inr (gtask t)"
  by (simp add: read_graph_task_def task_dict_def gtask_def str_item_def strs_item_def item_def field_def dict_get_or_def or_val_def strs_of_PStr)

lemma read_tasks: "mapE read_graph_task (map task_dict ts) = Inr (map gtask ts)"
  by (induction ts) (simp_all add: read_task_dict)

definition depths_ok :: "graph_task list \<Rightarrow> (string, nat) dict \<Rightarrow> bool" where
  "depths_ok ts rounds \<longleftrightarrow> (\<forall>t \<in> set ts. map_of rounds (gt_id t) \<noteq> None \<longrightarrow>
     set (gt_depends_on t) \<subseteq> dom (map_of rounds) \<and> map_of rounds (gt_id t) = Some (round_of rounds (gt_depends_on t)))"

lemma round_of_extends:
  assumes "map_of rounds \<subseteq>\<^sub>m map_of rounds'" and "set deps \<subseteq> dom (map_of rounds)"
  shows "round_of rounds' deps = round_of rounds deps"
proof -
  have "map (\<lambda>d. the (map_of rounds' d)) deps = map (\<lambda>d. the (map_of rounds d)) deps"
    using assms by (auto simp: map_le_def subset_iff)
  then show ?thesis by (simp only: round_of_def)
qed

lemma map_of_extends: "map_of rounds i = None \<Longrightarrow> map_of rounds \<subseteq>\<^sub>m map_of (dict_set i n rounds)"
  by (auto simp: map_le_def)

lemma depths_ok_set:
  assumes ok: "depths_ok all rounds" and t: "t \<in> set all" "map_of rounds (gt_id t) = None" "set (gt_depends_on t) \<subseteq> dom (map_of rounds)"
    and d: "distinct (map gt_id all)"
  shows "depths_ok all (dict_set (gt_id t) (round_of rounds (gt_depends_on t)) rounds)" (is "depths_ok all ?r")
  unfolding depths_ok_def
proof (intro ballI impI)
  fix u assume u: "u \<in> set all" "map_of ?r (gt_id u) \<noteq> None"
  have le: "map_of rounds \<subseteq>\<^sub>m map_of ?r" by (rule map_of_extends [OF t(2)])
  show "set (gt_depends_on u) \<subseteq> dom (map_of ?r) \<and> map_of ?r (gt_id u) = Some (round_of ?r (gt_depends_on u))"
  proof (cases "gt_id u = gt_id t")
    case True
    then have "u = t" using u(1) t(1) d by (metis distinct_map inj_onD)
    then show ?thesis using t(3) round_of_extends [OF le t(3)] map_le_implies_dom_le [OF le] by (auto simp: dict_simps)
  next
    case False
    then have "map_of rounds (gt_id u) \<noteq> None" using u(2) by simp
    then have "set (gt_depends_on u) \<subseteq> dom (map_of rounds)" "map_of rounds (gt_id u) = Some (round_of rounds (gt_depends_on u))"
      using ok u(1) by (auto simp: depths_ok_def)
    then show ?thesis using False round_of_extends [OF le] map_le_implies_dom_le [OF le] by auto
  qed
qed

lemma rounds_pass_ok:
  assumes "rounds_pass ts rounds = (rounds', left)" and "depths_ok all rounds" and "distinct (map gt_id all)" "set ts \<subseteq> set all"
    and "distinct (map gt_id ts)" "gt_id ` set ts \<inter> dom (map_of rounds) = {}"
  shows "depths_ok all rounds' \<and> map_of rounds \<subseteq>\<^sub>m map_of rounds' \<and> set left \<subseteq> set ts \<and> distinct (map gt_id left)
    \<and> dom (map_of rounds') = dom (map_of rounds) \<union> (gt_id ` set ts - gt_id ` set left)
    \<and> length left \<le> length ts \<and> ((\<exists>t \<in> set ts. set (gt_depends_on t) \<subseteq> dom (map_of rounds)) \<longrightarrow> length left < length ts)"
  using assms
proof (induction ts rounds arbitrary: rounds' left rule: rounds_pass.induct)
  case (1 rounds)
  then show ?case by simp
next
  case (2 t ts rounds)
  have all: "list_all (\<lambda>d. map_of rounds d \<noteq> None) (gt_depends_on t) \<longleftrightarrow> set (gt_depends_on t) \<subseteq> dom (map_of rounds)"
    by (auto simp: list_all_iff)
  have fresh: "map_of rounds (gt_id t) = None" using 2 by auto
  show ?case
  proof (cases "set (gt_depends_on t) \<subseteq> dom (map_of rounds)")
    case True
    let ?r = "dict_set (gt_id t) (round_of rounds (gt_depends_on t)) rounds"
    have run: "rounds_pass ts ?r = (rounds', left)" using 2(3) True by (simp add: all [symmetric])
    have ok: "depths_ok all ?r" using depths_ok_set 2 True fresh by simp
    have dom: "dom (map_of ?r) = insert (gt_id t) (dom (map_of rounds))" by auto
    have disj: "gt_id ` set ts \<inter> dom (map_of ?r) = {}" using 2(7,8) unfolding dom by auto
    have ts: "set ts \<subseteq> set all" "distinct (map gt_id ts)" using 2(6,7) by auto
    have cond: "list_all (\<lambda>d. map_of rounds d \<noteq> None) (gt_depends_on t)" using True all by simp
    have IH: "depths_ok all rounds' \<and> map_of ?r \<subseteq>\<^sub>m map_of rounds' \<and> set left \<subseteq> set ts \<and> distinct (map gt_id left)
        \<and> dom (map_of rounds') = dom (map_of ?r) \<union> (gt_id ` set ts - gt_id ` set left) \<and> length left \<le> length ts"
      using "2.IH"(1) [OF cond run ok 2(5) ts disj] by (elim conjE) (intro conjI)
    note parts = IH [THEN conjunct1] IH [THEN conjunct2, THEN conjunct1] IH [THEN conjunct2, THEN conjunct2]
    have le: "map_of rounds \<subseteq>\<^sub>m map_of rounds'" by (rule map_le_trans [OF map_of_extends [OF fresh] parts(2)])
    have "gt_id t \<notin> gt_id ` set left" using parts(3) 2(7) by auto
    then show ?thesis using parts(1,3) le unfolding dom by auto
  next
    case False
    then obtain left' where l: "rounds_pass ts rounds = (rounds', left')" "left = t # left'"
      using 2(3) by (auto simp: all [symmetric] split: prod.splits)
    have IH: "depths_ok all rounds' \<and> map_of rounds \<subseteq>\<^sub>m map_of rounds' \<and> set left' \<subseteq> set ts \<and> distinct (map gt_id left')
        \<and> dom (map_of rounds') = dom (map_of rounds) \<union> (gt_id ` set ts - gt_id ` set left') \<and> length left' \<le> length ts
        \<and> ((\<exists>t \<in> set ts. set (gt_depends_on t) \<subseteq> dom (map_of rounds)) \<longrightarrow> length left' < length ts)"
      using "2.IH"(2) False all l(1) 2(4-8) by auto
    have "gt_id t \<notin> gt_id ` set ts" using 2(7) by simp
    then show ?thesis using IH False l(2) by auto
  qed
qed

lemma rounds_loop_ok:
  assumes "graph_ok tasks" and "set ts \<subseteq> gtask ` set tasks" and "distinct (map gt_id ts)" and "depths_ok (map gtask tasks) rounds"
    and "dom (map_of rounds) = t_id ` set tasks - gt_id ` set ts" and "length ts \<le> n"
  shows "\<exists>rounds'. rounds_loop n ts rounds = Some rounds' \<and> depths_ok (map gtask tasks) rounds' \<and> dom (map_of rounds') = t_id ` set tasks"
  using assms(2-)
proof (induction n ts rounds rule: rounds_loop.induct)
  case (3 n t ts rounds)
  let ?ts = "t # ts"
  have d: "distinct (map gt_id (map gtask tasks))" using assms(1) by (simp add: graph_ok_def comp_def)
  have dk: "set (dict_keys rounds) = dom (map_of rounds)" by (auto simp: dict_keys_iff)
  have "gt_id t \<in> t_id ` set tasks" using "3.prems"(1) by auto
  then have "\<not> t_id ` set tasks \<subseteq> set (dict_keys rounds)" unfolding dk "3.prems"(4) by auto
  then have "ready_ids tasks (dict_keys rounds) \<noteq> []" by (intro ready_exists [OF assms(1)]) (auto simp: dk "3.prems"(4))
  then obtain i where "i \<in> set (ready_ids tasks (dict_keys rounds))" by (meson last_in_set)
  then obtain u where u: "u \<in> set tasks" "t_id u \<notin> dom (map_of rounds)" "set (t_depends_on u) \<subseteq> dom (map_of rounds)"
    unfolding ready_ids_iff dk by auto
  then have "t_id u \<in> gt_id ` set ?ts" unfolding "3.prems"(4) by blast
  then obtain w where w: "w \<in> set ?ts" "gt_id w = t_id u" by (metis imageE)
  then obtain u' where "u' \<in> set tasks" "w = gtask u'" using "3.prems"(1) by auto
  then have "w = gtask u" using w(2) u(1) assms(1) by (metis gtask_fields(1) graph_ok_def distinct_map inj_onD)
  then have ready: "\<exists>w \<in> set ?ts. set (gt_depends_on w) \<subseteq> dom (map_of rounds)" using w(1) u(3) by (intro bexI [of _ w]) auto
  obtain rounds' left where run: "rounds_pass ?ts rounds = (rounds', left)" by force
  have sub: "set ?ts \<subseteq> set (map gtask tasks)" using "3.prems"(1) by simp
  have fresh: "gt_id ` set ?ts \<inter> dom (map_of rounds) = {}" unfolding "3.prems"(4) by auto
  from rounds_pass_ok [OF run "3.prems"(3) d sub "3.prems"(2) fresh] ready
  have pass: "depths_ok (map gtask tasks) rounds'" "set left \<subseteq> set ?ts" "distinct (map gt_id left)"
      "dom (map_of rounds') = dom (map_of rounds) \<union> (gt_id ` set ?ts - gt_id ` set left)" "length left < length ?ts" by auto
  have "dom (map_of rounds') = t_id ` set tasks - gt_id ` set left"
    using pass(2) "3.prems"(1) unfolding pass(4) "3.prems"(4) by auto
  moreover have "set left \<subseteq> gtask ` set tasks" "length left \<le> n" using pass(2,5) "3.prems"(1,5) by auto
  ultimately show ?case using "3.IH" [OF run [symmetric]] pass(1,3) run by simp
qed auto

text \<open>The depth of each task of a plan without cycles.\<close>

lemma rounds_of_plan:
  assumes "graph_ok tasks"
  obtains rounds where "rounds_loop (length tasks) (map gtask tasks) [] = Some rounds" "dom (map_of rounds) = t_id ` set tasks"
    "\<And>t. t \<in> set tasks \<Longrightarrow> dict_get_or rounds (t_id t) 0 = 1 + Max (insert 0 ((\<lambda>d. dict_get_or rounds d 0) ` set (t_depends_on t)))"
proof -
  have "depths_ok (map gtask tasks) []" by (simp add: depths_ok_def)
  moreover have "distinct (map gt_id (map gtask tasks))" using assms by (simp add: graph_ok_def comp_def)
  moreover have "dom (map_of ([] :: (string, nat) dict)) = t_id ` set tasks - gt_id ` set (map gtask tasks)" by (auto simp: image_image)
  ultimately obtain rounds where r: "rounds_loop (length tasks) (map gtask tasks) [] = Some rounds"
      "depths_ok (map gtask tasks) rounds" "dom (map_of rounds) = t_id ` set tasks"
    using rounds_loop_ok [OF assms, of "map gtask tasks" "[]" "length tasks"] by auto
  have "dict_get_or rounds (t_id t) 0 = 1 + Max (insert 0 ((\<lambda>d. dict_get_or rounds d 0) ` set (t_depends_on t)))" if "t \<in> set tasks" for t
  proof -
    have "map_of rounds (t_id t) \<noteq> None" using that r(3) by auto
    then have "set (t_depends_on t) \<subseteq> dom (map_of rounds)" "map_of rounds (t_id t) = Some (round_of rounds (t_depends_on t))"
      using r(2) that by (auto simp: depths_ok_def)
    moreover have "map (\<lambda>d. the (map_of rounds d)) (t_depends_on t) = map (\<lambda>d. dict_get_or rounds d 0) (t_depends_on t)"
      using calculation(1) by (auto simp: dict_get_or_def subset_iff)
    moreover have "Max (insert 0 (f ` set xs)) = fold max (map f xs) 0" for f :: "string \<Rightarrow> nat" and xs
      using Max.set_eq_fold [of 0 "map f xs"] by simp
    ultimately show ?thesis by (simp add: dict_get_or_def round_of_def)
  qed
  with r show thesis using that by blast
qed

subsection \<open>Drawing the plan\<close>

lemma map_of_ensure_node:
  "map_of (g_nodes (ensure_node i fs g)) k = (if k = i \<and> map_of (g_nodes g) i = None then Some (new_node i fs) else map_of (g_nodes g) k)"
  by (auto simp: ensure_node_def)

lemma add_edge_nodes [simp]: "g_nodes (add_edge a b kind lab g) = g_nodes g"
  by (simp add: add_edge_def Let_def)

lemma set_add_edge: "set (g_edges (add_edge a b kind lab g)) = insert \<lparr>ed_from = a, ed_to = b, ed_type = kind, ed_label = lab\<rparr> (set (g_edges g))"
  by (auto simp: add_edge_def Let_def)

lemma ensure_node_edges [simp]: "g_edges (ensure_node i fs g) = g_edges g"
  by (simp add: ensure_node_def)

lemma foldl_edges:
  "g_nodes (foldl (\<lambda>acc d. add_edge (f d) b kind lab acc) g ds) = g_nodes g
   \<and> set (g_edges (foldl (\<lambda>acc d. add_edge (f d) b kind lab acc) g ds))
      = set (g_edges g) \<union> (\<lambda>d. \<lparr>ed_from = f d, ed_to = b, ed_type = kind, ed_label = lab\<rparr>) ` set ds"
  by (induction ds arbitrary: g) (auto simp: set_add_edge)

text \<open>What \<open>on_plan_created\<close> adds for one task.\<close>

definition shows_task :: "task \<Rightarrow> run_graph \<Rightarrow> bool" where
  "shows_task t g \<longleftrightarrow>
     map_of (g_nodes g) (t_id t) \<noteq> None
     \<and> \<lparr>ed_from = ''plan'', ed_to = t_id t, ed_type = (if t_preferred_tier t \<noteq> ''cloud'' then ''delegated'' else ''assigned''), ed_label = PNone\<rparr> \<in> set (g_edges g)
     \<and> (\<forall>d \<in> set (t_depends_on t). \<lparr>ed_from = d, ed_to = t_id t, ed_type = ''result'', ed_label = PNone\<rparr> \<in> set (g_edges g))"

definition task_node_ok :: "(string, nat) dict \<Rightarrow> task \<Rightarrow> pydict \<Rightarrow> bool" where
  "task_node_ok rounds t n \<longleftrightarrow> field n ''id'' = PStr (t_id t) \<and> field n ''kind'' = PStr ''task'' \<and> field n ''lane'' = PStr (t_preferred_tier t)
     \<and> field n ''round'' = PInt (int (dict_get_or rounds (t_id t) 0)) \<and> field n ''instruction'' = PStr (t_instruction t)"

lemma add_task_shows:
  "shows_task t (add_task rounds planner ids (gtask t) g)"
  by (simp add: shows_task_def add_task_def Let_def foldl_edges [where f = "\<lambda>d. d", simplified] set_add_edge map_of_ensure_node)

lemma add_task_keeps:
  "shows_task u g \<Longrightarrow> shows_task u (add_task rounds planner ids (gtask t) g)"
  by (simp add: shows_task_def add_task_def Let_def foldl_edges [where f = "\<lambda>d. d", simplified] set_add_edge map_of_ensure_node)

lemma field_dict_update: "dict_ok fs \<Longrightarrow> field (dict_update d fs) k = (case map_of fs k of Some v \<Rightarrow> v | None \<Rightarrow> field d k)"
  by (simp add: field_def dict_get_or_def map_of_dict_update map_add_def split: option.split)

lemma field_new_node:
  assumes "dict_ok fs"
  shows "field (new_node i fs) k = (case map_of fs k of Some v \<Rightarrow> v | None \<Rightarrow> field (new_node i []) k)"
  using assms unfolding new_node_def dict_update_Nil by (rule field_dict_update)

lemma task_node_ok_new: "task_node_ok rounds t (new_node (t_id t) (task_fields_of rounds planner ids (gtask t)))"
proof -
  have ok: "dict_ok (task_fields_of rounds planner ids (gtask t))" by (simp add: task_fields_of_def dict_ok_def)
  have "field (new_node (t_id t) []) ''id'' = PStr (t_id t)" by (simp add: field_def new_node_def dict_get_or_def)
  then show ?thesis unfolding task_node_ok_def field_new_node [OF ok] by (simp add: task_fields_of_def gtask_def)
qed

lemma add_task_nodes:
  "map_of (g_nodes (add_task rounds planner ids (gtask t) g)) k = Some n \<Longrightarrow>
     map_of (g_nodes g) k = Some n \<or> k = t_id t \<and> task_node_ok rounds t n"
  using task_node_ok_new [of rounds t planner ids]
  by (auto simp: add_task_def Let_def foldl_edges [where f = "\<lambda>d. d", simplified] map_of_ensure_node split: if_splits)

lemma add_tasks_show:
  "t \<in> set ts \<or> shows_task t g \<Longrightarrow> shows_task t (foldl (\<lambda>acc t. add_task rounds planner ids t acc) g (map gtask ts))"
  by (induction ts arbitrary: g) (auto simp: add_task_shows add_task_keeps)

lemma add_tasks_nodes:
  "map_of (g_nodes (foldl (\<lambda>acc t. add_task rounds planner ids t acc) g (map gtask ts))) k = Some n \<Longrightarrow>
     map_of (g_nodes g) k = Some n \<or> (\<exists>t \<in> set ts. k = t_id t \<and> task_node_ok rounds t n)"
  by (induction ts arbitrary: g) (auto dest!: add_task_nodes)

lemma plan_created_runs:
  assumes "graph_ok tasks" and "rounds_loop (length tasks) (map gtask tasks) [] = Some rounds"
  obtains g1 planner ids where
    "on_plan_created [(''tasks'', PList (map task_dict tasks)), (''final_instruction'', PStr final)] g
       = Inr (foldl (\<lambda>acc t. add_task rounds planner ids t acc) g1 (map gtask tasks))"
    "\<And>k. k \<noteq> ''plan'' \<Longrightarrow> map_of (g_nodes g1) k = map_of (g_nodes g) k"
proof -
  let ?g1 = "plan_node g"
  obtain n where n: "map_of (g_nodes ?g1) ''plan'' = Some n"
    by (cases "map_of (g_nodes g) ''plan''") (auto simp: plan_node_def map_of_ensure_node)
  let ?g2 = "set_node ''plan'' (dict_update n (plan_summary ?g1 (map gtask tasks) final)) (?g1\<lparr>g_final_instruction := final\<rparr>)"
  have up: "update_node ''plan'' (plan_summary ?g1 (map gtask tasks) final) (?g1\<lparr>g_final_instruction := final\<rparr>) = Inr ?g2"
    using n by (simp add: update_node_def node_of_def)
  have d: "elements (dict_get_or [(''tasks'', PList (map task_dict tasks)), (''final_instruction'', PStr final)] ''tasks'' (PList []))
      = map task_dict tasks"
    "the_str (or_val (field [(''tasks'', PList (map task_dict tasks)), (''final_instruction'', PStr final)] ''final_instruction'') (PStr [])) = final"
    by (simp_all add: dict_get_or_def field_def or_val_def)
  have "on_plan_created [(''tasks'', PList (map task_dict tasks)), (''final_instruction'', PStr final)] g
     = Inr (foldl (\<lambda>acc t. add_task rounds (model_of ?g1 ''cloud'') (map gt_id (map gtask tasks)) t acc) ?g2 (map gtask tasks))"
    unfolding on_plan_created_def d read_tasks bindE_Inr length_map assms(2) option.case Let_def up ..
  moreover have "map_of (g_nodes ?g2) k = map_of (g_nodes g) k" if "k \<noteq> ''plan''" for k
    using that by (simp add: set_node_def plan_node_def map_of_ensure_node)
  ultimately show thesis using that by blast
qed


definition sample_plan :: plan where
  "sample_plan =
     \<lparr>p_tasks = [\<lparr>t_id = ''b'', t_instruction = ''Join'', t_preferred_tier = ''cloud'', t_input_refs = [''results.a''], t_depends_on = [''a''],
                  t_result_type = ''task_answer'', t_checks = rt_checks (the (map_of RESULT_TYPES ''task_answer'')), t_why = []\<rparr>,
                \<lparr>t_id = ''a'', t_instruction = ''Read'', t_preferred_tier = ''local'', t_input_refs = [''sources.s''], t_depends_on = [],
                  t_result_type = ''task_answer'', t_checks = rt_checks (the (map_of RESULT_TYPES ''task_answer'')), t_why = []\<rparr>],
      p_final_instruction = ''Answer''\<rparr>"

lemma sample_plan_parses: "parse (plan_json sample_plan) [(''s'', ''x'')] 8 [''local'', ''cloud''] = Inr sample_plan"
  by code_simp


subsection \<open>What the page relies on\<close>

definition NODE_STATUSES :: "string list" where
  "NODE_STATUSES = [''queued'', ''running'', ''passed'', ''failed'', ''escalated'', ''skipped'', ''answered'', ''stopped'']"

definition OUTCOMES :: "string list" where
  "OUTCOMES = [''running'', ''passed'', ''failed'', ''error'', ''stopped'']"

definition attempt_ok :: "pyval \<Rightarrow> bool" where
  "attempt_ok a \<longleftrightarrow> (\<exists>d. a = PDict d \<and> field d ''outcome'' \<in> PStr ` set OUTCOMES)"

definition node_ok :: "string \<Rightarrow> pydict \<Rightarrow> bool" where
  "node_ok i n \<longleftrightarrow> field n ''id'' = PStr i \<and> field n ''status'' \<in> PStr ` set NODE_STATUSES
     \<and> (\<exists>as. field n ''attempts'' = PList as \<and> list_all attempt_ok as)"

definition graph_sound :: "run_graph \<Rightarrow> bool" where
  "graph_sound g \<longleftrightarrow> dict_ok (g_nodes g) \<and> (\<forall>i n. map_of (g_nodes g) i = Some n \<longrightarrow> node_ok i n) \<and> distinct (g_edges g)"

definition nothing_running :: "run_graph \<Rightarrow> bool" where
  "nothing_running g \<longleftrightarrow> (\<forall>(i, n) \<in> set (g_nodes g). field n ''status'' \<notin> {PStr ''running'', PStr ''queued''}
     \<and> (\<forall>a \<in> set (attempts_of n). \<forall>d. a = PDict d \<longrightarrow> field d ''outcome'' \<noteq> PStr ''running''))"

text \<open>The fields the handlers write: never a node's id or attempts, and only known states.\<close>

definition fields_ok :: "pydict \<Rightarrow> bool" where
  "fields_ok fs \<longleftrightarrow> list_all (\<lambda>(k, v). k \<noteq> ''id'' \<and> k \<noteq> ''attempts'' \<and> (k = ''status'' \<longrightarrow> v \<in> PStr ` set NODE_STATUSES)) fs"

definition outcomes_ok :: "pydict \<Rightarrow> bool" where
  "outcomes_ok fs \<longleftrightarrow> list_all (\<lambda>(k, v). k = ''outcome'' \<longrightarrow> v \<in> PStr ` set OUTCOMES) fs"

lemma field_dict_set: "field (dict_set k v d) j = (if j = k then v else field d j)"
  by (simp add: field_def dict_get_or_def)

lemma node_ok_update: "node_ok i n \<Longrightarrow> fields_ok fs \<Longrightarrow> node_ok i (dict_update n fs)"
proof (induction fs arbitrary: n)
  case (Cons kv fs)
  then show ?case by (cases kv) (auto simp: dict_update_Cons fields_ok_def node_ok_def field_dict_set intro!: Cons.IH)
qed simp

lemma attempt_ok_update: "attempt_ok (PDict d) \<Longrightarrow> outcomes_ok fs \<Longrightarrow> attempt_ok (PDict (dict_update d fs))"
proof (induction fs arbitrary: d)
  case (Cons kv fs)
  then show ?case by (cases kv) (auto simp: dict_update_Cons outcomes_ok_def attempt_ok_def field_dict_set intro!: Cons.IH)
qed simp

lemma node_ok_new: "fields_ok fs \<Longrightarrow> node_ok i (new_node i fs)"
  unfolding new_node_def by (rule node_ok_update) (simp_all add: node_ok_def field_def dict_get_or_def NODE_STATUSES_def)

lemma node_ok_attempts: "node_ok i n \<Longrightarrow> list_all attempt_ok as \<Longrightarrow> node_ok i (dict_set ''attempts'' (PList as) n)"
  by (simp add: node_ok_def field_dict_set)

lemma update_attempt_ok: "list_all attempt_ok as \<Longrightarrow> outcomes_ok fs \<Longrightarrow> list_all attempt_ok (update_attempt n fs as)"
  by (induction n fs as rule: update_attempt.induct) (auto split: pyval.splits intro: attempt_ok_update)

lemma new_attempt_ok: "outcomes_ok fs \<Longrightarrow> attempt_ok (PDict (dict_update (new_attempt g n lane) fs))"
  by (rule attempt_ok_update) (simp_all add: attempt_ok_def new_attempt_def field_def dict_get_or_def OUTCOMES_def)

named_theorems sound_intros \<open>operations that keep a graph sound\<close>

lemma sound_ensure [sound_intros]: "graph_sound g \<Longrightarrow> fields_ok fs \<Longrightarrow> graph_sound (ensure_node i fs g)"
  by (auto simp: graph_sound_def ensure_node_def dict_ok_set node_ok_new)

lemma sound_set: "graph_sound g \<Longrightarrow> node_ok i n \<Longrightarrow> graph_sound (set_node i n g)"
  by (auto simp: graph_sound_def set_node_def dict_ok_set)

lemma sound_node: "graph_sound g \<Longrightarrow> node_of g i = Inr n \<Longrightarrow> node_ok i n"
  by (auto simp: graph_sound_def node_of_def split: option.splits)

lemma sound_update: "update_node i fs g = Inr g' \<Longrightarrow> graph_sound g \<Longrightarrow> fields_ok fs \<Longrightarrow> graph_sound g'"
  by (auto simp: update_node_def bindE_eq_Inr intro!: sound_set node_ok_update dest: sound_node)

lemma sound_attempt: "put_attempt i n fs g = Inr g' \<Longrightarrow> graph_sound g \<Longrightarrow> outcomes_ok fs \<Longrightarrow> graph_sound g'"
proof -
  assume a: "put_attempt i n fs g = Inr g'" and g: "graph_sound g" and fs: "outcomes_ok fs"
  then obtain nd where nd: "node_of g i = Inr nd" by (auto simp: put_attempt_def bindE_eq_Inr)
  then have ok: "node_ok i nd" using sound_node [OF g] by simp
  then have as: "list_all attempt_ok (attempts_of nd)" by (auto simp: node_ok_def attempts_of_def)
  show ?thesis using a nd sound_set [OF g node_ok_attempts [OF ok]] update_attempt_ok [OF as fs] new_attempt_ok [OF fs] as
    by (auto simp: put_attempt_def bindE_eq_Inr split: if_splits)
qed

lemma sound_edge [sound_intros]: "graph_sound g \<Longrightarrow> graph_sound (add_edge a b kind lab g)"
  by (simp add: graph_sound_def add_edge_def Let_def)

lemma sound_edges: "graph_sound g \<Longrightarrow> graph_sound (foldl (\<lambda>acc d. if P d then add_edge (f d) b kind lab acc else acc) g ds)"
  by (induction ds arbitrary: g) (auto intro: sound_edge)

lemma sound_frame [simp]:
  "graph_sound (g\<lparr>g_run_id := x1\<rparr>) = graph_sound g" "graph_sound (g\<lparr>g_status := x2\<rparr>) = graph_sound g"
  "graph_sound (g\<lparr>g_message := x2\<rparr>) = graph_sound g" "graph_sound (g\<lparr>g_simulated := x3\<rparr>) = graph_sound g"
  "graph_sound (g\<lparr>g_goal := x1\<rparr>) = graph_sound g" "graph_sound (g\<lparr>g_lanes := x4\<rparr>) = graph_sound g"
  "graph_sound (g\<lparr>g_task_lane := x5\<rparr>) = graph_sound g" "graph_sound (g\<lparr>g_accepted := x5\<rparr>) = graph_sound g"
  "graph_sound (g\<lparr>g_final_instruction := x2\<rparr>) = graph_sound g" "graph_sound (g\<lparr>g_direct_reason := x2\<rparr>) = graph_sound g"
  "graph_sound (g\<lparr>g_metrics := x1\<rparr>) = graph_sound g" "graph_sound (g\<lparr>g_route := x1\<rparr>) = graph_sound g"
  by (simp_all add: graph_sound_def)

text \<open>Handlers that return sound graphs, built up along their code.\<close>

definition returns_sound :: "run_graph res \<Rightarrow> bool" where
  "returns_sound r \<longleftrightarrow> (\<forall>g. r = Inr g \<longrightarrow> graph_sound g)"

lemma returns_Inr: "graph_sound g \<Longrightarrow> returns_sound (Inr g)"
  by (simp add: returns_sound_def)

lemma returns_Inl: "returns_sound (Inl e)"
  by (simp add: returns_sound_def)

lemma returns_bind: "returns_sound m \<Longrightarrow> (\<And>g. graph_sound g \<Longrightarrow> returns_sound (f g)) \<Longrightarrow> returns_sound (bindE m f)"
  by (auto simp: returns_sound_def bindE_eq_Inr)

lemma returns_read: "(\<And>x. m = Inr x \<Longrightarrow> returns_sound (f x)) \<Longrightarrow> returns_sound (bindE m f)"
  by (auto simp: returns_sound_def bindE_eq_Inr)

lemma returns_if: "(c \<Longrightarrow> returns_sound a) \<Longrightarrow> (\<not> c \<Longrightarrow> returns_sound b) \<Longrightarrow> returns_sound (if c then a else b)"
  by simp

lemma returns_update: "graph_sound g \<Longrightarrow> fields_ok fs \<Longrightarrow> returns_sound (update_node i fs g)"
  by (auto simp: returns_sound_def intro: sound_update)

lemma returns_attempt: "graph_sound g \<Longrightarrow> outcomes_ok fs \<Longrightarrow> returns_sound (put_attempt i n fs g)"
  by (auto simp: returns_sound_def intro: sound_attempt)

lemmas returns_reads = returns_read [where 'a = string] returns_read [where 'a = pyval] returns_read [where 'a = pydict]
  returns_read [where 'a = real] returns_read [where 'a = "lane list"] returns_read [where 'a = "graph_task list"]

lemma fields_ok_simps:
  "fields_ok []" "fields_ok ((k, v) # fs) \<longleftrightarrow> k \<noteq> ''id'' \<and> k \<noteq> ''attempts'' \<and> (k = ''status'' \<longrightarrow> v \<in> PStr ` set NODE_STATUSES) \<and> fields_ok fs"
  "fields_ok (fs @ gs) \<longleftrightarrow> fields_ok fs \<and> fields_ok gs"
  by (auto simp: fields_ok_def)

lemma outcomes_ok_simps:
  "outcomes_ok []" "outcomes_ok ((k, v) # fs) \<longleftrightarrow> (k = ''outcome'' \<longrightarrow> v \<in> PStr ` set OUTCOMES) \<and> outcomes_ok fs"
  by (auto simp: outcomes_ok_def)

lemma outcomes_ok_texts: "outcomes_ok (call_texts d)"
  by (auto simp: call_texts_def outcomes_ok_def split: pyval.splits)

lemmas field_checks = fields_ok_simps outcomes_ok_simps outcomes_ok_texts NODE_STATUSES_def OUTCOMES_def

lemma sound_plan_node [sound_intros]: "graph_sound g \<Longrightarrow> graph_sound (plan_node g)"
  unfolding plan_node_def by (rule sound_ensure) (simp_all add: field_checks)

lemma sound_answer_node [sound_intros]: "graph_sound g \<Longrightarrow> graph_sound (answer_node direct g)"
  unfolding answer_node_def by (cases direct) (auto intro!: sound_ensure simp: field_checks)

lemma sound_task_node [sound_intros]: "graph_sound g \<Longrightarrow> graph_sound (snd (task_node t tier g))"
  by (auto simp: task_node_def Let_def field_checks intro!: sound_ensure)

lemma sound_node_for_call: "node_for_call d g = Inr (i, g') \<Longrightarrow> graph_sound g \<Longrightarrow> graph_sound g'"
  by (auto simp: node_for_call_def bindE_eq_Inr Let_def split_beta split: if_splits
      intro: sound_answer_node sound_plan_node sound_task_node)

lemma sound_judge [sound_intros]:
  "graph_sound g \<Longrightarrow> status \<in> set NODE_STATUSES \<Longrightarrow> graph_sound (ensure_node i (judge_fields h tier status decision reason why) g)"
  by (rule sound_ensure) (simp_all add: judge_fields_def fields_ok_def)

lemma returns_call:
  assumes "graph_sound g" and "\<And>g'. graph_sound g' \<Longrightarrow> returns_sound (f None g')" and "\<And>i g'. graph_sound g' \<Longrightarrow> returns_sound (f (Some i) g')"
  shows "returns_sound (bindE (node_for_call d g) (\<lambda>(node, g1). f node g1))"
proof -
  have "returns_sound (f node g1)" if "node_for_call d g = Inr (node, g1)" for node g1
    using assms sound_node_for_call [OF that assms(1)] by (cases node) auto
  then show ?thesis by (auto simp: returns_sound_def bindE_eq_Inr)
qed

lemmas returns_intros = returns_Inr returns_Inl returns_bind returns_reads returns_if returns_update returns_attempt

named_theorems handler_sound \<open>event handlers that return sound graphs\<close>

lemma output_sound [handler_sound]: "graph_sound g \<Longrightarrow> returns_sound (on_call_output d g)"
  unfolding on_call_output_def Let_def
  by (rule returns_call) (auto intro!: returns_intros simp: field_checks)

lemma finished_sound [handler_sound]: "graph_sound g \<Longrightarrow> returns_sound (on_call_finished d g)"
  unfolding on_call_finished_def Let_def
  by (rule returns_call) (auto intro!: returns_intros simp: field_checks)

lemma solve_sound [handler_sound]: "graph_sound g \<Longrightarrow> returns_sound (on_local_solve d g)"
  unfolding on_local_solve_def Let_def
  by (intro returns_intros) (auto intro!: sound_intros simp: NODE_STATUSES_def split_beta split: option.split)

lemma started_sound [handler_sound]: "graph_sound g \<Longrightarrow> returns_sound (on_run_started d g)"
  unfolding on_run_started_def by (intro returns_intros) simp

lemma local_attempt_sound [handler_sound]: "graph_sound g \<Longrightarrow> returns_sound (on_local_attempt g)"
  unfolding on_local_attempt_def by (intro returns_intros sound_intros) (simp_all add: field_checks)

lemma extract_failed_sound [handler_sound]: "graph_sound g \<Longrightarrow> returns_sound (on_extract_failed g)"
  unfolding on_extract_failed_def by (intro returns_intros) (simp_all add: field_checks)

lemma sample_sound [handler_sound]: "graph_sound g \<Longrightarrow> returns_sound (on_local_sample d g)"
proof -
  assume g: "graph_sound g"
  have "graph_sound (set_node i (dict_set ''samples'' v nd) g)" if "node_of g i = Inr nd" for i v nd
    using sound_set [OF g node_ok_update [OF sound_node [OF g that], of "[(''samples'', v)]"]] by (simp add: field_checks dict_update_Cons)
  then show ?thesis unfolding on_local_sample_def Let_def
    by (intro returns_intros) (auto simp: field_checks)
qed

lemma skipped_sound [handler_sound]: "graph_sound g \<Longrightarrow> returns_sound (on_local_skipped d g)"
  unfolding on_local_skipped_def by (intro returns_intros sound_intros) (simp_all add: NODE_STATUSES_def)

lemma critique_sound [handler_sound]: "graph_sound g \<Longrightarrow> returns_sound (on_local_critique d g)"
  unfolding on_local_critique_def Let_def by (intro returns_intros) (simp_all add: field_checks)

lemma verdict_sound [handler_sound]: "graph_sound g \<Longrightarrow> returns_sound (on_local_verdict d g)"
  unfolding on_local_verdict_def by (intro returns_intros) (simp_all add: field_checks)

lemma accepted_sound [handler_sound]: "graph_sound g \<Longrightarrow> returns_sound (on_local_accepted d message g)"
  unfolding on_local_accepted_def Let_def by (intro returns_intros) (simp_all add: field_checks)

lemma escalated_sound [handler_sound]: "graph_sound g \<Longrightarrow> returns_sound (on_escalated d g)"
  unfolding on_escalated_def Let_def
  by (intro returns_intros) (auto simp: field_checks split_beta intro!: sound_intros split: option.split)

lemma answering_sound [handler_sound]: "graph_sound g \<Longrightarrow> returns_sound (on_answering g)"
  unfolding on_answering_def by (intro returns_intros sound_intros) (simp_all add: field_checks)

lemma plan_invalid_sound [handler_sound]: "graph_sound g \<Longrightarrow> returns_sound (on_plan_invalid d g)"
  unfolding on_plan_invalid_def by (intro returns_intros sound_intros) (simp_all add: field_checks)

lemma add_task_sound: "graph_sound g \<Longrightarrow> graph_sound (add_task rounds planner ids t g)"
  unfolding add_task_def Let_def
  by (intro sound_edges [where P = "\<lambda>_. True", simplified] sound_intros) (simp_all add: task_fields_of_def field_checks)

lemma add_tasks_sound: "graph_sound g \<Longrightarrow> graph_sound (foldl (\<lambda>acc t. add_task rounds planner ids t acc) g ts)"
  by (induction ts arbitrary: g) (auto intro: add_task_sound)

lemma plan_created_sound [handler_sound]: "graph_sound g \<Longrightarrow> returns_sound (on_plan_created d g)"
  unfolding on_plan_created_def Let_def
  by (intro returns_intros)
     (auto simp: field_checks plan_summary_def intro!: returns_intros add_tasks_sound sound_intros split: option.split)

lemma task_escalated_sound [handler_sound]: "graph_sound g \<Longrightarrow> returns_sound (on_task_escalated d g)"
  unfolding on_task_escalated_def Let_def split_beta
  by (intro returns_intros sound_intros) (simp_all add: field_checks)

lemma task_started_sound [handler_sound]: "graph_sound g \<Longrightarrow> returns_sound (on_task_started d g)"
  unfolding on_task_started_def split_beta by (intro returns_intros sound_intros) (simp_all add: field_checks)

lemma task_invalid_sound [handler_sound]: "graph_sound g \<Longrightarrow> returns_sound (on_task_invalid d g)"
  unfolding on_task_invalid_def split_beta by (intro returns_intros sound_intros) (simp_all add: field_checks)

lemma task_completed_sound [handler_sound]: "graph_sound g \<Longrightarrow> returns_sound (on_task_completed d g)"
  unfolding on_task_completed_def split_beta by (intro returns_intros sound_intros) (simp_all add: field_checks)

lemma synthesizing_sound [handler_sound]: "graph_sound g \<Longrightarrow> returns_sound (on_synthesizing g)"
  unfolding on_synthesizing_def by (intro returns_intros sound_intros sound_edges) (simp_all add: field_checks)

lemma completed_sound [handler_sound]: "graph_sound g \<Longrightarrow> returns_sound (on_run_completed d message g)"
  unfolding on_run_completed_def Let_def by (intro returns_intros) (simp_all add: field_checks)

lemma stop_attempt_ok: "attempt_ok a \<Longrightarrow> attempt_ok (stop_attempt a) \<and> (\<forall>d. stop_attempt a = PDict d \<longrightarrow> field d ''outcome'' \<noteq> PStr ''running'')"
  by (auto simp: attempt_ok_def stop_attempt_def field_dict_set OUTCOMES_def)

lemma stop_node_ok:
  assumes "node_ok i n"
  shows "node_ok i (stop_node n)" and "field (stop_node n) ''status'' \<notin> {PStr ''running'', PStr ''queued''}"
    and "a \<in> set (attempts_of (stop_node n)) \<Longrightarrow> a = PDict d \<Longrightarrow> field d ''outcome'' \<noteq> PStr ''running''"
proof -
  from assms obtain as where as: "field n ''attempts'' = PList as" "list_all attempt_ok as" by (auto simp: node_ok_def)
  have at: "attempts_of (stop_node n) = map stop_attempt as" by (simp add: attempts_of_def stop_node_def field_dict_set Let_def as(1))
  show "node_ok i (stop_node n)" using assms as(2) stop_attempt_ok
    by (auto simp: stop_node_def Let_def node_ok_def field_dict_set attempts_of_def list_all_iff NODE_STATUSES_def)
  show "field (stop_node n) ''status'' \<notin> {PStr ''running'', PStr ''queued''}" by (simp add: stop_node_def Let_def field_dict_set)
  show "field d ''outcome'' \<noteq> PStr ''running''" if "a \<in> set (attempts_of (stop_node n))" "a = PDict d"
    using that as(2) stop_attempt_ok unfolding at by (auto simp: list_all_iff)
qed

lemma map_of_stop: "map_of (g_nodes (stop st m x g)) i = map_option stop_node (map_of (g_nodes g) i)"
  by (simp add: stop_def map_of_map)

lemma stop_sound:
  assumes "graph_sound g"
  shows "graph_sound (stop st m x g)" and "nothing_running (stop st m x g)"
proof -
  have ok: "node_ok i n" if "(i, n) \<in> set (g_nodes g)" for i n
    using that assms by (metis graph_sound_def dict_ok_def map_of_is_SomeI)
  show "graph_sound (stop st m x g)"
    using assms stop_node_ok(1) unfolding graph_sound_def map_of_stop by (auto simp: stop_def dict_ok_def comp_def split_beta)
  show "nothing_running (stop st m x g)" unfolding nothing_running_def
    using stop_node_ok(2,3) [OF ok] by (force simp: stop_def)
qed

lemma handle_sound: "graph_sound g \<Longrightarrow> returns_sound (handle e g)"
  unfolding handle_def Let_def by (auto intro!: returns_if handler_sound returns_Inr stop_sound)

lemma add_event_sound: "graph_sound g \<Longrightarrow> add_event e g = Inr g' \<Longrightarrow> graph_sound g'"
  using handle_sound [of "g\<lparr>g_run_id := PStr (ev_run_id e), g_simulated := ev_simulated e\<rparr>" e]
  by (simp add: add_event_def returns_sound_def)

lemma add_events_sound: "graph_sound g \<Longrightarrow> add_events es g = Inr g' \<Longrightarrow> graph_sound g'"
  by (induction es arbitrary: g) (auto simp: bindE_eq_Inr dest: add_event_sound)

lemma add_events_last: "add_events (es @ [e]) g = bindE (add_events es g) (add_event e)"
  by (induction es arbitrary: g) (auto simp: bindE_def split: sum.split)

lemma RunGraph_init_sound: "graph_sound RunGraph_init"
  by (simp add: graph_sound_def RunGraph_init_def dict_ok_def)

text \<open>
  C13. The decision graph is always consistent. Whatever events were added, node ids are unique and every node carries its own id, a
  known status and attempts with a known outcome, no edge is listed twice, and every edge of the page joins two nodes of the page. When the
  last event said that the run failed or was cancelled, nothing is shown as running or waiting.
\<close>

theorem graph_consistent:
  assumes "add_events es RunGraph_init = Inr g"
  shows "distinct (map fst (g_nodes g)) \<and> (\<forall>(i, n) \<in> set (g_nodes g). node_ok i n) \<and> distinct (g_edges g)
    \<and> (\<forall>e \<in> set (shown_edges g). {ed_from e, ed_to e} \<subseteq> fst ` set (g_nodes g))
    \<and> (es \<noteq> [] \<and> ev_name (last es) \<in> {''run_failed'', ''run_cancelled''} \<longrightarrow> nothing_running g)"
proof -
  have g: "graph_sound g" using add_events_sound [OF RunGraph_init_sound assms] .
  then have "distinct (map fst (g_nodes g)) \<and> (\<forall>(i, n) \<in> set (g_nodes g). node_ok i n) \<and> distinct (g_edges g)"
    by (auto simp: graph_sound_def dict_ok_def)
  moreover have "\<forall>e \<in> set (shown_edges g). {ed_from e, ed_to e} \<subseteq> fst ` set (g_nodes g)"
    by (auto simp: shown_edges_def Let_def map_of_eq_None_iff split: if_splits)
  moreover have "nothing_running g" if e: "es \<noteq> []" "ev_name (last es) \<in> {''run_failed'', ''run_cancelled''}"
  proof -
    have "add_events (butlast es @ [last es]) RunGraph_init = Inr g" using assms e(1) by simp
    then obtain h where h: "add_events (butlast es) RunGraph_init = Inr h" "add_event (last es) h = Inr g"
      unfolding add_events_last bindE_eq_Inr by blast
    have "graph_sound h" using add_events_sound [OF RunGraph_init_sound h(1)] .
    then show ?thesis using h(2) e(2) by (auto simp: add_event_def handle_def Let_def intro!: stop_sound)
  qed
  ultimately show ?thesis by blast
qed

theorem graph_consistent_witness:
  "\<exists>g. add_events [\<lparr>ev_run_id = ''r'', ev_seq = 1, ev_name = ''answering'', ev_message = [], ev_done = False, ev_simulated = False, ev_data = []\<rparr>,
      \<lparr>ev_run_id = ''r'', ev_seq = 2, ev_name = ''run_failed'', ev_message = [], ev_done = True, ev_simulated = False, ev_data = []\<rparr>] RunGraph_init = Inr g
    \<and> nothing_running g" (is "\<exists>g. add_events ?es _ = _ \<and> _")
proof -
  have "\<not> Sum_Type.isl (add_events ?es RunGraph_init)" by code_simp
  then obtain g where g: "add_events ?es RunGraph_init = Inr g" by (cases "add_events ?es RunGraph_init") auto
  from graph_consistent [OF this] have "nothing_running g" by simp
  with g show ?thesis by blast
qed

subsection \<open>The page\<close>

lemma prefix_two: "prefix [a, b] s \<longleftrightarrow> (\<exists>t. s = a # b # t)"
  by (auto simp: prefix_def)

definition closes_tag :: "char \<Rightarrow> char \<Rightarrow> bool" where
  "closes_tag a b \<longleftrightarrow> a = CHR ''<'' \<and> b = CHR ''/''"

lemma no_sublist_two: "successively (\<lambda>a b. \<not> R a b) xs \<Longrightarrow> R a b \<Longrightarrow> \<not> sublist [a, b] xs"
  by (auto simp: sublist_def successively_append_iff successively_Cons)

lemma replaced_tags:
  "successively (\<lambda>a b. \<not> closes_tag a b) (py_replace ''</'' [CHR ''<'', CHR 0x5C, CHR ''/''] s)
   \<and> (\<forall>t. py_replace ''</'' [CHR ''<'', CHR 0x5C, CHR ''/''] s = CHR ''/'' # t \<longrightarrow> (\<exists>t'. s = CHR ''/'' # t'))"
proof (induction s rule: length_induct)
  case (1 s)
  let ?esc = "py_replace ''</'' [CHR ''<'', CHR 0x5C, CHR ''/'']"
  show ?case
  proof (cases s)
    case (Cons c cs)
    show ?thesis
    proof (cases "prefix ''</'' s")
      case True
      then obtain t where t: "s = ''</'' @ t" by (auto simp: prefix_def)
      then have "?esc s = [CHR ''<'', CHR 0x5C, CHR ''/''] @ ?esc t"
        by (subst py_replace.simps) simp
      then show ?thesis using 1 t by (auto simp: closes_tag_def successively_Cons)
    next
      case False
      then have r: "?esc s = c # ?esc cs" unfolding Cons by (subst py_replace.simps) (simp only: list.case simp_thms if_False)
      have IH: "successively (\<lambda>a b. \<not> closes_tag a b) (?esc cs)" "\<And>t. ?esc cs = CHR ''/'' # t \<Longrightarrow> \<exists>t'. cs = CHR ''/'' # t'"
        using 1 Cons by auto
      have "\<not> closes_tag c d" if d: "?esc cs = d # t" for d t
      proof
        assume c: "closes_tag c d"
        then obtain t' where "cs = CHR ''/'' # t'" using IH(2) [of t] d by (auto simp: closes_tag_def)
        then show False using c False Cons by (simp add: closes_tag_def)
      qed
      then show ?thesis using IH(1) Cons unfolding r by (cases "?esc cs") (auto simp: closes_tag_def)
    qed
  qed simp
qed

lemma inline_data_open: "\<not> contains ''</'' (inline_data v)"
  unfolding contains_iff inline_data_def
  by (rule no_sublist_two [OF replaced_tags [THEN conjunct1]]) (simp add: closes_tag_def)

lemma py_replace1_first:
  assumes "old \<noteq> []" and "\<not> contains old (pre @ butlast old)"
  shows "py_replace1 old new (pre @ old @ post) = pre @ new @ post"
  using assms(2)
proof (induction pre)
  case Nil
  then show ?case using assms(1) by (cases old) auto
next
  case (Cons c pre)
  have "\<not> prefix old (c # pre @ old @ post)"
  proof
    assume "prefix old (c # pre @ old @ post)"
    then obtain rest where rest: "(c # pre) @ old @ post = old @ rest" by (auto simp: prefix_def)
    then have "old = take (length old) ((c # pre) @ old @ post)" by simp
    also have "\<dots> = take (length old) ((c # pre) @ butlast old)"
      using assms(1) by (cases old rule: rev_cases) (auto simp: take_Cons' nth_append)
    finally have "prefix old ((c # pre) @ butlast old)" by (metis take_is_prefix)
    then show False using Cons.prems by (simp add: contains_iff)
  qed
  moreover have "\<not> contains old (pre @ butlast old)" using Cons.prems unfolding contains_iff by (metis append_Cons sublist_Cons_right)
  ultimately show ?case using Cons.IH by simp
qed

text \<open>
  C15. The graph page cannot be broken by its data. In a template with the marker, rendering puts the graph exactly in the place of the
  first marker and changes nothing else, and whatever models, users and servers wrote into the graph, the inlined
  text does not contain \<^verbatim>\<open></\<close>, so it cannot end the script element it stands in.
\<close>

theorem page_safe:
  assumes "\<not> contains ''/*RELAY_GRAPH*/null'' (pre @ butlast ''/*RELAY_GRAPH*/null'')"
  shows "render_html (pre @ ''/*RELAY_GRAPH*/null'' @ post) v = pre @ inline_data v @ post \<and> \<not> contains ''</'' (inline_data v)"
  unfolding render_html_def using py_replace1_first [OF _ assms] inline_data_open by simp

theorem page_safe_witness:
  "render_html (''<script>'' @ ''/*RELAY_GRAPH*/null'' @ ''</script>'') (PStr ''</script>'') = ''<script>'' @ inline_data (PStr ''</script>'') @ ''</script>''"
proof -
  have "\<not> contains ''/*RELAY_GRAPH*/null'' (''<script>'' @ butlast ''/*RELAY_GRAPH*/null'')" by code_simp
  from page_safe [OF this] show ?thesis by blast
qed

end
