(* ===== verification/Relay_Batches.thy ===== *)
theory Relay_Batches
  imports Relay_Guarantees
begin

section \<open>Concurrent subtasks\<close>

text \<open>
  The jobs of a batch as a transition system (\<open>batch_step\<close>: any job that can go on goes on), its
  invariants by rule induction over every reachable state, and what they mean for \<^const>\<open>run_batch\<close> and
  \<^const>\<open>run_tasks\<close>: the local slots are never exceeded and never deadlock, every accepted result passed
  its checks, and a validated plan is carried out completely or fails for a reason of its own.
\<close>

subsection \<open>Steps of a batch\<close>

text \<open>Any job that is not waiting for a slot may be the next to run.\<close>

inductive batch_step :: "env \<Rightarrow> string \<Rightarrow> sources \<Rightarrow> worker list \<times> run_state \<Rightarrow> worker list \<times> run_state \<Rightarrow> bool"
  for env :: env and goal :: string and sources :: "sources" where
  job: "i < length ws \<Longrightarrow> can_step s (w_phase (ws ! i)) \<Longrightarrow> step_worker env goal sources (ws ! i) s = (w', s') \<Longrightarrow>
        batch_step env goal sources (ws, s) (ws[i := w'], s')"

inductive_cases batch_stepE: "batch_step env goal sources (ws, s) c"

abbreviation reachable :: "env \<Rightarrow> string \<Rightarrow> sources \<Rightarrow> worker list \<times> run_state \<Rightarrow> worker list \<times> run_state \<Rightarrow> bool" where
  "reachable env goal sources \<equiv> (batch_step env goal sources)\<^sup>*\<^sup>*"

subsection \<open>Slots\<close>

definition holders :: "worker list \<Rightarrow> nat" where
  "holders ws = length (filter (\<lambda>w. in_slot (w_phase w)) ws)"

definition slots_ok :: "nat \<Rightarrow> worker list \<times> run_state \<Rightarrow> bool" where
  "slots_ok cap c \<longleftrightarrow> slots (snd c) + holders (fst c) = cap"

lemma length_filter_update:
  "i < length xs \<Longrightarrow> length (filter P (xs[i := y])) + of_bool (P (xs ! i)) = length (filter P xs) + of_bool (P y)"
proof (induction xs arbitrary: i)
  case (Cons x xs)
  show ?case
  proof (cases i)
    case (Suc j)
    then show ?thesis using Cons.IH [of j] Cons.prems by simp
  qed simp
qed simp

lemma begin_call_frame: "begin_call env tier oper payload s = (r, s') \<Longrightarrow> slots s' = slots s \<and> results s' = results s"
  by (auto simp: begin_call_def split: sum.splits)

lemma end_call_frame: "end_call env i oper out s = (r, s') \<Longrightarrow> slots s' = slots s \<and> results s' = results s"
proof -
  assume r: "end_call env i oper out s = (r, s')"
  have "keeps (\<lambda>s'. slots s' = slots s \<and> results s' = results s) (end_call env i oper out)"
    unfolding keeps_def end_call_def after_def call_event_def event_def raise_def
    by (auto simp: set_record_def Let_def split: sum.splits prod.splits option.splits)
  from keepsD [OF this, of s] r show ?thesis by simp
qed

lemma follow_tick_frame: "follow_tick env i shown live s = (n, s') \<Longrightarrow> slots s' = slots s \<and> results s' = results s"
  by (auto simp: follow_tick_def Let_def split: if_splits)

lemma settle_frame:
  "settle env w a tier r s = (w', s') \<Longrightarrow> slots s' = slots s \<and> \<not> in_slot (w_phase w') \<and> w_task w' = w_task w \<and> w_inputs w' = w_inputs w"
  by (auto simp: settle_def invalid_event_def split: sum.splits exn.splits prod.splits if_splits)

lemma step_worker_slots:
  assumes "step_worker env goal sources w s = (w', s')" "can_step s (w_phase w)"
  shows "slots s' + of_bool (in_slot (w_phase w')) = slots s + of_bool (in_slot (w_phase w))"
proof (cases "w_phase w")
  case (Sending a tier)
  with assms show ?thesis
    by (auto simp: step_worker_def Let_def split: prod.splits sum.splits dest: begin_call_frame)
next
  case (Calling a tier i shown lives)
  with assms show ?thesis
    by (cases lives) (auto simp: step_worker_def Let_def split: prod.splits dest: end_call_frame follow_tick_frame)
next
  case (Returned a tier r)
  with assms show ?thesis
    by (auto simp: step_worker_def Let_def release_slot_def dest: settle_frame split: if_splits)
qed (use assms in \<open>auto simp: step_worker_def Let_def take_slot_def split: sum.splits list.splits prod.splits if_splits\<close>)

lemma batch_step_slots: "batch_step env goal sources c c' \<Longrightarrow> slots_ok cap c \<Longrightarrow> slots_ok cap c'"
proof (induction rule: batch_step.induct)
  case (job i ws s w' s')
  then show ?case
    using step_worker_slots [OF job(3,2)] length_filter_update [OF job(1), of "\<lambda>w. in_slot (w_phase w)" w']
    by (simp add: slots_ok_def holders_def)
qed

lemma reachable_slots: "reachable env goal sources c c' \<Longrightarrow> slots_ok cap c \<Longrightarrow> slots_ok cap c'"
  by (induction rule: rtranclp_induct) (auto intro: batch_step_slots)

lemma new_workers_slots: "slots_ok (slots s) (map new_worker ts, s)"
  by (simp add: slots_ok_def holders_def new_worker_def filter_map comp_def)

lemma in_slot_can_step: "in_slot ph \<Longrightarrow> can_step s ph"
  by (cases ph) auto

lemma some_job_can_step:
  assumes "slots_ok cap (ws, s)" "0 < cap" "\<not> list_all (\<lambda>w. is_finished (w_phase w)) ws"
  shows "\<exists>i < length ws. can_step s (w_phase (ws ! i))"
proof (cases "slots s")
  case 0
  with assms(1,2) have "0 < holders ws" by (simp add: slots_ok_def)
  then obtain w where "w \<in> set ws" "in_slot (w_phase w)" by (auto simp: holders_def filter_empty_conv)
  then show ?thesis by (auto simp: in_set_conv_nth intro: in_slot_can_step)
next
  case (Suc n)
  obtain w where w: "w \<in> set ws" "\<not> is_finished (w_phase w)" using assms(3) by (auto simp: list_all_iff)
  then have "can_step s (w_phase w)" using Suc by (cases "w_phase w") auto
  with w(1) show ?thesis by (auto simp: in_set_conv_nth)
qed

text \<open>
  C6. The local slots in every interleaving. Starting a batch with \<open>n > 0\<close> free slots, in every state that any
  order of the jobs' steps can reach, at most \<open>n\<close> jobs are inside a call to a local model, the free slots
  and the taken ones add up to \<open>n\<close>, and as long as a job is unfinished some job can go on: the semaphore
  never deadlocks.
\<close>

theorem slots_in_every_interleaving:
  assumes "reachable env goal sources (map new_worker ts, s) (ws, s')" "0 < slots s"
  shows "holders ws \<le> slots s \<and> slots s' + holders ws = slots s
    \<and> (list_all (\<lambda>w. is_finished (w_phase w)) ws \<or> (\<exists>i < length ws. can_step s' (w_phase (ws ! i))))"
proof -
  have ok: "slots_ok (slots s) (ws, s')"
    using reachable_slots [OF assms(1) new_workers_slots] .
  then show ?thesis using some_job_can_step [OF ok assms(2)] by (auto simp: slots_ok_def)
qed

theorem slots_in_every_interleaving_witness:
  "let t = \<lparr>t_id = ''a'', t_instruction = ''List the parts'', t_preferred_tier = ''local'', t_input_refs = [''sources.R1''],
            t_depends_on = [], t_result_type = ''task_answer'', t_checks = [''required_fields''], t_why = ''short''\<rparr>;
       s = Run_init offline_env; ws = map new_worker [t, t\<lparr>t_id := ''b''\<rparr>]
   in holders ws \<le> slots s \<and> slots s + holders ws = slots s
      \<and> (list_all (\<lambda>w. is_finished (w_phase w)) ws \<or> (\<exists>i < length ws. can_step s (w_phase (ws ! i))))"
  unfolding Let_def
  by (rule slots_in_every_interleaving [OF rtranclp.rtrancl_refl])
    (simp add: Run_init_def offline_env_def default_limits_def)

text \<open>So \<open>run_batch\<close> never waits for a job that cannot come.\<close>

lemma next_job_exists:
  assumes "slots_ok cap (ws, s)" "0 < cap" "\<not> list_all (\<lambda>w. is_finished (w_phase w)) ws"
  shows "next_job sched ws s \<noteq> None"
proof
  assume "next_job sched ws s = None"
  then have "\<forall>i < length ws. \<not> can_step s (w_phase (ws ! i))"
    by (auto simp: next_job_def pick_def find_None_iff split: if_splits)
  with some_job_can_step [OF assms] show False by blast
qed


subsection \<open>Inputs\<close>

text \<open>A job's inputs depend only on the results its task's references name.\<close>

lemma input_value_cong:
  assumes "ref_ok sources t ref" "\<And>d. d \<in> set (t_depends_on t) \<Longrightarrow> map_of r1 d = map_of r2 d"
  shows "input_value sources r1 ref = input_value sources r2 ref"
  using assms by (auto simp: input_value_def ref_ok_def split: prod.splits bool.splits)

lemma collect_inputs_cong:
  assumes "\<forall>ref \<in> set refs. ref_ok sources t ref" "\<And>d. d \<in> set (t_depends_on t) \<Longrightarrow> map_of r1 d = map_of r2 d"
  shows "collect_inputs sources r1 refs acc = collect_inputs sources r2 refs acc"
  using assms(1)
proof (induction refs arbitrary: acc)
  case (Cons ref refs)
  then show ?case using input_value_cong [of sources t ref r1 r2] assms(2) by (auto simp: bindE_def split: sum.splits)
qed simp

subsection \<open>What the jobs of a batch have done\<close>

definition job_ok :: "sources \<Rightarrow> (string, pyval) dict \<Rightarrow> worker \<Rightarrow> bool" where
  "job_ok sources base w \<longleftrightarrow>
     (case w_phase w of
        Entry \<Rightarrow> True
      | Finished (Inl e) \<Rightarrow> True
      | _ \<Rightarrow> collect_inputs sources base (t_input_refs (w_task w)) [] = Inr (w_inputs w))"

definition job_value :: "worker \<Rightarrow> pyval option" where
  "job_value w = (case w_phase w of Finished (Inr v) \<Rightarrow> Some v | _ \<Rightarrow> None)"

definition job_valid :: "worker \<Rightarrow> bool" where
  "job_valid w \<longleftrightarrow> (\<forall>v. job_value w = Some v \<longrightarrow> validate_result (t_result_type (w_task w)) v (w_inputs w) = Inr ())"

text \<open>
  During a batch the results are those from before it together with the values of the jobs that have
  finished, and those values have passed the checks of their task's result type.
\<close>

definition batch_ok :: "sources \<Rightarrow> (string, pyval) dict \<Rightarrow> task list \<Rightarrow> worker list \<times> run_state \<Rightarrow> bool" where
  "batch_ok sources base ts c \<longleftrightarrow>
     (case c of (ws, s) \<Rightarrow> map w_task ws = ts \<and> list_all (job_ok sources base) ws \<and> list_all job_valid ws
        \<and> (\<forall>w \<in> set ws. \<forall>v. job_value w = Some v \<longrightarrow> map_of (results s) (t_id (w_task w)) = Some v)
        \<and> (\<forall>k. (\<forall>w \<in> set ws. t_id (w_task w) = k \<longrightarrow> job_value w = None) \<longrightarrow> map_of (results s) k = map_of base k))"

lemma settle_results:
  assumes "settle env w a tier r s = (w', s')"
  shows "w_task w' = w_task w \<and> w_inputs w' = w_inputs w \<and>
    (job_value w' = None \<and> results s' = results s
     \<or> (\<exists>v. job_value w' = Some v \<and> results s' = dict_set (t_id (w_task w)) v (results s)
            \<and> validate_result (t_result_type (w_task w)) v (w_inputs w) = Inr ()))"
  using assms by (auto simp: settle_def invalid_event_def job_value_def split: sum.splits exn.splits prod.splits if_splits)

lemma step_worker_results:
  assumes "step_worker env goal sources w s = (w', s')" "\<not> is_finished (w_phase w)"
  shows "w_task w' = w_task w \<and>
    (job_value w' = None \<and> results s' = results s
     \<or> (\<exists>v. job_value w' = Some v \<and> results s' = dict_set (t_id (w_task w)) v (results s)
            \<and> validate_result (t_result_type (w_task w)) v (w_inputs w') = Inr ()))"
proof (cases "w_phase w")
  case (Sending a tier)
  with assms show ?thesis
    by (auto simp: step_worker_def Let_def job_value_def split: prod.splits sum.splits dest: begin_call_frame)
next
  case (Calling a tier i shown lives)
  with assms show ?thesis
    by (cases lives) (auto simp: step_worker_def Let_def job_value_def split: prod.splits dest: end_call_frame follow_tick_frame)
next
  case (Returned a tier r)
  with assms(1) have "settle env w a tier r (release_slot tier s) = (w', s')" by (simp add: step_worker_def Let_def)
  from settle_results [OF this] show ?thesis by (auto simp: release_slot_def split: if_splits)
qed (use assms in \<open>auto simp: step_worker_def Let_def job_value_def take_slot_def split: sum.splits list.splits prod.splits if_splits\<close>)

lemma step_worker_job_ok:
  assumes "step_worker env goal sources w s = (w', s')" "\<not> is_finished (w_phase w)" "job_ok sources base w"
    and "collect_inputs sources (results s) (t_input_refs (w_task w)) [] = collect_inputs sources base (t_input_refs (w_task w)) []"
  shows "job_ok sources base w'"
proof (cases "w_phase w")
  case Entry
  with assms(1,4) show ?thesis
    by (auto simp: step_worker_def Let_def job_ok_def bindE_eq_Inr split: sum.splits prod.splits)
next
  case (Calling a tier i shown lives)
  with assms show ?thesis
    by (cases lives) (auto simp: step_worker_def Let_def job_ok_def split: prod.splits)
next
  case (Returned a tier r)
  with assms(1) have "settle env w a tier r (release_slot tier s) = (w', s')" by (simp add: step_worker_def Let_def)
  from settle_results [OF this] assms(3) Returned show ?thesis
    by (auto simp: job_ok_def split: phase.splits sum.splits)
qed (use assms in \<open>auto simp: step_worker_def Let_def job_ok_def split: sum.splits list.splits prod.splits if_splits\<close>)

text \<open>What the tasks of a batch need: their dependencies are done, and they are not among them.\<close>

definition batch_tasks_ok :: "sources \<Rightarrow> (string, pyval) dict \<Rightarrow> task list \<Rightarrow> bool" where
  "batch_tasks_ok sources base ts \<longleftrightarrow> distinct (map t_id ts)
     \<and> (\<forall>t \<in> set ts. set (t_depends_on t) \<inter> t_id ` set ts = {} \<and> (\<forall>ref \<in> set (t_input_refs t). ref_ok sources t ref))"

lemma distinct_jobs:
  assumes "distinct (map t_id ts)" "map w_task ws = ts" "i < length ws" "j < length ws" "t_id (w_task (ws ! i)) = t_id (w_task (ws ! j))"
  shows "i = j"
  using assms by (metis (no_types, lifting) length_map nth_eq_iff_index_eq nth_map)

lemma batch_step_ok:
  assumes "batch_step env goal sources c c'" "batch_tasks_ok sources base ts" "batch_ok sources base ts c"
  shows "batch_ok sources base ts c'"
  using assms(1,3)
proof (induction rule: batch_step.induct)
  case (job i ws s w' s')
  let ?w = "ws ! i"
  note unfinished = can_step_not_finished [OF job(2)]
  have ts: "map w_task ws = ts" and jobs: "list_all (job_ok sources base) ws" "list_all job_valid ws"
    and vals: "\<forall>w \<in> set ws. \<forall>v. job_value w = Some v \<longrightarrow> map_of (results s) (t_id (w_task w)) = Some v"
    and rest: "\<forall>k. (\<forall>w \<in> set ws. t_id (w_task w) = k \<longrightarrow> job_value w = None) \<longrightarrow> map_of (results s) k = map_of base k"
    using job(4) by (auto simp: batch_ok_def)
  have in_ts: "w_task ?w \<in> set ts" using job(1) ts by auto
  have "collect_inputs sources (results s) (t_input_refs (w_task ?w)) [] = collect_inputs sources base (t_input_refs (w_task ?w)) []"
  proof (rule collect_inputs_cong)
    fix d assume "d \<in> set (t_depends_on (w_task ?w))"
    then have "d \<notin> t_id ` set ts" using assms(2) in_ts by (auto simp: batch_tasks_ok_def)
    then have "\<forall>w \<in> set ws. t_id (w_task w) \<noteq> d" using ts by auto
    then show "map_of (results s) d = map_of base d" using rest by blast
  qed (use assms(2) in_ts in \<open>auto simp: batch_tasks_ok_def\<close>)
  with step_worker_job_ok [OF job(3) unfinished] jobs(1) job(1) have ok': "job_ok sources base w'" by (auto simp: list_all_length)
  note res = step_worker_results [OF job(3) unfinished]
  have none: "job_value ?w = None" using unfinished by (cases "w_phase ?w") (auto simp: job_value_def)
  have ts': "map w_task (ws[i := w']) = ts" using ts res job(1) by (simp add: map_update) (metis list_update_id nth_map)
  have other: "t_id (w_task w) \<noteq> t_id (w_task ?w)" if "w \<in> set (ws[i := w'])" "w \<noteq> w'" for w
    using that assms(2) ts job(1) distinct_jobs [of ts ws _ i]
    by (auto simp: batch_tasks_ok_def in_set_conv_nth nth_list_update split: if_splits)
  have valid': "job_valid w'" using res by (auto simp: job_valid_def)
  have set': "set (ws[i := w']) \<subseteq> insert w' (set ws)" by (rule set_update_subset_insert)
  have in': "w' \<in> set (ws[i := w'])" using job(1) by (simp add: set_update_memI)
  have jobs': "list_all (job_ok sources base) (ws[i := w'])" "list_all job_valid (ws[i := w'])"
    using jobs ok' valid' set' by (auto simp: list_all_iff)
  have vals': "map_of (results s') (t_id (w_task w)) = Some v" if "w \<in> set (ws[i := w'])" "job_value w = Some v" for w v
  proof (cases "w = w'")
    case False
    then have "w \<in> set ws" using that(1) set' by auto
    with vals that(2) other [OF that(1) False] res show ?thesis by auto
  qed (use res that in auto)
  have rest': "map_of (results s') k = map_of base k"
    if none': "\<forall>w \<in> set (ws[i := w']). t_id (w_task w) = k \<longrightarrow> job_value w = None" for k
  proof -
    have "job_value w = None" if w: "w \<in> set ws" "t_id (w_task w) = k" for w
    proof -
      obtain j where j: "j < length ws" "w = ws ! j" using w(1) by (auto simp: in_set_conv_nth)
      show ?thesis
      proof (cases "j = i")
        case False
        then have "w \<in> set (ws[i := w'])" using j by (metis length_list_update nth_list_update_neq nth_mem)
        then show ?thesis using none' w(2) by blast
      qed (use none j in simp)
    qed
    then have "map_of (results s) k = map_of base k" using rest by blast
    moreover have "results s' = results s \<or> k \<noteq> t_id (w_task ?w)" using res none' in' by auto
    ultimately show ?thesis using res by auto
  qed
  show ?case using ts' jobs' vals' rest' by (simp add: batch_ok_def)
qed

subsection \<open>The outcome of a batch\<close>

definition no_failure :: "exn option \<Rightarrow> worker list \<Rightarrow> bool" where
  "no_failure first ws \<longleftrightarrow> first = None \<longrightarrow> (\<forall>w \<in> set ws. \<forall>e. w_phase w \<noteq> Finished (Inl e))"

text \<open>A validation error of a job is about its own subtask.\<close>

definition job_error :: "exn \<Rightarrow> bool" where
  "job_error e \<longleftrightarrow> (\<forall>m. e = ValidationError m \<longrightarrow> prefix ''Subtask '' m)"

lemma collect_inputs_error: "collect_inputs sources r refs acc = Inl e \<Longrightarrow> job_error e"
  by (induction refs arbitrary: acc)
    (auto simp: bindE_eq_Inl input_value_def job_error_def split: prod.splits bool.splits option.splits if_splits)

lemma settle_error:
  assumes "settle env w a tier r s = (w', s')" "w_phase w' = Finished (Inl e)"
  shows "job_error e"
  using assms
  by (auto simp: settle_def job_error_def split: sum.splits exn.splits prod.splits if_splits)

lemma step_worker_error:
  assumes "step_worker env goal sources w s = (w', s')" "\<not> is_finished (w_phase w)" "w_phase w' = Finished (Inl e)"
  shows "job_error e"
proof (cases "w_phase w")
  case Entry
  with assms show ?thesis
    by (auto simp: step_worker_def Let_def bindE_eq_Inl worker_tiers_def job_error_def split: sum.splits prod.splits if_splits
        dest: collect_inputs_error [unfolded job_error_def])
next
  case (Calling a tier i shown lives)
  with assms show ?thesis by (cases lives) (auto simp: step_worker_def Let_def split: prod.splits)
next
  case (Returned a tier r)
  with assms show ?thesis using settle_error by (simp add: step_worker_def Let_def)
qed (use assms in \<open>auto simp: step_worker_def Let_def job_error_def split: sum.splits list.splits prod.splits if_splits\<close>)

lemma cancellation_job_error: "is_cancellation e \<Longrightarrow> job_error e"
  by (cases e) (auto simp: job_error_def)

lemma run_batch_outcome:
  assumes run: "run_batch env goal sources sched None (map new_worker ts) s = (f, ws, s')"
    and ts: "batch_tasks_ok sources (results s) ts" and cap: "0 < slots s"
  shows "case f of
      None \<Rightarrow> batch_ok sources (results s) ts (ws, s') \<and> list_all (\<lambda>w. job_value w \<noteq> None) ws \<and> slots s' = slots s
    | Some e \<Rightarrow> job_error e"
proof -
  let ?Q = "\<lambda>first ws s2. batch_ok sources (results s) ts (ws, s2) \<and> slots_ok (slots s) (ws, s2) \<and> no_failure first ws
      \<and> (\<forall>e. first = Some e \<longrightarrow> job_error e)"
  have init: "?Q None (map new_worker ts) s"
    using new_workers_slots [of s ts]
    by (auto simp: batch_ok_def no_failure_def new_worker_def job_ok_def job_valid_def job_value_def list_all_iff comp_def)
  have step: "?Q (first_failure first w') (ws[i := w']) s2'"
    if q: "?Q first ws s2" and i: "i < length ws" "can_step s2 (w_phase (ws ! i))"
      and w': "step_worker env goal sources (ws ! i) s2 = (w', s2')" for first ws s2 i w' s2'
  proof -
    have st: "batch_step env goal sources (ws, s2) (ws[i := w'], s2')" using i w' by (rule batch_step.job)
    have "no_failure (first_failure first w') (ws[i := w'])"
      using q set_update_subset_insert [of ws i w']
      by (fastforce simp: no_failure_def first_failure_def split: option.splits phase.splits sum.splits)
    moreover have "\<forall>e. first_failure first w' = Some e \<longrightarrow> job_error e"
      using q step_worker_error [OF w' can_step_not_finished [OF i(2)]]
      by (auto simp: first_failure_def split: option.splits phase.splits sum.splits)
    ultimately show ?thesis using q batch_step_ok [OF st ts] batch_step_slots [OF st] by blast
  qed
  obtain f2 ws2 s2 where q: "?Q f2 ws2 s2"
    and fin: "(list_all (\<lambda>w. is_finished (w_phase w)) ws2 \<and> f = f2 \<and> (ws, s') = (ws2, s2))
     \<or> (\<not> list_all (\<lambda>w. is_finished (w_phase w)) ws2 \<and> (ws, s') = cancel_all env ws2 s2
        \<and> (f \<noteq> None \<and> f = stops sched f2 ws2 s2 \<or> f = Some DeadlineCancelled \<and> next_job sched ws2 s2 = None))"
    by (rule run_batch_reaches [OF run, where Q = ?Q]) (use init step in blast)+
  show ?thesis
  proof (cases f)
    case None
    with fin have eq: "ws = ws2" "s' = s2" "f2 = None" and ended: "list_all (\<lambda>w. is_finished (w_phase w)) ws" by auto
    have vals: "job_value w \<noteq> None" if "w \<in> set ws" for w
      using that ended q eq by (cases "w_phase w") (auto simp: job_value_def no_failure_def list_all_iff split: sum.splits)
    have "holders ws = 0" using ended by (auto simp: holders_def filter_empty_conv list_all_iff elim!: is_finished.elims)
    then show ?thesis using None q eq vals by (auto simp: slots_ok_def list_all_iff)
  next
    case (Some e)
    have "\<not> list_all (\<lambda>w. is_finished (w_phase w)) ws2 \<Longrightarrow> next_job sched ws2 s2 \<noteq> None"
      using next_job_exists [of "slots s" ws2 s2] q cap by blast
    with fin Some q show ?thesis
      by (auto simp: stops_def cancellation_job_error split: choice.splits if_splits)
  qed
qed

subsection \<open>The whole graph\<close>

lemma dict_set_same: "map_of d k = Some v \<Longrightarrow> dict_set k v d = d"
  by (induction d) (auto simp: dict_set_def split: if_splits)

lemma store_values_same:
  assumes "\<And>t w. (t, w) \<in> set (zip ready ws) \<Longrightarrow> map_of (results s) (t_id t) = Some (worker_value w)"
  shows "store_values ready ws s = s"
proof -
  have "foldl (\<lambda>st (t, w). st\<lparr>results := dict_set (t_id t) (worker_value w) (results st)\<rparr>) s xs = s"
    if "\<And>t w. (t, w) \<in> set xs \<Longrightarrow> map_of (results s) (t_id t) = Some (worker_value w)" for xs
    using that by (induction xs) (auto simp: dict_set_same)
  from this [of "zip ready ws"] assms show ?thesis by (simp only: store_values_def)
qed

text \<open>A task is done: its result is there and passes its checks on the inputs it was given.\<close>

definition task_done :: "sources \<Rightarrow> (string, pyval) dict \<Rightarrow> task \<Rightarrow> bool" where
  "task_done sources r t \<longleftrightarrow> (\<exists>v ins. map_of r (t_id t) = Some v
     \<and> collect_inputs sources r (t_input_refs t) [] = Inr ins \<and> validate_result (t_result_type t) v ins = Inr ())"

lemma task_done_extend:
  assumes "task_done sources r t" "\<And>k. k \<in> insert (t_id t) (set (t_depends_on t)) \<Longrightarrow> map_of r' k = map_of r k"
    and "\<forall>ref \<in> set (t_input_refs t). ref_ok sources t ref"
  shows "task_done sources r' t"
  using assms(1) collect_inputs_cong [OF assms(3), of r' r "[]"] assms(2) by (auto simp: task_done_def)

definition graph_state :: "sources \<Rightarrow> task list \<Rightarrow> task list \<Rightarrow> run_state \<Rightarrow> bool" where
  "graph_state sources tasks pending s \<longleftrightarrow>
     graph_ok tasks \<and> (\<forall>t \<in> set tasks. \<forall>ref \<in> set (t_input_refs t). ref_ok sources t ref)
     \<and> set pending \<subseteq> set tasks \<and> distinct (map t_id pending)
     \<and> set (dict_keys (results s)) = t_id ` (set tasks - set pending)
     \<and> (\<forall>t \<in> set tasks - set pending. task_done sources (results s) t \<and> set (t_depends_on t) \<subseteq> set (dict_keys (results s)))
     \<and> 0 < slots s"

lemma graph_state_ready:
  assumes "graph_state sources tasks pending s" "pending \<noteq> []"
  shows "ready_tasks pending s \<noteq> []"
proof -
  have g: "graph_ok tasks" "set pending \<subseteq> set tasks" "set (dict_keys (results s)) = t_id ` (set tasks - set pending)"
    using assms(1) by (auto simp: graph_state_def)
  have dist: "distinct (map t_id tasks)" using g(1) by (simp add: graph_ok_def)
  obtain p where p: "p \<in> set pending" using assms(2) by (cases pending) auto
  then have "t_id p \<notin> set (dict_keys (results s))" using g dist by (auto dest: same_task)
  moreover have "t_id p \<in> t_id ` set tasks" using p g(2) by auto
  ultimately have "\<not> t_id ` set tasks \<subseteq> set (dict_keys (results s))" by blast
  then have "ready_ids tasks (dict_keys (results s)) \<noteq> []"
    using g by (intro ready_exists) auto
  then obtain i where "i \<in> set (ready_ids tasks (dict_keys (results s)))" by (cases "ready_ids tasks (dict_keys (results s))") auto
  then obtain t where t: "t \<in> set tasks" "t_id t \<notin> set (dict_keys (results s))" "set (t_depends_on t) \<subseteq> set (dict_keys (results s))"
    unfolding ready_ids_iff by blast
  then have "t \<in> set pending" using g(3) by (auto simp: image_iff)
  with t(3) have "t \<in> set (ready_tasks pending s)" by (simp add: ready_tasks_def)
  then show ?thesis by auto
qed


lemma pending_tasks_valid: "distinct (map t_id (p_tasks p)) \<Longrightarrow> pending_tasks p = p_tasks p"
proof -
  have "map snd (foldl (\<lambda>d t. dict_set (t_id t) t d) d ts) = map snd d @ ts"
    if "distinct (map t_id ts)" "\<And>t. t \<in> set ts \<Longrightarrow> map_of d (t_id t) = None" for d ts
    using that
  proof (induction ts arbitrary: d)
    case (Cons t ts)
    then have "dict_set (t_id t) t d = d @ [(t_id t, t)]" by (intro dict_set_fresh) auto
    moreover have "map_of (d @ [(t_id t, t)]) (t_id u) = None" if "u \<in> set ts" for u
      using Cons.prems that by (auto simp: map_add_def split: option.splits if_splits) (metis image_eqI)
    ultimately show ?case using Cons.IH [of "d @ [(t_id t, t)]"] Cons.prems(1) by simp
  qed simp
  from this [of "p_tasks p" "[]"] show "distinct (map t_id (p_tasks p)) \<Longrightarrow> pending_tasks p = p_tasks p"
    by (simp add: pending_tasks_def)
qed

lemma batch_ready_ok:
  assumes g: "graph_state sources tasks pending s"
  shows "batch_tasks_ok sources (results s) (ready_tasks pending s)"
proof -
  have gr: "graph_ok tasks" "\<forall>t \<in> set tasks. \<forall>ref \<in> set (t_input_refs t). ref_ok sources t ref" "set pending \<subseteq> set tasks"
    "distinct (map t_id pending)" "set (dict_keys (results s)) = t_id ` (set tasks - set pending)"
    using g by (auto simp: graph_state_def)
  have sub: "set (ready_tasks pending s) \<subseteq> set pending" by (auto simp: ready_tasks_def)
  have "distinct (map t_id tasks)" using gr(1) by (simp add: graph_ok_def)
  then have fresh: "t_id t \<notin> set (dict_keys (results s))" if "t \<in> set pending" for t
    using that gr by (auto dest: same_task)
  have "set (t_depends_on t) \<inter> t_id ` set (ready_tasks pending s) = {}" if "t \<in> set (ready_tasks pending s)" for t
  proof -
    have "set (t_depends_on t) \<subseteq> set (dict_keys (results s))" using that by (simp add: ready_tasks_def)
    then show ?thesis using fresh sub by fastforce
  qed
  then show ?thesis using gr(2,3,4) sub by (auto simp: batch_tasks_ok_def ready_tasks_def distinct_map_filter)
qed

text \<open>One round: the tasks that are ready run, and afterwards they are done.\<close>

lemma batch_advances:
  assumes g: "graph_state sources tasks pending s"
    and run: "run_batch env goal sources sched None (map new_worker (ready_tasks pending s)) s = (None, ws, s')"
  shows "store_values (ready_tasks pending s) ws s' = s'"
    "graph_state sources tasks (filter (\<lambda>t. t_id t \<notin> set (map t_id (ready_tasks pending s))) pending) s'"
proof -
  let ?ready = "ready_tasks pending s"
  let ?rest = "filter (\<lambda>t. t_id t \<notin> set (map t_id ?ready)) pending"
  have gr: "graph_ok tasks" "\<forall>t \<in> set tasks. \<forall>ref \<in> set (t_input_refs t). ref_ok sources t ref" "set pending \<subseteq> set tasks"
    "distinct (map t_id pending)" "set (dict_keys (results s)) = t_id ` (set tasks - set pending)" "0 < slots s"
    and old: "\<And>t. t \<in> set tasks - set pending \<Longrightarrow> task_done sources (results s) t \<and> set (t_depends_on t) \<subseteq> set (dict_keys (results s))"
    using g unfolding graph_state_def by blast+
  have sub: "set ?ready \<subseteq> set pending" by (auto simp: ready_tasks_def)
  have dist: "distinct (map t_id tasks)" using gr(1) by (simp add: graph_ok_def)
  have fresh: "t_id t \<notin> set (dict_keys (results s))" if "t \<in> set pending" for t
    using that gr dist by (auto dest: same_task)
  have deps: "set (t_depends_on t) \<subseteq> set (dict_keys (results s))" if "t \<in> set ?ready" for t
    using that by (simp add: ready_tasks_def)
  note bt = batch_ready_ok [OF g]
  have ok: "batch_ok sources (results s) ?ready (ws, s')" and vals: "list_all (\<lambda>w. job_value w \<noteq> None) ws" and sl: "slots s' = slots s"
    using run_batch_outcome [OF run bt gr(6)] by auto
  have ws: "map w_task ws = ?ready" using ok by (simp add: batch_ok_def)
  have value_of: "map_of (results s') (t_id (w_task w)) = Some (worker_value w)" if "w \<in> set ws" for w
  proof -
    have "job_value w \<noteq> None" using vals that by (simp add: list_all_iff)
    then obtain v where v: "job_value w = Some v" by blast
    moreover have "worker_value w = v" using v by (auto simp: worker_value_def job_value_def split: phase.splits sum.splits)
    ultimately show ?thesis using ok that by (auto simp: batch_ok_def)
  qed
  show "store_values ?ready ws s' = s'"
  proof (rule store_values_same)
    fix t w assume "(t, w) \<in> set (zip ?ready ws)"
    then have "w \<in> set ws" "t = w_task w" unfolding ws [symmetric] by (auto simp: zip_map1 zip_same_conv_map)
    then show "map_of (results s') (t_id t) = Some (worker_value w)" using value_of by simp
  qed
  have kept: "map_of (results s') k = map_of (results s) k" if "k \<in> set (dict_keys (results s))" for k
  proof -
    have "\<forall>w \<in> set ws. t_id (w_task w) \<noteq> k" using that fresh sub ws by (metis image_eqI list.set_map subsetD)
    then show ?thesis using ok by (auto simp: batch_ok_def)
  qed
  have keys: "set (dict_keys (results s')) = set (dict_keys (results s)) \<union> t_id ` set ?ready"
  proof -
    have "map_of (results s') k = map_of (results s) k" if "k \<notin> t_id ` set ?ready" for k
    proof -
      have "\<forall>w \<in> set ws. t_id (w_task w) \<noteq> k" using that by (auto simp: ws [symmetric])
      then show ?thesis using ok by (auto simp: batch_ok_def)
    qed
    moreover have "map_of (results s') k \<noteq> None" if "k \<in> t_id ` set ?ready" for k
      using that value_of by (auto simp: ws [symmetric])
    ultimately show ?thesis using kept by (auto simp del: not_None_eq)
  qed
  have rest: "set ?rest = set pending - set ?ready"
    using sub gr(4) by (auto dest: same_task)
  have new: "task_done sources (results s') t" if "t \<in> set ?ready" for t
  proof -
    have "t \<in> w_task ` set ws" using that by (simp flip: ws)
    then obtain w where w: "w \<in> set ws" "w_task w = t" by blast
    have "job_value w \<noteq> None" using vals w(1) by (simp add: list_all_iff)
    then obtain v where v: "job_value w = Some v" by blast
    then have "collect_inputs sources (results s) (t_input_refs t) [] = Inr (w_inputs w)"
      "validate_result (t_result_type t) v (w_inputs w) = Inr ()" "map_of (results s') (t_id t) = Some v"
      using ok w by (auto simp: batch_ok_def job_ok_def job_valid_def job_value_def list_all_iff split: phase.splits sum.splits)
    moreover have "collect_inputs sources (results s') (t_input_refs t) [] = collect_inputs sources (results s) (t_input_refs t) []"
      by (rule collect_inputs_cong [of _ _ t]) (use deps [OF that] that kept gr(2,3) sub in blast)+
    ultimately show ?thesis by (auto simp: task_done_def)
  qed
  have before: "task_done sources (results s') t" if "t \<in> set tasks - set pending" for t
    by (rule task_done_extend [of _ "results s"]) (use old [OF that] kept gr(2,5) that in blast)+
  have all: "task_done sources (results s') t \<and> set (t_depends_on t) \<subseteq> set (dict_keys (results s'))" if "t \<in> set tasks - set ?rest" for t
  proof (cases "t \<in> set ?ready")
    case False
    then have "t \<in> set tasks - set pending" using that rest by blast
    then show ?thesis using old before keys by blast
  qed (use new deps keys in blast)
  have "set tasks - set ?rest = (set tasks - set pending) \<union> set ?ready" using rest sub gr(3) by blast
  then have "set (dict_keys (results s')) = t_id ` (set tasks - set ?rest)" using keys gr(5) by (simp add: image_Un)
  moreover have "set ?rest \<subseteq> set tasks" "distinct (map t_id ?rest)" using rest gr(3,4) by (auto simp: distinct_map_filter)
  ultimately show "graph_state sources tasks ?rest s'"
    unfolding graph_state_def using gr(1,2,6) sl all by simp
qed

lemma run_tasks_graph:
  assumes "graph_state sources tasks pending s" "run_tasks env goal sources sched pending s = (r, s')"
  shows "case r of Inr u \<Rightarrow> graph_state sources tasks [] s' | Inl e \<Rightarrow> job_error e"
  using assms
proof (induction "length pending" arbitrary: pending s rule: less_induct)
  case less
  show ?case
  proof (cases "pending = []")
    case True
    then show ?thesis using less.prems by (auto simp: run_tasks.simps)
  next
    case False
    let ?ready = "ready_tasks pending s"
    let ?rest = "filter (\<lambda>t. t_id t \<notin> set (map t_id ?ready)) pending"
    have ready: "?ready \<noteq> []" using graph_state_ready [OF less.prems(1) False] .
    obtain f ws s1 where b: "run_batch env goal sources sched None (map new_worker ?ready) s = (f, ws, s1)" by (metis prod_cases3)
    show ?thesis
    proof (cases f)
      case None
      note adv = batch_advances [OF less.prems(1) b [unfolded None]]
      have "run_tasks env goal sources sched ?rest s1 = (r, s')"
        using less.prems(2) False ready b None adv(1) by (simp add: run_tasks.simps [of _ _ _ _ pending s])
      with less.hyps [OF ready_shrinks [OF ready] adv(2)] show ?thesis by simp
    next
      case (Some e)
      then have "r = Inl e" using less.prems(2) False ready b by (simp add: run_tasks.simps [of _ _ _ _ pending s])
      moreover have "job_error e"
        using run_batch_outcome [OF b batch_ready_ok [OF less.prems(1)]] less.prems(1) Some by (auto simp: graph_state_def)
      ultimately show ?thesis by simp
    qed
  qed
qed

text \<open>
  C5. A validated plan is carried out. For a plan that \<open>Plan.parse\<close> accepts, a run that starts without
  results, whatever the models answer and however the jobs interleave: when \<open>run_tasks\<close> succeeds, the
  results are exactly one per task, and each passes the checks of its task's result type on the inputs it
  was given, which were the sources and the results of its dependencies; and the graph never gets stuck, the
  error for a plan with no executable task left cannot occur.
\<close>

theorem run_tasks_carries_out_plan:
  assumes "valid_plan sources mt tiers p" "results s = []" "0 < slots s"
  shows "case run_tasks env goal sources sched (pending_tasks p) s of
      (Inr u, s') \<Rightarrow> set (dict_keys (results s')) = t_id ` set (p_tasks p) \<and> list_all (task_done sources (results s')) (p_tasks p)
    | (Inl e, s') \<Rightarrow> e \<noteq> ValidationError ''No executable task remains''"
proof -
  have v: "graph_ok (p_tasks p)" "\<forall>t \<in> set (p_tasks p). \<forall>ref \<in> set (t_input_refs t). ref_ok sources t ref"
    using assms(1) by (auto simp: valid_plan_def)
  then have "pending_tasks p = p_tasks p" by (intro pending_tasks_valid) (simp add: graph_ok_def)
  moreover have "graph_state sources (p_tasks p) (p_tasks p) s"
    using v assms(2,3) by (simp add: graph_state_def graph_ok_def dict_keys_def)
  ultimately show ?thesis
    using run_tasks_graph [of sources "p_tasks p" "p_tasks p" s env goal sched]
    by (auto simp: graph_state_def job_error_def list_all_iff split: prod.splits sum.splits)
qed

definition one_task_plan :: plan where
  "one_task_plan = \<lparr>p_tasks = [\<lparr>t_id = ''a'', t_instruction = ''List the parts'', t_preferred_tier = ''local'',
      t_input_refs = [''sources.R1''], t_depends_on = [], t_result_type = ''task_answer'', t_checks = [''required_fields''],
      t_why = ''short''\<rparr>], p_final_instruction = ''Combine''\<rparr>"

theorem run_tasks_carries_out_plan_witness:
  "case run_tasks offline_env ''g'' [(''R1'', ''text'')] (\<lambda>s ws. Step 0) (pending_tasks one_task_plan) (Run_init offline_env) of
      (Inr u, s') \<Rightarrow> set (dict_keys (results s')) = t_id ` set (p_tasks one_task_plan)
         \<and> list_all (task_done [(''R1'', ''text'')] (results s')) (p_tasks one_task_plan)
    | (Inl e, s') \<Rightarrow> e \<noteq> ValidationError ''No executable task remains''"
proof (rule run_tasks_carries_out_plan [of _ 8 "[''local'', ''cloud'']"])
  have "parse (plan_json one_task_plan) [(''R1'', ''text'')] 8 [''local'', ''cloud''] = Inr one_task_plan" by code_simp
  then show "valid_plan [(''R1'', ''text'')] 8 [''local'', ''cloud''] one_task_plan" by (rule parse_sound)
qed (simp_all add: Run_init_def offline_env_def default_limits_def)

end
