(* ===== verification/Py_Json.thy ===== *)
theory Py_Json
  imports Py_Number
begin

section \<open>Reading JSON\<close>

text \<open>
  \<open>json.loads\<close> as the relay uses it, on text: a reader for one value after another with the text left over.
  Like Python's it accepts \<open>NaN\<close> and the infinities, keeps the last of several equal keys, and reads
  numbers without a fraction or exponent as integers. A \<open>\u\<close> escape beyond the characters of the text model
  reads as the stand-in for a character outside it. The readers recurse on a bound that the length of the text provides: each
  nested value consumes at least one character. A \<open>ValueError\<close> is \<open>None\<close>.
\<close>

definition is_json_space :: "char \<Rightarrow> bool" where
  "is_json_space c \<longleftrightarrow> c = CHR '' '' \<or> c = CHR 0x09 \<or> c = CHR 0x0A \<or> c = CHR 0x0D"

definition skip_space :: "string \<Rightarrow> string" where
  "skip_space s = dropWhile is_json_space s"

definition hex_value :: "char \<Rightarrow> nat option" where
  "hex_value c =
     (let n = (of_char c :: nat)
      in if 48 \<le> n \<and> n \<le> 57 then Some (n - 48)
         else if 65 \<le> n \<and> n \<le> 70 then Some (n - 55)
         else if 97 \<le> n \<and> n \<le> 102 then Some (n - 87) else None)"

definition unicode_char :: "nat \<Rightarrow> char" where
  "unicode_char n = (if n < 256 then char_of n else CHR ''?'')"

definition simple_escape :: "char \<Rightarrow> char option" where
  "simple_escape c =
     (if c = CHR 0x22 \<or> c = CHR 0x5C \<or> c = CHR ''/'' then Some c
      else if c = CHR ''n'' then Some (CHR 0x0A)
      else if c = CHR ''r'' then Some (CHR 0x0D)
      else if c = CHR ''t'' then Some (CHR 0x09)
      else if c = CHR ''b'' then Some (CHR 0x08)
      else if c = CHR ''f'' then Some (CHR 0x0C) else None)"

text \<open>The characters of a string literal after its opening quote; a control character ends the reading with an error.\<close>

fun read_chars :: "string \<Rightarrow> (string \<times> string) option" where
  "read_chars [] = None"
| "read_chars (c # cs) =
     (if c = CHR 0x22 then Some ([], cs)
      else if c = CHR 0x5C then
        (case cs of
           [] \<Rightarrow> None
         | d # ds \<Rightarrow>
             if d = CHR ''u'' then
               (case ds of
                  h1 # h2 # h3 # h4 # rest \<Rightarrow>
                    (case (hex_value h1, hex_value h2, hex_value h3, hex_value h4) of
                       (Some a, Some b, Some e, Some f) \<Rightarrow>
                         map_option (\<lambda>(t, r). (unicode_char (((a * 16 + b) * 16 + e) * 16 + f) # t, r)) (read_chars rest)
                     | _ \<Rightarrow> None)
                | _ \<Rightarrow> None)
             else (case simple_escape d of
                     None \<Rightarrow> None
                   | Some x \<Rightarrow> map_option (\<lambda>(t, r). (x # t, r)) (read_chars ds)))
      else if (of_char c :: nat) < 32 then None
      else map_option (\<lambda>(t, r). (c # t, r)) (read_chars cs))"

text \<open>The pattern \<open>(-?(?:0|[1-9]\d*))(\.\d+)?([eE][-+]?\d+)?\<close>.\<close>

definition json_number :: re where
  "json_number = rseqs
     [RGroup 1 (RSeq (ropt (rlit ''-'')) (RAlt (rlit ''0'') (RSeq (RSat (\<lambda>c. is_digit c \<and> c \<noteq> CHR ''0'')) (RStar (RSat is_digit))))),
      ropt (RGroup 2 (RSeq (rlit ''.'') (rplus (RSat is_digit)))),
      ropt (RGroup 3 (rseqs [RSat (\<lambda>c. c = CHR ''e'' \<or> c = CHR ''E''), ropt (RSat (\<lambda>c. c = CHR ''+'' \<or> c = CHR ''-'')), rplus (RSat is_digit)]))]"

definition read_number :: "string \<Rightarrow> (pyval \<times> string) option" where
  "read_number s =
     (case re_match json_number s of
        None \<Rightarrow> None
      | Some (m, rest, g) \<Rightarrow>
          if group_of g 2 = [] \<and> group_of g 3 = []
          then (case py_int_str m of Inr i \<Rightarrow> Some (PInt i, rest) | Inl _ \<Rightarrow> None)
          else (case py_float_str m of Inr x \<Rightarrow> Some (PFloat x, rest) | Inl _ \<Rightarrow> None))"

text \<open>The constants, and the value each stands for.\<close>

definition json_words :: "(string \<times> pyval) list" where
  "json_words = [(''null'', PNone), (''true'', PBool True), (''false'', PBool False), (''NaN'', PFloat NaN),
     (''Infinity'', PFloat (Infinity False)), (''-Infinity'', PFloat (Infinity True))]"

definition read_word :: "string \<Rightarrow> (pyval \<times> string) option" where
  "read_word s = (case filter (\<lambda>(w, v). prefix w s) json_words of [] \<Rightarrow> None | (w, v) # _ \<Rightarrow> Some (v, drop (length w) s))"

fun read_value :: "nat \<Rightarrow> string \<Rightarrow> (pyval \<times> string) option"
and read_items :: "nat \<Rightarrow> string \<Rightarrow> (pyval list \<times> string) option"
and read_fields :: "nat \<Rightarrow> string \<Rightarrow> pydict \<Rightarrow> (pydict \<times> string) option" where
  "read_value 0 s = None"
| "read_value (Suc n) s =
     (case s of
        [] \<Rightarrow> None
      | c # cs \<Rightarrow>
          if c = CHR 0x22 then map_option (\<lambda>(t, r). (PStr t, r)) (read_chars cs)
          else if c = CHR ''['' then
            (case skip_space cs of
               d # ds \<Rightarrow> if d = CHR '']'' then Some (PList [], ds)
                         else map_option (\<lambda>(vs, r). (PList vs, r)) (read_items n (d # ds))
             | [] \<Rightarrow> None)
          else if c = CHR ''{'' then
            (case skip_space cs of
               d # ds \<Rightarrow> if d = CHR ''}'' then Some (PDict [], ds)
                         else map_option (\<lambda>(fs, r). (PDict fs, r)) (read_fields n (d # ds) [])
             | [] \<Rightarrow> None)
          else (case read_word s of Some x \<Rightarrow> Some x | None \<Rightarrow> read_number s))"
| "read_items 0 s = None"
| "read_items (Suc n) s =
     (case read_value n s of
        None \<Rightarrow> None
      | Some (v, r) \<Rightarrow>
          (case skip_space r of
             [] \<Rightarrow> None
           | c # cs \<Rightarrow> if c = CHR '']'' then Some ([v], cs)
                       else if c = CHR '','' then map_option (\<lambda>(vs, r'). (v # vs, r')) (read_items n (skip_space cs))
                       else None))"
| "read_fields 0 s d = None"
| "read_fields (Suc n) s d =
     (case s of
        [] \<Rightarrow> None
      | q # qs \<Rightarrow>
          if q \<noteq> CHR 0x22 then None
          else (case read_chars qs of
                  None \<Rightarrow> None
                | Some (key, r) \<Rightarrow>
                    (case skip_space r of
                       [] \<Rightarrow> None
                     | colon # after_colon \<Rightarrow>
                         if colon \<noteq> CHR '':'' then None
                         else (case read_value n (skip_space after_colon) of
                                 None \<Rightarrow> None
                               | Some (v, r2) \<Rightarrow>
                                   (case skip_space r2 of
                                      [] \<Rightarrow> None
                                    | c # cs \<Rightarrow>
                                        if c = CHR ''}'' then Some (dict_set key v d, cs)
                                        else if c = CHR '','' then read_fields n (skip_space cs) (dict_set key v d)
                                        else None)))))"

definition json_loads :: "string \<Rightarrow> pyval option" where
  "json_loads s =
     (let t = skip_space s
      in case read_value (length t + 1) t of
           Some (v, r) \<Rightarrow> if skip_space r = [] then Some v else None
         | None \<Rightarrow> None)"

subsection \<open>Text comes back\<close>

lemma hex_value_digit: "n < 16 \<Longrightarrow> hex_value (hex_digit n) = Some n"
  by (simp add: hex_value_def hex_digit_def Let_def)

lemma char_by_code: "(of_char c :: nat) = of_char d \<Longrightarrow> c = d"
  by simp

lemma read_chars_json_char: "read_chars (json_char c @ s) = map_option (\<lambda>(t, r). (c # t, r)) (read_chars s)"
proof -
  let ?n = "of_char c :: nat"
  have n: "?n < 256" by (metis mod_less_divisor of_char_mod_256 zero_less_numeral)
  show ?thesis
  proof (cases "?n < 32 \<and> ?n \<notin> {8, 9, 10, 12, 13}")
    case True
    then have d: "hex_value (hex_digit (?n div 16)) = Some (?n div 16)" "hex_value (hex_digit (?n mod 16)) = Some (?n mod 16)"
      by (auto intro!: hex_value_digit)
    have zero: "hex_value (CHR ''0'') = Some 0" by code_simp
    have "json_char c = [CHR 0x5C, CHR ''u'', CHR ''0'', CHR ''0'', hex_digit (?n div 16), hex_digit (?n mod 16)]"
      using True by (auto simp: json_char_def hex2_def Let_def)
    moreover have "unicode_char (?n div 16 * 16 + ?n mod 16) = c" using n by (simp add: unicode_char_def)
    ultimately show ?thesis using d zero by (simp add: simple_escape_def)
  next
    case False
    note no_control = this
    have esc: "c = CHR 0x0A" if "?n = 10" using that by (intro char_by_code) simp
    have esc2: "c = CHR 0x0D" if "?n = 13" using that by (intro char_by_code) simp
    have esc3: "c = CHR 0x09" if "?n = 9" using that by (intro char_by_code) simp
    have esc4: "c = CHR 0x08" if "?n = 8" using that by (intro char_by_code) simp
    have esc5: "c = CHR 0x0C" if "?n = 12" using that by (intro char_by_code) simp
    have esc6: "c = CHR 0x22" if "?n = 34" using that by (intro char_by_code) simp
    have esc7: "c = CHR 0x5C" if "?n = 92" using that by (intro char_by_code) simp
    have plain: "c \<noteq> CHR 0x22" "c \<noteq> CHR 0x5C" if "?n \<noteq> 34" "?n \<noteq> 92" using that by auto
    show ?thesis
    proof (cases "?n \<in> {8, 9, 10, 12, 13, 34, 92}")
      case True
      then have "c \<in> {CHR 0x08, CHR 0x09, CHR 0x0A, CHR 0x0C, CHR 0x0D, CHR 0x22, CHR 0x5C}"
        using esc esc2 esc3 esc4 esc5 esc6 esc7 by blast
      then show ?thesis by (auto simp: json_char_def simple_escape_def)
    next
      case False
      then have "json_char c = [c]" using no_control by (auto simp: json_char_def Let_def)
      then show ?thesis using plain no_control False by auto
    qed
  qed
qed

lemma read_chars_json_text: "read_chars (concat (map json_char t) @ CHR 0x22 # s) = Some (t, s)"
  by (induction t) (simp_all add: read_chars_json_char)

text \<open>
  A text written by \<open>json.dumps\<close> reads back as itself, whatever characters it holds: quotes, backslashes
  and control characters in a source or an answer survive the way into a prompt's JSON and out of it.
\<close>

theorem json_text_roundtrip: "json_loads (json_dumps (PStr t)) = Some (PStr t)"
proof -
  have "skip_space (json_text t) = json_text t" by (simp add: skip_space_def json_text_def is_json_space_def)
  then show ?thesis
    using read_chars_json_text [of t "[]"]
    by (simp add: json_loads_def Let_def json_text_def skip_space_def)
qed

end
