(* ===== verification/Relay_OpenAI.thy ===== *)
theory Relay_OpenAI
  imports Relay_Prompts Relay_Settings Py_Json
begin

section \<open>The Chat Completions client (providers/openai\_compatible.py)\<close>

text \<open>
  The client builds one HTTP request per call and turns the server's answer into a \<^typ>\<open>reply\<close>. The server
  is a parameter: what it sends back is a value of \<open>http_answer\<close>. An \<open>AttributeError\<close> is \<open>OtherError\<close>.
\<close>

datatype http_answer =
    HttpTimeout
  | HttpFailure
  | Response nat "string option"
  | Streamed nat "string list" bool

text \<open>
  \<open>HttpTimeout\<close> and \<open>HttpFailure\<close> are \<open>httpx.TimeoutException\<close> and the other \<open>httpx.HTTPError\<close>s.
  \<open>Response status body\<close> is a complete answer (\<open>None\<close>: a body that is not text). \<open>Streamed status lines broken\<close>
  is an answer read line by line; when \<open>broken\<close> the connection times out after those lines.
\<close>

subsection \<open>Small readers\<close>

text \<open>\<open>v.get(k)\<close>.\<close>

definition get_of :: "pyval \<Rightarrow> string \<Rightarrow> pyval res" where
  "get_of v k = (case v of PDict d \<Rightarrow> Inr (field d k) | _ \<Rightarrow> Inl OtherError)"

text \<open>\<open>v or {}\<close> followed by \<open>.get(k)\<close>.\<close>

definition get_or_empty :: "pyval \<Rightarrow> string \<Rightarrow> pyval res" where
  "get_or_empty v k = get_of (or_val v (PDict [])) k"

definition is_named_gpu :: "pyval \<Rightarrow> bool" where
  "is_named_gpu g = (case g of PDict d \<Rightarrow> is_str (field d ''name'') | _ \<Rightarrow> False)"

definition gpu_field :: "pyval \<Rightarrow> string \<Rightarrow> pyval" where
  "gpu_field g k = (case g of PDict d \<Rightarrow> field d k | _ \<Rightarrow> PNone)"

text \<open>The pattern \<open>^(NVIDIA\s+)?(GeForce\s+)?\<close>.\<close>

definition vendor_pattern :: re where
  "vendor_pattern = rseqs [RStart, ropt (RSeq (rlit ''NVIDIA'') (rplus (RSat is_space))),
     ropt (RSeq (rlit ''GeForce'') (rplus (RSat is_space)))]"

definition describe_device :: "pyval \<Rightarrow> bool \<Rightarrow> string res" where
  "describe_device device show_index =
     (case device of
        PDict d \<Rightarrow>
          if field d ''kind'' = PStr ''cpu'' then Inr ''CPU''
          else bindE (iterate (dict_get_or d ''gpus'' (PList []))) (\<lambda>all.
            let gpus = filter is_named_gpu all;
                names = map (\<lambda>g. strip (re_sub vendor_pattern [] (the_str (gpu_field g ''name'')))) gpus
            in case names of
                 [] \<Rightarrow> Inr []
               | n # _ \<Rightarrow>
                   let same = (card (set names) = 1);
                       one = (if same then n else join '' + '' names);
                       many = (if length names > 1 \<and> same then show_nat (length names) @ ch_times @ '' '' @ one else one)
                   in Inr (if show_index
                           then ''GPU '' @ join ''+'' (map (\<lambda>g. py_str (gpu_field g ''index'')) gpus) @ '' '' @ ch_middot @ '' '' @ many
                           else many))
      | _ \<Rightarrow> Inr [])"

subsection \<open>The provider\<close>

type_synonym endpoints = "(string, endpoint) dict"

definition OpenAI_endpoints :: "endpoint \<Rightarrow> endpoint \<Rightarrow> endpoint option \<Rightarrow> endpoints" where
  "OpenAI_endpoints local cloud mid =
     [(''local'', local)] @ (case mid of None \<Rightarrow> [] | Some m \<Rightarrow> [(''mid'', m)]) @ [(''cloud'', cloud)]"

definition OpenAI_models :: "endpoints \<Rightarrow> (string, string) dict" where
  "OpenAI_models eps = map (\<lambda>(tier, e). (tier, ep_model e)) eps"

text \<open>\<open>urlparse(url).hostname\<close>: the authority without user and port, in lower case.\<close>

definition hostname :: "string \<Rightarrow> string" where
  "hostname url =
     (case re_split1 (rlit ''//'') url of
        [pre, post] \<Rightarrow>
          let authority = takeWhile (\<lambda>c. c \<notin> {CHR ''/'', CHR ''?'', CHR ''#''}) post;
              host = rev (takeWhile (\<lambda>c. c \<noteq> CHR ''@'') (rev authority))
          in lower (case host of
                      c # cs \<Rightarrow> if c = CHR ''['' then takeWhile (\<lambda>c. c \<noteq> CHR '']'') cs else takeWhile (\<lambda>c. c \<noteq> CHR '':'') host
                    | [] \<Rightarrow> [])
      | _ \<Rightarrow> [])"

text \<open>The pattern \<open>/v1/?$\<close>.\<close>

definition server_base :: "string \<Rightarrow> string" where
  "server_base url = re_sub (rseqs [rlit ''/v1'', ropt (rlit ''/''), REnd]) [] (rstrip_chars ''/'' url)"

text \<open>
  The loop of \<open>locations\<close> over the endpoints, with the process-wide cache \<open>_devices\<close>; \<open>device_json base\<close> is the
  dictionary a reachable server returns.
\<close>

fun find_devices :: "(string \<Rightarrow> pydict option) \<Rightarrow> endpoints \<Rightarrow> (string, pydict) dict \<Rightarrow> (string, pyval) dict \<times> (string, pydict) dict" where
  "find_devices device_json [] cache = ([], cache)"
| "find_devices device_json ((tier, e) # eps) cache =
     (if ep_location e \<noteq> [] \<or> tier = ''cloud'' then find_devices device_json eps cache
      else
        let base = server_base (ep_url e);
            cache' = (if map_of cache base \<noteq> None then cache
                      else case device_json base of None \<Rightarrow> cache | Some d \<Rightarrow> dict_set base d cache);
            entry = (case map_of cache' base of None \<Rightarrow> PNone | Some d \<Rightarrow> PDict d)
        in case find_devices device_json eps cache' of (found, cache'') \<Rightarrow> ((tier, entry) # found, cache''))"

text \<open>The indexes of a server's GPUs, which are integers; \<open>None\<close> for a server that reports none.\<close>

definition gpu_indexes :: "pyval \<Rightarrow> pyval list option res" where
  "gpu_indexes device =
     (case device of
        PDict d \<Rightarrow>
          if field d ''kind'' = PStr ''gpu''
          then bindE (iterate (dict_get_or d ''gpus'' (PList []))) (\<lambda>gs.
               Inr (Some (map (\<lambda>g. gpu_field g ''index'') (filter (\<lambda>g. case g of PDict _ \<Rightarrow> True | _ \<Rightarrow> False) gs))))
          else Inr None
      | _ \<Rightarrow> Inr None)"

definition provider_locations :: "(string \<Rightarrow> pydict option) \<Rightarrow> endpoints \<Rightarrow> (string, pydict) dict \<Rightarrow> (string, string) dict res \<times> (string, pydict) dict" where
  "provider_locations device_json eps cache =
     (case find_devices device_json eps cache of
        (found, cache') \<Rightarrow>
          (bindE (mapE (\<lambda>(tier, d). gpu_indexes d) found) (\<lambda>reported.
           let sets = concat (map (\<lambda>r. case r of None \<Rightarrow> [] | Some s \<Rightarrow> [s]) reported);
               show_index = (card (set sets) > 1 \<or> list_ex (\<lambda>s. length s > 1 \<or> list_ex (\<lambda>i. i \<noteq> PInt 0) s) sets)
           in mapE (\<lambda>(tier, e).
                if ep_location e \<noteq> [] then Inr (tier, ep_location e)
                else if tier = ''cloud'' then Inr (tier, hostname (ep_url e))
                else bindE (describe_device (dict_get_or found tier PNone) show_index) (\<lambda>s. Inr (tier, s))) eps), cache'))"

subsection \<open>The request\<close>

definition max_tokens :: "string \<Rightarrow> operation \<Rightarrow> int" where
  "max_tokens tier oper =
     (if tier = ''cloud'' then (if oper = Work then 8192 else 16384) else if tier = ''mid'' then 4096 else 2048)"

definition structured :: "operation \<Rightarrow> bool" where
  "structured oper \<longleftrightarrow> oper \<in> {Attempt, PlanOp, Work, Solve, Critique}"

definition build_request :: "endpoint \<Rightarrow> string \<Rightarrow> operation \<Rightarrow> pydict \<Rightarrow> bool \<Rightarrow> pydict res" where
  "build_request e tier oper payload streaming =
     bindE (messages oper payload) (\<lambda>msgs.
     Inr ([(''model'', PStr (ep_model e)), (''messages'', PList msgs), (''max_tokens'', PInt (max_tokens tier oper)),
           (''temperature'', dict_get_or payload ''temperature'' (PFloat (Fin 0.2))), (''stream'', PBool streaming)]
          @ (if streaming then [(''stream_options'', PDict [(''include_usage'', PBool True)])] else [])
          @ (if ep_reasoning_effort e \<noteq> [] then [(''chat_template_kwargs'', PDict [(''reasoning_effort'', PStr (ep_reasoning_effort e))])] else [])
          @ (if tier \<noteq> ''cloud'' \<and> structured oper then [(''response_format'', PDict [(''type'', PStr ''json_object'')])] else [])
          @ (if tier \<noteq> ''cloud'' \<and> oper = Solve then [(''logprobs'', PBool True), (''top_logprobs'', PInt 3)] else [])))"

definition build_headers :: "endpoint \<Rightarrow> (string, string) dict" where
  "build_headers e = [(''Content-Type'', ''application/json'')]
     @ (if ep_key e \<noteq> [] then [(''Authorization'', ''Bearer '' @ ep_key e)] else [])"

definition build_url :: "endpoint \<Rightarrow> string" where
  "build_url e = rstrip_chars ''/'' (ep_url e) @ ''/chat/completions''"

subsection \<open>The answer\<close>

text \<open>\<open>v[k]\<close> as the reader of a completion uses it, on a dictionary with a text key or a list with index 0.\<close>

definition subscript :: "pyval \<Rightarrow> string \<Rightarrow> pyval res" where
  "subscript v k = (case v of PDict d \<Rightarrow> item d k | _ \<Rightarrow> Inl TypeError)"

definition first_of :: "pyval \<Rightarrow> pyval res" where
  "first_of v = (case v of
       PList vs \<Rightarrow> (case vs of [] \<Rightarrow> Inl IndexError | x # _ \<Rightarrow> Inr x)
     | PStr s \<Rightarrow> (case s of [] \<Rightarrow> Inl IndexError | c # _ \<Rightarrow> Inr (PStr [c]))
     | PDict d \<Rightarrow> Inl KeyError
     | _ \<Rightarrow> Inl TypeError)"

text \<open>A finite log-probability; other numbers are outside the model of the token statistics and count as malformed.\<close>

definition logprob :: "pyval \<Rightarrow> real res" where
  "logprob v = bindE (py_float v) (\<lambda>x. case x of Fin r \<Rightarrow> Inr r | _ \<Rightarrow> Inl (ValueError ''not finite''))"

definition read_alternative :: "pyval \<Rightarrow> (string \<times> real) res" where
  "read_alternative a =
     bindE (subscript a ''token'') (\<lambda>t. bindE (subscript a ''logprob'') (\<lambda>lp. bindE (logprob lp) (\<lambda>r. Inr (py_str t, r))))"

definition read_token :: "pyval \<Rightarrow> token res" where
  "read_token t =
     bindE (subscript t ''token'') (\<lambda>tok.
     bindE (bindE (subscript t ''logprob'') logprob) (\<lambda>lp.
     bindE (get_of t ''top_logprobs'') (\<lambda>top.
     bindE (iterate (or_val top (PList []))) (\<lambda>alts.
     bindE (mapE read_alternative alts) (\<lambda>tops.
     Inr \<lparr>tk_t = py_str tok, tk_lp = lp, tk_top = tops\<rparr>)))))"

text \<open>Whether \<open>except (AttributeError, KeyError, TypeError, ValueError)\<close> catches.\<close>

definition malformed :: "exn \<Rightarrow> bool" where
  "malformed e \<longleftrightarrow> e = OtherError \<or> e = KeyError \<or> e = TypeError \<or> (\<exists>m. e = ValueError m)"

definition token_logprobs :: "pyval \<Rightarrow> token list option res" where
  "token_logprobs choice =
     (case bindE (get_of choice ''logprobs'') (\<lambda>lp.
           bindE (get_or_empty lp ''content'') (\<lambda>content.
           if \<not> truthy content then Inr None
           else bindE (iterate content) (\<lambda>ts. bindE (mapE read_token ts) (\<lambda>tokens. Inr (Some tokens))))) of
        Inr r \<Rightarrow> Inr r
      | Inl e \<Rightarrow> if malformed e then Inr None else Inl e)"

text \<open>The five parts of a completion: content, reasoning, token log-probabilities, finish reason, usage.\<close>

record completion =
  c_content :: pyval
  c_reasoning :: pyval
  c_tokens :: "token list option"
  c_finish :: pyval
  c_usage :: pydict

fun as_dict :: "pyval \<Rightarrow> pydict" where
  "as_dict (PDict d) = d"
| "as_dict _ = []"

definition invalid_completion :: "string \<Rightarrow> exn" where
  "invalid_completion tier = RelayError (title tier @ '' endpoint returned an invalid completion'')"

text \<open>
  \<open>_read_response\<close>. The \<open>except\<close> clause does not name \<open>AttributeError\<close>, so a message that is not a dictionary
  goes on as \<open>OtherError\<close>.
\<close>

definition read_response :: "string option \<Rightarrow> string \<Rightarrow> completion res" where
  "read_response body tier =
     (case (case body of None \<Rightarrow> None | Some b \<Rightarrow> json_loads b) of
        None \<Rightarrow> Inl (invalid_completion tier)
      | Some data \<Rightarrow>
          (case bindE (bindE (subscript data ''choices'') first_of) (\<lambda>choice.
                bindE (subscript choice ''message'') (\<lambda>message.
                bindE (get_of data ''usage'') (\<lambda>usage.
                bindE (get_of message ''content'') (\<lambda>content.
                bindE (get_of message ''reasoning_content'') (\<lambda>reasoning.
                bindE (token_logprobs choice) (\<lambda>tokens.
                bindE (get_of choice ''finish_reason'') (\<lambda>finish.
                Inr \<lparr>c_content = content, c_reasoning = or_val reasoning (PStr []), c_tokens = tokens,
                     c_finish = finish, c_usage = as_dict usage\<rparr>))))))) of
             Inr c \<Rightarrow> Inr c
           | Inl e \<Rightarrow> if e = KeyError \<or> e = IndexError \<or> e = TypeError \<or> (\<exists>m. e = ValueError m)
                      then Inl (invalid_completion tier) else Inl e))"

subsection \<open>Streaming\<close>

text \<open>The pattern \<open></ifm\|think(?:_[a-z]+)?>\<close>.\<close>

definition think_marker :: re where
  "think_marker = rseqs [rlit ''</ifm|think'', ropt (RSeq (rlit ''_'') (rplus (RSat is_lower_az))), rlit ''>'']"

text \<open>What \<open>_read_stream\<close> has assembled, and what it has passed to \<open>on_delta\<close>.\<close>

record stream_state =
  st_content :: string
  st_reasoning :: string
  st_tokens :: "pyval list"
  st_finish :: pyval
  st_usage :: pydict
  st_thinking :: bool
  st_deltas :: "(string \<times> string) list"

definition stream_start :: stream_state where
  "stream_start = \<lparr>st_content = [], st_reasoning = [], st_tokens = [], st_finish = PNone, st_usage = [],
                   st_thinking = True, st_deltas = []\<rparr>"

definition deliver :: "string \<Rightarrow> string \<Rightarrow> stream_state \<Rightarrow> stream_state" where
  "deliver txt kind st = st\<lparr>st_deltas := st_deltas st @ [(txt, kind)]\<rparr>"

text \<open>A chunk of content; the marker may arrive in the middle of it.\<close>

definition take_content :: "string \<Rightarrow> stream_state \<Rightarrow> stream_state" where
  "take_content txt st0 =
     (let st = st0\<lparr>st_content := st_content st0 @ txt\<rparr>
      in if \<not> st_thinking st then deliver txt ''output'' st
         else (case re_search think_marker (st_content st) of
                 None \<Rightarrow> deliver txt ''thinking'' st
               | Some (pre, m, tail, g) \<Rightarrow>
                   let head = take (length txt - length tail - length m) txt;
                       st1 = st\<lparr>st_thinking := False\<rparr>;
                       st2 = (if strip head \<noteq> [] then deliver head ''thinking'' st1 else st1)
                   in if tail \<noteq> [] then deliver tail ''output'' st2 else st2))"

definition take_reasoning :: "pyval \<Rightarrow> stream_state \<Rightarrow> stream_state" where
  "take_reasoning v st =
     (case v of
        PStr r \<Rightarrow> if r = [] then st else deliver r ''thinking'' (st\<lparr>st_reasoning := st_reasoning st @ r\<rparr>)
      | _ \<Rightarrow> st)"

definition take_text :: "pyval \<Rightarrow> stream_state \<Rightarrow> stream_state" where
  "take_text v st = (case v of PStr t \<Rightarrow> if t = [] then st else take_content t st | _ \<Rightarrow> st)"

definition take_usage :: "pyval \<Rightarrow> stream_state \<Rightarrow> stream_state" where
  "take_usage v st = (case v of PDict d \<Rightarrow> st\<lparr>st_usage := d\<rparr> | _ \<Rightarrow> st)"

definition take_choice :: "pyval \<Rightarrow> stream_state \<Rightarrow> stream_state res" where
  "take_choice choice st =
     bindE (get_of choice ''delta'') (\<lambda>d0.
     let delta = or_val d0 (PDict [])
     in bindE (get_of choice ''finish_reason'') (\<lambda>fin.
        bindE (get_of choice ''logprobs'') (\<lambda>lp.
        bindE (get_or_empty lp ''content'') (\<lambda>toks.
        bindE (iterate (or_val toks (PList []))) (\<lambda>ts.
        let st1 = st\<lparr>st_finish := or_val fin (st_finish st), st_tokens := st_tokens st @ ts\<rparr>
        in bindE (get_of delta ''reasoning_content'') (\<lambda>r.
           bindE (get_of delta ''content'') (\<lambda>c.
           Inr (take_text c (take_reasoning r st1)))))))))"

fun take_choices :: "pyval list \<Rightarrow> stream_state \<Rightarrow> stream_state res" where
  "take_choices [] st = Inr st"
| "take_choices (c # cs) st = bindE (take_choice c st) (take_choices cs)"

text \<open>One line of the stream: \<open>Inr None\<close> ends it.\<close>

definition take_line :: "string \<Rightarrow> stream_state \<Rightarrow> stream_state option res" where
  "take_line line st =
     (if \<not> prefix ''data:'' line then Inr (Some st)
      else let chunk = strip (drop 5 line)
           in if chunk = ''[DONE]'' then Inr None
              else (case json_loads chunk of
                      None \<Rightarrow> Inr (Some st)
                    | Some event \<Rightarrow>
                        bindE (get_of event ''usage'') (\<lambda>u.
                        bindE (get_of event ''choices'') (\<lambda>cs.
                        bindE (iterate (or_val cs (PList []))) (\<lambda>choices.
                        bindE (take_choices choices (take_usage u st)) (\<lambda>st2. Inr (Some st2)))))))"

text \<open>The lines in order; the second part says whether \<open>[DONE]\<close> ended the loop.\<close>

fun take_lines :: "string list \<Rightarrow> stream_state \<Rightarrow> (stream_state \<times> bool) res" where
  "take_lines [] st = Inr (st, False)"
| "take_lines (l # ls) st =
     bindE (take_line l st) (\<lambda>r. case r of None \<Rightarrow> Inr (st, True) | Some st' \<Rightarrow> take_lines ls st')"

definition http_error :: "string \<Rightarrow> nat \<Rightarrow> exn" where
  "http_error tier status =
     RelayError (title tier @ '' model returned HTTP '' @ show_nat status @ ''; check endpoint configuration'')"

definition timed_out :: "string \<Rightarrow> exn" where
  "timed_out tier = RelayError (title tier @ '' model timed out'')"

definition cannot_connect :: "string \<Rightarrow> exn" where
  "cannot_connect tier = RelayError (''Cannot connect to the '' @ tier @ '' model endpoint'')"

definition read_stream :: "nat \<Rightarrow> string list \<Rightarrow> bool \<Rightarrow> string \<Rightarrow> completion res" where
  "read_stream status ls broken tier =
     (if status \<noteq> 200 then Inl (http_error tier status)
      else bindE (take_lines ls stream_start) (\<lambda>(st, ended).
           if broken \<and> \<not> ended then Inl (timed_out tier)
           else bindE (token_logprobs (PDict [(''logprobs'', PDict [(''content'', PList (st_tokens st))])])) (\<lambda>tokens.
             Inr \<lparr>c_content = PStr (st_content st), c_reasoning = PStr (st_reasoning st), c_tokens = tokens, c_finish = st_finish st,
                  c_usage = st_usage st\<rparr>)))"

subsection \<open>One call\<close>

text \<open>The pattern \<open>\s*<think>(.*?)</think>\s*\<close>.\<close>

definition think_block :: re where
  "think_block = rseqs [rspaces, rlit ''<think>'', RGroup 1 (RLazy rany), rlit ''</think>'', rspaces]"

definition split_thinking :: "string \<Rightarrow> string \<Rightarrow> string \<times> string" where
  "split_thinking content reasoning =
     (let (thinking1, content1) =
            (case re_match think_block content of
               Some (m, rest, g) \<Rightarrow> (strip (reasoning @ newline @ group_of g 1), rest)
             | None \<Rightarrow> (reasoning, content));
          (thinking2, content2) =
            (case re_split1 think_marker content1 of
               [a, b] \<Rightarrow> (strip (thinking1 @ newline @ a), b)
             | _ \<Rightarrow> (thinking1, content1))
      in (strip thinking2, strip content2))"

text \<open>The pattern \<open>^```(?:json)?\s*|\s*```$\<close>.\<close>

definition fence_pattern :: re where
  "fence_pattern = RAlt (rseqs [RStart, rlit ''```'', ropt (rlit ''json''), rspaces]) (rseqs [rspaces, rlit ''```'', REnd])"

definition token_count :: "pydict \<Rightarrow> string \<Rightarrow> int option" where
  "token_count usage name = (case field usage name of PInt i \<Rightarrow> if i \<ge> 0 then Some i else None | _ \<Rightarrow> None)"

definition finish_reply :: "endpoint \<Rightarrow> string \<Rightarrow> operation \<Rightarrow> completion \<Rightarrow> reply res" where
  "finish_reply e tier oper c =
     (case c_content c of
        PStr text0 \<Rightarrow>
          if strip text0 = [] \<or> c_finish c = PStr ''length''
          then Inl (RelayError (title tier @ '' response was empty or reached its token limit''))
          else (case c_reasoning c of
                  PStr reasoning \<Rightarrow>
                    (case split_thinking text0 reasoning of
                       (thinking, content) \<Rightarrow>
                         let v = (if structured oper
                                  then (case json_loads (strip (re_sub fence_pattern [] content)) of Some j \<Rightarrow> j | None \<Rightarrow> PStr content)
                                  else PStr content)
                         in Inr \<lparr>rp_value = v, rp_model = ep_model e, rp_prompt_tokens = token_count (c_usage c) ''prompt_tokens'',
                                 rp_completion_tokens = token_count (c_usage c) ''completion_tokens'', rp_tokens = c_tokens c,
                                 rp_thinking = thinking, rp_text = content\<rparr>)
                | _ \<Rightarrow> Inl OtherError)
      | _ \<Rightarrow> Inl (RelayError (title tier @ '' response was empty or reached its token limit'')))"

text \<open>
  \<open>complete\<close>: the checks before the call, the request, the server's answer to it, the reply. \<open>server url headers
  request\<close> is what the server does with a request.
\<close>

type_synonym server = "string \<Rightarrow> (string, string) dict \<Rightarrow> pydict \<Rightarrow> http_answer"

definition read_answer :: "string \<Rightarrow> http_answer \<Rightarrow> completion res" where
  "read_answer tier ans =
     (case ans of
        HttpTimeout \<Rightarrow> Inl (timed_out tier)
      | HttpFailure \<Rightarrow> Inl (cannot_connect tier)
      | Response status body \<Rightarrow> if status \<noteq> 200 then Inl (http_error tier status) else read_response body tier
      | Streamed status ls broken \<Rightarrow> read_stream status ls broken tier)"

definition openai_complete :: "server \<Rightarrow> endpoints \<Rightarrow> string \<Rightarrow> operation \<Rightarrow> pydict \<Rightarrow> bool \<Rightarrow> reply res" where
  "openai_complete server eps tier oper payload streaming =
     (case map_of eps tier of
        None \<Rightarrow> Inl (RelayError (''No '' @ tier @ '' model is configured''))
      | Some e \<Rightarrow>
          if tier = ''cloud'' \<and> ep_key e = [] then Inl (RelayError ''Configure CLOUD_API_KEY before using cloud planning'')
          else bindE (build_request e tier oper payload streaming) (\<lambda>request.
               bindE (read_answer tier (server (build_url e) (build_headers e) request)) (finish_reply e tier oper)))"


subsection \<open>What the stream shows\<close>

definition outputs :: "stream_state \<Rightarrow> string" where
  "outputs st = concat (map fst (filter (\<lambda>(t, kind). kind = ''output'') (st_deltas st)))"

text \<open>\<open>m\<close> is the first marker of a text that starts with \<open>pre @ m\<close>.\<close>

definition first_marker :: "string \<Rightarrow> string \<Rightarrow> bool" where
  "first_marker pre m \<longleftrightarrow> (\<exists>rest g. re_search think_marker (pre @ m @ rest) = Some (pre, m, rest, g))"

text \<open>Until the marker nothing counts as output; from then on the output is what follows the marker.\<close>

definition stream_ok :: "stream_state \<Rightarrow> bool" where
  "stream_ok st \<longleftrightarrow>
     (if st_thinking st then outputs st = [] \<and> re_search think_marker (st_content st) = None
      else \<exists>pre m. first_marker pre m \<and> st_content st = pre @ m @ outputs st)"

lemma stream_ok_cong:
  "st_thinking st' = st_thinking st \<Longrightarrow> st_content st' = st_content st \<Longrightarrow> outputs st' = outputs st \<Longrightarrow>
     stream_ok st \<Longrightarrow> stream_ok st'"
  by (simp only: stream_ok_def)

lemma deliver_outputs:
  "outputs (deliver t kind st) = outputs st @ (if kind = ''output'' then t else [])"
  by (simp add: outputs_def deliver_def)

lemma deliver_parts [simp]: "st_content (deliver t kind st) = st_content st" "st_thinking (deliver t kind st) = st_thinking st"
  by (simp_all add: deliver_def)

lemma outputs_frame [simp]:
  "outputs (st\<lparr>st_content := c\<rparr>) = outputs st" "outputs (st\<lparr>st_thinking := b\<rparr>) = outputs st"
  "outputs (st\<lparr>st_reasoning := r\<rparr>) = outputs st" "outputs (st\<lparr>st_usage := u\<rparr>) = outputs st"
  "outputs (st\<lparr>st_finish := f, st_tokens := t\<rparr>) = outputs st"
  by (simp_all add: outputs_def)

lemma take_content_ok:
  assumes "stream_ok st"
  shows "stream_ok (take_content t st)"
proof (cases "st_thinking st")
  case True
  then have out: "outputs st = []" using assms by (simp add: stream_ok_def)
  show ?thesis
  proof (cases "re_search think_marker (st_content st @ t)")
    case None
    then show ?thesis using True out by (simp add: take_content_def Let_def stream_ok_def deliver_outputs)
  next
    case (Some x)
    then obtain pre m tail g where x: "re_search think_marker (st_content st @ t) = Some (pre, m, tail, g)" by (cases x) auto
    then have "pre @ m @ tail = st_content st @ t" by (rule re_search_parts)
    with x have m: "first_marker pre m" unfolding first_marker_def by metis
    have "\<not> st_thinking (take_content t st)" "st_content (take_content t st) = pre @ m @ tail" "outputs (take_content t st) = tail"
      using x True out \<open>pre @ m @ tail = _\<close> by (simp_all add: take_content_def Let_def deliver_outputs)
    with m show ?thesis unfolding stream_ok_def by auto
  qed
next
  case False
  then show ?thesis using assms by (auto simp: take_content_def Let_def stream_ok_def deliver_outputs)
qed

lemma take_reasoning_ok: "stream_ok st \<Longrightarrow> stream_ok (take_reasoning v st)"
  by (auto simp: take_reasoning_def stream_ok_def deliver_outputs split: pyval.splits)

lemma take_text_ok: "stream_ok st \<Longrightarrow> stream_ok (take_text v st)"
  by (auto simp: take_text_def take_content_ok split: pyval.splits)

lemma take_usage_ok: "stream_ok st \<Longrightarrow> stream_ok (take_usage v st)"
  by (auto simp: take_usage_def split: pyval.splits intro: stream_ok_cong [rotated 3])

lemma take_choice_ok:
  assumes "take_choice c st = Inr st'" "stream_ok st"
  shows "stream_ok st'"
proof -
  have "stream_ok (st\<lparr>st_finish := f, st_tokens := t\<rparr>)" for f t
    using assms(2) by (rule stream_ok_cong [rotated 3]) simp_all
  then show ?thesis
    using assms(1)
    by (auto simp: take_choice_def Let_def bindE_eq_Inr intro!: take_text_ok take_reasoning_ok)
qed

lemma take_choices_ok: "take_choices cs st = Inr st' \<Longrightarrow> stream_ok st \<Longrightarrow> stream_ok st'"
  by (induction cs arbitrary: st) (auto simp: bindE_eq_Inr dest: take_choice_ok)

lemma take_line_ok:
  assumes "take_line l st = Inr (Some st')" "stream_ok st"
  shows "stream_ok st'"
  using assms take_usage_ok [OF assms(2)]
  by (auto simp: take_line_def Let_def bindE_eq_Inr split: if_splits option.splits dest: take_choices_ok)

lemma take_lines_ok: "take_lines ls st = Inr (st', ended) \<Longrightarrow> stream_ok st \<Longrightarrow> stream_ok st'"
proof (induction ls arbitrary: st)
  case (Cons l ls)
  then obtain r where r: "take_line l st = Inr r" by (auto simp: bindE_eq_Inr)
  show ?case
  proof (cases r)
    case None
    then show ?thesis using Cons.prems r by simp
  next
    case (Some st1)
    then show ?thesis using Cons.IH [of st1] Cons.prems r take_line_ok by simp
  qed
qed simp

lemma stream_start_ok: "stream_ok stream_start"
  by (simp add: stream_ok_def stream_start_def outputs_def) code_simp

text \<open>
  C12. What a streaming front end sees as the answer. However the server cuts its reply into chunks, the text
  passed on as \<open>output\<close> is exactly the part of the reply after the first end-of-thinking marker; as long as
  the marker has not arrived, nothing is passed on as output.
\<close>

theorem stream_output_after_marker:
  assumes "take_lines ls stream_start = Inr (st, ended)"
  shows "if st_thinking st then outputs st = [] \<and> re_search think_marker (st_content st) = None
    else \<exists>pre m. first_marker pre m \<and> st_content st = pre @ m @ outputs st"
  using take_lines_ok [OF assms stream_start_ok] by (simp only: stream_ok_def)


theorem stream_output_after_marker_witness:
  "\<exists>pre m. first_marker pre m \<and> ''ab</ifm|think>hi'' = pre @ m @ ''hi''"
proof -
  define st where "st = (case take_lines
    [''data: {\"choices\":[{\"delta\":{\"content\":\"ab</ifm|th\"}}]}'', ''data: {\"choices\":[{\"delta\":{\"content\":\"ink>hi\"}}]}'',
     ''data: [DONE]''] stream_start of Inr (s, _) \<Rightarrow> s | Inl _ \<Rightarrow> stream_start)"
  have run: "take_lines [''data: {\"choices\":[{\"delta\":{\"content\":\"ab</ifm|th\"}}]}'', ''data: {\"choices\":[{\"delta\":{\"content\":\"ink>hi\"}}]}'',
     ''data: [DONE]''] stream_start = Inr (st, True)"
    unfolding st_def by code_simp
  have "\<not> st_thinking st" "st_content st = ''ab</ifm|think>hi''" "outputs st = ''hi''"
    unfolding st_def by code_simp+
  then show ?thesis using stream_output_after_marker [OF run] by simp
qed

end
