(* ===== verification/Relay_Entry.thy ===== *)
theory Relay_Entry
  imports Relay_Engine Relay_OpenAI
begin

section \<open>The entry point (relay.py)\<close>

text \<open>
  A \<^verbatim>\<open>Relay\<close> over real endpoints: the provider's endpoints and its timeout, the limits and the
  policy. \<open>relay_env\<close> is the engine's view of it, given what the servers answer and what else a run depends
  on. The optional import of \<^verbatim>\<open>httpx\<close> is not part of the model.
\<close>

record relay =
  rl_endpoints :: endpoints
  rl_timeout :: real
  rl_limits :: limits
  rl_policy :: policy

text \<open>\<open>from_settings\<close>; without a policy the engine uses the default one.\<close>

definition from_settings :: "relay_settings \<Rightarrow> policy option \<Rightarrow> relay" where
  "from_settings s p =
     \<lparr>rl_endpoints = OpenAI_endpoints (set_local s) (set_cloud s) (set_mid s), rl_timeout = call_timeout (set_limits s),
      rl_limits = set_limits s, rl_policy = (case p of None \<Rightarrow> default_policy | Some q \<Rightarrow> q)\<rparr>"

definition from_env :: "environ \<Rightarrow> policy option \<Rightarrow> relay res" where
  "from_env env p =
     bindE (settings_from_env env) (\<lambda>s.
     (case p of
        Some q \<Rightarrow> Inr (from_settings s (Some q))
      | None \<Rightarrow> bindE (policy_from_env env) (\<lambda>q. Inr (from_settings s (Some q)))))"

subsection \<open>Policy overrides\<close>

text \<open>
  \<open>dataclasses.replace\<close> with values read from JSON. A field the dataclass does not have is a \<open>TypeError\<close>. A
  value of a type the field is not meant for is a \<open>TypeError\<close> here; the dataclass checks only the numbers that
  \<open>__post_init__\<close> compares and would fail where the value is used.
\<close>

fun as_int :: "pyval \<Rightarrow> int res" where
  "as_int (PInt i) = Inr i"
| "as_int _ = Inl TypeError"

fun as_bool :: "pyval \<Rightarrow> bool res" where
  "as_bool (PBool b) = Inr b"
| "as_bool _ = Inl TypeError"

fun as_text :: "pyval \<Rightarrow> string res" where
  "as_text (PStr s) = Inr s"
| "as_text _ = Inl TypeError"

fun as_real :: "pyval \<Rightarrow> real res" where
  "as_real (PInt i) = Inr (of_int i)"
| "as_real (PFloat (Fin x)) = Inr x"
| "as_real _ = Inl TypeError"

fun as_reals :: "pyval \<Rightarrow> (string, real) dict res" where
  "as_reals (PDict d) = mapE (\<lambda>(k, v). bindE (as_real v) (\<lambda>x. Inr (k, x))) d"
| "as_reals _ = Inl TypeError"

definition override :: "string \<times> pyval \<Rightarrow> policy \<Rightarrow> policy res" where
  "override kv p =
     (case kv of (k, v) \<Rightarrow>
        if k = ''escalation_threshold'' then bindE (as_real v) (\<lambda>x. Inr (p\<lparr>escalation_threshold := x\<rparr>))
        else if k = ''tier_thresholds'' then bindE (as_reals v) (\<lambda>x. Inr (p\<lparr>tier_thresholds := x\<rparr>))
        else if k = ''local_samples'' then bindE (as_int v) (\<lambda>x. Inr (p\<lparr>local_samples := x\<rparr>))
        else if k = ''use_critic'' then bindE (as_bool v) (\<lambda>x. Inr (p\<lparr>use_critic := x\<rparr>))
        else if k = ''token_signal'' then bindE (as_text v) (\<lambda>x. Inr (p\<lparr>token_signal := x\<rparr>))
        else if k = ''escalate_big_goals'' then bindE (as_bool v) (\<lambda>x. Inr (p\<lparr>escalate_big_goals := x\<rparr>))
        else if k = ''weights'' then bindE (as_reals v) (\<lambda>x. Inr (p\<lparr>weights := x\<rparr>))
        else if k = ''cross_critic'' then bindE (as_bool v) (\<lambda>x. Inr (p\<lparr>cross_critic := x\<rparr>))
        else if k = ''skip_small_above''
        then (if v = PNone then Inr (p\<lparr>skip_small_above := None\<rparr>)
              else bindE (as_real v) (\<lambda>x. Inr (p\<lparr>skip_small_above := Some (Fin x)\<rparr>)))
        else if k = ''cloud_mode'' then bindE (as_text v) (\<lambda>x. Inr (p\<lparr>cloud_mode := x\<rparr>))
        else if k = ''plan_min_parts'' then bindE (as_int v) (\<lambda>x. Inr (p\<lparr>plan_min_parts := x\<rparr>))
        else if k = ''plan_min_chars'' then bindE (as_int v) (\<lambda>x. Inr (p\<lparr>plan_min_chars := x\<rparr>))
        else if k = ''bulk_parts'' then bindE (as_int v) (\<lambda>x. Inr (p\<lparr>bulk_parts := x\<rparr>))
        else if k = ''min_parallel_local'' then bindE (as_int v) (\<lambda>x. Inr (p\<lparr>min_parallel_local := x\<rparr>))
        else if k = ''local_worker_attempts'' then bindE (as_int v) (\<lambda>x. Inr (p\<lparr>local_worker_attempts := x\<rparr>))
        else if k = ''escalate_failed_local_tasks'' then bindE (as_bool v) (\<lambda>x. Inr (p\<lparr>escalate_failed_local_tasks := x\<rparr>))
        else if k = ''plan_attempts'' then bindE (as_int v) (\<lambda>x. Inr (p\<lparr>plan_attempts := x\<rparr>))
        else Inl TypeError)"

fun overrides :: "pydict \<Rightarrow> policy \<Rightarrow> policy res" where
  "overrides [] p = Inr p"
| "overrides (kv # kvs) p = bindE (override kv p) (overrides kvs)"

text \<open>\<open>with_policy\<close>: the engine's environment with the changed policy, which is checked like any other.\<close>

definition with_policy :: "pydict \<Rightarrow> env \<Rightarrow> env res" where
  "with_policy kvs env =
     bindE (overrides kvs (e_policy env)) (\<lambda>p. bindE (RoutingPolicy_init p) (\<lambda>q. Inr (env\<lparr>e_policy := q\<rparr>)))"

subsection \<open>A run over real endpoints\<close>

text \<open>
  The environment of a run over real endpoints: call \<open>i\<close> goes to \<open>server i\<close>. The other fields (identity, clock,
  watcher, cancellation) are those of \<open>base\<close>.
\<close>

definition relay_env :: "(nat \<Rightarrow> server) \<Rightarrow> relay \<Rightarrow> env \<Rightarrow> env" where
  "relay_env server r base = base
     \<lparr>e_limits := rl_limits r, e_policy := rl_policy r, e_models := Some (OpenAI_models (rl_endpoints r)),
      e_simulated := False, e_notice := None, e_streams := True,
      e_complete := (\<lambda>i tier oper payload.
        case openai_complete (server i) (rl_endpoints r) tier oper payload (e_emit base \<or> e_on_delta base) of
          Inl e \<Rightarrow> Raised e | Inr rp \<Rightarrow> Replied rp)\<rparr>"

lemma RoutingPolicy_init_id: "RoutingPolicy_init p = Inr q \<Longrightarrow> q = p"
  by (auto simp: RoutingPolicy_init_def bindE_eq_Inr)

lemma with_policy_checked:
  "with_policy kvs env = Inr env' \<Longrightarrow> RoutingPolicy_init (e_policy env') = Inr (e_policy env')"
  by (auto simp: with_policy_def bindE_eq_Inr) (metis RoutingPolicy_init_id)

lemma with_policy_limits: "with_policy kvs env = Inr env' \<Longrightarrow> e_limits env' = e_limits env"
  by (auto simp: with_policy_def bindE_eq_Inr)

lemma relay_env_tiers:
  "set (tiers_of (relay_env server (from_settings s p) base))
     = (if set_mid s = None then {''local'', ''cloud''} else {''local'', ''mid'', ''cloud''})"
  by (auto simp: tiers_of_def relay_env_def from_settings_def available_tiers_def Let_def TIER_ORDER_def OpenAI_models_def
      OpenAI_endpoints_def split: option.splits)

end
