(* ===== verification/Relay_Evaluation.thy ===== *)
theory Relay_Evaluation
  imports Relay_Graph Relay_Entry Relay_Guarantees "HOL-Library.Product_Lexorder"
begin

section \<open>Routing tests (evaluation.py)\<close>

text \<open>
  Labeled requests with the route they are expected to take, run through a relay and scored. The regular
  expression of a case is arbitrary, so matching one is a parameter: \<open>compiles pattern\<close> says whether
  \<open>re.compile\<close> accepts it and \<open>found pattern body\<close> whether \<open>re.search(pattern, body, re.I)\<close> finds it.
\<close>

definition TIERS :: "string list" where
  "TIERS = [''local'', ''mid'', ''cloud'']"

definition ALIASES :: "(string, string) dict" where
  "ALIASES = [(''0.9b'', ''local''), (''small'', ''local''), (''4b'', ''mid''), (''375b'', ''cloud''), (''large'', ''cloud'')]"

record test_case =
  tc_name :: string
  tc_category :: string
  tc_difficulty :: string
  tc_expected_route :: "string list"
  tc_prompt :: string
  tc_answer_pattern :: "string option"
  tc_policy :: "pydict option"
  tc_expects :: "pydict option"
  tc_note :: string

record case_result =
  cs_case :: test_case
  cs_route :: string
  cs_matched :: bool
  cs_elapsed_s :: real
  cs_correct :: "bool option"
  cs_answer :: string
  cs_scores :: "(string, real) dict"
  cs_local_calls :: int
  cs_cloud_calls :: int
  cs_local_subtasks :: int
  cs_cloud_subtasks :: int
  cs_parallel_ms :: int
  cs_unmet :: "string list"
  cs_error :: string
  cs_graph :: pyval

subsection \<open>Loading and selecting cases\<close>

definition expected :: "pyval \<Rightarrow> string list res" where
  "expected v =
     (if v = PStr ''either'' then Inr TIERS
      else bindE (case v of
                    PStr s \<Rightarrow> Inr [PStr s]
                  | PList vs \<Rightarrow> Inr vs
                  | PDict d \<Rightarrow> Inr (map (\<lambda>(k, _). PStr k) d)
                  | _ \<Rightarrow> Inl TypeError) (\<lambda>tiers.
           if tiers = [] \<or> list_ex (\<lambda>t. t \<notin> set (map PStr TIERS)) tiers
           then Inl (ValueError (''expected_route must use '' @ ''('' @ join '', '' (map repr_text TIERS) @ '') or ''
                                 @ repr_text ''either'' @ '', got '' @ py_repr v))
           else Inr (map the_str tiers)))"

text \<open>A missing or null entry, or one of the type the dataclass declares.\<close>

definition opt_text :: "pydict \<Rightarrow> string \<Rightarrow> string option res" where
  "opt_text c k = (case field c k of PNone \<Rightarrow> Inr None | PStr s \<Rightarrow> Inr (Some s) | _ \<Rightarrow> Inl TypeError)"

definition opt_dict :: "pydict \<Rightarrow> string \<Rightarrow> pydict option res" where
  "opt_dict c k = (case field c k of PNone \<Rightarrow> Inr None | PDict d \<Rightarrow> Inr (Some d) | _ \<Rightarrow> Inl TypeError)"

definition text_or :: "pydict \<Rightarrow> string \<Rightarrow> string res" where
  "text_or c k = as_text (dict_get_or c k (PStr []))"

definition load_case :: "(string \<Rightarrow> bool) \<Rightarrow> pyval \<Rightarrow> test_case res" where
  "load_case compiles v =
     (case v of
        PDict c \<Rightarrow>
          bindE (str_item c ''name'') (\<lambda>name. bindE (text_or c ''category'') (\<lambda>category. bindE (text_or c ''difficulty'') (\<lambda>difficulty.
          bindE (bindE (item c ''expected_route'') expected) (\<lambda>route. bindE (str_item c ''prompt'') (\<lambda>prompt.
          bindE (opt_text c ''answer_pattern'') (\<lambda>pat. bindE (opt_dict c ''policy'') (\<lambda>pol. bindE (opt_dict c ''expects'') (\<lambda>expects.
          bindE (text_or c ''note'') (\<lambda>note.
          bindE (case pat of
                   Some p \<Rightarrow> requireE (p = [] \<or> compiles p) OtherError
                 | None \<Rightarrow> Inr ()) (\<lambda>_.
          Inr \<lparr>tc_name = name, tc_category = category, tc_difficulty = difficulty, tc_expected_route = route, tc_prompt = prompt,
               tc_answer_pattern = pat, tc_policy = pol, tc_expects = expects, tc_note = note\<rparr>))))))))))
      | _ \<Rightarrow> Inl TypeError)"

text \<open>\<open>load_cases\<close> on the text of the file.\<close>

definition load_cases :: "(string \<Rightarrow> bool) \<Rightarrow> string \<Rightarrow> test_case list res" where
  "load_cases compiles body =
     (case json_loads body of
        None \<Rightarrow> Inl (ValueError ''not a JSON document'')
      | Some (PList vs) \<Rightarrow> mapE (load_case compiles) vs
      | Some _ \<Rightarrow> Inl TypeError)"

text \<open>
  \<open>str.isdigit\<close> also accepts the superscript digits, which \<open>int\<close> refuses.
\<close>

definition superscripts :: string where
  "superscripts = [CHR 0xB2, CHR 0xB3, CHR 0xB9]"

definition isdigit :: "string \<Rightarrow> bool" where
  "isdigit w \<longleftrightarrow> w \<noteq> [] \<and> list_all (\<lambda>c. is_digit c \<or> c \<in> set superscripts) w"

definition by_position :: "test_case list \<Rightarrow> string \<Rightarrow> test_case list res" where
  "by_position cases w =
     bindE (py_int_str w) (\<lambda>i. Inr (if 1 \<le> i \<and> i \<le> int (length cases) then [cases ! nat (i - 1)] else []))"

definition select_cases :: "test_case list \<Rightarrow> string \<Rightarrow> test_case list res" where
  "select_cases cases query =
     (let q = map (\<lambda>c. if c = CHR '','' then CHR '' '' else c) (lower (strip query))
      in if q = [] \<or> q = ''all'' then Inr cases
         else if list_all isdigit (split_ws q)
         then bindE (mapE (by_position cases) (split_ws q)) (\<lambda>found. Inr (concat found))
         else
           let tier = dict_get_or ALIASES q q
           in if tier \<in> set TIERS then Inr (filter (\<lambda>c. tier \<in> set (tc_expected_route c)) cases)
              else if q = ''forced'' then Inr (filter (\<lambda>c. tc_policy c \<noteq> None \<and> tc_policy c \<noteq> Some []) cases)
              else Inr (filter (\<lambda>c. q = tc_difficulty c \<or> q = tc_category c \<or> contains q (lower (tc_name c))) cases))"

subsection \<open>Delegation\<close>

text \<open>One step of the loop over the starts and ends of the subtask calls: running calls, time with several, last moment.\<close>

definition sweep_step :: "int \<times> int \<Rightarrow> int \<times> int \<times> int \<Rightarrow> int \<times> int \<times> int" where
  "sweep_step edge state =
     (case edge of (moment, change) \<Rightarrow> case state of (running, concurrent, previous) \<Rightarrow>
        (running + change, if running > 1 then concurrent + (moment - previous) else concurrent, moment))"

definition span_edges :: "(int \<times> int) list \<Rightarrow> (int \<times> int) list" where
  "span_edges spans = sort (map (\<lambda>(a, b). (a, 1)) spans @ map (\<lambda>(a, b). (b, -1)) spans)"

definition parallel_time :: "(int \<times> int) list \<Rightarrow> int" where
  "parallel_time spans =
     (let edges = span_edges spans; start = (case edges of [] \<Rightarrow> 0 | e # _ \<Rightarrow> fst e)
      in fst (snd (fold sweep_step edges (0, 0, start))))"

definition work_calls :: "metrics \<Rightarrow> call_record list" where
  "work_calls m = filter (\<lambda>c. r_operation c = Work) (m_calls m)"

definition call_span :: "call_record \<Rightarrow> int \<times> int" where
  "call_span c = (r_started_ms c, r_started_ms c + r_elapsed_ms c)"

definition delegation :: "metrics \<Rightarrow> int \<times> int \<times> int" where
  "delegation m =
     (let work = work_calls m;
          tasks = foldl (\<lambda>d c. dict_set (r_task_id c) (r_tier c) d) [] work;
          loc = count_true (map (\<lambda>(t, tier). tier \<noteq> ''cloud'') tasks)
      in (int loc, int (length tasks) - int loc, parallel_time (map call_span work)))"

subsection \<open>Expectations\<close>

definition expectation :: "pydict \<Rightarrow> string \<Rightarrow> (pyfloat \<Rightarrow> bool) \<Rightarrow> (string \<Rightarrow> string) \<Rightarrow> string list res" where
  "expectation expects k broken message =
     (if field expects k = PNone then Inr []
      else bindE (number_of (field expects k)) (\<lambda>x. Inr (if broken x then [message (py_str (field expects k))] else [])))"

definition check_expectations :: "test_case \<Rightarrow> case_result \<Rightarrow> string list res" where
  "check_expectations c r =
     (let expects = (case tc_expects c of None \<Rightarrow> [] | Some d \<Rightarrow> d)
      in bindE (expectation expects ''local_subtasks_at_least'' (less_float (Fin (of_int (cs_local_subtasks r))))
                  (\<lambda>least. ''delegated '' @ show_int (cs_local_subtasks r) @ '' subtasks to local models, expected at least '' @ least)) (\<lambda>a.
         bindE (expectation expects ''cloud_subtasks_at_most'' (\<lambda>most. less_float most (Fin (of_int (cs_cloud_subtasks r))))
                  (\<lambda>most. ''kept '' @ show_int (cs_cloud_subtasks r) @ '' subtasks on the cloud, expected at most '' @ most)) (\<lambda>b.
         Inr (a @ b @ (if truthy (field expects ''parallel_work'') \<and> cs_parallel_ms r \<le> 0
                       then [''no two subtasks ever ran at the same time''] else [])))))"

subsection \<open>Running a case\<close>

text \<open>
  The graph of a run's events. The engine swallows what its callback raises, so an event whose handler raises
  leaves the graph as it was.
\<close>

definition graph_of :: "relay_event list \<Rightarrow> run_graph" where
  "graph_of es = foldl (\<lambda>g e. case add_event e g of Inl _ \<Rightarrow> g | Inr g' \<Rightarrow> g') RunGraph_init es"

definition round_to :: "nat \<Rightarrow> real \<Rightarrow> real" where
  "round_to n x = of_int (round_half_even (x * 10 ^ n)) / 10 ^ n"

definition user_message :: "string \<Rightarrow> pyval" where
  "user_message body = PList [PDict [(''role'', PStr ''user''), (''content'', PStr body)]]"

definition case_env :: "test_case \<Rightarrow> env \<Rightarrow> env res" where
  "case_env c env =
     (case tc_policy c of
        None \<Rightarrow> Inr (env\<lparr>e_emit := True, e_on_delta := False\<rparr>)
      | Some d \<Rightarrow> if d = [] then Inr (env\<lparr>e_emit := True, e_on_delta := False\<rparr>)
                  else with_policy d (env\<lparr>e_emit := True, e_on_delta := False\<rparr>))"

definition wanted_pattern :: "test_case \<Rightarrow> string option" where
  "wanted_pattern c = (case tc_answer_pattern c of Some [] \<Rightarrow> None | p \<Rightarrow> p)"

definition failed_case :: "test_case \<Rightarrow> real \<Rightarrow> string \<Rightarrow> pyval \<Rightarrow> case_result" where
  "failed_case c secs message graph =
     \<lparr>cs_case = c, cs_route = ''error'', cs_matched = False, cs_elapsed_s = round_to 2 secs,
      cs_correct = (if wanted_pattern c = None then None else Some False), cs_answer = [], cs_scores = [], cs_local_calls = 0,
      cs_cloud_calls = 0, cs_local_subtasks = 0, cs_cloud_subtasks = 0, cs_parallel_ms = 0, cs_unmet = [], cs_error = message,
      cs_graph = graph\<rparr>"

definition answered_case :: "(string \<Rightarrow> string \<Rightarrow> bool) \<Rightarrow> test_case \<Rightarrow> real \<Rightarrow> run_result \<Rightarrow> pyval \<Rightarrow> case_result res" where
  "answered_case found c secs rr graph =
     (let m = rr_metrics rr;
          route = (case m_route m of None \<Rightarrow> ''cloud'' | Some t \<Rightarrow> if t = [] then ''cloud'' else t)
      in case delegation m of (loc, cloud, together) \<Rightarrow>
         let r = \<lparr>cs_case = c, cs_route = route, cs_matched = (route \<in> set (tc_expected_route c)), cs_elapsed_s = round_to 2 secs,
                  cs_correct = map_option (\<lambda>p. found p (rr_content rr)) (wanted_pattern c), cs_answer = rr_content rr,
                  cs_scores = foldl (\<lambda>d v. dict_set (vd_tier v) (sg_combined_score (vd_signals v)) d) [] (m_verdicts m),
                  cs_local_calls = int (m_local_calls m), cs_cloud_calls = m_cloud_calls m, cs_local_subtasks = loc,
                  cs_cloud_subtasks = cloud, cs_parallel_ms = together, cs_unmet = [], cs_error = [], cs_graph = graph\<rparr>
         in bindE (check_expectations c r) (\<lambda>unmet. Inr (r\<lparr>cs_unmet := unmet\<rparr>)))"

definition run_case :: "(string \<Rightarrow> string \<Rightarrow> bool) \<Rightarrow> env \<Rightarrow> schedule \<Rightarrow> real \<Rightarrow> test_case \<Rightarrow> case_result res" where
  "run_case found env sched secs c =
     bindE (case_env c env) (\<lambda>env'.
     (case chat env' sched (user_message (tc_prompt c)) of
        (Inl e, s) \<Rightarrow> if is_relay_error e then Inr (failed_case c secs (exn_str e) (graph_dict (graph_of (events s)))) else Inl e
      | (Inr rr, s) \<Rightarrow> answered_case found c secs rr (graph_dict (graph_of (events s)))))"

subsection \<open>The summary\<close>

definition has_expects :: "case_result \<Rightarrow> bool" where
  "has_expects r \<longleftrightarrow> tc_expects (cs_case r) \<noteq> None \<and> tc_expects (cs_case r) \<noteq> Some []"

record test_summary =
  sm_cases :: nat
  sm_matched :: nat
  sm_answers_checked :: nat
  sm_answers_correct :: nat
  sm_expectations_checked :: nat
  sm_expectations_met :: nat
  sm_delegated_subtasks :: int
  sm_errors :: nat
  sm_by_tier :: "(string, nat) dict"
  sm_cloud_calls :: int
  sm_local_calls :: int
  sm_seconds :: real

definition summarize :: "case_result list \<Rightarrow> test_summary" where
  "summarize rs =
     (let ran = filter (\<lambda>r. cs_route r \<noteq> ''error'') rs;
          checked = filter (\<lambda>r. cs_correct r \<noteq> None) rs
      in \<lparr>sm_cases = length rs, sm_matched = count_true (map cs_matched rs),
          sm_answers_checked = length checked, sm_answers_correct = count_true (map (\<lambda>r. cs_correct r = Some True) checked),
          sm_expectations_checked = count_true (map has_expects rs),
          sm_expectations_met = count_true (map (\<lambda>r. has_expects r \<and> cs_unmet r = []) rs),
          sm_delegated_subtasks = sum_list (map cs_local_subtasks rs), sm_errors = length rs - length ran,
          sm_by_tier = map (\<lambda>t. (t, count_true (map (\<lambda>r. cs_route r = t) ran))) TIERS,
          sm_cloud_calls = sum_list (map cs_cloud_calls rs), sm_local_calls = sum_list (map cs_local_calls rs),
          sm_seconds = round_to 1 (sum_list (map cs_elapsed_s rs))\<rparr>)"

subsection \<open>What the numbers mean\<close>

text \<open>How many calls are running at \<open>t\<close>.\<close>

definition running_at :: "(int \<times> int) list \<Rightarrow> int \<Rightarrow> nat" where
  "running_at spans t = length (filter (\<lambda>(a, b). a \<le> t \<and> t < b) spans)"

definition change_until :: "(int \<times> int) list \<Rightarrow> int \<Rightarrow> int" where
  "change_until edges t = sum_list (map (\<lambda>(m, c). if m \<le> t then c else 0) edges)"

lemma change_until_simps [simp]:
  "change_until [] t = 0" "change_until (e # es) t = (if fst e \<le> t then snd e else 0) + change_until es t"
  "change_until (es @ fs) t = change_until es t + change_until fs t"
  by (auto simp: change_until_def split: prod.splits)

lemma change_until_mset: "mset es = mset fs \<Longrightarrow> change_until es t = change_until fs t"
proof -
  let ?f = "\<lambda>(m, c). if m \<le> t then c else 0"
  assume "mset es = mset fs"
  then have "sum_mset (mset (map ?f es)) = sum_mset (mset (map ?f fs))" by simp
  then show ?thesis by (simp only: change_until_def sum_mset_sum_list)
qed

lemma change_until_before: "\<forall>e \<in> set es. t < fst e \<Longrightarrow> change_until es t = 0"
  by (induction es) auto

lemma card_interval_if: "a \<le> b \<Longrightarrow> int (card {t. a \<le> t \<and> t < b \<and> P}) = (if P then b - a else (0::int))"
proof (cases P)
  case True
  assume "a \<le> b"
  moreover have "{t. a \<le> t \<and> t < b \<and> P} = {a ..< b}" using True by auto
  ultimately show ?thesis using True by simp
qed simp

lemma sweep_step_eq [simp]:
  "sweep_step (m, c) (running, concurrent, previous)
     = (running + c, if running > 1 then concurrent + (m - previous) else concurrent, m)"
  by (simp add: sweep_step_def)

lemma sorted_le_last: "sorted xs \<Longrightarrow> x \<in> set xs \<Longrightarrow> x \<le> last xs"
  by (induction xs) auto

lemma sweep_counts:
  assumes "sorted (map fst es)" "\<forall>e \<in> set es. previous \<le> fst e"
  shows "fst (snd (fold sweep_step es (running, concurrent, previous)))
    = concurrent + int (card {t. previous \<le> t \<and> t < (if es = [] then previous else fst (last es)) \<and> running + change_until es t > 1})"
  using assms
proof (induction es arbitrary: running concurrent previous)
  case (Cons e es)
  obtain m c where e: "e = (m, c)" by (cases e)
  let ?L = "if es = [] then m else fst (last es)"
  let ?P = "\<lambda>t. running + change_until (e # es) t > 1"
  have later: "\<forall>x \<in> set es. m \<le> fst x" using Cons.prems e by auto
  have mL: "m \<le> ?L" using later by auto
  have pm: "previous \<le> m" using Cons.prems e by auto
  have "{t. previous \<le> t \<and> t < ?L \<and> ?P t} = {t. previous \<le> t \<and> t < m \<and> running > 1} \<union> {t. m \<le> t \<and> t < ?L \<and> (running + c) + change_until es t > 1}"
    (is "?A = ?B \<union> ?C")
  proof -
    have low: "?P t \<longleftrightarrow> running > 1" if "t < m" for t
      using that later change_until_before [of es t] by (force simp: e)
    have high: "?P t \<longleftrightarrow> (running + c) + change_until es t > 1" if "m \<le> t" for t
      using that by (simp add: e add.assoc)
    have "t \<in> ?A \<longleftrightarrow> t \<in> ?B \<union> ?C" for t
    proof (cases "t < m")
      case True
      with mL have "t < ?L" by simp
      with True show ?thesis using low [OF True] by simp
    next
      case False
      with pm have "m \<le> t" "previous \<le> t" by simp_all
      with False show ?thesis using high [of t] by simp
    qed
    then show ?thesis by (rule set_eqI)
  qed
  moreover have "card (?B \<union> ?C) = card ?B + card ?C"
    by (rule card_Un_disjoint) (auto intro: finite_subset [of _ "{previous ..< m}"] finite_subset [of _ "{m ..< ?L}"])
  ultimately have card: "int (card ?A) = (if running > 1 then m - previous else 0) + int (card ?C)"
    using card_interval_if [OF pm, of "running > 1"] by simp
  have sweep: "fst (snd (fold sweep_step (e # es) (running, concurrent, previous)))
      = (if running > 1 then concurrent + (m - previous) else concurrent) + int (card ?C)"
    using Cons.prems(1) by (subst e, simp only: fold_simps sweep_step_eq, subst Cons.IH) (auto simp: later)
  have "(if e # es = [] then previous else fst (last (e # es))) = ?L" by (simp add: e)
  then show ?case by (simp only: sweep card) simp
qed (auto simp: card_eq_0_iff)

lemma change_until_spans:
  "\<forall>(a, b) \<in> set spans. a \<le> b \<Longrightarrow>
     change_until (map (\<lambda>(a, b). (a, 1)) spans @ map (\<lambda>(a, b). (b, -1)) spans) t = int (running_at spans t)"
  by (induction spans) (auto simp: running_at_def)

lemma span_edges_facts:
  "sorted (map fst (span_edges spans))" "mset (span_edges spans) = mset (map (\<lambda>(a, b). (a, 1)) spans @ map (\<lambda>(a, b). (b, -1)) spans)"
proof -
  have "sorted (span_edges spans)" by (simp add: span_edges_def)
  then show "sorted (map fst (span_edges spans))" 
    by (rule sorted_map_mono) (auto simp: less_eq_prod_def mono_on_def)
qed (simp add: span_edges_def)

text \<open>
  C40. The parallel work a test reports. For calls that do not end before they start, the sweep over their
  sorted starts and ends returns exactly the number of milliseconds at which at least two of them were
  running, whatever their order, their overlaps and the ties among their moments.
\<close>

theorem parallel_time_exact:
  assumes "\<forall>(a, b) \<in> set spans. a \<le> b"
  shows "parallel_time spans = int (card {t. 2 \<le> running_at spans t})"
proof (cases "span_edges spans")
  case Nil
  then have "spans = []" using span_edges_facts(2) [of spans] by simp
  then show ?thesis by (simp add: parallel_time_def span_edges_def running_at_def)
next
  case (Cons e es)
  let ?E = "span_edges spans"
  have sum: "change_until ?E t = int (running_at spans t)" for t
    using change_until_mset [OF span_edges_facts(2)] change_until_spans [OF assms] by metis
  have first: "\<forall>x \<in> set ?E. fst e \<le> fst x" using span_edges_facts(1) [of spans] Cons by auto
  have last: "fst x \<le> fst (last ?E)" if "x \<in> set ?E" for x
    using sorted_le_last [OF span_edges_facts(1), of "fst x" spans] that last_map [of ?E fst] Cons
    by (metis image_eqI list.discI list.set_map)
  have "parallel_time spans = int (card {t. fst e \<le> t \<and> t < fst (last ?E) \<and> change_until ?E t > 1})"
    using sweep_counts [OF span_edges_facts(1), of spans "fst e" 0 0] first Cons
    by (simp add: parallel_time_def Let_def)
  moreover have "{t. fst e \<le> t \<and> t < fst (last ?E) \<and> change_until ?E t > 1} = {t. 2 \<le> running_at spans t}"
  proof -
    have "fst e \<le> t \<and> t < fst (last ?E)" if "2 \<le> running_at spans t" for t
    proof -
      have "filter (\<lambda>(a, b). a \<le> t \<and> t < b) spans \<noteq> []" using that by (auto simp: running_at_def)
      then obtain a b where ab: "(a, b) \<in> set spans" "a \<le> t" "t < b" by (auto simp: filter_empty_conv)
      then have "(a, 1) \<in> set ?E" "(b, -1) \<in> set ?E" by (force simp: span_edges_def)+
      with first last ab show ?thesis by fastforce
    qed
    then show ?thesis by (auto simp: sum)
  qed
  ultimately show ?thesis by simp
qed

theorem parallel_time_exact_witness:
  "parallel_time [(0, 10), (4, 6), (5, 20), (10, 12)] = int (card {t. 2 \<le> running_at [(0, 10), (4, 6), (5, 20), (10, 12)] t})
   \<and> parallel_time [(0, 10), (4, 6), (5, 20), (10, 12)] = 8"
proof
  show "parallel_time [(0, 10), (4, 6), (5, 20), (10, 12)] = int (card {t. 2 \<le> running_at [(0, 10), (4, 6), (5, 20), (10, 12)] t})"
    by (rule parallel_time_exact) simp
  show "parallel_time [(0, 10), (4, 6), (5, 20), (10, 12)] = 8" by code_simp
qed

lemma count_true_le: "(\<And>x. P x \<Longrightarrow> Q x) \<Longrightarrow> count_true (map P xs) \<le> count_true (map Q xs)"
  by (induction xs) (auto simp: count_true_def)

lemma count_true_length: "count_true bs \<le> length bs"
  by (simp add: count_true_def)

lemma routes_partition:
  "\<forall>r \<in> set rs. cs_route r \<in> set TIERS \<Longrightarrow> sum_list (map (\<lambda>t. count_true (map (\<lambda>r. cs_route r = t) rs)) TIERS) = length rs"
  by (induction rs) (auto simp: TIERS_def count_true_def)

text \<open>
  The summary adds up. When every result was answered by a tier or is an error, the cases per tier and the
  errors are all the cases; no case is counted as matched, correct or met that was not run, checked or
  expected.
\<close>

lemma summary_adds_up:
  assumes "\<forall>r \<in> set rs. cs_route r \<in> set (''error'' # TIERS)"
  shows "sum_list (map snd (sm_by_tier (summarize rs))) + sm_errors (summarize rs) = sm_cases (summarize rs)
    \<and> sm_matched (summarize rs) \<le> sm_cases (summarize rs)
    \<and> sm_answers_correct (summarize rs) \<le> sm_answers_checked (summarize rs)
    \<and> sm_expectations_met (summarize rs) \<le> sm_expectations_checked (summarize rs)"
proof -
  have "sum_list (map (\<lambda>t. count_true (map (\<lambda>r. cs_route r = t) (filter (\<lambda>r. cs_route r \<noteq> ''error'') rs))) TIERS)
      = length (filter (\<lambda>r. cs_route r \<noteq> ''error'') rs)"
    using assms by (intro routes_partition) auto
  then show ?thesis
    using count_true_length [of "map cs_matched rs"] count_true_length [of "map (\<lambda>r. cs_correct r = Some True) (filter (\<lambda>r. cs_correct r \<noteq> None) rs)"]
    by (auto simp: summarize_def Let_def comp_def intro!: count_true_le le_trans [OF length_filter_le])
qed

lemma case_env_limits: "case_env c env = Inr env' \<Longrightarrow> e_limits env' = e_limits env"
  by (auto simp: case_env_def split: option.splits if_splits dest: with_policy_limits)

lemma answered_case_fields:
  assumes "answered_case found c secs rr graph = Inr r"
  shows "cs_case r = c" "cs_cloud_calls r = m_cloud_calls (rr_metrics rr)" "cs_matched r \<longleftrightarrow> cs_route r \<in> set (tc_expected_route c)"
    "cs_correct r = map_option (\<lambda>p. found p (rr_content rr)) (wanted_pattern c)"
    "m_route (rr_metrics rr) = Some ''cloud'' \<Longrightarrow> cs_route r = ''cloud''"
  using assms by (auto simp: answered_case_def Let_def bindE_eq_Inr split: prod.splits)

lemma chat_cloud_calls:
  assumes "chat env sched msgs = (Inr rr, s)"
  shows "m_cloud_calls (rr_metrics rr) \<le> (if cloud_enabled (e_limits env) then max 0 (cloud_calls (e_limits env)) else 0)"
    and "m_route (rr_metrics rr) = Some ''cloud'' \<or> m_cloud_calls (rr_metrics rr) = 0"
proof -
  obtain q :: relay_request where q: "run env sched (rq_goal q) (rq_sources q) (rq_local_extract q) = (Inr rr, s)"
    using assms by (auto simp: chat_def split: sum.splits)
  show "m_cloud_calls (rr_metrics rr) \<le> (if cloud_enabled (e_limits env) then max 0 (cloud_calls (e_limits env)) else 0)"
    using run_books.run_holds [of env sched "rq_goal q" "rq_sources q" "rq_local_extract q"]
      run_locally_free [of env sched "rq_goal q" "rq_sources q" "rq_local_extract q"]
    by (auto simp: q books_ok_def metrics_of_def split: if_splits)
  show "m_route (rr_metrics rr) = Some ''cloud'' \<or> m_cloud_calls (rr_metrics rr) = 0"
    using run_locally_free [of env sched "rq_goal q" "rq_sources q" "rq_local_extract q"] by (auto simp: q)
qed

text \<open>
  What a test result says. A case counts as matched exactly when the tier that answered is one of the
  expected ones, its answer is checked exactly when the case has a pattern, it spent no more cloud calls than
  the limits allow, and none at all unless the cloud answered.
\<close>

theorem run_case_result:
  assumes "run_case found env sched secs c = Inr r" "set (tc_expected_route c) \<subseteq> set TIERS"
  shows "cs_case r = c \<and> (cs_matched r \<longleftrightarrow> cs_route r \<in> set (tc_expected_route c))
    \<and> (cs_correct r = None \<longleftrightarrow> wanted_pattern c = None)
    \<and> cs_cloud_calls r \<le> (if cloud_enabled (e_limits env) then max 0 (cloud_calls (e_limits env)) else 0)
    \<and> (cs_route r = ''cloud'' \<or> cs_cloud_calls r = 0)"
proof -
  obtain env' where env': "case_env c env = Inr env'" using assms(1) by (auto simp: run_case_def bindE_eq_Inr)
  show ?thesis
  proof (cases "chat env' sched (user_message (tc_prompt c))")
    case (Pair x s)
    show ?thesis
    proof (cases x)
      case (Inl e)
      then have "r = failed_case c secs (exn_str e) (graph_dict (graph_of (events s)))"
        using assms(1) Pair env' by (auto simp: run_case_def split: if_splits)
      then show ?thesis using assms(2) by (auto simp: failed_case_def TIERS_def)
    next
      case (Inr rr)
      then have "answered_case found c secs rr (graph_dict (graph_of (events s))) = Inr r"
        using assms(1) Pair env' by (simp add: run_case_def)
      note facts = answered_case_fields [OF this]
      have "chat env' sched (user_message (tc_prompt c)) = (Inr rr, s)" using Pair Inr by simp
      note cloud = chat_cloud_calls [OF this]
      show ?thesis using cloud facts by (auto simp: case_env_limits [OF env'])
    qed
  qed
qed

theorem run_case_result_witness:
  "\<exists>r. run_case (\<lambda>p body. False) offline_env (\<lambda>s ws. Step 0) 0
         \<lparr>tc_name = ''empty'', tc_category = [], tc_difficulty = [], tc_expected_route = [''local''], tc_prompt = [],
          tc_answer_pattern = Some ''x'', tc_policy = None, tc_expects = None, tc_note = []\<rparr> = Inr r
     \<and> \<not> cs_matched r \<and> cs_cloud_calls r = 0"
proof -
  let ?c = "\<lparr>tc_name = ''empty'', tc_category = [], tc_difficulty = [], tc_expected_route = [''local''], tc_prompt = [],
          tc_answer_pattern = Some ''x'', tc_policy = None, tc_expects = None, tc_note = []\<rparr>"
  obtain r where r: "run_case (\<lambda>p body. False) offline_env (\<lambda>s ws. Step 0) 0 ?c = Inr r" and e: "cs_route r = ''error''"
  proof -
    have "to_request (user_message []) = Inr \<lparr>rq_goal = [], rq_sources = [(''conversation'', ''user: '')], rq_local_extract = False\<rparr>"
      by (simp add: to_request_def check_messages_def user_message_def last_user_def transcript_def ROLES_def requireE_def field_def
          dict_get_or_def MAX_CONVERSATION_CHARS_def LOCAL_EXTRACT_COMMAND_def strip_def lstrip_def rstrip_def)
    then show thesis
      using that by (simp add: run_case_def case_env_def chat_def run_def check_request_def requireE_def failed_case_def)
  qed
  from run_case_result [OF r] e r show ?thesis by (auto simp: TIERS_def)
qed

end
