(* ===== verification/Relay_Tuning.thy ===== *)
theory Relay_Tuning
  imports Relay_Evaluation
begin

section \<open>Tuning the policy (tuning.py)\<close>

text \<open>
  Profiles of the local models on the routing tests, taken with the cloud disabled and nothing trusted, and the
  search over candidate policies that replays them.
\<close>

definition SIGNAL_KEYS :: "string list" where
  "SIGNAL_KEYS = map fst WEIGHTS"

record tier_profile =
  tp_signals :: "(string, real option) dict"
  tp_prob :: "real option"
  tp_hesitation :: "real option"
  tp_count :: "nat option"
  tp_answer_tokens :: nat
  tp_requested :: bool
  tp_empty :: bool
  tp_critic_passed :: bool
  tp_critic_severity :: real
  tp_critic_skipped :: bool
  tp_answer :: string
  tp_correct :: "bool option"

record case_profile =
  pf_name :: string
  pf_expected :: "string list"
  pf_complexity :: real
  pf_parts :: nat
  pf_tiers :: "(string, tier_profile) dict"

subsection \<open>Profiling\<close>

text \<open>The probe: the same provider with the cloud disabled and a policy that trusts no local answer.\<close>

definition probe_policy :: "policy \<Rightarrow> policy" where
  "probe_policy p = p\<lparr>rules := [], escalation_threshold := 0, tier_thresholds := [], skip_small_above := None\<rparr>"

definition probe_env :: "env \<Rightarrow> env" where
  "probe_env env = env
     \<lparr>e_limits := (e_limits env)\<lparr>cloud_enabled := False\<rparr>, e_policy := probe_policy (e_policy env), e_emit := True, e_on_delta := False\<rparr>"

text \<open>
  What \<open>collect\<close> keeps: the verdict of each tier, as the event's dictionary carries it. The last verdict of a tier
  counts; what a callback raises is swallowed by the engine.
\<close>

definition collect :: "relay_event list \<Rightarrow> (string, pydict) dict" where
  "collect es =
     foldl (\<lambda>d e.
       if ev_name e = ''local_verdict''
       then (case bindE (str_item (ev_data e) ''tier'') (\<lambda>t. bindE (dict_item (ev_data e) ''verdict'') (\<lambda>v. Inr (dict_set t v d))) of
               Inl _ \<Rightarrow> d | Inr d' \<Rightarrow> d')
       else d) [] es"

fun opt_real :: "pyval \<Rightarrow> real option" where
  "opt_real (PFloat (Fin x)) = Some x"
| "opt_real (PInt i) = Some (of_int i)"
| "opt_real _ = None"

definition stats_field :: "pydict \<Rightarrow> string \<Rightarrow> real option" where
  "stats_field sample k = (case field sample ''token_stats'' of PDict st \<Rightarrow> opt_real (field st k) | _ \<Rightarrow> None)"

fun sample_dict :: "pyval \<Rightarrow> pydict res" where
  "sample_dict (PDict d) = Inr d"
| "sample_dict _ = Inl TypeError"

definition tier_profile_of :: "(string \<Rightarrow> string \<Rightarrow> bool) \<Rightarrow> test_case \<Rightarrow> pydict \<Rightarrow> tier_profile res" where
  "tier_profile_of found c v =
     bindE (bindE (item v ''samples'') (\<lambda>ss. mapE sample_dict (elements ss))) (\<lambda>samples.
     bindE (case samples of [] \<Rightarrow> Inl IndexError | s # _ \<Rightarrow> Inr s) (\<lambda>first.
     bindE (str_item first ''answer'') (\<lambda>answer.
     bindE (dict_item v ''signals'') (\<lambda>sg.
     bindE (mapE (\<lambda>k. bindE (item sg k) (\<lambda>x. Inr (k, opt_real x))) SIGNAL_KEYS) (\<lambda>sigs.
     bindE (mapE (\<lambda>s. item s ''needs_escalation'') samples) (\<lambda>needs.
     bindE (dict_item v ''critique'') (\<lambda>cr.
     bindE (item cr ''passed'') (\<lambda>passed. bindE (real_item cr ''severity'') (\<lambda>severity. bindE (item cr ''skipped'') (\<lambda>skip.
     Inr \<lparr>tp_signals = sigs, tp_prob = stats_field first ''prob'', tp_hesitation = stats_field first ''hesitation'',
          tp_count = map_option (\<lambda>x. nat \<lfloor>x\<rfloor>) (stats_field first ''count''),
          tp_answer_tokens = fold max (map (\<lambda>s. case stats_field s ''count'' of None \<Rightarrow> 0 | Some x \<Rightarrow> nat \<lfloor>x\<rfloor>) samples) 0,
          tp_requested = list_ex truthy needs, tp_empty = (strip answer = []),
          tp_critic_passed = truthy passed, tp_critic_severity = severity, tp_critic_skipped = truthy skip,
          tp_answer = take 500 answer, tp_correct = map_option (\<lambda>p. found p answer) (wanted_pattern c)\<rparr>))))))))))"

definition profile_case :: "(string \<Rightarrow> string \<Rightarrow> bool) \<Rightarrow> env \<Rightarrow> schedule \<Rightarrow> test_case \<Rightarrow> case_profile res" where
  "profile_case found env sched c =
     (case chat (probe_env env) sched (user_message (tc_prompt c)) of
        (x, s) \<Rightarrow>
          bindE (case x of Inl e \<Rightarrow> if is_relay_error e then Inr () else Inl e | Inr _ \<Rightarrow> Inr ()) (\<lambda>_.
          bindE (mapE (\<lambda>(t, v). bindE (tier_profile_of found c v) (\<lambda>p. Inr (t, p))) (collect (events s))) (\<lambda>tiers.
          Inr \<lparr>pf_name = tc_name c, pf_expected = tc_expected_route c, pf_complexity = task_complexity (tc_prompt c),
               pf_parts = request_parts (tc_prompt c), pf_tiers = tiers\<rparr>)))"

definition unforced :: "test_case list \<Rightarrow> test_case list" where
  "unforced cases = filter (\<lambda>c. tc_policy c = None \<or> tc_policy c = Some []) cases"

definition profile :: "(string \<Rightarrow> string \<Rightarrow> bool) \<Rightarrow> env \<Rightarrow> schedule \<Rightarrow> test_case list \<Rightarrow> case_profile list res" where
  "profile found env sched cases = mapE (profile_case found env sched) (unforced cases)"

subsection \<open>Replaying profiles\<close>

record params =
  pa_weights :: "(string, real) dict"
  pa_threshold_local :: real
  pa_threshold_mid :: real
  pa_critic_min :: "real option"
  pa_skip_small_above :: "pyfloat option"
  pa_token_max :: "real option"
  pa_token_min_length :: "nat option"
  pa_token_signal :: "string option"
  pa_big_goal_parts :: "nat option"

text \<open>The loop of \<open>_combiner\<close>: the total weight and the weighted sum of the signals that are there.\<close>

fun combine_loop :: "(string, real) dict \<Rightarrow> (string, real option) dict \<Rightarrow> real \<times> real \<Rightarrow> real \<times> real" where
  "combine_loop [] sigs acc = acc"
| "combine_loop ((k, w) # ws) sigs (tot, score) =
     combine_loop ws sigs (case dict_get_or sigs k None of None \<Rightarrow> (tot, score) | Some x \<Rightarrow> (tot + w, score + w * x))"

definition combiner :: "(string, real) dict \<Rightarrow> (string, real option) dict \<Rightarrow> real" where
  "combiner ws sigs =
     (case combine_loop ws sigs (0, 0) of (tot, score) \<Rightarrow> if tot \<noteq> 0 then min 1 (score / tot) else 0)"

definition signals_of :: "params \<Rightarrow> tier_profile \<Rightarrow> (string, real option) dict" where
  "signals_of pa t =
     (if pa_token_signal pa = Some ''mean''
      then dict_set ''token_uncertainty'' (map_option (\<lambda>p. 1 - p) (tp_prob t)) (tp_signals t)
      else tp_signals t)"

definition pa_threshold :: "params \<Rightarrow> string \<Rightarrow> real" where
  "pa_threshold pa tier = (if tier = ''local'' then pa_threshold_local pa else pa_threshold_mid pa)"

text \<open>Whether the loop body reaches \<open>return tier\<close> for this tier; every \<open>continue\<close> is a conjunct that fails.\<close>

definition returns_tier :: "params \<Rightarrow> string \<Rightarrow> tier_profile \<Rightarrow> bool" where
  "returns_tier pa tier t \<longleftrightarrow>
     \<not> (tp_requested t \<or> tp_empty t)
     \<and> \<not> (case pa_critic_min pa of
            None \<Rightarrow> False
          | Some m \<Rightarrow> \<not> tp_critic_skipped t \<and> \<not> tp_critic_passed t \<and> tp_critic_severity t \<ge> m)
     \<and> \<not> (tier = ''local'' \<and>
          (case (pa_token_max pa, dict_get_or (signals_of pa t) ''token_uncertainty'' None) of
             (Some m, Some u) \<Rightarrow> u \<ge> m \<and> tp_answer_tokens t \<ge> (case pa_token_min_length pa of None \<Rightarrow> 1 | Some n \<Rightarrow> n)
           | _ \<Rightarrow> False))
     \<and> combiner (pa_weights pa) (signals_of pa t) < pa_threshold pa tier"

fun simulate_tiers :: "params \<Rightarrow> case_profile \<Rightarrow> string list \<Rightarrow> string" where
  "simulate_tiers pa prof [] = ''cloud''"
| "simulate_tiers pa prof (tier # rest) =
     (if returns_tier pa tier (the (map_of (pf_tiers prof) tier)) then tier else simulate_tiers pa prof rest)"

definition profiled_tiers :: "case_profile \<Rightarrow> string list" where
  "profiled_tiers prof = filter (\<lambda>t. map_of (pf_tiers prof) t \<noteq> None) [''local'', ''mid'']"

definition skips_first :: "params \<Rightarrow> case_profile \<Rightarrow> bool" where
  "skips_first pa prof \<longleftrightarrow> length (profiled_tiers prof) > 1
     \<and> (case pa_skip_small_above pa of None \<Rightarrow> False | Some x \<Rightarrow> ge_float (pf_complexity prof) x)"

definition simulate :: "params \<Rightarrow> case_profile \<Rightarrow> string" where
  "simulate pa prof =
     (if (case pa_big_goal_parts pa of None \<Rightarrow> False | Some n \<Rightarrow> n \<noteq> 0 \<and> pf_parts prof \<ge> n) then ''cloud''
      else simulate_tiers pa prof (if skips_first pa prof then tl (profiled_tiers prof) else profiled_tiers prof))"

definition answered_correctly :: "case_profile \<Rightarrow> string \<Rightarrow> bool" where
  "answered_correctly prof tier \<longleftrightarrow> (case map_of (pf_tiers prof) tier of None \<Rightarrow> False | Some t \<Rightarrow> tp_correct t = Some True)"

definition smaller_tiers :: "string \<Rightarrow> string list" where
  "smaller_tiers tier = takeWhile (\<lambda>t. t \<noteq> tier) [''local'', ''mid'', ''cloud'']"

record tuning_result =
  tr_objective :: real
  tr_matched :: nat
  tr_wrong_local :: nat
  tr_passed_over_correct :: nat
  tr_wasted_cloud :: nat
  tr_cloud :: nat
  tr_cases :: nat
  tr_routes :: "string list"

definition evaluate :: "params \<Rightarrow> case_profile list \<Rightarrow> tuning_result" where
  "evaluate pa profs =
     (let routed = map (\<lambda>p. (p, simulate pa p)) profs;
          matched = count_true (map (\<lambda>(p, r). r \<in> set (pf_expected p)) routed);
          cloud = count_true (map (\<lambda>(p, r). r = ''cloud'') routed);
          wrong = count_true (map (\<lambda>(p, r). r \<noteq> ''cloud'' \<and> tp_correct (the (map_of (pf_tiers p) r)) = Some False) routed);
          passed_over = sum_list (map (\<lambda>(p, r). count_true (map (answered_correctly p) (smaller_tiers r))) routed);
          wasted = count_true (map (\<lambda>(p, r). r = ''cloud'' \<and> list_ex (answered_correctly p) [''local'', ''mid'']) routed)
      in \<lparr>tr_objective = round_to 3 (real matched - 2 * real wrong - real wasted - 0.1 * (real passed_over + real cloud)),
          tr_matched = matched, tr_wrong_local = wrong, tr_passed_over_correct = passed_over, tr_wasted_cloud = wasted,
          tr_cloud = cloud, tr_cases = length profs, tr_routes = map snd routed\<rparr>)"

subsection \<open>The search\<close>

definition weight_grid :: "(string, real list) dict" where
  "weight_grid =
     [(''self_uncertainty'', [0.10, 0.25, 0.40]), (''token_uncertainty'', [0.0, 0.15, 0.30]),
      (''inconsistency'', [0.05, 0.15, 0.25]), (''critic_risk'', [0.15, 0.25, 0.40]),
      (''task_complexity'', [0.10, 0.25]), (''explicit_escalation'', [0.10])]"

definition search_thresholds :: "real list" where
  "search_thresholds = [0.20, 0.25, 0.30, 0.40, 0.50, 0.55]"

text \<open>\<open>product_lists\<close> enumerates in the order of \<open>itertools.product\<close>: the last component changes fastest.\<close>

definition weight_choices :: "(string, real) dict list" where
  "weight_choices = map (zip (map fst weight_grid)) (product_lists (map snd weight_grid))"

definition candidates :: "params list" where
  "candidates =
     concat (map (\<lambda>ws.
     concat (map (\<lambda>lt. concat (map (\<lambda>mt. concat (map (\<lambda>cm. concat (map (\<lambda>tm. concat (map (\<lambda>tl.
       concat (map (\<lambda>sig.
         if lt \<le> mt + 0.1
         then [\<lparr>pa_weights = ws, pa_threshold_local = lt, pa_threshold_mid = mt, pa_critic_min = cm, pa_skip_small_above = None,
                pa_token_max = tm, pa_token_min_length = Some tl, pa_token_signal = Some sig, pa_big_goal_parts = None\<rparr>]
         else []) [''hesitation'', ''mean''])) [1, 3])) [None, Some 0.10, Some 0.12, Some 0.15, Some 0.20])) [None, Some 0.5]))
       search_thresholds)) search_thresholds)) weight_choices)"

definition distance :: "params \<Rightarrow> real" where
  "distance pa = sum_list (map (\<lambda>(k, w). \<bar>w - dict_get_or WEIGHTS k 0\<bar>) (pa_weights pa))
     + \<bar>pa_threshold_local pa - 0.5\<bar> + \<bar>pa_threshold_mid pa - 0.5\<bar>"

text \<open>Sorting by the descending key is stable, as sorting by the negated key is.\<close>

definition rank_key :: "params \<times> tuning_result \<Rightarrow> real \<times> nat \<times> real" where
  "rank_key pr = (case pr of (pa, r) \<Rightarrow> (- tr_objective r, tr_cloud r, distance pa))"

definition search :: "case_profile list \<Rightarrow> (params \<times> tuning_result) list" where
  "search profs = take 50 (sort_key rank_key (map (\<lambda>pa. (pa, evaluate pa profs)) candidates))"

subsection \<open>What the search returns\<close>

lemma combine_loop_sums:
  "combine_loop ws sigs (tot, score) =
     (tot + sum_list (map (\<lambda>(k, w). case dict_get_or sigs k None of None \<Rightarrow> 0 | Some x \<Rightarrow> w) ws),
      score + sum_list (map (\<lambda>(k, w). case dict_get_or sigs k None of None \<Rightarrow> 0 | Some x \<Rightarrow> w * x) ws))"
  by (induction ws sigs "(tot, score)" arbitrary: tot score rule: combine_loop.induct) (auto split: option.splits)

text \<open>A sum over the entries of a dictionary as a sum over its keys.\<close>

lemma dict_sum:
  fixes f :: "'k \<Rightarrow> 'v \<Rightarrow> real"
  assumes "dict_ok d"
  shows "sum_list (map (\<lambda>(k, v). f k v) d) = (\<Sum>k \<in> dom (map_of d). f k (the (map_of d k)))"
  using assms
proof (induction d)
  case (Cons kv d)
  obtain k v where kv: "kv = (k, v)" by (cases kv)
  have fresh: "k \<notin> dom (map_of d)" and ok: "dict_ok d" using Cons.prems by (auto simp: dict_ok_def kv dom_map_of_conv_image_fst)
  have "(\<Sum>x \<in> dom (map_of d). f x (the (map_of (kv # d) x))) = (\<Sum>x \<in> dom (map_of d). f x (the (map_of d x)))"
    using fresh by (intro sum.cong) (auto simp: kv)
  moreover have "dom (map_of (kv # d)) = insert k (dom (map_of d))" by (auto simp: kv)
  ultimately have "(\<Sum>x \<in> dom (map_of (kv # d)). f x (the (map_of (kv # d) x))) = f k v + (\<Sum>x \<in> dom (map_of d). f x (the (map_of d x)))"
    using fresh by (simp add: finite_dom_map_of) (simp add: kv)
  then show ?case using Cons.IH [OF ok] by (simp only: kv list.map sum_list.Cons prod.case)
qed simp

lemma weighted_sum:
  fixes g :: "real \<times> real \<Rightarrow> real"
  assumes "dict_ok vals"
  shows "sum_list (map g (weighted ws vals)) =
    (\<Sum>k \<in> dom (map_of vals). case (the (map_of vals k), map_of ws k) of (Some x, Some w) \<Rightarrow> g (w, x) | _ \<Rightarrow> 0)"
proof -
  have "sum_list (map g (weighted ws vals)) = sum_list (map (\<lambda>(k, v). case (v, map_of ws k) of (Some x, Some w) \<Rightarrow> g (w, x) | _ \<Rightarrow> 0) vals)"
    by (induction vals) (auto simp: weighted_def split: option.splits)
  also have "\<dots> = (\<Sum>k \<in> dom (map_of vals). case (the (map_of vals k), map_of ws k) of (Some x, Some w) \<Rightarrow> g (w, x) | _ \<Rightarrow> 0)"
    by (rule dict_sum [OF assms])
  finally show ?thesis .
qed

lemma loop_sum:
  fixes g :: "real \<times> real \<Rightarrow> real"
  assumes "dict_ok ws" "dict_ok vals"
  shows "sum_list (map (\<lambda>(k, w). case dict_get_or vals k None of None \<Rightarrow> 0 | Some x \<Rightarrow> g (w, x)) ws) = sum_list (map g (weighted ws vals))"
proof -
  let ?f = "\<lambda>k. case (map_of vals k, map_of ws k) of (Some (Some x), Some w) \<Rightarrow> g (w, x) | _ \<Rightarrow> 0"
  have "sum_list (map (\<lambda>(k, w). case dict_get_or vals k None of None \<Rightarrow> 0 | Some x \<Rightarrow> g (w, x)) ws)
      = (\<Sum>k \<in> dom (map_of ws). case dict_get_or vals k None of None \<Rightarrow> 0 | Some x \<Rightarrow> g (the (map_of ws k), x))"
    by (rule dict_sum [OF assms(1)])
  also have "\<dots> = (\<Sum>k \<in> dom (map_of ws) \<union> dom (map_of vals). ?f k)"
    by (rule sum.mono_neutral_cong_left) (auto simp: finite_dom_map_of dict_get_or_def split: option.splits)
  also have "\<dots> = (\<Sum>k \<in> dom (map_of vals). case (the (map_of vals k), map_of ws k) of (Some x, Some w) \<Rightarrow> g (w, x) | _ \<Rightarrow> 0)"
    by (rule sum.mono_neutral_cong_right) (auto simp: finite_dom_map_of split: option.splits)
  also have "\<dots> = sum_list (map g (weighted ws vals))" by (rule weighted_sum [OF assms(2), symmetric])
  finally show ?thesis .
qed

text \<open>
  The tuner scores a profile as the policy would. For weights and signals that are not negative, with distinct
  keys, the closure of \<open>_combiner\<close> computes the same combined score as \<open>RoutingPolicy.combine\<close>, whichever order
  the signals come in and whichever of them are missing.
\<close>

theorem combiner_is_combine:
  assumes "dict_ok (weights p)" "dict_ok vals"
    and "\<And>k w. map_of (weights p) k = Some w \<Longrightarrow> 0 \<le> w" "\<And>k x. (k, Some x) \<in> set vals \<Longrightarrow> 0 \<le> x"
  shows "combiner (weights p) vals = combine p vals"
proof -
  let ?av = "weighted (weights p) vals"
  have tot: "sum_list (map (\<lambda>(k, w). case dict_get_or vals k None of None \<Rightarrow> 0 | Some x \<Rightarrow> w) (weights p)) = sum_list (map fst ?av)"
    using loop_sum [OF assms(1,2), of fst, unfolded fst_conv] .
  have score: "sum_list (map (\<lambda>(k, w). case dict_get_or vals k None of None \<Rightarrow> 0 | Some x \<Rightarrow> w * x) (weights p)) = sum_list (map (\<lambda>(w, x). w * x) ?av)"
    using loop_sum [OF assms(1,2), of "\<lambda>(w, x). w * x", unfolded prod.case] .
  have "0 \<le> sum_list (map fst ?av)" "0 \<le> sum_list (map (\<lambda>(w, x). w * x) ?av)"
    using assms(3,4) by (auto intro!: sum_list_nonneg mult_nonneg_nonneg dest!: weighted_in)
  then show ?thesis
    by (simp add: combiner_def combine_loop_sums tot score combine_def Let_def clamp_def max_def)
qed

theorem combiner_is_combine_witness:
  "combiner (weights default_policy) [(''critic_risk'', Some 0.2), (''token_uncertainty'', None), (''self_uncertainty'', Some 1)]
     = combine default_policy [(''critic_risk'', Some 0.2), (''token_uncertainty'', None), (''self_uncertainty'', Some 1)]"
  by (rule combiner_is_combine) (auto simp: default_policy_def WEIGHTS_def dict_ok_def split: if_splits)

text \<open>
  What the search promises. Every pair it returns is a candidate of the grid with its own evaluation, and their
  ranks are the fifty best ranks of all candidates, best first: by objective, then by fewer cloud routes, then by
  distance from the defaults.
\<close>

lemma search_returns_best:
  "set (search profs) \<subseteq> (\<lambda>pa. (pa, evaluate pa profs)) ` set candidates
   \<and> map rank_key (search profs) = take 50 (sort (map (\<lambda>pa. rank_key (pa, evaluate pa profs)) candidates))"
proof -
  define all where "all = map (\<lambda>pa. (pa, evaluate pa profs)) candidates"
  have search: "search profs = take 50 (sort_key rank_key all)" by (simp only: search_def all_def)
  have "map rank_key (sort_key rank_key all) = sort (map rank_key all)"
    by (rule properties_for_sort [symmetric]) simp_all
  moreover have "set (search profs) \<subseteq> set all" using set_take_subset [of 50 "sort_key rank_key all"] by (simp add: search)
  ultimately show ?thesis by (simp only: search take_map [symmetric]) (simp add: all_def comp_def)
qed

lemma probe_escalates:
  assumes "evidence_ok samples crit"
  shows "vd_escalate (decide (probe_policy p) tier goal samples crit)"
  using policy_signals_ok [OF assms, of "probe_policy p" goal]
  by (auto simp: decide_def Let_def probe_policy_def first_rule.simps threshold_def dict_get_or_def signals_ok_def unit_interval_def base_verdict_def)

text \<open>
  Profiling is free. A probe makes no cloud call, whatever the conversation, and its policy trusts no local
  answer, so every local model is asked and judged.
\<close>

theorem profiling_is_free:
  assumes "evidence_ok samples crit"
  shows "cloud_made (snd (chat (probe_env env) sched conversation)) = 0
    \<and> vd_escalate (decide (e_policy (probe_env env)) tier goal samples crit)"
proof
  show "cloud_made (snd (chat (probe_env env) sched conversation)) = 0"
  proof (cases "to_request conversation")
    case (Inr q)
    then show ?thesis
      using run_books.run_holds [of "probe_env env" sched "rq_goal q" "rq_sources q" "rq_local_extract q"]
      by (simp add: chat_def books_ok_def probe_env_def)
  qed (simp add: chat_def Run_init_def cloud_made_def call_kinds_def)
  show "vd_escalate (decide (e_policy (probe_env env)) tier goal samples crit)"
    using probe_escalates [OF assms] by (simp add: probe_env_def)
qed

theorem profiling_is_free_witness:
  "\<exists>samples crit. samples \<noteq> [] \<and> cloud_made (snd (chat (probe_env offline_env) (\<lambda>s ws. Step 0) (user_message ''Hi''))) = 0
     \<and> vd_escalate (decide (e_policy (probe_env offline_env)) ''local'' ''Hi'' samples crit)"
proof -
  let ?s = "\<lparr>as_answer = ''Hello'', as_confidence = 1, as_task_type = ''chat'', as_difficulty = ''low'', as_needs_escalation = False,
             as_reason = [], as_structured = True, as_repaired = False, as_token_prob = None, as_token_stats = None\<rparr>"
  let ?c = "\<lparr>cr_passed = True, cr_severity = 0, cr_critique = [], cr_skipped = False, cr_tier = ''local''\<rparr>"
  have "evidence_ok [?s] ?c" by (simp add: evidence_ok_def sample_ok_def)
  from profiling_is_free [OF this] show ?thesis by blast
qed

subsection \<open>The statistic that is not read\<close>

text \<open>
  The share of hesitant tokens that a profile records is never read: replaying the profiles gives the same routes whatever it is, also under a
  candidate whose token statistic is \<open>hesitation\<close>.
\<close>

definition with_hesitation :: "real option \<Rightarrow> case_profile \<Rightarrow> case_profile" where
  "with_hesitation h prof = prof\<lparr>pf_tiers := map (\<lambda>(k, t). (k, t\<lparr>tp_hesitation := h\<rparr>)) (pf_tiers prof)\<rparr>"

lemma tiers_with_hesitation: "map_of (pf_tiers (with_hesitation h prof)) k = map_option (\<lambda>t. t\<lparr>tp_hesitation := h\<rparr>) (map_of (pf_tiers prof) k)"
  by (simp add: with_hesitation_def map_of_map)

lemma rest_with_hesitation [simp]:
  "pf_complexity (with_hesitation h prof) = pf_complexity prof" "pf_parts (with_hesitation h prof) = pf_parts prof"
  by (simp_all add: with_hesitation_def)

lemma hesitation_never_read: "simulate pa (with_hesitation h prof) = simulate pa prof"
proof -
  have sig: "signals_of pa (t\<lparr>tp_hesitation := h\<rparr>) = signals_of pa t" for t by (simp add: signals_of_def)
  have returns: "returns_tier pa tier (t\<lparr>tp_hesitation := h\<rparr>) = returns_tier pa tier t" for tier t
    by (simp add: returns_tier_def sig cong: option.case_cong)
  have tiers: "profiled_tiers (with_hesitation h prof) = profiled_tiers prof"
    by (simp add: profiled_tiers_def tiers_with_hesitation)
  have loop: "simulate_tiers pa (with_hesitation h prof) ts = simulate_tiers pa prof ts" if "\<forall>t \<in> set ts. map_of (pf_tiers prof) t \<noteq> None" for ts
    using that by (induction ts) (auto simp: tiers_with_hesitation returns)
  have known: "\<forall>t \<in> set (profiled_tiers prof). map_of (pf_tiers prof) t \<noteq> None" by (simp only: profiled_tiers_def set_filter) blast
  then have "\<forall>t \<in> set (tl (profiled_tiers prof)). map_of (pf_tiers prof) t \<noteq> None" by (cases "profiled_tiers prof") simp_all
  with known loop have "simulate_tiers pa (with_hesitation h prof) (profiled_tiers prof) = simulate_tiers pa prof (profiled_tiers prof)"
      "simulate_tiers pa (with_hesitation h prof) (tl (profiled_tiers prof)) = simulate_tiers pa prof (tl (profiled_tiers prof))"
    by blast+
  moreover have "skips_first pa (with_hesitation h prof) = skips_first pa prof"
    by (simp add: skips_first_def tiers split: option.split)
  ultimately show ?thesis by (simp add: simulate_def tiers split: option.split)
qed

end
