(* ===== verification/Relay_Stream.thy ===== *)
theory Relay_Stream
  imports Relay_Evaluation
begin

section \<open>What the user sees of a run (horizon\_relay\_pipe.py)\<close>

text \<open>
  The part of the Open WebUI adapter that shows a run: the status line and the decision graph while it runs, and the
  streamed reply. What the adapter sends to the browser is a list of messages; what it streams is a list of pieces. The
  page template of the graph is an argument.
\<close>

subsection \<open>Status lines and graph updates\<close>

definition GRAPH_UPDATES :: "string list" where
  "GRAPH_UPDATES = [''local_skipped'', ''local_solve'', ''local_sample'', ''local_critique'', ''local_verdict'', ''extract_failed'', ''escalated'',
     ''local_accepted'', ''answering'', ''plan_invalid'', ''plan_created'', ''task_started'', ''task_escalated'',
     ''task_invalid'', ''task_completed'', ''synthesizing'']"

text \<open>Messages to the browser: a status line, or embeds that replace the message's embeds.\<close>

datatype ui_message = Status string bool | Embeds "string list"

definition status :: "string \<Rightarrow> bool \<Rightarrow> ui_message" where
  "status description fin = Status description fin"

definition graph_embed :: "string \<Rightarrow> run_graph \<Rightarrow> ui_message" where
  "graph_embed template g = Embeds [render_html template (graph_dict g)]"

definition lane_model :: "run_graph \<Rightarrow> string \<Rightarrow> string" where
  "lane_model g tier =
     (case find (\<lambda>l. ln_id l = tier) (g_lanes g) of None \<Rightarrow> tier | Some l \<Rightarrow> last (split_char (CHR ''/'') (ln_model l)))"

definition plan_item :: "run_graph \<Rightarrow> pyval \<Rightarrow> string res" where
  "plan_item g t =
     (case t of
        PDict d \<Rightarrow> bindE (str_item d ''instruction'') (\<lambda>what. bindE (str_item d ''preferred_tier'') (\<lambda>tier.
          Inr (take 60 what @ '' '' @ ch_rarrow @ '' '' @ lane_model g tier)))
      | _ \<Rightarrow> Inl TypeError)"

definition verdict_line :: "run_graph \<Rightarrow> pydict \<Rightarrow> string res" where
  "verdict_line g data =
     bindE (dict_at data ''verdict'') (\<lambda>v.
     bindE (at_key v ''escalate'') (\<lambda>esc.
     bindE (str_item data ''tier'') (\<lambda>tier.
     bindE (str_item v ''reason'') (\<lambda>reason.
       Inr (lane_model g tier @ '': '' @ reason @ '' '' @ ch_emdash @ '' '' @ (if truthy esc then ''escalating'' else ''answer trusted''))))))"

definition working_line :: "run_graph \<Rightarrow> pydict \<Rightarrow> string res" where
  "working_line g data =
     bindE (str_item data ''tier'') (\<lambda>tier.
     bindE (str_item data ''task_id'') (\<lambda>task_id.
     bindE (as_text (dict_get_or (dict_get_or (g_nodes g) task_id []) ''instruction'' (PStr task_id))) (\<lambda>what.
       Inr (lane_model g tier @ '' working on: '' @ take 90 what))))"

definition status_line :: "relay_event \<Rightarrow> run_graph \<Rightarrow> string option res" where
  "status_line e g =
     (let name = ev_name e; data = ev_data e
      in if name = ''run_started'' then Inr (Some ''Starting'')
         else if name = ''local_verdict'' then bindE (verdict_line g data) (\<lambda>l. Inr (Some l))
         else if name = ''plan_created'' then
           bindE (iterate (dict_get_or data ''tasks'' (PList []))) (\<lambda>tasks.
           bindE (mapE (plan_item g) tasks) (\<lambda>items.
             Inr (Some (''Planned '' @ show_nat (length tasks) @ '' subtasks: '' @ join '', '' items))))
         else if name = ''task_started'' then bindE (working_line g data) (\<lambda>l. Inr (Some l))
         else if name \<in> set [''local_solve'', ''local_sample'', ''local_critique'', ''local_skipped'', ''escalated'', ''answering'',
                ''task_escalated'', ''task_invalid'', ''task_completed'', ''synthesizing'', ''plan_invalid''] \<or> ev_done e
         then Inr (Some (ev_message e))
         else Inr None)"

text \<open>
  \<open>graph_emitter\<close>: the callback for one event. The engine swallows what a callback raises, so an exception ends the
  event's handling there, and what was sent stays sent. A handler raises only on an event that lacks a field the engine
  always sends; what such a handler changed before it raised is not modelled, the graph is the one before the event.
\<close>

definition emit_event :: "string \<Rightarrow> bool \<Rightarrow> relay_event \<Rightarrow> run_graph \<Rightarrow> ui_message list \<times> run_graph" where
  "emit_event template statuses e g =
     (case add_event e g of
        Inl _ \<Rightarrow> ([], g)
      | Inr g' \<Rightarrow>
          (let embed = (if ev_name e \<in> set GRAPH_UPDATES \<or> ev_done e then [graph_embed template g'] else []);
               pre = (if ev_simulated e then ''[SIMULATED] '' else [])
           in (embed @ (case (if statuses then status_line e g' else Inr None) of
                          Inr (Some l) \<Rightarrow> if l \<noteq> [] then [status (pre @ l) (ev_done e)] else []
                        | _ \<Rightarrow> []), g')))"

fun graph_emitter :: "string \<Rightarrow> bool \<Rightarrow> relay_event list \<Rightarrow> run_graph \<Rightarrow> ui_message list" where
  "graph_emitter template statuses [] g = []"
| "graph_emitter template statuses (e # es) g =
     (case emit_event template statuses e g of (out, g') \<Rightarrow> out @ graph_emitter template statuses es g')"

subsection \<open>The streamed reply\<close>

text \<open>\<open>re.search(r"(\d+(?:\.\d+)?B)", name or "", re.I)\<close>.\<close>

definition size_pattern :: re where
  "size_pattern = rseqs [rplus (RSat is_digit), ropt (RSeq (rlit ''.'') (rplus (RSat is_digit))), RSat (\<lambda>c. c = CHR ''B'' \<or> c = CHR ''b'')]"

definition short_model :: "string \<Rightarrow> string" where
  "short_model name = (case re_search size_pattern name of None \<Rightarrow> name | Some (a, m, b, g) \<Rightarrow> m)"

text \<open>The call a chunk of text belongs to, as \<open>on_delta\<close> receives it.\<close>

record delta_call =
  dl_tier :: string
  dl_model :: string
  dl_operation :: string
  dl_kind :: string
  dl_attempt :: int
  dl_task_id :: "string option"

text \<open>A missing model, kind or attempt is the empty text or zero, which the code treats alike.\<close>

definition step_name :: "delta_call \<Rightarrow> string" where
  "step_name c =
     dict_get_or
       [(''solve'', ''answer '' @ show_int (if dl_attempt c = 0 then 1 else dl_attempt c)), (''critique'', ''checking the answer''),
        (''plan'', ''planning''), (''attempt'', ''exact extraction''),
        (''work'', ''subtask '' @ (case dl_task_id c of None \<Rightarrow> ''None'' | Some t \<Rightarrow> t)),
        (''synthesize'', ''writing the answer''), (''answer'', ''answering'')] (dl_operation c) (dl_operation c)"

definition step_heading :: "delta_call \<Rightarrow> (string, string) dict \<Rightarrow> string" where
  "step_heading c models =
     short_model (if dl_model c \<noteq> [] then dl_model c else dict_get_or models (dl_tier c) (dl_tier c)) @ '' '' @ ch_middot @ '' '' @ step_name c"

text \<open>
  What is yielded, piece by piece. The reader of the message sees their texts in a row; keeping the marks apart from
  the model's text lets the properties speak of the block structure.
\<close>

datatype piece = Think | EndThink | Fence | EndFence | Heading bool string | Body string

fun show_piece :: "piece \<Rightarrow> string" where
  "show_piece Think = ''<think>''"
| "show_piece EndThink = ''</think>'' @ newline @ newline"
| "show_piece Fence = ''```json'' @ newline"
| "show_piece EndFence = newline @ ''```'' @ newline"
| "show_piece (Heading later h) = (if later then newline @ newline else []) @ ''**'' @ h @ ''**'' @ newline"
| "show_piece (Body s) = s"

record stream_state =
  sm_thinking :: bool
  sm_answered :: bool
  sm_heading :: "string option"
  sm_fenced :: bool
  sm_fresh :: bool

definition stream_init :: stream_state where
  "stream_init = \<lparr>sm_thinking = False, sm_answered = False, sm_heading = None, sm_fenced = False, sm_fresh = False\<rparr>"

definition close_fence :: "stream_state \<Rightarrow> piece list \<times> stream_state" where
  "close_fence s = (if sm_fenced s then ([EndFence], s\<lparr>sm_fenced := False\<rparr>) else ([], s))"

definition close_thinking :: "stream_state \<Rightarrow> piece list \<times> stream_state" where
  "close_thinking s =
     (if sm_thinking s
      then (case close_fence (s\<lparr>sm_thinking := False\<rparr>) of (ps, s') \<Rightarrow> (ps @ [EndThink], s')) else ([], s))"

definition open_step :: "(string, string) dict \<Rightarrow> delta_call \<Rightarrow> stream_state \<Rightarrow> piece list \<times> stream_state" where
  "open_step models c s =
     (let h = step_heading c models;
          (head, s) = (if sm_heading s \<noteq> Some h
                       then (case close_fence s of (ps, s') \<Rightarrow>
                               (ps @ [Heading (sm_heading s' \<noteq> None \<and> sm_heading s' \<noteq> Some []) h], s'\<lparr>sm_heading := Some h\<rparr>))
                       else ([], s));
          wants_fence = (dl_kind c \<noteq> ''thinking'')
      in if wants_fence \<and> \<not> sm_fenced s then (head @ [Fence], s\<lparr>sm_fenced := True, sm_fresh := True\<rparr>)
         else if \<not> wants_fence \<and> sm_fenced s then (case close_fence s of (ps, s') \<Rightarrow> (head @ ps, s'))
         else (head, s))"

text \<open>One chunk: text of the final answer goes to the message itself, everything else into the thinking block.\<close>

definition is_answer :: "delta_call \<Rightarrow> bool" where
  "is_answer c \<longleftrightarrow> dl_operation c \<in> {''synthesize'', ''answer''} \<and> dl_kind c \<noteq> ''thinking''"

definition on_delta :: "(string, string) dict \<Rightarrow> delta_call \<times> string \<Rightarrow> stream_state \<Rightarrow> piece list \<times> stream_state" where
  "on_delta models d s =
     (case d of (c, payload) \<Rightarrow>
        if is_answer c
        then (case close_thinking (s\<lparr>sm_answered := True\<rparr>) of (ps, s') \<Rightarrow> (ps @ [Body payload], s'))
        else (let start = (if sm_thinking s then [] else [Think])
              in case open_step models c (s\<lparr>sm_thinking := True\<rparr>) of (ps, s') \<Rightarrow>
                   if sm_fresh s'
                   then (let p = lstrip_chars newline payload in (start @ ps @ [Body p], s'\<lparr>sm_fresh := (strip p = [])\<rparr>))
                   else (start @ ps @ [Body payload], s')))"

text \<open>How the run ended, as the queue's last entry says it. A run that was cancelled leaves no entry: nobody reads on.\<close>

definition stop_text :: "string \<Rightarrow> string" where
  "stop_text why = ''**Relay stopped '' @ ch_emdash @ '' no complete answer.** '' @ why"

definition last_pieces :: "run_result res \<Rightarrow> stream_state \<Rightarrow> piece list" where
  "last_pieces r s =
     (case close_thinking s of (ps, s') \<Rightarrow>
        (case r of
           Inl e \<Rightarrow> if is_cancellation e then []
                    else ps @ [Body (stop_text (if is_relay_error e then exn_str e else ''The relay stopped unexpectedly.''))]
         | Inr rr \<Rightarrow> ps @ [Body ((if sm_answered s' then [] else rr_content rr) @ newline @ newline @ ''---'' @ newline @ summary rr)]))"

fun stream_from :: "(string, string) dict \<Rightarrow> (delta_call \<times> string) list \<Rightarrow> run_result res \<Rightarrow> stream_state \<Rightarrow> piece list" where
  "stream_from models [] r s = last_pieces r s"
| "stream_from models (d # ds) r s = (case on_delta models d s of (ps, s') \<Rightarrow> ps @ stream_from models ds r s')"

definition stream_relay :: "(string, string) dict \<Rightarrow> (delta_call \<times> string) list \<Rightarrow> run_result res \<Rightarrow> piece list" where
  "stream_relay models ds r = stream_from models ds r stream_init"

subsection \<open>The structure of a streamed reply\<close>

text \<open>Reading the pieces: whether a thinking block and whether a fenced block is open; \<open>None\<close> when a mark is out of place.\<close>

fun nest :: "bool \<times> bool \<Rightarrow> piece list \<Rightarrow> (bool \<times> bool) option" where
  "nest st [] = Some st"
| "nest (t, f) (Think # ps) = (if t \<or> f then None else nest (True, f) ps)"
| "nest (t, f) (EndThink # ps) = (if t \<and> \<not> f then nest (False, f) ps else None)"
| "nest (t, f) (Fence # ps) = (if t \<and> \<not> f then nest (t, True) ps else None)"
| "nest (t, f) (EndFence # ps) = (if t \<and> f then nest (t, False) ps else None)"
| "nest (t, f) (Heading l h # ps) = (if t \<and> \<not> f then nest (t, f) ps else None)"
| "nest (t, f) (Body s # ps) = nest (t, f) ps"

text \<open>The text outside thinking blocks, which is the message the user sees.\<close>

fun visible :: "bool \<Rightarrow> piece list \<Rightarrow> string" where
  "visible t [] = []"
| "visible t (Think # ps) = visible True ps"
| "visible t (EndThink # ps) = visible False ps"
| "visible t (Body s # ps) = (if t then [] else s) @ visible t ps"
| "visible t (_ # ps) = visible t ps"

lemma nest_append: "nest st ps = Some st' \<Longrightarrow> nest st (ps @ qs) = nest st' qs"
  by (induction st ps rule: nest.induct) (auto split: if_splits)

definition fences_ok :: "stream_state \<Rightarrow> bool" where
  "fences_ok s \<longleftrightarrow> (sm_fenced s \<longrightarrow> sm_thinking s)"

abbreviation marks :: "stream_state \<Rightarrow> bool \<times> bool" where
  "marks s \<equiv> (sm_thinking s, sm_fenced s)"

lemma on_delta_step:
  assumes "fences_ok s" and "on_delta models d s = (ps, s')"
  shows "fences_ok s' \<and> nest (marks s) ps = Some (marks s')
    \<and> visible (sm_thinking s) (ps @ qs) = (if is_answer (fst d) then snd d else []) @ visible (sm_thinking s') qs
    \<and> sm_answered s' = (sm_answered s \<or> is_answer (fst d))"
  using assms
  by (cases d) (auto simp: on_delta_def close_thinking_def close_fence_def open_step_def fences_ok_def Let_def split: if_splits)

lemma last_pieces_step:
  assumes "fences_ok s" and "\<not> (\<exists>e. r = Inl e \<and> is_cancellation e)"
  shows "nest (marks s) (last_pieces r s) = Some (False, False)"
  using assms by (auto simp: last_pieces_def close_thinking_def close_fence_def fences_ok_def split: sum.splits)

lemma stream_from_nest:
  assumes "fences_ok s" and "\<not> (\<exists>e. r = Inl e \<and> is_cancellation e)"
  shows "nest (marks s) (stream_from models ds r s) = Some (False, False)"
  using assms(1)
proof (induction ds arbitrary: s)
  case Nil
  then show ?case using last_pieces_step assms(2) by simp
next
  case (Cons d ds)
  obtain ps s' where d: "on_delta models d s = (ps, s')" by fastforce
  from on_delta_step [OF Cons.prems d] have "fences_ok s'" "nest (marks s) ps = Some (marks s')" by auto
  then show ?case using Cons.IH nest_append by (simp add: d)
qed

lemma stream_from_visible:
  assumes "fences_ok s"
  shows "visible (sm_thinking s) (stream_from models ds (Inr rr) s)
    = concat (map snd (filter (is_answer \<circ> fst) ds))
      @ (if sm_answered s \<or> list_ex (is_answer \<circ> fst) ds then [] else rr_content rr) @ newline @ newline @ ''---'' @ newline @ summary rr"
  using assms
proof (induction ds arbitrary: s)
  case Nil
  then show ?case by (auto simp: last_pieces_def close_thinking_def close_fence_def)
next
  case (Cons d ds)
  obtain ps s' where d: "on_delta models d s = (ps, s')" by fastforce
  from on_delta_step [OF Cons.prems d] show ?case using Cons.IH [of s'] by (auto simp: d)
qed

lemma fences_ok_init: "fences_ok stream_init"
  by (simp add: fences_ok_def stream_init_def)




end
