(* ===== verification/OWUI_History.thy ===== *)
theory OWUI_History
  imports Py_Regex
begin

section \<open>Chat histories of Open WebUI (models/chats.py, utils/misc.py)\<close>

text \<open>
  A chat keeps its messages as a dictionary from message ids to messages; each message names its parent
  (\<open>parentId\<close>) and lists its children (\<open>childrenIds\<close>), and the history points at one of them (\<open>currentId\<close>). The
  functions here clean, walk, merge, repair and edit that graph. Messages come from clients, so no field has a
  certain type: every value is a \<open>pyval\<close> and every misuse is the exception Python raises (\<open>OtherError\<close> is an
  \<open>AttributeError\<close>). In-place mutation of a dictionary is the returned new dictionary. Keys of the message
  dictionary are texts, as in JSON.
\<close>

subsection \<open>Reading values\<close>

text \<open>\<open>d.get(k)\<close>, and \<open>d.get(k) if isinstance(d.get(k), T) else T()\<close> for dictionaries and lists.\<close>

definition dget :: "pydict \<Rightarrow> string \<Rightarrow> pyval" where
  "dget d k = dict_get_or d k PNone"

fun is_dict :: "pyval \<Rightarrow> bool" where
  "is_dict (PDict d) = True"
| "is_dict _ = False"

fun dict_or_empty :: "pyval \<Rightarrow> pydict" where
  "dict_or_empty (PDict d) = d"
| "dict_or_empty _ = []"

fun list_or_empty :: "pyval \<Rightarrow> pyval list" where
  "list_or_empty (PList vs) = vs"
| "list_or_empty _ = []"

text \<open>\<open>v in d\<close> and \<open>d.get(v)\<close> for a dictionary with text keys and any \<open>v\<close>; \<open>v.get(k)\<close> for any \<open>v\<close>.\<close>

definition key_in :: "pyval \<Rightarrow> pydict \<Rightarrow> bool res" where
  "key_in v d = (if hashable v then Inr (case v of PStr s \<Rightarrow> map_of d s \<noteq> None | _ \<Rightarrow> False) else Inl TypeError)"

definition lookup_key :: "pyval \<Rightarrow> pydict \<Rightarrow> pyval option res" where
  "lookup_key v d = (if hashable v then Inr (case v of PStr s \<Rightarrow> map_of d s | _ \<Rightarrow> None) else Inl TypeError)"

definition value_get :: "pyval \<Rightarrow> string \<Rightarrow> pyval res" where
  "value_get v k = (case v of PDict d \<Rightarrow> Inr (dget d k) | _ \<Rightarrow> Inl OtherError)"

text \<open>\<open>v or []\<close> used as an iterable, filtered by a test that may raise.\<close>

fun filterE :: "('a \<Rightarrow> bool res) \<Rightarrow> 'a list \<Rightarrow> 'a list res" where
  "filterE p [] = Inr []"
| "filterE p (x # xs) = bindE (p x) (\<lambda>b. bindE (filterE p xs) (\<lambda>ys. Inr (if b then x # ys else ys)))"

definition items_of :: "pyval \<Rightarrow> pyval list res" where
  "items_of v = (if truthy v then iterate v else Inr [])"

subsection \<open>Cleaning text for the database\<close>

text \<open>\<open>sanitize_text_for_db\<close>: surrogates are not characters of this model's texts, so only null bytes go.\<close>

definition sanitize_text_for_db :: "string \<Rightarrow> string" where
  "sanitize_text_for_db s = (if CHR 0x00 \<notin> set s then s else filter (\<lambda>c. c \<noteq> CHR 0x00) s)"

fun strip_null_bytes_deep :: "pyval \<Rightarrow> pyval" where
  "strip_null_bytes_deep (PStr s) = PStr (sanitize_text_for_db s)"
| "strip_null_bytes_deep (PDict d) =
     PDict (dict_update [] (map (\<lambda>(k, v). (sanitize_text_for_db k, strip_null_bytes_deep v)) d))"
| "strip_null_bytes_deep (PList vs) = PList (map strip_null_bytes_deep vs)"
| "strip_null_bytes_deep v = v"

text \<open>The text \<open>\\u0000\<close> whose absence from the serialised value lets the walk be skipped.\<close>

definition null_escape :: string where
  "null_escape = [CHR 0x5C, CHR ''u'', CHR ''0'', CHR ''0'', CHR ''0'', CHR ''0'']"

definition sanitize_data_for_db :: "pyval \<Rightarrow> pyval" where
  "sanitize_data_for_db v =
     (case v of PStr s \<Rightarrow> PStr (sanitize_text_for_db s)
      | _ \<Rightarrow> if \<not> contains null_escape (json_dumps v) then v else strip_null_bytes_deep v)"

subsection \<open>Walking\<close>

text \<open>
  The messages a walk has not visited yet. A step from a message of the map to the next id makes them fewer,
  which is why the walks below end on every map, cyclic ones included.
\<close>

definition unvisited :: "pydict \<Rightarrow> pyval list \<Rightarrow> nat" where
  "unvisited M visited = card (PStr ` fst ` set M - set visited)"

definition message_at :: "pyval \<Rightarrow> pydict \<Rightarrow> pyval option" where
  "message_at v M = (case v of PStr s \<Rightarrow> map_of M s | _ \<Rightarrow> None)"

lemma unvisited_less:
  assumes "message_at v M = Some m" and "v \<notin> set visited"
  shows "unvisited M (v # visited) < unvisited M visited"
proof -
  have "v \<in> PStr ` fst ` set M - set visited"
    using assms by (auto simp: message_at_def image_iff split: pyval.splits dest!: map_of_SomeD) force
  moreover have "PStr ` fst ` set M - set (v # visited) = (PStr ` fst ` set M - set visited) - {v}" by auto
  ultimately show ?thesis unfolding unvisited_def by (metis List.finite_set card_Diff1_less finite_Diff finite_imageI)
qed

text \<open>\<open>get_message_list\<close>: the messages from the root to the given one, following \<open>parentId\<close>.\<close>

function message_walk :: "pydict \<Rightarrow> pyval \<Rightarrow> pyval list \<Rightarrow> pyval list \<Rightarrow> pyval list res" where
  "message_walk M message_id visited acc =
     (case message_at message_id M of None \<Rightarrow> Inr acc
      | Some m \<Rightarrow>
          if \<not> truthy m \<or> message_id \<in> set visited then Inr acc
          else (case value_get m ''parentId'' of Inl e \<Rightarrow> Inl e
                | Inr parent \<Rightarrow>
                    if \<not> truthy parent then Inr (m # acc)
                    else if \<not> hashable parent then Inl TypeError
                    else message_walk M parent (message_id # visited) (m # acc)))"
  by pat_completeness auto
termination
  by (relation "measure (\<lambda>(M, i, visited, acc). unvisited M visited)") (auto simp: unvisited_less)

declare message_walk.simps [simp del]

definition get_message_list :: "pydict \<Rightarrow> string \<Rightarrow> pyval list res" where
  "get_message_list M message_id = message_walk M (PStr message_id) [] []"

text \<open>\<open>get_unresolved_parent_ids\<close>.\<close>

definition get_unresolved_parent_ids :: "pydict \<Rightarrow> pyval set res" where
  "get_unresolved_parent_ids M =
     bindE (mapE (\<lambda>(k, m). bindE (value_get m ''parentId'') (\<lambda>p.
       if truthy p then bindE (key_in p M) (\<lambda>b. Inr (if b then [] else [p])) else Inr [])) M) (\<lambda>pss.
       Inr (set (concat pss)))"

text \<open>\<open>get_current_message_id\<close>.\<close>

fun last_with_id :: "pyval list \<Rightarrow> pyval" where
  "last_with_id [] = PNone"
| "last_with_id (m # rest) =
     (case m of PDict d \<Rightarrow> if truthy (dget d ''id'') then dget d ''id'' else last_with_id rest | _ \<Rightarrow> last_with_id rest)"

definition get_current_message_id :: "pydict \<Rightarrow> pyval" where
  "get_current_message_id chat =
     (let current = dget (dict_or_empty (dget chat ''history'')) ''currentId'';
          current = (if truthy current then current else dget chat ''currentId'');
          current = (if truthy current then current else dget chat ''branchPointMessageId'')
      in if truthy current then current else last_with_id (rev (list_or_empty (dget chat ''messages''))))"


subsection \<open>Repairing\<close>

text \<open>
  \<open>_last_descendant_id\<close>: from a message to the last of its children that exists, until there is none. Only an id that
  is a nonempty text is followed (\<open>if not next_id\<close>).
\<close>

definition children_of :: "pyval \<Rightarrow> pyval list" where
  "children_of m = (case m of PDict d \<Rightarrow> list_or_empty (dget d ''childrenIds'') | _ \<Rightarrow> [])"

fun first_present :: "pydict \<Rightarrow> pyval list \<Rightarrow> pyval option res" where
  "first_present M [] = Inr None"
| "first_present M (c # cs) = bindE (key_in c M) (\<lambda>b. if b then Inr (Some c) else first_present M cs)"

function last_descendant_id :: "pydict \<Rightarrow> pyval list \<Rightarrow> pyval \<Rightarrow> pyval res" where
  "last_descendant_id M seen message_id =
     (case message_at message_id M of None \<Rightarrow> Inr message_id
      | Some m \<Rightarrow>
          if message_id \<in> set seen then Inr message_id
          else (case first_present M (rev (children_of m)) of Inl e \<Rightarrow> Inl e
                | Inr None \<Rightarrow> Inr message_id
                | Inr (Some next) \<Rightarrow>
                    if truthy next then last_descendant_id M (message_id # seen) next else Inr message_id))"
  by pat_completeness auto
termination
  by (relation "measure (\<lambda>(M, seen, i). unvisited M seen)") (auto simp: unvisited_less)

declare last_descendant_id.simps [simp del]

text \<open>\<open>_add_child_id_to_parent\<close>: whether it changed anything, and the messages.\<close>

definition add_child_id_to_parent :: "pydict \<Rightarrow> pyval \<Rightarrow> string \<Rightarrow> (bool \<times> pydict) res" where
  "add_child_id_to_parent M parent_id child_id =
     bindE (if truthy parent_id then lookup_key parent_id M else Inr None) (\<lambda>parent.
       Inr (case parent of
              Some (PDict p) \<Rightarrow>
                (let ids = list_or_empty (dget p ''childrenIds'')
                 in if PStr child_id \<in> set ids then (False, M)
                    else (True, dict_set (the_str parent_id) (PDict (dict_set ''childrenIds'' (PList (ids @ [PStr child_id])) p)) M))
            | _ \<Rightarrow> (False, M)))"

fun add_children :: "pydict \<Rightarrow> bool \<times> pydict \<Rightarrow> (bool \<times> pydict) res" where
  "add_children [] (changed, M) = Inr (changed, M)"
| "add_children ((k, m) # rest) (changed, M) =
     (case m of
        PDict d \<Rightarrow> bindE (add_child_id_to_parent M (dget d ''parentId'') k) (\<lambda>(b, M'). add_children rest (b \<or> changed, M'))
      | _ \<Rightarrow> add_children rest (changed, M))"

text \<open>\<open>next((item.get("role") for item in output if isinstance(item, dict) and item.get("role")), None)\<close>.\<close>

fun first_role :: "pyval list \<Rightarrow> pyval" where
  "first_role [] = PNone"
| "first_role (i # rest) =
     (case i of PDict d \<Rightarrow> if truthy (dget d ''role'') then dget d ''role'' else first_role rest | _ \<Rightarrow> first_role rest)"

text \<open>The last message without children, by timestamp.\<close>

definition timestamp_of :: "pydict \<Rightarrow> pyfloat res" where
  "timestamp_of d = (let t = dget d ''timestamp'' in number_of (if truthy t then t else PInt 0))"

fun latest_leaf :: "pydict \<Rightarrow> string option \<times> pyfloat \<Rightarrow> (string option \<times> pyfloat) res" where
  "latest_leaf [] best = Inr best"
| "latest_leaf ((k, m) # rest) best =
     (case m of
        PDict d \<Rightarrow>
          if truthy (dget d ''role'')
          then (if children_of m = []
                then bindE (timestamp_of d) (\<lambda>t. latest_leaf rest (if less_float (snd best) t then (Some k, t) else best))
                else latest_leaf rest best)
          else latest_leaf rest best
      | _ \<Rightarrow> latest_leaf rest best)"

text \<open>\<open>_repair_chat_current_id\<close>: whether the chat changed, and the chat.\<close>

definition with_history :: "pydict \<Rightarrow> pydict \<Rightarrow> pydict \<Rightarrow> pydict" where
  "with_history M history chat = dict_set ''history'' (PDict (dict_set ''messages'' (PDict M) history)) chat"

definition is_bad_leaf :: "pydict \<Rightarrow> pyval \<Rightarrow> pydict \<Rightarrow> bool" where
  "is_bad_leaf message output_role M \<longleftrightarrow>
     output_role = PStr ''assistant'' \<and> dget message ''parentId'' = PNone \<and> \<not> truthy (dget message ''timestamp'') \<and> length M > 1"

definition repair_to_latest :: "bool \<Rightarrow> pyval \<Rightarrow> pydict \<Rightarrow> pydict \<Rightarrow> pydict \<Rightarrow> (bool \<times> pydict) res" where
  "repair_to_latest changed current_id M history chat =
     bindE (latest_leaf M (None, Fin (-1))) (\<lambda>(leaf, t).
       Inr (case leaf of
              None \<Rightarrow> (changed, with_history M history chat)
            | Some i \<Rightarrow>
                if i = [] \<or> PStr i = current_id then (changed, with_history M history chat)
                else (True, with_history M (dict_set ''currentId'' (PStr i) history) chat)))"

definition repair_chat_current_id :: "pydict \<Rightarrow> (bool \<times> pydict) res" where
  "repair_chat_current_id chat =
     (case dget chat ''history'' of
        PDict history \<Rightarrow>
          (case dget history ''messages'' of
             PDict M0 \<Rightarrow>
               bindE (add_children M0 (False, M0)) (\<lambda>(changed, M).
               bindE (lookup_key (dget history ''currentId'') M) (\<lambda>current.
               (let current_id = dget history ''currentId''
                in case current of
                  Some (PDict message) \<Rightarrow>
                    bindE (items_of (dget message ''output'')) (\<lambda>out.
                      if truthy (dget message ''id'') \<and> truthy (dget message ''role'') \<and> \<not> is_bad_leaf message (first_role out) M
                      then (if truthy (dget message ''contextSummary'') \<or> truthy (dget message ''context_summary'')
                            then bindE (last_descendant_id M [] current_id) (\<lambda>last.
                              Inr (if last \<noteq> current_id
                                   then (True, with_history M (dict_set ''currentId'' last history) chat)
                                   else (changed, with_history M history chat)))
                            else Inr (changed, with_history M history chat))
                      else repair_to_latest changed current_id M history chat)
                | _ \<Rightarrow> repair_to_latest changed current_id M history chat)))
           | _ \<Rightarrow> Inr (False, chat))
      | _ \<Rightarrow> Inr (False, chat))"

subsection \<open>Merging\<close>

text \<open>
  \<open>merge_history\<close>: the messages of both histories, the incoming ones in the place of the stored ones, with the
  children rebuilt from the parent links. What is no dictionary is dropped; \<open>{**x}\<close> of another value raises.
\<close>

definition history_messages :: "pydict option \<Rightarrow> pydict res" where
  "history_messages history =
     (let v = dget (case history of None \<Rightarrow> [] | Some h \<Rightarrow> h) ''messages''
      in if truthy v then (case v of PDict d \<Rightarrow> Inr d | _ \<Rightarrow> Inl TypeError) else Inr [])"

definition without_children :: "pydict \<Rightarrow> pydict" where
  "without_children M =
     concat (map (\<lambda>(k, m). case m of PDict d \<Rightarrow> [(k, PDict (dict_set ''childrenIds'' (PList []) d))] | _ \<Rightarrow> []) M)"

definition append_child :: "string \<Rightarrow> pyval \<Rightarrow> pydict \<Rightarrow> pydict" where
  "append_child parent child M =
     (case map_of M parent of
        Some (PDict d) \<Rightarrow> dict_set parent (PDict (dict_set ''childrenIds'' (PList (list_or_empty (dget d ''childrenIds'') @ [child])) d)) M
      | _ \<Rightarrow> M)"

fun link_children :: "pydict \<Rightarrow> pydict \<Rightarrow> pydict res" where
  "link_children [] M = Inr M"
| "link_children ((k, m) # rest) M =
     bindE (value_get m ''parentId'') (\<lambda>p.
     bindE (key_in p M) (\<lambda>b. link_children rest (if b then append_child (the_str p) (PStr k) M else M)))"

definition current_of :: "pydict option \<Rightarrow> pyval" where
  "current_of history = dget (case history of None \<Rightarrow> [] | Some h \<Rightarrow> h) ''currentId''"

definition merge_history :: "pydict option \<Rightarrow> pydict option \<Rightarrow> pydict res" where
  "merge_history existing incoming =
     bindE (history_messages existing) (\<lambda>old.
     bindE (history_messages incoming) (\<lambda>new.
     (let merged = without_children (dict_update old new)
      in bindE (link_children merged merged) (\<lambda>M.
         bindE (key_in (current_of incoming) M) (\<lambda>b.
         bindE (if b then Inr (current_of incoming)
                else bindE (key_in (current_of existing) M) (\<lambda>b. Inr (if b then current_of existing else PNone))) (\<lambda>current.
           Inr (dict_update (dict_update (case existing of None \<Rightarrow> [] | Some h \<Rightarrow> h) (case incoming of None \<Rightarrow> [] | Some h \<Rightarrow> h))
                  [(''messages'', PDict M), (''currentId'', current)])))))))"

subsection \<open>Deleting a message\<close>

text \<open>
  \<open>delete_message_from_history\<close> removes a message and its children, gives the grandchildren to its parent, and moves
  \<open>currentId\<close> to the end of the last branch below the parent. It returns the removed ids.
\<close>

definition present_items :: "pydict \<Rightarrow> pyval \<Rightarrow> string list res" where
  "present_items M v = bindE (items_of v) (\<lambda>cs. bindE (filterE (\<lambda>c. key_in c M) cs) (\<lambda>ps. Inr (map the_str ps)))"

definition grandchildren :: "pydict \<Rightarrow> string list \<Rightarrow> string list res" where
  "grandchildren M child_ids =
     bindE (mapE (\<lambda>c. bindE (value_get (dict_get_or M c (PDict [])) ''childrenIds'') (present_items M)) child_ids) (\<lambda>gss.
       Inr (concat gss))"

definition relink_parent :: "pyval \<Rightarrow> string \<Rightarrow> string list \<Rightarrow> pydict \<Rightarrow> pydict res" where
  "relink_parent parent_id message_id gs M =
     bindE (key_in parent_id M) (\<lambda>b.
       if \<not> b then Inr M
       else (case map_of M (the_str parent_id) of
               Some (PDict d) \<Rightarrow>
                 bindE (items_of (dget d ''childrenIds'')) (\<lambda>cs.
                   Inr (dict_set (the_str parent_id)
                     (PDict (dict_set ''childrenIds'' (PList (filter (\<lambda>c. c \<noteq> PStr message_id) cs @ map PStr gs)) d)) M))
             | _ \<Rightarrow> Inl OtherError))"

fun set_parents :: "pyval \<Rightarrow> string list \<Rightarrow> pydict \<Rightarrow> pydict res" where
  "set_parents parent_id [] M = Inr M"
| "set_parents parent_id (g # gs) M =
     (case map_of M g of
        Some (PDict d) \<Rightarrow> set_parents parent_id gs (dict_set g (PDict (dict_set ''parentId'' parent_id d)) M)
      | Some _ \<Rightarrow> Inl TypeError
      | None \<Rightarrow> Inl KeyError)"

definition drop_messages :: "string list \<Rightarrow> pydict \<Rightarrow> pydict" where
  "drop_messages ids M = filter (\<lambda>(k, m). k \<notin> set ids) M"

text \<open>\<open>messages.get(id, {}).get("childrenIds", [])\<close>; the last element of a value (\<open>v[-1]\<close>).\<close>

definition child_value :: "pyval \<Rightarrow> pydict \<Rightarrow> pyval res" where
  "child_value v M =
     bindE (lookup_key v M) (\<lambda>m.
       case m of None \<Rightarrow> Inr (PList [])
       | Some (PDict d) \<Rightarrow> Inr (dict_get_or d ''childrenIds'' (PList []))
       | Some _ \<Rightarrow> Inl OtherError)"

fun last_of :: "pyval \<Rightarrow> pyval res" where
  "last_of (PList vs) = (if vs = [] then Inl IndexError else Inr (last vs))"
| "last_of (PStr s) = (if s = [] then Inl IndexError else Inr (PStr [last s]))"
| "last_of (PDict d) = Inl KeyError"
| "last_of _ = Inl TypeError"

text \<open>The ids without a parent, where a walk with no parent starts.\<close>

definition root_ids :: "pydict \<Rightarrow> pyval res" where
  "root_ids M =
     bindE (mapE (\<lambda>(k, m). bindE (value_get m ''parentId'') (\<lambda>p. Inr (if p = PNone then [PStr k] else []))) M) (\<lambda>kss.
       Inr (PList (concat kss)))"

function last_branch :: "pydict \<Rightarrow> pyval list \<Rightarrow> pyval \<Rightarrow> pyval \<Rightarrow> pyval res" where
  "last_branch M visited current child_ids =
     (if \<not> truthy child_ids then Inr current
      else (case last_of child_ids of Inl e \<Rightarrow> Inl e
            | Inr c \<Rightarrow>
                if \<not> hashable c then Inl TypeError
                else if c \<in> set visited then Inr current
                else (case message_at c M of
                        None \<Rightarrow> Inr c
                      | Some m \<Rightarrow> (case child_value c M of Inl e \<Rightarrow> Inl e | Inr cs \<Rightarrow> last_branch M (c # visited) c cs))))"
  by pat_completeness auto
termination
  by (relation "measure (\<lambda>(M, visited, i, cs). unvisited M visited)") (auto simp: unvisited_less)

declare last_branch.simps [simp del]

definition delete_message_from_history :: "pydict \<Rightarrow> string \<Rightarrow> (string list \<times> pydict) res" where
  "delete_message_from_history history message_id =
     (let v = dget history ''messages''
      in if \<not> truthy v then Inr ([], history)
         else case v of
           PDict M \<Rightarrow>
             (case map_of M message_id of
                Some (PDict message) \<Rightarrow>
                  (let parent_id = dget message ''parentId''
                   in bindE (present_items M (dget message ''childrenIds'')) (\<lambda>child_ids.
                      bindE (grandchildren M child_ids) (\<lambda>gs.
                      bindE (relink_parent parent_id message_id gs M) (\<lambda>M1.
                      bindE (set_parents parent_id gs M1) (\<lambda>M2.
                      (let M3 = drop_messages (message_id # child_ids) M2
                       in bindE (if parent_id = PNone then root_ids M3 else child_value parent_id M3) (\<lambda>below.
                          bindE (last_branch M3 [] parent_id below) (\<lambda>current.
                          bindE (key_in current M3) (\<lambda>b.
                            Inr (message_id # child_ids,
                                 dict_set ''currentId'' (if b then current else PNone) (dict_set ''messages'' (PDict M3) history)))))))))))
              | _ \<Rightarrow> Inr ([], history))
         | _ \<Rightarrow> Inl OtherError)"

subsection \<open>Adding or changing a message\<close>

text \<open>\<open>x in v\<close> for a text \<open>x\<close>.\<close>

fun text_in :: "string \<Rightarrow> pyval \<Rightarrow> bool res" where
  "text_in x (PList vs) = Inr (PStr x \<in> set vs)"
| "text_in x (PDict d) = Inr (map_of d x \<noteq> None)"
| "text_in x (PStr s) = Inr (contains x s)"
| "text_in x _ = Inl TypeError"

fun claiming_parent :: "string \<Rightarrow> pydict \<Rightarrow> pyval res" where
  "claiming_parent message_id [] = Inr PNone"
| "claiming_parent message_id ((k, m) # rest) =
     (case m of
        PDict d \<Rightarrow>
          bindE (text_in message_id (dict_get_or d ''childrenIds'' (PList []))) (\<lambda>b.
            if b then Inr (PStr k) else claiming_parent message_id rest)
      | _ \<Rightarrow> Inl OtherError)"

text \<open>The role of a new message: its own, its output's, or the opposite of its parent's.\<close>

definition role_of :: "pydict \<Rightarrow> pyval option \<Rightarrow> pyval res" where
  "role_of message parent =
     bindE (items_of (dget message ''output'')) (\<lambda>out.
       (let role = (if truthy (dget message ''role'') then dget message ''role'' else first_role out)
        in if truthy role then Inr role
           else bindE (case parent of None \<Rightarrow> Inr PNone | Some p \<Rightarrow> if truthy p then value_get p ''role'' else Inr PNone) (\<lambda>r.
             Inr (if r = PStr ''assistant'' then PStr ''user'' else PStr ''assistant''))))"

definition new_message :: "int \<Rightarrow> string \<Rightarrow> pydict \<Rightarrow> pydict \<Rightarrow> pydict res" where
  "new_message now message_id message M =
     (let own = dget message ''parentId''
      in bindE (if own = PNone then claiming_parent message_id M else Inr own) (\<lambda>parent_id.
         bindE (if truthy parent_id then lookup_key parent_id M else Inr None) (\<lambda>parent.
         bindE (role_of message parent) (\<lambda>role.
           Inr (dict_update message
             [(''id'', if truthy (dget message ''id'') then dget message ''id'' else PStr message_id),
              (''parentId'', if own \<noteq> PNone then own else parent_id),
              (''childrenIds'', PList (list_or_empty (dget message ''childrenIds''))),
              (''role'', role),
              (''timestamp'', if truthy (dget message ''timestamp'') then dget message ''timestamp'' else PInt now)])))))"

definition upsert_message_to_history :: "int \<Rightarrow> pydict \<Rightarrow> string \<Rightarrow> pydict \<Rightarrow> (pydict \<times> pydict) res" where
  "upsert_message_to_history now history message_id message =
     (let history = dict_set ''messages'' (dict_get_or history ''messages'' (PDict [])) history
      in case dget history ''messages'' of
        PDict M \<Rightarrow>
          bindE (case map_of M message_id of
                   Some (PDict old) \<Rightarrow> Inr (dict_update old message, history)
                 | Some _ \<Rightarrow> Inl TypeError
                 | None \<Rightarrow> bindE (new_message now message_id message M) (\<lambda>m. Inr (m, dict_set ''currentId'' (PStr message_id) history))) (\<lambda>(m, h).
          bindE (add_child_id_to_parent (dict_set message_id (PDict m) M) (dget m ''parentId'') message_id) (\<lambda>(changed, M').
            Inr (dict_or_empty (dict_get_or M' message_id PNone), dict_set ''messages'' (PDict M') h)))
      | _ \<Rightarrow> Inl TypeError)"

subsection \<open>Cleaning is complete, and skipping the walk is right\<close>

text \<open>No null byte in any text of a value; dictionaries as Python can have them.\<close>

fun no_nulls :: "pyval \<Rightarrow> bool" where
  "no_nulls (PStr s) = (CHR 0x00 \<notin> set s)"
| "no_nulls (PList vs) = list_all no_nulls vs"
| "no_nulls (PDict d) = list_all (\<lambda>(k, v). CHR 0x00 \<notin> set k \<and> no_nulls v) d"
| "no_nulls _ = True"

fun dicts_ok :: "pyval \<Rightarrow> bool" where
  "dicts_ok (PList vs) = list_all dicts_ok vs"
| "dicts_ok (PDict d) = (dict_ok d \<and> list_all (\<lambda>(k, v). dicts_ok v) d)"
| "dicts_ok _ = True"

lemma json_text_null: "CHR 0x00 \<in> set s \<Longrightarrow> contains null_escape (json_text s)"
proof -
  assume "CHR 0x00 \<in> set s"
  then obtain a b where s: "s = a @ CHR 0x00 # b" by (meson split_list)
  have "json_char (CHR 0x00) = null_escape" by code_simp
  then have "json_text s = ([CHR 0x22] @ concat (map json_char a)) @ null_escape @ (concat (map json_char b) @ [CHR 0x22])"
    by (simp add: json_text_def s)
  then show ?thesis unfolding contains_iff by (metis sublist_appendI)
qed

lemma contains_mid: "contains x b \<Longrightarrow> contains x (a @ b @ c)"
  unfolding contains_iff using sublist_appendI sublist_order.order.trans by blast

lemma contains_join: "y \<in> set ys \<Longrightarrow> contains x y \<Longrightarrow> contains x (join sep ys)"
proof (induction sep ys rule: join.induct)
  case (3 sep a b rest)
  then show ?case
    using contains_mid [of x a "[]" "sep @ join sep (b # rest)"] contains_mid [of x "join sep (b # rest)" "a @ sep" "[]"] by auto
qed auto

lemma json_dumps_nulls: "\<not> no_nulls v \<Longrightarrow> contains null_escape (json_dumps v)"
proof (induction v)
  case (PStr s)
  then show ?case by (simp add: json_text_null)
next
  case (PList vs)
  then obtain v where v: "v \<in> set vs" "\<not> no_nulls v" by (auto simp: list_all_iff)
  then have "contains null_escape (join '', '' (map json_dumps vs))"
    using PList.IH [OF v] by (intro contains_join [of "json_dumps v"]) auto
  then show ?case using contains_mid [of null_escape _ "''[''" "'']''"] by simp
next
  case (PDict d)
  then obtain k v where kv: "(k, v) \<in> set d" "CHR 0x00 \<in> set k \<or> \<not> no_nulls v" by (auto simp: list_all_iff)
  have "contains null_escape (json_text k @ '': '' @ json_dumps v)"
    using kv(2)
  proof
    assume "CHR 0x00 \<in> set k"
    from contains_mid [OF json_text_null [OF this], of "[]" "'': '' @ json_dumps v"] show ?thesis by simp
  next
    assume "\<not> no_nulls v"
    then have "contains null_escape (json_dumps v)" by (intro PDict.IH [OF kv(1)]) auto
    from contains_mid [OF this, of "json_text k @ '': ''" "[]"] show ?thesis by simp
  qed
  then have "contains null_escape (join '', '' (map (\<lambda>(k, v). json_text k @ '': '' @ json_dumps v) d))"
    using kv(1) by (intro contains_join) (auto simp: image_iff split: prod.splits intro!: bexI [of _ "(k, v)"])
  then show ?case using contains_mid [of null_escape _ "''{''" "''}''"] by simp
qed auto

lemma sanitize_text_id: "CHR 0x00 \<notin> set s \<Longrightarrow> sanitize_text_for_db s = s"
  by (simp add: sanitize_text_for_db_def)

lemma sanitize_text_clean: "CHR 0x00 \<notin> set (sanitize_text_for_db s)"
  by (simp add: sanitize_text_for_db_def)

lemma strip_clean: "no_nulls v \<Longrightarrow> dicts_ok v \<Longrightarrow> strip_null_bytes_deep v = v"
proof (induction v)
  case (PList vs)
  then show ?case by (auto simp: list_all_iff intro!: map_idI)
next
  case (PDict d)
  have "map (\<lambda>(k, v). (sanitize_text_for_db k, strip_null_bytes_deep v)) d = d"
    using PDict.prems PDict.IH by (intro map_idI) (force simp: list_all_iff sanitize_text_id)
  then show ?case using PDict.prems(2) dict_update_onto_nothing [of "[]" d] by simp
qed (simp_all add: sanitize_text_id)

lemma strip_no_nulls: "no_nulls (strip_null_bytes_deep v)"
proof (induction v)
  case (PDict d)
  let ?d = "map (\<lambda>(k, v). (sanitize_text_for_db k, strip_null_bytes_deep v)) d"
  have "list_all (\<lambda>(k, v). CHR 0x00 \<notin> set k \<and> no_nulls v) ?d"
    using PDict.IH by (auto simp: list_all_iff sanitize_text_clean)
  from list_all_dict_update [OF _ this, of "[]"] show ?case by simp
qed (auto simp: list_all_iff sanitize_text_clean)

lemma sanitize_eq_strip:
  assumes "dicts_ok v"
  shows "sanitize_data_for_db v = strip_null_bytes_deep v"
proof (cases "is_str v \<or> contains null_escape (json_dumps v)")
  case True
  then show ?thesis unfolding sanitize_data_for_db_def by (cases v) (simp_all only: is_str.simps pyval.case strip_null_bytes_deep.simps, auto)
next
  case False
  then have "strip_null_bytes_deep v = v" using strip_clean json_dumps_nulls assms by blast
  with False show ?thesis unfolding sanitize_data_for_db_def by (cases v) (simp_all only: is_str.simps pyval.case, auto)
qed

text \<open>
  Cleaning data for the database. Skipping the walk when the serialised value shows no escaped null byte
  changes nothing: the cleaned value is the one the full walk gives, and no text in it, keys included, has
  a null byte.
\<close>

theorem sanitize_is_full_walk:
  assumes "dicts_ok v"
  shows "sanitize_data_for_db v = strip_null_bytes_deep v \<and> no_nulls (sanitize_data_for_db v)"
  using sanitize_eq_strip [OF assms] strip_no_nulls [of v] by simp

theorem sanitize_is_full_walk_witness:
  "sanitize_data_for_db (PDict [(''a'', PStr [CHR 0x00, CHR ''b''])]) = strip_null_bytes_deep (PDict [(''a'', PStr [CHR 0x00, CHR ''b''])])"
  using sanitize_is_full_walk [of "PDict [(''a'', PStr [CHR 0x00, CHR ''b''])]"] by (simp add: dict_ok_def)

subsection \<open>Merging rebuilds the children from the parents\<close>

text \<open>The ids of the messages of \<open>D\<close> whose parent is \<open>k\<close>, in the order of \<open>D\<close>.\<close>

definition parent_of :: "pyval \<Rightarrow> pyval" where
  "parent_of m = (case m of PDict d \<Rightarrow> dget d ''parentId'' | _ \<Rightarrow> PNone)"

definition child_ids :: "pydict \<Rightarrow> string \<Rightarrow> pyval list" where
  "child_ids D k = map (\<lambda>(c, m). PStr c) (filter (\<lambda>(c, m). is_dict m \<and> parent_of m = PStr k) D)"

fun set_kids :: "pyval list \<Rightarrow> pyval \<Rightarrow> pyval" where
  "set_kids cs (PDict d) = PDict (dict_set ''childrenIds'' (PList cs) d)"
| "set_kids cs v = v"

definition with_kids :: "(string \<Rightarrow> pyval list) \<Rightarrow> pydict \<Rightarrow> pydict" where
  "with_kids f M = map (\<lambda>(k, m). (k, set_kids (f k) m)) M"

text \<open>A parent id is a text or missing.\<close>

definition parents_ok :: "pydict \<Rightarrow> bool" where
  "parents_ok M \<longleftrightarrow> list_all (\<lambda>(k, m). hashable (parent_of m)) M"

lemma is_dict_iff: "is_dict m \<longleftrightarrow> (\<exists>d. m = PDict d)"
  by (cases m) auto

lemma map_of_with_kids:
  "map_of (with_kids f M) k = map_option (set_kids (f k)) (map_of M k)"
  by (induction M) (auto simp: with_kids_def)

lemma append_child_with_kids:
  assumes "dict_ok M" and "map_of M p = Some (PDict d)"
  shows "append_child p c (with_kids f M) = with_kids (f(p := f p @ [c])) M"
proof -
  have at: "map_of (with_kids f M) p = Some (PDict (dict_set ''childrenIds'' (PList (f p)) d))"
    using assms(2) by (simp add: map_of_with_kids)
  have p: "p \<in> fst ` set M" using assms(2) by (force dest: map_of_SomeD)
  have only: "set_kids cs m = PDict (dict_set ''childrenIds'' (PList cs) d)" if "(p, m) \<in> set M" for m cs
    using that assms by (auto simp: dict_ok_def)
  have "append_child p c (with_kids f M)
      = dict_set p (PDict (dict_set ''childrenIds'' (PList (f p @ [c])) d)) (with_kids f M)"
    unfolding append_child_def at by (simp add: dget_def dict_get_or_def)
  also have "\<dots> = with_kids (f(p := f p @ [c])) M"
    unfolding with_kids_def dict_set_map [OF assms(1) p] by (intro map_cong) (auto simp: only)
  finally show ?thesis .
qed

lemma link_children_with_kids:
  assumes "dict_ok M" "list_all (\<lambda>(k, m). is_dict m) M" "list_all (\<lambda>(k, m). is_dict m) xs" "parents_ok xs"
  shows "link_children (with_kids g xs) (with_kids f M) = Inr (with_kids (\<lambda>k. f k @ (if map_of M k = None then [] else child_ids xs k)) M)"
  using assms(3,4)
proof (induction xs arbitrary: f)
  case Nil
  have "(\<lambda>k. f k @ (if map_of M k = None then [] else child_ids [] k)) = f" by (auto simp: child_ids_def)
  then show ?case by (simp add: with_kids_def)
next
  case (Cons km xs)
  obtain k d where km: "km = (k, PDict d)" using Cons.prems(1) by (cases km, cases "snd km") auto
  let ?p = "dget d ''parentId''"
  have h: "hashable ?p" using Cons.prems(2) by (simp add: parents_ok_def km parent_of_def)
  have keys: "map_of (with_kids f M) s = None \<longleftrightarrow> map_of M s = None" for s by (simp add: map_of_with_kids)
  have step: "link_children (with_kids g (km # xs)) (with_kids f M)
      = link_children (with_kids g xs) (if (case ?p of PStr s \<Rightarrow> map_of M s \<noteq> None | _ \<Rightarrow> False)
                                        then append_child (the_str ?p) (PStr k) (with_kids f M) else with_kids f M)"
    using h by (cases ?p) (simp_all add: km with_kids_def value_get_def key_in_def dget_def dict_get_or_def keys [unfolded with_kids_def])
  have IH: "link_children (with_kids g xs) (with_kids f M) = Inr (with_kids (\<lambda>k. f k @ (if map_of M k = None then [] else child_ids xs k)) M)" for f
    using Cons by (simp add: parents_ok_def)
  show ?case
  proof (cases "\<exists>s e. ?p = PStr s \<and> map_of M s = Some e")
    case True
    then obtain s e where s: "?p = PStr s" "map_of M s = Some e" by blast
    obtain d' where d': "map_of M s = Some (PDict d')"
      using s(2) list_all_lookup [OF assms(2) s(2)] by (auto simp: is_dict_iff)
    have "(f(s := f s @ [PStr k])) k' @ (if map_of M k' = None then [] else child_ids xs k')
        = f k' @ (if map_of M k' = None then [] else child_ids (km # xs) k')" for k'
      using s by (simp add: child_ids_def km parent_of_def)
    then show ?thesis unfolding step using s d' by (simp add: append_child_with_kids [OF assms(1) d'] IH del: fun_upd_apply)
  next
    case False
    then have no: "\<not> (case ?p of PStr s \<Rightarrow> map_of M s \<noteq> None | _ \<Rightarrow> False)" by (auto split: pyval.splits)
    have "child_ids (km # xs) k' = child_ids xs k'" if "map_of M k' \<noteq> None" for k'
      using False that by (auto simp: child_ids_def km parent_of_def)
    then have same: "(\<lambda>k. f k @ (if map_of M k = None then [] else child_ids (km # xs) k)) = (\<lambda>k. f k @ (if map_of M k = None then [] else child_ids xs k))"
      by (intro ext) simp
    show ?thesis unfolding step same using no by (simp only: if_False IH)
  qed
qed

definition dict_messages :: "pydict \<Rightarrow> pydict" where
  "dict_messages D = filter (\<lambda>(k, m). is_dict m) D"

lemma without_children_kids: "without_children D = with_kids (\<lambda>_. []) (dict_messages D)"
  by (induction D) (auto simp: without_children_def with_kids_def dict_messages_def is_dict_iff split: pyval.splits)

lemma map_of_dict_messages:
  "dict_ok D \<Longrightarrow> map_of (dict_messages D) k = (case map_of D k of Some (PDict d) \<Rightarrow> Some (PDict d) | _ \<Rightarrow> None)"
  by (induction D) (auto simp: dict_messages_def dict_ok_def is_dict_iff map_of_eq_None_iff split: pyval.splits option.splits)

lemma child_ids_dict_messages: "child_ids (dict_messages D) k = child_ids D k"
  by (auto simp: child_ids_def dict_messages_def intro!: arg_cong [where f = "map _"] filter_cong)

text \<open>
  C20. Merging histories. When parent and current ids are texts or missing, merging succeeds; the result has exactly
  the messages of the two histories, the incoming version where both have one, and each message's children are
  exactly the messages that name it as their parent, in order. \<open>currentId\<close> is the incoming one if that message
  exists, otherwise the stored one if that exists, otherwise missing: it never dangles.
\<close>

theorem merge_history_exact:
  assumes "history_messages existing = Inr old" and "history_messages incoming = Inr new"
    and "dict_ok old" and "dict_ok new" and "parents_ok (dict_update old new)"
    and "hashable (current_of existing)" and "hashable (current_of incoming)"
  shows "\<exists>h M. merge_history existing incoming = Inr h \<and> dget h ''messages'' = PDict M
    \<and> (\<forall>k. map_of M k =
          (case (map_of old ++ map_of new) k of
             Some (PDict d) \<Rightarrow> Some (PDict (dict_set ''childrenIds'' (PList (child_ids (dict_update old new) k)) d))
           | _ \<Rightarrow> None))
    \<and> dget h ''currentId'' =
          (if message_at (current_of incoming) M \<noteq> None then current_of incoming
           else if message_at (current_of existing) M \<noteq> None then current_of existing else PNone)"
proof -
  let ?D = "dict_update old new" and ?W = "dict_messages (dict_update old new)"
  define M where "M = with_kids (\<lambda>k. if map_of ?W k = None then [] else child_ids ?D k) ?W"
  have D: "dict_ok ?D" using assms(3) by (rule dict_ok_update)
  have W: "dict_ok ?W" "list_all (\<lambda>(k, m). is_dict m) ?W" "parents_ok ?W"
    using D assms(5) by (auto simp: dict_messages_def dict_ok_def distinct_map_filter list_all_iff parents_ok_def)
  have link: "link_children (without_children ?D) (without_children ?D) = Inr M"
    using link_children_with_kids [OF W(1,2,2,3), of "\<lambda>_. []" "\<lambda>_. []"]
    unfolding without_children_kids M_def child_ids_dict_messages append_Nil .
  have at: "map_of M k = (case (map_of old ++ map_of new) k of
      Some (PDict d) \<Rightarrow> Some (PDict (dict_set ''childrenIds'' (PList (child_ids ?D k)) d)) | _ \<Rightarrow> None)" for k
    unfolding M_def map_of_with_kids map_of_dict_messages [OF D] map_of_dict_update [OF assms(4)]
    by (auto split: option.splits pyval.splits)
  have key: "key_in v M = Inr (message_at v M \<noteq> None)" if "hashable v" for v
    using that by (auto simp: key_in_def message_at_def split: pyval.splits)
  let ?current = "if message_at (current_of incoming) M \<noteq> None then current_of incoming
           else if message_at (current_of existing) M \<noteq> None then current_of existing else PNone"
  have "merge_history existing incoming
      = Inr (dict_update (dict_update (case existing of None \<Rightarrow> [] | Some h \<Rightarrow> h) (case incoming of None \<Rightarrow> [] | Some h \<Rightarrow> h))
               [(''messages'', PDict M), (''currentId'', ?current)])"
    unfolding merge_history_def assms(1,2) bindE_Inr Let_def link key [OF assms(6)] key [OF assms(7)] by simp
  then show ?thesis using at by (auto simp: dict_update_Cons dget_def dict_get_or_def)
qed

theorem merge_history_exact_witness:
  "\<exists>h M. merge_history (Some [(''messages'', PDict [(''a'', PDict [(''role'', PStr ''user'')])])])
      (Some [(''messages'', PDict [(''b'', PDict [(''parentId'', PStr ''a'')])]), (''currentId'', PStr ''b'')]) = Inr h
    \<and> dget h ''messages'' = PDict M \<and> dget h ''currentId'' = PStr ''b''
    \<and> map_of M ''a'' = Some (PDict [(''role'', PStr ''user''), (''childrenIds'', PList [PStr ''b''])])"
proof -
  let ?old = "[(''a'', PDict [(''role'', PStr ''user'')])]" and ?new = "[(''b'', PDict [(''parentId'', PStr ''a'')])]"
  let ?e = "Some [(''messages'', PDict ?old)]" and ?i = "Some [(''messages'', PDict ?new), (''currentId'', PStr ''b'')]"
  have D: "dict_update ?old ?new = ?old @ ?new" by (simp add: dict_update_Cons dict_set_def)
  have "history_messages ?e = Inr ?old" "history_messages ?i = Inr ?new" "dict_ok ?old" "dict_ok ?new"
    "parents_ok (dict_update ?old ?new)" "hashable (current_of ?e)" "hashable (current_of ?i)"
    by (simp_all add: history_messages_def dget_def dict_get_or_def dict_ok_def parents_ok_def D parent_of_def current_of_def)
  from merge_history_exact [OF this] obtain h M where
    h: "merge_history ?e ?i = Inr h" "dget h ''messages'' = PDict M"
    and M: "\<forall>k. map_of M k = (case (map_of ?old ++ map_of ?new) k of
        Some (PDict d) \<Rightarrow> Some (PDict (dict_set ''childrenIds'' (PList (child_ids (dict_update ?old ?new) k)) d)) | _ \<Rightarrow> None)"
    and c: "dget h ''currentId'' = (if message_at (current_of ?i) M \<noteq> None then current_of ?i
           else if message_at (current_of ?e) M \<noteq> None then current_of ?e else PNone)"
    by blast
  have "map_of M ''a'' = Some (PDict [(''role'', PStr ''user''), (''childrenIds'', PList [PStr ''b''])])"
    using M [THEN spec, of "''a''"] by (simp add: D child_ids_def parent_of_def dget_def dict_get_or_def dict_set_def)
  moreover have "map_of M ''b'' \<noteq> None" using M [THEN spec, of "''b''"] by simp
  then have "dget h ''currentId'' = PStr ''b''" using c by (simp add: message_at_def current_of_def dget_def dict_get_or_def)
  ultimately show ?thesis using h by blast
qed

subsection \<open>Deleting a message\<close>

text \<open>Messages as the client writes them: a parent that is a text or missing, children that are a list of texts or missing.\<close>

definition link_ok :: "pyval \<Rightarrow> bool" where
  "link_ok v \<longleftrightarrow> v = PNone \<or> is_str v"

fun kids_ok :: "pyval \<Rightarrow> bool" where
  "kids_ok PNone = True"
| "kids_ok (PList vs) = list_all is_str vs"
| "kids_ok _ = False"

fun message_ok :: "pyval \<Rightarrow> bool" where
  "message_ok (PDict d) = (link_ok (dget d ''parentId'') \<and> kids_ok (dget d ''childrenIds''))"
| "message_ok _ = False"

definition messages_ok :: "pydict \<Rightarrow> bool" where
  "messages_ok M \<longleftrightarrow> dict_ok M \<and> list_all (\<lambda>(k, m). message_ok m) M"

lemma messages_ok_lookup:
  assumes "messages_ok M" and "map_of M k = Some m"
  shows "\<exists>d. m = PDict d \<and> link_ok (dget d ''parentId'') \<and> kids_ok (dget d ''childrenIds'')"
  using list_all_lookup [OF _ assms(2), of message_ok] assms(1) by (cases m) (auto simp: messages_ok_def)

lemma messages_ok_set: "messages_ok M \<Longrightarrow> message_ok m \<Longrightarrow> messages_ok (dict_set k m M)"
  using dict_set_values by (fastforce simp: messages_ok_def list_all_iff)

lemma link_ok_hashable: "link_ok v \<Longrightarrow> hashable v"
  by (auto simp: link_ok_def is_str_iff)

lemma key_in_link: "link_ok v \<Longrightarrow> key_in v M = Inr (message_at v M \<noteq> None)"
  by (auto simp: link_ok_def is_str_iff key_in_def message_at_def)

lemma filterE_total: "(\<And>x. x \<in> set xs \<Longrightarrow> p x = Inr (q x)) \<Longrightarrow> filterE p xs = Inr (filter q xs)"
  by (induction xs) auto

definition present :: "pydict \<Rightarrow> pyval \<Rightarrow> string list" where
  "present M v = filter (\<lambda>s. map_of M s \<noteq> None) (map the_str (list_or_empty v))"

lemma items_of_kids: "kids_ok v \<Longrightarrow> items_of v = Inr (list_or_empty v)"
  by (cases v) (auto simp: items_of_def)

lemma present_items_ok: "kids_ok v \<Longrightarrow> present_items M v = Inr (present M v)"
proof -
  assume v: "kids_ok v"
  then have strs: "list_all is_str (list_or_empty v)" by (cases v) auto
  have "filterE (\<lambda>c. key_in c M) (list_or_empty v) = Inr (filter (\<lambda>c. map_of M (the_str c) \<noteq> None) (list_or_empty v))"
    using strs by (intro filterE_total) (auto simp: list_all_iff is_str_iff key_in_def)
  then show ?thesis using v by (simp add: present_items_def items_of_kids present_def filter_map comp_def)
qed

lemma grandchildren_ok:
  assumes "messages_ok M" and "\<forall>c \<in> set cs. map_of M c \<noteq> None"
  shows "grandchildren M cs = Inr (concat (map (\<lambda>c. present M (PList (children_of (dict_get_or M c PNone)))) cs))"
proof -
  have "bindE (value_get (dict_get_or M c (PDict [])) ''childrenIds'') (present_items M)
      = Inr (present M (PList (children_of (dict_get_or M c PNone))))" if c: "c \<in> set cs" for c
  proof -
    obtain m where m: "map_of M c = Some m" using assms(2) c by (metis option.exhaust)
    from messages_ok_lookup [OF assms(1) m] m show ?thesis
      by (auto simp: dict_get_or_def value_get_def present_items_ok present_def children_of_def)
  qed
  then show ?thesis unfolding grandchildren_def by (subst mapE_total) auto
qed

lemma message_ok_set:
  assumes "message_ok (PDict d)"
  shows "list_all is_str cs \<Longrightarrow> message_ok (PDict (dict_set ''childrenIds'' (PList cs) d))"
    and "link_ok p \<Longrightarrow> message_ok (PDict (dict_set ''parentId'' p d))"
  using assms by (auto simp: dget_def dict_get_or_def)

lemma relink_parent_ok:
  assumes "messages_ok M" and "link_ok p"
  shows "\<exists>M'. relink_parent p i gs M = Inr M' \<and> messages_ok M' \<and> fst ` set M' = fst ` set M
    \<and> (\<forall>k. PStr k \<noteq> p \<longrightarrow> map_of M' k = map_of M k)"
proof (cases "message_at p M")
  case None
  then show ?thesis using assms by (auto simp: relink_parent_def key_in_link)
next
  case (Some m)
  then obtain s where s: "p = PStr s" "map_of M s = Some m" by (auto simp: message_at_def split: pyval.splits)
  obtain d where d: "m = PDict d" and ok: "message_ok m" and kids: "kids_ok (dget d ''childrenIds'')"
    using messages_ok_lookup [OF assms(1) s(2)] by auto
  have "list_all is_str (filter (\<lambda>c. c \<noteq> PStr i) (list_or_empty (dget d ''childrenIds'')) @ map PStr gs)"
    using kids by (cases "dget d ''childrenIds''") (auto simp: list_all_iff)
  from messages_ok_set [OF assms(1) message_ok_set(1) [OF ok [unfolded d] this], of s]
  show ?thesis using s d kids Some assms(2) dict_set_keys_same [of M s]
    by (auto simp: relink_parent_def key_in_link items_of_kids)
qed

lemma set_parents_ok:
  assumes "messages_ok M" and "link_ok p" and "\<forall>g \<in> set gs. map_of M g \<noteq> None"
  shows "\<exists>M'. set_parents p gs M = Inr M' \<and> messages_ok M' \<and> fst ` set M' = fst ` set M
    \<and> (\<forall>k. k \<notin> set gs \<longrightarrow> map_of M' k = map_of M k)
    \<and> (\<forall>k m. k \<in> set gs \<longrightarrow> map_of M' k = Some m \<longrightarrow> parent_of m = p)"
  using assms(1,3)
proof (induction gs arbitrary: M)
  case (Cons g gs)
  obtain d where d: "map_of M g = Some (PDict d)" and ok: "message_ok (PDict d)"
    using Cons.prems messages_ok_lookup [of M g] by fastforce
  let ?M = "dict_set g (PDict (dict_set ''parentId'' p d)) M"
  have ok: "messages_ok ?M" by (rule messages_ok_set [OF Cons.prems(1) message_ok_set(2) [OF ok assms(2)]])
  moreover have "\<forall>g \<in> set gs. map_of ?M g \<noteq> None" using Cons.prems(2) by auto
  ultimately obtain M' where M': "set_parents p gs ?M = Inr M'" "messages_ok M'" "fst ` set M' = fst ` set ?M"
      "\<forall>k. k \<notin> set gs \<longrightarrow> map_of M' k = map_of ?M k" "\<forall>k m. k \<in> set gs \<longrightarrow> map_of M' k = Some m \<longrightarrow> parent_of m = p"
    using Cons.IH by blast
  have "fst ` set ?M = fst ` set M" by (rule dict_set_keys_same) (simp add: d)
  moreover have "\<forall>k m. k \<in> set (g # gs) \<longrightarrow> map_of M' k = Some m \<longrightarrow> parent_of m = p"
  proof (intro allI impI)
    fix k m assume "k \<in> set (g # gs)" "map_of M' k = Some m"
    then show "parent_of m = p" using M'(4,5) by (cases "k \<in> set gs") (auto simp: parent_of_def dget_def dict_get_or_def)
  qed
  moreover have "set_parents p (g # gs) M = Inr M'" using M'(1) d by simp
  moreover have "\<forall>k. k \<notin> set (g # gs) \<longrightarrow> map_of M' k = map_of M k" using M'(4) by simp
  ultimately show ?case using M'(2,3) by metis
qed simp

lemma child_value_ok:
  assumes "messages_ok M" and "link_ok v"
  shows "\<exists>cs. child_value v M = Inr cs \<and> kids_ok cs"
proof -
  have "lookup_key v M = Inr (message_at v M)"
    using link_ok_hashable [OF assms(2)] by (simp add: lookup_key_def message_at_def)
  moreover have "\<exists>d. m = PDict d \<and> kids_ok (dget d ''childrenIds'')" if "message_at v M = Some m" for m
    using that messages_ok_lookup [OF assms(1)] by (auto simp: message_at_def split: pyval.splits)
  moreover have "kids_ok (dget d ''childrenIds'') \<Longrightarrow> kids_ok (dict_get_or d ''childrenIds'' (PList []))" for d
    by (auto simp: dget_def dict_get_or_def split: option.splits)
  ultimately show ?thesis by (cases "message_at v M") (fastforce simp: child_value_def)+
qed

lemma root_ids_ok: "messages_ok M \<Longrightarrow> \<exists>cs. root_ids M = Inr cs \<and> kids_ok cs"
proof -
  assume M: "messages_ok M"
  have "mapE (\<lambda>(k, m). bindE (value_get m ''parentId'') (\<lambda>p. Inr (if p = PNone then [PStr k] else []))) M
      = Inr (map (\<lambda>(k, m). if parent_of m = PNone then [PStr k] else []) M)"
  proof (rule mapE_total)
    fix km assume "km \<in> set M"
    moreover obtain k m where "km = (k, m)" by (cases km)
    ultimately have "message_ok m" and km: "km = (k, m)" using M by (auto simp: messages_ok_def list_all_iff)
    then show "(\<lambda>(k, m). bindE (value_get m ''parentId'') (\<lambda>p. Inr (if p = PNone then [PStr k] else []))) km
        = Inr ((\<lambda>(k, m). if parent_of m = PNone then [PStr k] else []) km)"
      by (cases m) (auto simp: value_get_def parent_of_def)
  qed
  then show ?thesis by (auto simp: root_ids_def list_all_iff split: if_splits)
qed

lemma last_branch_ok:
  assumes "messages_ok M" "link_ok current" "kids_ok cs"
  shows "\<exists>c. last_branch M visited current cs = Inr c \<and> link_ok c"
  using assms
proof (induction M visited current cs rule: last_branch.induct)
  case (1 M visited current cs)
  show ?case
  proof (cases "truthy cs")
    case False
    then show ?thesis using 1(3) by (simp add: last_branch.simps)
  next
    case True
    then obtain vs where vs: "cs = PList vs" "vs \<noteq> []" "list_all is_str vs" using 1(4) by (cases cs) auto
    then have "is_str (last vs)" by (simp add: list_all_iff)
    then obtain s where s: "last_of cs = Inr (PStr s)" using vs by (auto simp: is_str_iff)
    obtain ds where ds: "child_value (PStr s) M = Inr ds" "kids_ok ds"
      using child_value_ok [OF 1(2), of "PStr s"] by (auto simp: link_ok_def)
    show ?thesis
    proof (cases "PStr s \<in> set visited \<or> message_at (PStr s) M = None")
      case True
      then show ?thesis using \<open>truthy cs\<close> s 1(3) by (subst last_branch.simps) (auto simp: link_ok_def)
    next
      case False
      then obtain m where m: "message_at (PStr s) M = Some m" "PStr s \<notin> set visited" by auto
      have "\<exists>c. last_branch M (PStr s # visited) (PStr s) ds = Inr c \<and> link_ok c"
        using m s ds True 1(2) by (intro 1(1) [of "PStr s" m ds]) (auto simp: link_ok_def)
      then show ?thesis using m s ds True by (subst last_branch.simps) simp
    qed
  qed
qed

lemma messages_ok_drop: "messages_ok M \<Longrightarrow> messages_ok (drop_messages ids M)"
  by (auto simp: messages_ok_def drop_messages_def dict_ok_def distinct_map_filter list_all_iff)

lemma drop_messages_keys: "fst ` set (drop_messages ids M) = fst ` set M - set ids"
  by (force simp: drop_messages_def)

lemma map_of_drop_messages: "map_of (drop_messages ids M) k = (if k \<in> set ids then None else map_of M k)"
  by (induction M) (auto simp: drop_messages_def)

text \<open>The messages a deletion hands to the parent: the children of the deleted children that exist.\<close>

definition handed_up :: "pydict \<Rightarrow> string list \<Rightarrow> string list" where
  "handed_up M cs = concat (map (\<lambda>c. present M (PList (children_of (dict_get_or M c PNone)))) cs)"

lemma handed_up_iff:
  assumes "messages_ok M" and "\<forall>c \<in> set cs. map_of M c \<noteq> None"
  shows "k \<in> set (handed_up M cs) \<longleftrightarrow> map_of M k \<noteq> None \<and> (\<exists>c \<in> set cs. PStr k \<in> set (children_of (dict_get_or M c PNone)))"
proof -
  have "k \<in> set (present M (PList (children_of (dict_get_or M c PNone)))) \<longleftrightarrow>
      map_of M k \<noteq> None \<and> PStr k \<in> set (children_of (dict_get_or M c PNone))" if c: "c \<in> set cs" for c
  proof -
    obtain n where n: "map_of M c = Some n" using assms(2) c by (metis option.exhaust)
    obtain e where "n = PDict e" "kids_ok (dget e ''childrenIds'')" using messages_ok_lookup [OF assms(1) n] by blast
    then have "list_all is_str (children_of (dict_get_or M c PNone))"
      using n by (cases "dget e ''childrenIds''") (auto simp: dict_get_or_def children_of_def)
    then show ?thesis by (force simp: present_def list_all_iff is_str_iff image_iff)
  qed
  then show ?thesis by (auto simp: handed_up_def)
qed

lemma delete_message_run:
  assumes "dget history ''messages'' = PDict M" and "messages_ok M" and "map_of M i = Some (PDict d)"
    and "cs = present M (dget d ''childrenIds'')"
  shows "\<exists>M2 c. delete_message_from_history history i = Inr (i # cs,
      dict_set ''currentId'' (if message_at c (drop_messages (i # cs) M2) \<noteq> None then c else PNone)
        (dict_set ''messages'' (PDict (drop_messages (i # cs) M2)) history))
    \<and> messages_ok M2 \<and> fst ` set M2 = fst ` set M
    \<and> (\<forall>k. k \<notin> set (handed_up M cs) \<longrightarrow> PStr k \<noteq> dget d ''parentId'' \<longrightarrow> map_of M2 k = map_of M k)
    \<and> (\<forall>k n. k \<in> set (handed_up M cs) \<longrightarrow> map_of M2 k = Some n \<longrightarrow> parent_of n = dget d ''parentId'')"
proof -
  have p: "link_ok (dget d ''parentId'')" and kids: "kids_ok (dget d ''childrenIds'')"
    using messages_ok_lookup [OF assms(2,3)] by auto
  let ?p = "dget d ''parentId''" and ?gs = "handed_up M cs"
  have cs: "\<forall>c \<in> set cs. map_of M c \<noteq> None" by (simp add: assms(4) present_def)
  have gs: "\<forall>g \<in> set ?gs. map_of M g \<noteq> None" by (auto simp: handed_up_def present_def)
  obtain M1 where M1: "relink_parent ?p i ?gs M = Inr M1" "messages_ok M1" "fst ` set M1 = fst ` set M"
      "\<forall>k. PStr k \<noteq> ?p \<longrightarrow> map_of M1 k = map_of M k"
    using relink_parent_ok [OF assms(2) p] by metis
  have "\<forall>g \<in> set ?gs. map_of M1 g \<noteq> None" using gs M1(3) by (simp add: map_of_eq_None_iff)
  from set_parents_ok [OF M1(2) p this] obtain M2 where M2: "set_parents ?p ?gs M1 = Inr M2" "messages_ok M2"
      "fst ` set M2 = fst ` set M1" "\<forall>k. k \<notin> set ?gs \<longrightarrow> map_of M2 k = map_of M1 k"
      "\<forall>k n. k \<in> set ?gs \<longrightarrow> map_of M2 k = Some n \<longrightarrow> parent_of n = ?p"
    by metis
  let ?M3 = "drop_messages (i # cs) M2"
  have M3: "messages_ok ?M3" by (rule messages_ok_drop [OF M2(2)])
  obtain below where below: "(if ?p = PNone then root_ids ?M3 else child_value ?p ?M3) = Inr below" "kids_ok below"
    using root_ids_ok [OF M3] child_value_ok [OF M3 p] by (cases "?p = PNone") auto
  obtain c where c: "last_branch ?M3 [] ?p below = Inr c" "link_ok c" using last_branch_ok [OF M3 p below(2)] by metis
  have "M \<noteq> []" using assms(3) by auto
  then have run: "delete_message_from_history history i = Inr (i # cs,
      dict_set ''currentId'' (if message_at c ?M3 \<noteq> None then c else PNone) (dict_set ''messages'' (PDict ?M3) history))"
    unfolding delete_message_from_history_def Let_def assms(1,3) pyval.case option.case truthy.simps
      present_items_ok [OF kids] assms(4) [symmetric] bindE_Inr grandchildren_ok [OF assms(2) cs] handed_up_def [symmetric]
      M1(1) M2(1) below(1) c(1) key_in_link [OF c(2)]
    by simp
  have rest: "\<forall>k. k \<notin> set ?gs \<longrightarrow> PStr k \<noteq> ?p \<longrightarrow> map_of M2 k = map_of M k" using M1(4) M2(4) by simp
  show ?thesis by (intro exI conjI) (rule run M2(2) M2(3) [unfolded M1(3)] rest M2(5))+
qed



subsection \<open>The branch that ends in a message\<close>

text \<open>\<open>up_chain M seen i ids\<close>: \<open>ids\<close> goes up from \<open>i\<close> along existing messages not seen before, as far as possible.\<close>

definition live :: "pydict \<Rightarrow> string \<Rightarrow> bool" where
  "live M k \<longleftrightarrow> (case map_of M k of None \<Rightarrow> False | Some m \<Rightarrow> truthy m)"

inductive up_chain :: "pydict \<Rightarrow> string set \<Rightarrow> pyval \<Rightarrow> string list \<Rightarrow> bool" for M where
  no_parent: "\<not> truthy v \<Longrightarrow> up_chain M seen v []"
| no_message: "\<not> live M i \<or> i \<in> seen \<Longrightarrow> up_chain M seen (PStr i) []"
| message: "live M i \<Longrightarrow> i \<notin> seen \<Longrightarrow> up_chain M (insert i seen) (parent_of (the (map_of M i))) ids \<Longrightarrow> up_chain M seen (PStr i) (i # ids)"

inductive_cases up_chain_Nil: "up_chain M seen v []"
inductive_cases up_chain_Cons: "up_chain M seen v (i # ids)"

lemma up_chain_distinct: "up_chain M seen v ids \<Longrightarrow> distinct ids \<and> set ids \<inter> seen = {} \<and> (\<forall>k \<in> set ids. live M k)"
  by (induction rule: up_chain.induct) auto

lemma message_walk_chain:
  assumes "messages_ok M" and "link_ok v" and "truthy v \<or> v = PStr []" and "visited = map PStr seen"
  shows "\<exists>ids. message_walk M v visited acc = Inr (map (\<lambda>k. the (map_of M k)) (rev ids) @ acc) \<and> up_chain M (set seen) v ids"
  using assms
proof (induction M v visited acc arbitrary: seen rule: message_walk.induct)
  case (1 M v visited acc)
  obtain i where i: "v = PStr i" using 1(3,4) by (cases v) (auto simp: link_ok_def)
  show ?case
  proof (cases "live M i \<and> i \<notin> set seen")
    case False
    then have "message_walk M v visited acc = Inr acc"
      using 1(5) by (subst message_walk.simps) (auto simp: i live_def message_at_def split: option.splits)
    moreover have "up_chain M (set seen) v []" using False unfolding i by (intro no_message) blast
    ultimately show ?thesis by (intro exI [of _ "[]"]) simp
  next
    case True
    then obtain m where m: "map_of M i = Some m" "truthy m" by (auto simp: live_def split: option.splits)
    obtain d where md: "m = PDict d" and p: "link_ok (dget d ''parentId'')" using messages_ok_lookup [OF 1(2) m(1)] by blast
    have d: "map_of M i = Some (PDict d)" "d \<noteq> []" using m md by auto
    have at: "message_at v M = Some (PDict d)" and par: "parent_of (the (map_of M i)) = dget d ''parentId''"
      using d by (simp_all add: i message_at_def parent_of_def)
    have new: "v \<notin> set visited" using True 1(5) by (auto simp: i)
    show ?thesis
    proof (cases "truthy (dget d ''parentId'')")
      case False
      then have "message_walk M v visited acc = Inr (PDict d # acc)"
        using at d new by (subst message_walk.simps) (simp add: value_get_def)
      moreover have "up_chain M (set seen) v [i]" using True False unfolding i by (intro message no_parent) (simp_all add: par)
      ultimately show ?thesis using d by (intro exI [of _ "[i]"]) simp
    next
      case par_true: True
      have step: "message_walk M v visited acc = message_walk M (dget d ''parentId'') (v # visited) (PDict d # acc)"
        using at d new par_true link_ok_hashable [OF p] by (subst message_walk.simps) (simp add: value_get_def)
      have "\<exists>ids. message_walk M (dget d ''parentId'') (v # visited) (PDict d # acc)
            = Inr (map (\<lambda>k. the (map_of M k)) (rev ids) @ PDict d # acc) \<and> up_chain M (set (i # seen)) (dget d ''parentId'') ids"
        by (rule 1(1) [OF at _ _ _ _ 1(2) p]) (use d new par_true link_ok_hashable [OF p] 1(5) i in \<open>auto simp: value_get_def\<close>)
      then obtain ids where ids: "message_walk M (dget d ''parentId'') (v # visited) (PDict d # acc)
            = Inr (map (\<lambda>k. the (map_of M k)) (rev ids) @ PDict d # acc)" "up_chain M (insert i (set seen)) (dget d ''parentId'') ids"
        by auto
      have "up_chain M (set seen) v (i # ids)" using True ids(2) unfolding i by (intro message) (simp_all add: par)
      then show ?thesis using ids(1) d by (intro exI [of _ "i # ids"]) (simp add: step)
    qed
  qed
qed

text \<open>
  C22. The branch of a message. For well-formed messages the walk always ends, also on cyclic links: it returns the
  messages of the chain that goes from the given message up its parents until there is none or it comes back
  to a visited one, in order from the root; no message appears twice.
\<close>

theorem get_message_list_chain:
  assumes "messages_ok M"
  shows "\<exists>ids. get_message_list M i = Inr (map (\<lambda>k. the (map_of M k)) (rev ids)) \<and> up_chain M {} (PStr i) ids
    \<and> distinct ids \<and> (\<forall>k \<in> set ids. map_of M k \<noteq> None)"
proof -
  obtain ids where ids: "message_walk M (PStr i) [] [] = Inr (map (\<lambda>k. the (map_of M k)) (rev ids) @ [])" "up_chain M (set []) (PStr i) ids"
    using message_walk_chain [OF assms, of "PStr i" "[]" "[]" "[]"] by (auto simp: link_ok_def)
  moreover have "\<forall>k \<in> set ids. map_of M k \<noteq> None" using up_chain_distinct [OF ids(2)] by (auto simp: live_def split: option.splits)
  ultimately show ?thesis using up_chain_distinct [OF ids(2)] by (auto simp: get_message_list_def)
qed

theorem get_message_list_chain_witness:
  "\<exists>ids. get_message_list [(''a'', PDict [(''parentId'', PStr ''b'')]), (''b'', PDict [(''parentId'', PStr ''a'')])] ''b''
      = Inr (map (\<lambda>k. the (map_of [(''a'', PDict [(''parentId'', PStr ''b'')]), (''b'', PDict [(''parentId'', PStr ''a'')])] k)) (rev ids))
    \<and> distinct ids"
  using get_message_list_chain [of "[(''a'', PDict [(''parentId'', PStr ''b'')]), (''b'', PDict [(''parentId'', PStr ''a'')])]" "''b''"]
  by (auto simp: messages_ok_def dict_ok_def link_ok_def dget_def dict_get_or_def)

end
