(* ===== verification/OWUI_Table.thy ===== *)
theory OWUI_Table
  imports Relay_Prelude
begin

section \<open>Rows with a primary key\<close>

text \<open>
  What the operations on Open WebUI's tables rely on when they read a row by its primary key, change it and write it back
  (\<^verbatim>\<open>session.get\<close>, assignments to the row, \<^verbatim>\<open>commit\<close>). The state may be a table or a database that contains it.
\<close>

locale row_store =
  fixes key :: "'r \<Rightarrow> string" and ids :: "'s \<Rightarrow> string list" and get :: "string \<Rightarrow> 's \<Rightarrow> 'r option" and put :: "'r \<Rightarrow> 's \<Rightarrow> 's"
  assumes get_key: "get i s = Some r \<Longrightarrow> key r = i"
    and get_None: "get i s = None \<longleftrightarrow> i \<notin> set (ids s)"
    and put_ids: "ids (put r s) = ids s"
    and get_put: "get i (put r s) = (if i = key r \<and> i \<in> set (ids s) then Some r else get i s)"
begin

lemma found: "get i s = Some r \<Longrightarrow> i \<in> set (ids s) \<and> key r = i"
  by (metis get_None get_key option.distinct(1))

lemma read_back: "get i s = Some r \<Longrightarrow> key r' = i \<Longrightarrow> get j (put r' s) = (if j = i then Some r' else get j s)"
  using found by (simp add: get_put)

lemma put_absent: "key r \<notin> set (ids s) \<Longrightarrow> get j (put r s) = get j s"
  by (auto simp: get_put)

lemma still_there: "i \<in> set (ids s) \<Longrightarrow> i \<in> set (ids (put r s))"
  by (simp add: put_ids)

end

text \<open>A table as the list of its rows: the first row with the key, and the rows with the key replaced.\<close>

lemma find_key_None: "find (\<lambda>r. key r = i) T = None \<longleftrightarrow> i \<notin> key ` set T"
  by (auto simp: find_None_iff)

lemma find_key_Some: "find (\<lambda>r. key r = i) T = Some r \<Longrightarrow> key r = i \<and> r \<in> set T"
  by (auto simp: find_Some_iff)

lemma find_replaced:
  "find (\<lambda>r. key r = i) (map (\<lambda>r. if key r = key x then x else r) T)
     = (if i = key x \<and> i \<in> key ` set T then Some x else find (\<lambda>r. key r = i) T)"
  by (induction T) auto

lemma find_changed:
  "(\<And>r. key (g r) = key r) \<Longrightarrow>
     find (\<lambda>r. key r = j) (map (\<lambda>r. if key r = i then g r else r) T) = (if j = i then map_option g (find (\<lambda>r. key r = i) T) else find (\<lambda>r. key r = j) T)"
  by (induction T) auto

lemma list_row_store:
  "row_store key (map key) (\<lambda>i T. find (\<lambda>r. key r = i) T) (\<lambda>x T. map (\<lambda>r. if key r = key x then x else r) T)"
  by unfold_locales (auto simp: find_key_None find_replaced dest: find_key_Some)

end
