(* ===== verification/OWUI_Messages.thy ===== *)
theory OWUI_Messages
  imports Py_Number OWUI_History OWUI_Table
begin

section \<open>Stored chat messages of Open WebUI (models/chat_messages.py, utils/response.py)\<close>

text \<open>
  The table \<open>chat_message\<close> in which every message of a chat has a row of its own beside the chat's JSON, and the
  token usage kept in it. The columns that hold JSON, or whatever the client sent, are \<open>pyval\<close>. A table is the list of
  its rows in the order of insertion; the primary key is the composite id. Type errors of the database driver are
  not modelled.
\<close>

subsection \<open>Token usage\<close>

definition or_else :: "pyval \<Rightarrow> pyval \<Rightarrow> pyval" where
  "or_else v w = (if truthy v then v else w)"

text \<open>\<open>int(v)\<close> and \<open>a + b\<close>.\<close>

fun py_int :: "pyval \<Rightarrow> int res" where
  "py_int (PInt i) = Inr i"
| "py_int (PBool b) = Inr (if b then 1 else 0)"
| "py_int (PFloat (Fin x)) = Inr (if x < 0 then \<lceil>x\<rceil> else \<lfloor>x\<rfloor>)"
| "py_int (PFloat (Infinity neg)) = Inl OverflowError"
| "py_int (PFloat NaN) = Inl (ValueError ''cannot convert float NaN to integer'')"
| "py_int (PStr s) = py_int_str s"
| "py_int _ = Inl TypeError"

fun add_float :: "pyfloat \<Rightarrow> pyfloat \<Rightarrow> pyfloat" where
  "add_float (Fin x) (Fin y) = Fin (x + y)"
| "add_float NaN _ = NaN"
| "add_float _ NaN = NaN"
| "add_float (Infinity a) (Infinity b) = (if a = b then Infinity a else NaN)"
| "add_float (Infinity a) _ = Infinity a"
| "add_float _ (Infinity b) = Infinity b"

fun whole :: "pyval \<Rightarrow> int option" where
  "whole (PInt i) = Some i"
| "whole (PBool b) = Some (if b then 1 else 0)"
| "whole _ = None"

fun py_add :: "pyval \<Rightarrow> pyval \<Rightarrow> pyval res" where
  "py_add (PStr a) (PStr b) = Inr (PStr (a @ b))"
| "py_add (PList a) (PList b) = Inr (PList (a @ b))"
| "py_add v w =
     (case (whole v, whole w) of (Some i, Some j) \<Rightarrow> Inr (PInt (i + j))
      | _ \<Rightarrow> bindE (number_of v) (\<lambda>x. bindE (number_of w) (\<lambda>y. Inr (PFloat (add_float x y)))))"

definition normalize_usage :: "pydict \<Rightarrow> pydict res" where
  "normalize_usage usage =
     (if usage = [] then Inr []
      else let given = or_else (or_else (dget usage ''input_tokens'') (dget usage ''prompt_tokens'')) (dget usage ''prompt_eval_count'');
               outp = or_else (or_else (or_else (or_else (dget usage ''output_tokens'') (dget usage ''completion_tokens''))
                        (dget usage ''eval_count'')) (dget usage ''predicted_n'')) (PInt 0)
           in bindE (if given = PNone
                     then bindE (py_int (or_else (dget usage ''prompt_n'') (PInt 0))) (\<lambda>p.
                          bindE (py_int (or_else (dget usage ''cache_n'') (PInt 0))) (\<lambda>c. Inr (PInt (p + c))))
                     else Inr given) (\<lambda>inp.
              bindE (if truthy (dget usage ''total_tokens'') then Inr (dget usage ''total_tokens'') else py_add inp outp) (\<lambda>tot.
              bindE (py_int inp) (\<lambda>i. bindE (py_int outp) (\<lambda>j. bindE (py_int tot) (\<lambda>t.
                Inr (dict_update usage [(''input_tokens'', PInt i), (''output_tokens'', PInt j), (''total_tokens'', PInt t)])))))))"

text \<open>The numbers that are added up: a truth value is none.\<close>

fun is_numeric_usage_value :: "pyval \<Rightarrow> bool" where
  "is_numeric_usage_value (PInt i) = True"
| "is_numeric_usage_value (PFloat x) = True"
| "is_numeric_usage_value _ = False"

fun add_usage :: "pyval \<Rightarrow> pyval \<Rightarrow> pyval" where
  "add_usage (PInt i) (PInt j) = PInt (i + j)"
| "add_usage (PInt i) (PFloat y) = PFloat (add_float (Fin (of_int i)) y)"
| "add_usage (PFloat x) (PInt j) = PFloat (add_float x (Fin (of_int j)))"
| "add_usage (PFloat x) (PFloat y) = PFloat (add_float x y)"
| "add_usage v w = v"

definition usage_number :: "pyval \<Rightarrow> pyval" where
  "usage_number v = (if is_numeric_usage_value v then v else PInt 0)"

lemma size_get: "is_dict (dict_get_or d k (PInt 0)) \<Longrightarrow> size (PDict (dict_or_empty (dict_get_or d k (PInt 0)))) < size (PDict d)"
proof -
  assume "is_dict (dict_get_or d k (PInt 0))"
  then obtain e where e: "map_of d k = Some (PDict e)"
    by (cases "map_of d k"; cases "the (map_of d k)") (auto simp: dict_get_or_def)
  then have "(k, PDict e) \<in> set d" by (rule map_of_SomeD)
  from size_list_estimation' [OF this, of "size (PDict e)" "size_prod (\<lambda>_. 0) size"] show ?thesis
    using e by (simp add: dict_get_or_def)
qed

text \<open>
  \<open>_merge_numeric_usage_map\<close>. The loop runs over a set of keys, all of them keys of the result already, so it
  changes each value in its place and its order does not matter.
\<close>

function merge_numeric_usage_map :: "pydict \<Rightarrow> pydict \<Rightarrow> pydict" where
  "merge_numeric_usage_map current incoming =
     map (\<lambda>(k, v).
       (let a = dict_get_or current k (PInt 0); b = dict_get_or incoming k (PInt 0)
        in (k, if is_dict a \<or> is_dict b then PDict (merge_numeric_usage_map (dict_or_empty a) (dict_or_empty b))
               else if is_numeric_usage_value a \<or> is_numeric_usage_value b then add_usage (usage_number a) (usage_number b)
               else v))) (dict_update current incoming)"
  by pat_completeness auto

termination
proof (relation "measure (\<lambda>(a, b). size (PDict a) + size (PDict b))", goal_cases)
  case (2 current incoming kv k v a b)
  let ?a = "dict_get_or current k (PInt 0)" and ?b = "dict_get_or incoming k (PInt 0)"
  have small: "size (PDict (dict_or_empty (dict_get_or d k (PInt 0)))) \<le> size (PDict d)" for d
    using size_get [of d k] by (cases "dict_get_or d k (PInt 0)") auto
  have "size (PDict (dict_or_empty ?a)) < size (PDict current) \<or> size (PDict (dict_or_empty ?b)) < size (PDict incoming)"
    using 2 size_get by metis
  then show ?case using small [of current] small [of incoming] 2 by auto
qed simp

declare merge_numeric_usage_map.simps [simp del]

definition USAGE_SUMMABLE_KEYS :: "string list" where
  "USAGE_SUMMABLE_KEYS = [''input_tokens'', ''output_tokens'', ''total_tokens'',
     ''cost'', ''total_cost'', ''input_cost'', ''output_cost'', ''prompt_cost'', ''completion_cost'']"

definition USAGE_DETAIL_KEYS :: "string list" where
  "USAGE_DETAIL_KEYS = [''prompt_tokens_details'', ''completion_tokens_details'', ''input_tokens_details'', ''output_tokens_details'']"

text \<open>One key of the two loops of \<open>merge_usage\<close>; both sets contain the keys they assign, so their order does not matter.\<close>

definition sum_key :: "pydict \<Rightarrow> pydict \<Rightarrow> string \<Rightarrow> pydict \<Rightarrow> pydict" where
  "sum_key current incoming k acc =
     (let a = dict_get_or current k (PInt 0); b = dict_get_or incoming k (PInt 0)
      in if (map_of current k \<noteq> None \<or> map_of incoming k \<noteq> None) \<and> (is_numeric_usage_value a \<or> is_numeric_usage_value b)
         then dict_set k (add_usage (usage_number a) (usage_number b)) acc else acc)"

definition detail_key :: "pydict \<Rightarrow> pydict \<Rightarrow> string \<Rightarrow> pydict \<Rightarrow> pydict" where
  "detail_key current incoming k acc =
     (if is_dict (dget current k) \<or> is_dict (dget incoming k)
      then dict_set k (PDict (merge_numeric_usage_map (dict_or_empty (dget current k)) (dict_or_empty (dget incoming k)))) acc else acc)"

definition merge_usage :: "pydict \<Rightarrow> pydict \<Rightarrow> pydict res" where
  "merge_usage current incoming =
     bindE (normalize_usage current) (\<lambda>cur.
     bindE (normalize_usage incoming) (\<lambda>inc.
       Inr (if inc = [] then cur
            else if cur = [] then inc
            else let acc = fold (sum_key cur inc) USAGE_SUMMABLE_KEYS (dict_update cur inc);
                     acc = fold (detail_key cur inc) USAGE_DETAIL_KEYS acc
                 in dict_update acc
                      [(''prompt_tokens'', or_else (or_else (dget inc ''prompt_tokens'') (dget inc ''input_tokens''))
                          (dict_get_or cur ''prompt_tokens'' (PInt 0))),
                       (''completion_tokens'', or_else (or_else (dget inc ''completion_tokens'') (dget inc ''output_tokens''))
                          (dict_get_or cur ''completion_tokens'' (PInt 0)))])))"

text \<open>\<open>get_usage\<close>: an \<open>info\<close> or a usage that is not a dictionary has no \<open>get\<close>. The empty result is \<open>None\<close>.\<close>

definition get_usage :: "pydict \<Rightarrow> pydict option res" where
  "get_usage data =
     bindE (if truthy (dget data ''usage'') then Inr (dget data ''usage'')
            else value_get (or_else (dget data ''info'') (PDict [])) ''usage'') (\<lambda>usage.
       if truthy usage
       then (case usage of PDict u \<Rightarrow> bindE (normalize_usage u) (\<lambda>n. Inr (Some n)) | _ \<Rightarrow> Inl OtherError)
       else Inr None)"

subsection \<open>Rows\<close>

record chat_message =
  cm_id :: string
  cm_chat_id :: string
  cm_user_id :: string
  cm_role :: pyval
  cm_parent_id :: pyval
  cm_content :: pyval
  cm_output :: pyval
  cm_model_id :: pyval
  cm_files :: pyval
  cm_sources :: pyval
  cm_embeds :: pyval
  cm_meta :: pyval
  cm_done :: pyval
  cm_status_history :: pyval
  cm_error :: pyval
  cm_usage :: "pydict option"
  cm_context_summary :: pyval
  cm_created_at :: pyval
  cm_updated_at :: int

type_synonym messages_table = "chat_message list"

text \<open>\<open>data.get(a) or data.get(b)\<close>; whether a payload carries one of two keys.\<close>

definition either_key :: "pydict \<Rightarrow> string \<Rightarrow> string \<Rightarrow> pyval" where
  "either_key data a b = or_else (dget data a) (dget data b)"

definition has_key :: "pydict \<Rightarrow> string \<Rightarrow> bool" where
  "has_key data k \<longleftrightarrow> map_of data k \<noteq> None"

definition build_message :: "string \<Rightarrow> string \<Rightarrow> string \<Rightarrow> pydict \<Rightarrow> int \<Rightarrow> chat_message res" where
  "build_message composite_id chat_id user_id data now =
     bindE (get_usage data) (\<lambda>usage.
       Inr \<lparr>cm_id = composite_id, cm_chat_id = chat_id, cm_user_id = user_id,
            cm_role = dict_get_or data ''role'' (PStr ''user''), cm_parent_id = either_key data ''parent_id'' ''parentId'',
            cm_content = dget data ''content'', cm_output = dget data ''output'', cm_model_id = either_key data ''model_id'' ''model'',
            cm_files = dget data ''files'', cm_sources = dget data ''sources'', cm_embeds = dget data ''embeds'', cm_meta = dget data ''meta'',
            cm_done = dict_get_or data ''done'' (PBool True), cm_status_history = either_key data ''status_history'' ''statusHistory'',
            cm_error = dget data ''error'', cm_usage = usage, cm_context_summary = either_key data ''context_summary'' ''contextSummary'',
            cm_created_at = dict_get_or data ''timestamp'' (PInt now), cm_updated_at = now\<rparr>)"

text \<open>\<open>==\<close>: numbers by value whatever their type, dictionaries by their keys and values.\<close>

fun py_eq :: "pyval \<Rightarrow> pyval \<Rightarrow> bool" where
  "py_eq (PDict a) w =
     (case w of PDict b \<Rightarrow> length a = length b \<and> list_all (\<lambda>(k, v). case map_of b k of None \<Rightarrow> False | Some x \<Rightarrow> py_eq v x) a | _ \<Rightarrow> False)"
| "py_eq (PList a) w = (case w of PList b \<Rightarrow> list_all2 py_eq a b | _ \<Rightarrow> False)"
| "py_eq v w =
     (case (number_of v, number_of w) of (Inr x, Inr y) \<Rightarrow> x = y \<and> x \<noteq> NaN | (Inl _, Inl _) \<Rightarrow> v = w | _ \<Rightarrow> False)"

text \<open>\<open>_apply_message_data\<close>: only the fields the payload carries are written. The usage of an update adds to the stored one.\<close>

definition new_usage :: "pydict option \<Rightarrow> pydict option \<Rightarrow> pydict option res" where
  "new_usage stored usage =
     (case usage of
        None \<Rightarrow> Inr stored
      | Some [] \<Rightarrow> Inr stored
      | Some u \<Rightarrow> bindE (normalize_usage (case stored of None \<Rightarrow> [] | Some s \<Rightarrow> s)) (\<lambda>old.
          if py_eq (PDict u) (PDict old) then Inr (Some old) else bindE (merge_usage old u) (\<lambda>m. Inr (Some m))))"

definition apply_message_data :: "chat_message \<Rightarrow> pydict \<Rightarrow> int \<Rightarrow> chat_message res" where
  "apply_message_data row data now =
     bindE (get_usage data) (\<lambda>usage.
     bindE (new_usage (cm_usage row) usage) (\<lambda>u.
       Inr (row\<lparr>cm_role := dict_get_or data ''role'' (cm_role row),
                cm_parent_id := (if has_key data ''parent_id'' \<or> has_key data ''parentId'' then either_key data ''parent_id'' ''parentId'' else cm_parent_id row),
                cm_content := dict_get_or data ''content'' (cm_content row),
                cm_output := dict_get_or data ''output'' (cm_output row),
                cm_model_id := (if has_key data ''model_id'' \<or> has_key data ''model'' then either_key data ''model_id'' ''model'' else cm_model_id row),
                cm_files := dict_get_or data ''files'' (cm_files row),
                cm_sources := dict_get_or data ''sources'' (cm_sources row),
                cm_embeds := dict_get_or data ''embeds'' (cm_embeds row),
                cm_meta := dict_get_or data ''meta'' (cm_meta row),
                cm_done := dict_get_or data ''done'' (cm_done row),
                cm_status_history := (if has_key data ''status_history'' \<or> has_key data ''statusHistory'' then either_key data ''status_history'' ''statusHistory'' else cm_status_history row),
                cm_error := dict_get_or data ''error'' (cm_error row),
                cm_context_summary := (if has_key data ''context_summary'' \<or> has_key data ''contextSummary'' then either_key data ''context_summary'' ''contextSummary'' else cm_context_summary row),
                cm_usage := u, cm_updated_at := now\<rparr>)))"

text \<open>\<open>upsert_message\<close>: a row exists for the composite id, or one is added. An exception leaves the table as it was.\<close>

definition composite_id :: "string \<Rightarrow> string \<Rightarrow> string" where
  "composite_id chat_id message_id = chat_id @ ''-'' @ message_id"

definition find_message :: "string \<Rightarrow> messages_table \<Rightarrow> chat_message option" where
  "find_message i T = find (\<lambda>r. cm_id r = i) T"

definition put_message :: "chat_message \<Rightarrow> messages_table \<Rightarrow> messages_table" where
  "put_message row T = map (\<lambda>r. if cm_id r = cm_id row then row else r) T"

interpretation message_rows: row_store cm_id "map cm_id" find_message put_message
  using list_row_store [of cm_id] unfolding find_message_def [abs_def] put_message_def [abs_def] .

definition upsert_message :: "int \<Rightarrow> string \<Rightarrow> string \<Rightarrow> string \<Rightarrow> pydict \<Rightarrow> messages_table \<Rightarrow> messages_table res" where
  "upsert_message now message_id chat_id user_id data T =
     (case find_message (composite_id chat_id message_id) T of
        Some row \<Rightarrow> bindE (apply_message_data row data now) (\<lambda>r. Inr (put_message r T))
      | None \<Rightarrow> bindE (build_message (composite_id chat_id message_id) chat_id user_id data now) (\<lambda>r. Inr (T @ [r])))"

text \<open>\<open>upsert_messages\<close> looks the rows up once, before it writes; the ids of one call are distinct, so that is the same.\<close>

fun upsert_messages :: "int \<Rightarrow> string \<Rightarrow> string \<Rightarrow> (string, pydict) dict \<Rightarrow> messages_table \<Rightarrow> messages_table res" where
  "upsert_messages now chat_id user_id [] T = Inr T"
| "upsert_messages now chat_id user_id ((k, data) # rest) T =
     bindE (upsert_message now k chat_id user_id data T) (upsert_messages now chat_id user_id rest)"

definition delete_message_ids_by_chat_id :: "string \<Rightarrow> string list \<Rightarrow> messages_table \<Rightarrow> messages_table" where
  "delete_message_ids_by_chat_id chat_id ids T =
     filter (\<lambda>r. \<not> (cm_chat_id r = chat_id \<and> cm_id r \<in> set (map (composite_id chat_id) ids))) T"

definition has_unfinished_assistant_by_chat_id :: "string \<Rightarrow> messages_table \<Rightarrow> bool" where
  "has_unfinished_assistant_by_chat_id chat_id T =
     list_ex (\<lambda>r. cm_chat_id r = chat_id \<and> cm_role r = PStr ''assistant'' \<and> cm_done r = PBool False) T"

subsection \<open>The map of a chat's messages\<close>

text \<open>
  \<open>get_messages_map_by_chat_id\<close> rebuilds the message dictionary from the rows: the columns that have a value under
  their JSON names, and the children from the parent links.
\<close>

definition message_key :: "string \<Rightarrow> chat_message \<Rightarrow> string" where
  "message_key chat_id r = (let p = chat_id @ ''-'' in if prefix p (cm_id r) then drop (length p) (cm_id r) else cm_id r)"

definition row_columns :: "chat_message \<Rightarrow> pydict" where
  "row_columns r =
     [(''role'', cm_role r), (''parentId'', cm_parent_id r), (''content'', cm_content r), (''output'', cm_output r),
      (''model'', cm_model_id r), (''files'', cm_files r), (''sources'', cm_sources r), (''embeds'', cm_embeds r), (''meta'', cm_meta r),
      (''done'', cm_done r), (''statusHistory'', cm_status_history r), (''error'', cm_error r),
      (''usage'', case cm_usage r of None \<Rightarrow> PNone | Some u \<Rightarrow> PDict u), (''contextSummary'', cm_context_summary r),
      (''timestamp'', cm_created_at r)]"

definition setdefault :: "string \<Rightarrow> pyval \<Rightarrow> pydict \<Rightarrow> pydict" where
  "setdefault k v d = (if map_of d k = None then d @ [(k, v)] else d)"

definition row_message :: "string \<Rightarrow> chat_message \<Rightarrow> pydict" where
  "row_message chat_id r =
     (let m = dict_update [(''id'', PStr (message_key chat_id r))] (filter (\<lambda>(k, v). v \<noteq> PNone) (row_columns r));
          m = setdefault ''content'' (PStr []) m
      in case map_of m ''usage'' of None \<Rightarrow> m | Some u \<Rightarrow> dict_set ''info'' (PDict [(''usage'', u)]) m)"

definition link_row :: "string \<times> pydict \<Rightarrow> (string, pydict) dict \<Rightarrow> (string, pydict) dict" where
  "link_row km M =
     (case dget (snd km) ''parentId'' of
        PStr p \<Rightarrow>
          (case map_of M p of
             Some parent \<Rightarrow>
               if p = [] then M
               else (case map_of parent ''childrenIds'' of
                       None \<Rightarrow> dict_set p (dict_set ''childrenIds'' (PList [PStr (fst km)]) parent) M
                     | Some (PList cs) \<Rightarrow> if PStr (fst km) \<in> set cs then M else dict_set p (dict_set ''childrenIds'' (PList (cs @ [PStr (fst km)])) parent) M
                     | Some _ \<Rightarrow> M)
           | None \<Rightarrow> M)
      | _ \<Rightarrow> M)"

definition messages_map_by_chat_id :: "string \<Rightarrow> messages_table \<Rightarrow> (string, pydict) dict option" where
  "messages_map_by_chat_id chat_id T =
     (let rows = filter (\<lambda>r. cm_chat_id r = chat_id) T
      in if rows = [] then None
         else let M = foldl (\<lambda>M r. dict_set (message_key chat_id r) (row_message chat_id r) M) [] rows
              in Some (map (\<lambda>(k, m). (k, setdefault ''childrenIds'' (PList []) m)) (fold link_row M M)))"

end
