(* ===== verification/OWUI_Chats.thy ===== *)
theory OWUI_Chats
  imports OWUI_Messages
begin

section \<open>The chat table of Open WebUI (models/chats.py)\<close>

text \<open>
  The rows of the tables \<open>chat\<close>, \<open>chat_message\<close>, \<open>automation_run\<close>, \<open>shared_chat\<close> and \<open>tag\<close> that the operations on chats
  write, and those operations: the creation with which test runs are saved, the queries and deletions that
  empty the Tests folder, and the edits of a stored conversation. Each operation runs in a session that commits at
  its end; an exception before the commit leaves the tables unchanged. Where the code catches every exception and returns
  nothing, so does the model. Generated ids and the clock are arguments. Foreign-key cascades of the database are not
  modelled: what is deleted is what the code deletes.
\<close>

record chat_row =
  c_id :: string
  c_user_id :: string
  c_title :: string
  c_chat :: pydict
  c_created_at :: int
  c_updated_at :: int
  c_share_id :: "string option"
  c_archived :: bool
  c_pinned :: "bool option"
  c_meta :: pydict
  c_variables :: pydict
  c_folder_id :: "string option"
  c_tasks :: pyval
  c_summary :: "string option"
  c_current_message_id :: pyval
  c_last_read_at :: "int option"
  c_timer_at :: "int option"

record automation_run =
  ar_id :: string
  ar_chat_id :: "string option"

record shared_chat =
  sc_id :: string
  sc_chat_id :: string
  sc_user_id :: string
  sc_title :: string
  sc_chat :: pydict
  sc_created_at :: int
  sc_updated_at :: int

record tag_row =
  tg_id :: string
  tg_user_id :: string
  tg_name :: string
  tg_meta :: "pydict option"

record chat_db =
  db_chats :: "chat_row list"
  db_messages :: messages_table
  db_runs :: "automation_run list"
  db_shared :: "shared_chat list"
  db_tags :: "tag_row list"

definition find_chat :: "string \<Rightarrow> chat_db \<Rightarrow> chat_row option" where
  "find_chat i db = find (\<lambda>c. c_id c = i) (db_chats db)"

definition put_chat :: "chat_row \<Rightarrow> chat_db \<Rightarrow> chat_db" where
  "put_chat c db = db\<lparr>db_chats := map (\<lambda>d. if c_id d = c_id c then c else d) (db_chats db)\<rparr>"

interpretation chat_rows: row_store c_id "\<lambda>db. map c_id (db_chats db)" find_chat put_chat
  by unfold_locales (auto simp: find_chat_def put_chat_def find_key_None find_replaced dest: find_key_Some)

definition is_internal_chat :: "pydict \<Rightarrow> bool" where
  "is_internal_chat meta \<longleftrightarrow> meta \<noteq> [] \<and> dget meta ''internal'' = PBool True"

subsection \<open>Creating a chat\<close>

record chat_form =
  cf_chat :: pydict
  cf_variables :: "pydict option"
  cf_folder_id :: "string option"

text \<open>The row must satisfy the model's types: a title and a current message id that are no text are refused.\<close>

definition new_chat_row :: "int \<Rightarrow> string \<Rightarrow> string \<Rightarrow> chat_form \<Rightarrow> pydict option \<Rightarrow> int option \<Rightarrow> chat_row res" where
  "new_chat_row now i user_id form internal_meta timer_at =
     (let chat = cf_chat form;
          heading = sanitize_data_for_db (dict_get_or chat ''title'' (PStr ''New Chat''));
          current = get_current_message_id chat
      in if \<not> is_str heading \<or> \<not> (current = PNone \<or> is_str current) then Inl OtherError
         else Inr \<lparr>c_id = i, c_user_id = user_id, c_title = the_str heading,
                   c_chat = dict_or_empty (sanitize_data_for_db (PDict chat)), c_created_at = now, c_updated_at = now,
                   c_share_id = None, c_archived = False, c_pinned = Some False,
                   c_meta = (case internal_meta of None \<Rightarrow> [] | Some m \<Rightarrow> m),
                   c_variables = (case cf_variables form of None \<Rightarrow> [] | Some v \<Rightarrow> v), c_folder_id = cf_folder_id form,
                   c_tasks = PNone, c_summary = None, c_current_message_id = current,
                   c_last_read_at = Some now, c_timer_at = timer_at\<rparr>)"

text \<open>The messages that get a row: dictionaries with a role.\<close>

definition writable :: "pydict \<Rightarrow> (string, pydict) dict" where
  "writable M = concat (map (\<lambda>(k, m). case m of PDict d \<Rightarrow> if truthy (dget d ''role'') then [(k, d)] else [] | _ \<Rightarrow> []) M)"

text \<open>
  The messages that are also written to the message table: those of the history, or the flat list when it has
  none. A message id of the flat list that is not a text cannot be part of a composite id of this model and is left out.
\<close>

definition initial_messages :: "pydict \<Rightarrow> (string, pydict) dict" where
  "initial_messages chat =
     (let M = dict_or_empty (dget (dict_or_empty (dget chat ''history'')) ''messages'')
      in writable (if M \<noteq> [] then M
           else foldl (\<lambda>acc m. case m of PDict d \<Rightarrow> (case dget d ''id'' of PStr i \<Rightarrow> if i \<noteq> [] then dict_set i m acc else acc | _ \<Rightarrow> acc) | _ \<Rightarrow> acc)
                  [] (list_or_empty (dget chat ''messages''))))"

text \<open>The dual write commits message by message and stops, with a warning only, at the first that raises.\<close>

fun write_messages :: "int \<Rightarrow> string \<Rightarrow> string \<Rightarrow> (string, pydict) dict \<Rightarrow> messages_table \<Rightarrow> messages_table" where
  "write_messages now chat_id user_id [] T = T"
| "write_messages now chat_id user_id ((k, d) # rest) T =
     (case upsert_message now k chat_id user_id d T of Inl e \<Rightarrow> T | Inr T' \<Rightarrow> write_messages now chat_id user_id rest T')"

definition insert_new_chat :: "int \<Rightarrow> string \<Rightarrow> string \<Rightarrow> chat_form \<Rightarrow> pydict option \<Rightarrow> int option \<Rightarrow> chat_db \<Rightarrow> chat_row res \<times> chat_db" where
  "insert_new_chat now i user_id form internal_meta timer_at db =
     (case new_chat_row now i user_id form internal_meta timer_at of
        Inl e \<Rightarrow> (Inl e, db)
      | Inr c \<Rightarrow>
          if i \<in> c_id ` set (db_chats db) then (Inl OtherError, db)
          else (Inr c, db\<lparr>db_chats := db_chats db @ [c],
                          db_messages := write_messages now i user_id (initial_messages (cf_chat form)) (db_messages db)\<rparr>))"

subsection \<open>Chats of folders\<close>

definition is_listed :: "chat_row \<Rightarrow> bool" where
  "is_listed c \<longleftrightarrow> c_pinned c \<noteq> Some True \<and> \<not> c_archived c \<and> dget (c_meta c) ''internal'' \<noteq> PBool True"

definition newest_chats :: "chat_row list \<Rightarrow> chat_row list" where
  "newest_chats cs = sort_key (\<lambda>c. - c_updated_at c) cs"

definition get_chats_by_folder_ids_and_user_id :: "string list \<Rightarrow> string \<Rightarrow> chat_db \<Rightarrow> chat_row list" where
  "get_chats_by_folder_ids_and_user_id folder_ids user_id db =
     newest_chats (filter (\<lambda>c. c_folder_id c \<in> Some ` set folder_ids \<and> c_user_id c = user_id \<and> is_listed c) (db_chats db))"

text \<open>The user is not looked at; a missing chat is an \<open>AttributeError\<close>, which is caught.\<close>

definition update_chat_folder_id_by_id_and_user_id :: "int \<Rightarrow> string \<Rightarrow> string \<Rightarrow> string option \<Rightarrow> chat_db \<Rightarrow> chat_row option \<times> chat_db" where
  "update_chat_folder_id_by_id_and_user_id now i user_id folder_id db =
     (case find_chat i db of
        None \<Rightarrow> (None, db)
      | Some c \<Rightarrow>
          (let c' = c\<lparr>c_folder_id := folder_id, c_updated_at := now, c_last_read_at := Some now, c_pinned := Some False,
                      c_archived := (if folder_id \<noteq> None then False else c_archived c)\<rparr>
           in (Some c', put_chat c' db)))"

definition count_chats_by_folder_id_and_user_id :: "string option \<Rightarrow> string \<Rightarrow> chat_db \<Rightarrow> nat" where
  "count_chats_by_folder_id_and_user_id folder_id user_id db =
     length (filter (\<lambda>c. c_user_id c = user_id \<and> c_folder_id c = folder_id \<and> dget (c_meta c) ''internal'' \<noteq> PBool True) (db_chats db))"

definition count_chats_by_folder_ids_and_user_id :: "string list \<Rightarrow> string \<Rightarrow> chat_db \<Rightarrow> nat" where
  "count_chats_by_folder_ids_and_user_id folder_ids user_id db =
     length (filter (\<lambda>c. c_user_id c = user_id \<and> c_folder_id c \<in> Some ` set folder_ids \<and> dget (c_meta c) ''internal'' \<noteq> PBool True) (db_chats db))"

definition move_chats_by_user_id_and_folder_id :: "string \<Rightarrow> string option \<Rightarrow> string option \<Rightarrow> chat_db \<Rightarrow> chat_db" where
  "move_chats_by_user_id_and_folder_id user_id folder_id new_folder_id db =
     db\<lparr>db_chats := map (\<lambda>c. if c_user_id c = user_id \<and> c_folder_id c = folder_id then c\<lparr>c_folder_id := new_folder_id\<rparr> else c) (db_chats db)\<rparr>"

subsection \<open>Deleting\<close>

text \<open>The rows that refer to a set of chats: runs lose the reference, messages go.\<close>

definition forget_chats :: "(string \<Rightarrow> bool) \<Rightarrow> chat_db \<Rightarrow> chat_db" where
  "forget_chats P db =
     db\<lparr>db_runs := map (\<lambda>r. case ar_chat_id r of Some i \<Rightarrow> if P i then r\<lparr>ar_chat_id := None\<rparr> else r | None \<Rightarrow> r) (db_runs db),
        db_messages := filter (\<lambda>r. \<not> P (cm_chat_id r)) (db_messages db)\<rparr>"

definition delete_shared_chat_by_chat_id :: "string \<Rightarrow> chat_db \<Rightarrow> chat_db" where
  "delete_shared_chat_by_chat_id i db = db\<lparr>db_shared := filter (\<lambda>s. sc_chat_id s \<noteq> i) (db_shared db)\<rparr>"

definition delete_chat_by_id :: "string \<Rightarrow> chat_db \<Rightarrow> chat_db" where
  "delete_chat_by_id i db =
     (let db = forget_chats (\<lambda>j. j = i) db
      in delete_shared_chat_by_chat_id i (db\<lparr>db_chats := filter (\<lambda>c. c_id c \<noteq> i) (db_chats db)\<rparr>))"

definition delete_chat_by_id_and_user_id :: "string \<Rightarrow> string \<Rightarrow> chat_db \<Rightarrow> chat_db" where
  "delete_chat_by_id_and_user_id i user_id db =
     (let db = forget_chats (\<lambda>j. j = i) db
      in delete_shared_chat_by_chat_id i (db\<lparr>db_chats := filter (\<lambda>c. \<not> (c_id c = i \<and> c_user_id c = user_id)) (db_chats db)\<rparr>))"

definition delete_shared_chats_by_user_id :: "string \<Rightarrow> chat_db \<Rightarrow> chat_db" where
  "delete_shared_chats_by_user_id user_id db =
     db\<lparr>db_shared := filter (\<lambda>s. sc_user_id s \<noteq> user_id) (db_shared db),
        db_chats := map (\<lambda>c. if c_user_id c = user_id then c\<lparr>c_share_id := None\<rparr> else c) (db_chats db)\<rparr>"

definition delete_chats_by_user_id :: "string \<Rightarrow> chat_db \<Rightarrow> chat_db" where
  "delete_chats_by_user_id user_id db =
     (let db = delete_shared_chats_by_user_id user_id db;
          mine = (\<lambda>c. c_user_id c = user_id);
          db' = forget_chats (\<lambda>i. list_ex (\<lambda>c. c_id c = i \<and> mine c) (db_chats db)) db
      in db'\<lparr>db_chats := filter (\<lambda>c. \<not> mine c) (db_chats db')\<rparr>)"

definition delete_chats_by_user_id_and_folder_id :: "string \<Rightarrow> string option \<Rightarrow> chat_db \<Rightarrow> chat_db" where
  "delete_chats_by_user_id_and_folder_id user_id folder_id db =
     (let gone = (\<lambda>c. c_user_id c = user_id \<and> c_folder_id c = folder_id);
          db' = forget_chats (\<lambda>i. list_ex (\<lambda>c. c_id c = i \<and> gone c) (db_chats db)) db
      in db'\<lparr>db_chats := filter (\<lambda>c. \<not> gone c) (db_chats db')\<rparr>)"

subsection \<open>Editing a stored chat\<close>

text \<open>
  The operations below read a row, change it and write it back; \<open>None\<close> is what they return when the chat is missing or
  anything raised. A title or current message id that is no text does not fit its column and counts as such an error.
\<close>

definition opt_history :: "pyval \<Rightarrow> pydict option res" where
  "opt_history v = (if truthy v then (case v of PDict d \<Rightarrow> Inr (Some d) | _ \<Rightarrow> Inl OtherError) else Inr None)"

definition store_chat :: "chat_row \<Rightarrow> pydict \<Rightarrow> pyval \<Rightarrow> chat_row res" where
  "store_chat c chat current =
     (let heading = dict_get_or chat ''title'' (PStr ''New Chat'')
      in if is_str heading \<and> (current = PNone \<or> is_str current)
         then Inr (c\<lparr>c_chat := chat, c_title := the_str heading, c_current_message_id := current\<rparr>) else Inl OtherError)"

text \<open>\<open>updated_at\<close> moves unless the caller asks not to touch it.\<close>

definition touch_row :: "bool \<Rightarrow> int \<Rightarrow> chat_row \<Rightarrow> chat_row" where
  "touch_row touch now c = (if touch then c\<lparr>c_updated_at := now\<rparr> else c)"

definition merged_chat :: "pydict \<Rightarrow> pydict \<Rightarrow> pydict res" where
  "merged_chat stored chat =
     (case map_of chat ''history'' of
        None \<Rightarrow> Inr (dict_update stored chat)
      | Some incoming \<Rightarrow>
          bindE (opt_history (dget stored ''history'')) (\<lambda>old.
          bindE (opt_history incoming) (\<lambda>new.
          bindE (merge_history old new) (\<lambda>h. Inr (dict_set ''history'' (PDict h) (dict_update stored chat))))))"

definition update_chat_by_id :: "int \<Rightarrow> string \<Rightarrow> pydict \<Rightarrow> bool \<Rightarrow> chat_db \<Rightarrow> chat_row option \<times> chat_db" where
  "update_chat_by_id now i chat touch db =
     (case find_chat i db of
        None \<Rightarrow> (None, db)
      | Some c \<Rightarrow>
          (case bindE (merged_chat (c_chat c) chat) (\<lambda>updated.
                  (let clean = dict_or_empty (sanitize_data_for_db (PDict updated));
                       moved = list_ex (has_key chat) [''history'', ''messages'', ''currentId'', ''branchPointMessageId'']
                   in store_chat c clean (if moved then get_current_message_id clean else c_current_message_id c))) of
             Inl e \<Rightarrow> (None, db)
           | Inr c' \<Rightarrow> (let c'' = touch_row touch now c' in (Some c'', put_chat c'' db))))"

definition update_chat_variables_by_id :: "int \<Rightarrow> string \<Rightarrow> pyval \<Rightarrow> bool \<Rightarrow> chat_db \<Rightarrow> chat_row option \<times> chat_db" where
  "update_chat_variables_by_id now i variables touch db =
     (case find_chat i db of
        None \<Rightarrow> (None, db)
      | Some c \<Rightarrow> (let c' = touch_row touch now (c\<lparr>c_variables := dict_or_empty variables\<rparr>) in (Some c', put_chat c' db)))"

definition update_chat_last_read_at_by_id :: "int \<Rightarrow> string \<Rightarrow> string \<Rightarrow> chat_db \<Rightarrow> (int \<times> bool) option \<times> chat_db" where
  "update_chat_last_read_at_by_id now i user_id db =
     (case find_chat i db of
        None \<Rightarrow> (None, db)
      | Some c \<Rightarrow>
          if c_user_id c = user_id
          then (Some (now, case c_last_read_at c of None \<Rightarrow> True | Some t \<Rightarrow> c_updated_at c > t), put_chat (c\<lparr>c_last_read_at := Some now\<rparr>) db)
          else (None, db))"

definition mark_chat_unread_by_id :: "string \<Rightarrow> string \<Rightarrow> chat_db \<Rightarrow> chat_row option \<times> chat_db" where
  "mark_chat_unread_by_id i user_id db =
     (case find_chat i db of
        None \<Rightarrow> (None, db)
      | Some c \<Rightarrow> if c_user_id c = user_id then (let c' = c\<lparr>c_last_read_at := Some 0\<rparr> in (Some c', put_chat c' db)) else (None, db))"

definition mark_read :: "(chat_row \<Rightarrow> bool) \<Rightarrow> chat_db \<Rightarrow> nat \<times> chat_db" where
  "mark_read P db =
     (let Q = (\<lambda>c. P c \<and> \<not> c_archived c \<and> dget (c_meta c) ''internal'' \<noteq> PBool True)
      in (length (filter Q (db_chats db)), db\<lparr>db_chats := map (\<lambda>c. if Q c then c\<lparr>c_last_read_at := Some (c_updated_at c)\<rparr> else c) (db_chats db)\<rparr>))"

definition mark_chats_read_by_folder_ids :: "string \<Rightarrow> string list \<Rightarrow> chat_db \<Rightarrow> nat \<times> chat_db" where
  "mark_chats_read_by_folder_ids user_id folder_ids db =
     (if folder_ids = [] then (0, db) else mark_read (\<lambda>c. c_user_id c = user_id \<and> c_folder_id c \<in> Some ` set folder_ids) db)"

definition mark_chats_read_by_user_id :: "string \<Rightarrow> chat_db \<Rightarrow> nat \<times> chat_db" where
  "mark_chats_read_by_user_id user_id db = mark_read (\<lambda>c. c_user_id c = user_id) db"

definition update_chat_title_by_id :: "string \<Rightarrow> string \<Rightarrow> chat_db \<Rightarrow> chat_row option \<times> chat_db" where
  "update_chat_title_by_id i heading db =
     (case find_chat i db of
        None \<Rightarrow> (None, db)
      | Some c \<Rightarrow>
          (let clean = sanitize_text_for_db heading;
               c' = c\<lparr>c_title := clean, c_chat := dict_set ''title'' (PStr clean) (c_chat c)\<rparr>
           in (Some c', put_chat c' db)))"

definition get_chat_title_by_id :: "string \<Rightarrow> chat_db \<Rightarrow> string option" where
  "get_chat_title_by_id i db = map_option (\<lambda>c. if c_title c = [] then ''New Chat'' else c_title c) (find_chat i db)"

definition update_chat_tasks_by_id :: "string \<Rightarrow> pyval \<Rightarrow> chat_db \<Rightarrow> chat_row option \<times> chat_db" where
  "update_chat_tasks_by_id i tasks db =
     (case find_chat i db of None \<Rightarrow> (None, db) | Some c \<Rightarrow> (let c' = c\<lparr>c_tasks := tasks\<rparr> in (Some c', put_chat c' db)))"

definition get_chat_tasks_by_id :: "string \<Rightarrow> chat_db \<Rightarrow> pyval" where
  "get_chat_tasks_by_id i db =
     (case find_chat i db of None \<Rightarrow> PList [] | Some c \<Rightarrow> if c_tasks c = PNone then PList [] else c_tasks c)"

subsection \<open>Editing the messages of a stored chat\<close>

text \<open>\<open>get_output_text\<close>: the texts of the output's messages, one per line.\<close>

definition part_text :: "pyval \<Rightarrow> string" where
  "part_text p = (case p of PDict d \<Rightarrow> if dget d ''text'' \<noteq> PNone then py_str (dget d ''text'') else [] | _ \<Rightarrow> [])"

definition output_item_text :: "pyval \<Rightarrow> string list" where
  "output_item_text item =
     (case item of
        PDict d \<Rightarrow>
          if dget d ''type'' \<noteq> PStr ''message'' then []
          else (let t = concat (map part_text (list_or_empty (or_else (dget d ''content'') (PList []))))
                in if list_ex (\<lambda>c. \<not> is_space c) t then [t] else [])
      | _ \<Rightarrow> [])"

definition get_output_text :: "pyval \<Rightarrow> string" where
  "get_output_text output = join newline (concat (map output_item_text (list_or_empty output)))"

text \<open>\<open>_sanitize_chat_row\<close>.\<close>

definition sanitize_chat_row :: "chat_row \<Rightarrow> chat_row" where
  "sanitize_chat_row c = c\<lparr>c_title := sanitize_text_for_db (c_title c), c_chat := dict_or_empty (sanitize_data_for_db (PDict (c_chat c)))\<rparr>"

definition history_of :: "pydict \<Rightarrow> pydict res" where
  "history_of chat = (case dict_get_or chat ''history'' (PDict []) of PDict h \<Rightarrow> Inr h | _ \<Rightarrow> Inl OtherError)"

text \<open>\<open>backfill_messages_by_chat_id\<close>: one session for all, errors only logged.\<close>

definition backfill_messages_by_chat_id :: "int \<Rightarrow> string \<Rightarrow> string \<Rightarrow> pydict \<Rightarrow> chat_db \<Rightarrow> chat_db" where
  "backfill_messages_by_chat_id now chat_id user_id M db =
     (case upsert_messages now chat_id user_id (writable M) (db_messages db) of Inl e \<Rightarrow> db | Inr T \<Rightarrow> db\<lparr>db_messages := T\<rparr>)"

definition upsert_into_row :: "int \<Rightarrow> string \<Rightarrow> pydict \<Rightarrow> bool \<Rightarrow> chat_row \<Rightarrow> (pydict \<times> chat_row) res" where
  "upsert_into_row now message_id message touch c0 =
     (let c = sanitize_chat_row c0
      in bindE (repair_chat_current_id (c_chat c)) (\<lambda>(changed, chat).
         bindE (history_of chat) (\<lambda>history.
         bindE (upsert_message_to_history now history message_id message) (\<lambda>(saved, history).
         (let chat = dict_set ''history'' (PDict history) chat
          in bindE (store_chat c chat (get_current_message_id chat)) (\<lambda>c. Inr (saved, touch_row touch now c)))))))"

definition upsert_message_to_chat_by_id_and_message_id ::
    "int \<Rightarrow> string \<Rightarrow> string \<Rightarrow> pydict \<Rightarrow> bool \<Rightarrow> chat_db \<Rightarrow> chat_row option \<times> chat_db" where
  "upsert_message_to_chat_by_id_and_message_id now i message_id message touch db =
     (let out = get_output_text (dget message ''output'');
          message = (if \<not> truthy (dget message ''content'') \<and> out \<noteq> [] then dict_set ''content'' (PStr out) message else message);
          message = dict_or_empty (sanitize_data_for_db (PDict message));
          message_id = sanitize_text_for_db message_id
      in case find_chat i db of
           None \<Rightarrow> (None, db)
         | Some c \<Rightarrow>
             (case upsert_into_row now message_id message touch c of
                Inl e \<Rightarrow> (None, db)
              | Inr (saved, c') \<Rightarrow>
                  (let db' = put_chat c' db
                   in (Some c', case upsert_message now message_id i (c_user_id c) saved (db_messages db') of
                                  Inl e \<Rightarrow> db' | Inr T \<Rightarrow> db'\<lparr>db_messages := T\<rparr>))))"

text \<open>Deleting a message: when nothing is deleted the repaired chat is stored, but its time is not touched.\<close>

definition delete_from_row :: "int \<Rightarrow> string \<Rightarrow> chat_row \<Rightarrow> (string list \<times> pydict \<times> chat_row) res" where
  "delete_from_row now message_id c0 =
     (let c = sanitize_chat_row c0
      in bindE (repair_chat_current_id (c_chat c)) (\<lambda>(changed, chat).
         bindE (history_of chat) (\<lambda>history.
         bindE (delete_message_from_history history message_id) (\<lambda>(gone, history).
           if gone = []
           then bindE (store_chat c chat (get_current_message_id chat)) (\<lambda>c. Inr ([], [], c))
           else (let chat = dict_set ''history'' (PDict history) chat
                 in bindE (store_chat c chat (get_current_message_id chat)) (\<lambda>c.
                      Inr (gone, dict_or_empty (dget history ''messages''), c\<lparr>c_updated_at := now\<rparr>)))))))"

definition delete_message_from_chat_by_id_and_message_id :: "int \<Rightarrow> string \<Rightarrow> string \<Rightarrow> chat_db \<Rightarrow> chat_row option \<times> chat_db" where
  "delete_message_from_chat_by_id_and_message_id now i message_id db =
     (case find_chat i db of
        None \<Rightarrow> (None, db)
      | Some c \<Rightarrow>
          (case delete_from_row now message_id c of
             Inl e \<Rightarrow> (None, db)
           | Inr (gone, M, c') \<Rightarrow>
               if gone = [] then (Some c', put_chat c' db)
               else (let db' = backfill_messages_by_chat_id now i (c_user_id c) M (put_chat c' db)
                     in (Some c', db'\<lparr>db_messages := delete_message_ids_by_chat_id i gone (db_messages db')\<rparr>))))"

text \<open>A status line for a message: \<open>history["messages"][id]["statusHistory"]\<close> grows by one.\<close>

definition append_status :: "string \<Rightarrow> pyval \<Rightarrow> pydict \<Rightarrow> pydict res" where
  "append_status message_id status history =
     (case dict_get_or history ''messages'' (PDict []) of
        PDict M \<Rightarrow>
          (case map_of M message_id of
             None \<Rightarrow> Inr history
           | Some (PDict m) \<Rightarrow>
               (case dict_get_or m ''statusHistory'' (PList []) of
                  PList ss \<Rightarrow> Inr (dict_set ''messages'' (PDict (dict_set message_id (PDict (dict_set ''statusHistory'' (PList (ss @ [status])) m)) M)) history)
                | _ \<Rightarrow> Inl OtherError)
           | Some _ \<Rightarrow> Inl OtherError)
      | v \<Rightarrow> bindE (text_in message_id v) (\<lambda>b. if b then Inl TypeError else Inr history))"

definition add_message_status_to_chat_by_id_and_message_id :: "string \<Rightarrow> string \<Rightarrow> pyval \<Rightarrow> chat_db \<Rightarrow> chat_row option \<times> chat_db" where
  "add_message_status_to_chat_by_id_and_message_id i message_id status db =
     (case find_chat i db of
        None \<Rightarrow> (None, db)
      | Some c0 \<Rightarrow>
          (let c = sanitize_chat_row c0
           in case bindE (repair_chat_current_id (c_chat c)) (\<lambda>(changed, chat).
                   bindE (history_of chat) (\<lambda>history.
                   bindE (append_status message_id (sanitize_data_for_db status) history) (\<lambda>history.
                   (let chat = dict_set ''history'' (PDict history) chat in store_chat c chat (get_current_message_id chat))))) of
                Inl e \<Rightarrow> (None, db)
              | Inr c' \<Rightarrow> (Some c', put_chat c' db)))"

subsection \<open>The empty database\<close>

definition empty_db :: chat_db where
  "empty_db = \<lparr>db_chats = [], db_messages = [], db_runs = [], db_shared = [], db_tags = []\<rparr>"

lemma find_chat_id: "find_chat i db = Some c \<Longrightarrow> c_id c = i \<and> c \<in> set (db_chats db)"
  unfolding find_chat_def by (rule find_key_Some)

end
