(* ===== verification/OWUI_Groups.thy ===== *)
theory OWUI_Groups
  imports OWUI_History OWUI_Table
begin

section \<open>Groups of users (models/groups.py)\<close>

text \<open>
  The tables \<open>group\<close> and \<open>group_member\<close> and the operations on them. A user is a member of a group at most once (the unique
  constraint \<open>uq_group_member_group_user\<close>); a statement that would break it, or repeat a primary key, raises. A session that is
  closed or rolled back before its commit leaves the tables as they were at its last commit. Foreign keys and their cascades are not
  modelled. Generated ids, the clock and the configured default of \<open>DEFAULT_GROUP_SHARE_PERMISSION\<close> are arguments; \<open>ids n\<close> is the
  \<open>n\<close>-th id an operation generates. Queries with search texts (\<open>get_groups\<close>, \<open>search_groups\<close>) are SQL over JSON texts and are left out.
\<close>

subsection \<open>Rows\<close>

text \<open>The rows an operation adds, one for each element, each with a generated id.\<close>

fun with_ids :: "(nat \<Rightarrow> string) \<Rightarrow> nat \<Rightarrow> (string \<Rightarrow> 'a \<Rightarrow> 'r) \<Rightarrow> 'a list \<Rightarrow> 'r list" where
  "with_ids ids n f [] = []"
| "with_ids ids n f (x # xs) = f (ids n) x # with_ids ids (Suc n) f xs"

lemma with_ids_keys: "(\<And>i x. key (f i x) = i) \<Longrightarrow> map key (with_ids ids n f xs) = map ids [n..<n + length xs]"
proof (induction xs arbitrary: n)
  case (Cons x xs)
  then show ?case using upt_conv_Cons [of n "n + Suc (length xs)"] by (simp del: upt_Suc)
qed simp

lemma with_ids_map: "(\<And>i x. g (f i x) = h x) \<Longrightarrow> map g (with_ids ids n f xs) = map h xs"
  by (induction xs arbitrary: n) auto

lemma with_ids_distinct: "inj ids \<Longrightarrow> (\<And>i x. key (f i x) = i) \<Longrightarrow> distinct (map key (with_ids ids n f xs))"
  using with_ids_keys [of key f ids n xs] inj_on_subset [of ids UNIV] by (simp add: distinct_map)

lemma with_ids_fresh: "(\<And>k. ids k \<notin> S) \<Longrightarrow> (\<And>i x. key (f i x) = i) \<Longrightarrow> key ` set (with_ids ids n f xs) \<inter> S = {}"
  using arg_cong [OF with_ids_keys [of key f ids n xs], of set] by auto

record group_row =
  g_id :: string
  g_user_id :: string
  g_name :: string
  g_description :: string
  g_data :: "pydict option"
  g_meta :: "pydict option"
  g_permissions :: "pydict option"
  g_created_at :: int
  g_updated_at :: int

record group_member =
  gm_id :: string
  gm_group_id :: string
  gm_user_id :: string
  gm_created_at :: "int option"
  gm_updated_at :: "int option"

record group_db =
  gd_groups :: "group_row list"
  gd_members :: "group_member list"

record group_form =
  gf_name :: string
  gf_description :: string
  gf_permissions :: "pydict option"
  gf_data :: "pydict option"

definition find_group :: "string \<Rightarrow> group_db \<Rightarrow> group_row option" where
  "find_group i db = find (\<lambda>g. g_id g = i) (gd_groups db)"

definition put_group :: "group_row \<Rightarrow> group_db \<Rightarrow> group_db" where
  "put_group g db = db\<lparr>gd_groups := map (\<lambda>h. if g_id h = g_id g then g else h) (gd_groups db)\<rparr>"

interpretation group_rows: row_store g_id "\<lambda>db. map g_id (gd_groups db)" find_group put_group
  by unfold_locales (auto simp: find_group_def put_group_def find_key_None find_replaced dest: find_key_Some)

text \<open>Inserting one membership.\<close>

definition membership :: "group_member \<Rightarrow> string \<times> string" where
  "membership m = (gm_group_id m, gm_user_id m)"

definition insert_member :: "group_member \<Rightarrow> group_member list \<Rightarrow> group_member list res" where
  "insert_member m T = (if gm_id m \<in> gm_id ` set T \<or> membership m \<in> membership ` set T then Inl OtherError else Inr (T @ [m]))"

definition new_member :: "int \<Rightarrow> string \<Rightarrow> string \<Rightarrow> string \<Rightarrow> group_member" where
  "new_member now i group_id user_id = \<lparr>gm_id = i, gm_group_id = group_id, gm_user_id = user_id, gm_created_at = Some now, gm_updated_at = Some now\<rparr>"

lemma new_member_simps [simp]: "gm_id (new_member now i group_id user_id) = i" "membership (new_member now i group_id user_id) = (group_id, user_id)"
  by (simp_all add: new_member_def membership_def)

lemma membership_iff: "(i, u) \<in> membership ` S \<longleftrightarrow> (\<exists>m \<in> S. gm_group_id m = i \<and> gm_user_id m = u)"
  by (auto simp: membership_def)

subsection \<open>Creating groups\<close>

text \<open>\<open>_ensure_default_share_config\<close>. A configuration that is no dictionary cannot be assigned to.\<close>

definition ensure_default_share_config :: "pyval \<Rightarrow> pydict option \<Rightarrow> pydict res" where
  "ensure_default_share_config share data =
     (let d = (case data of None \<Rightarrow> [] | Some d \<Rightarrow> d);
          d = (if map_of d ''config'' \<noteq> None then d else dict_set ''config'' (PDict []) d)
      in case dget d ''config'' of
           PDict c \<Rightarrow> Inr (if map_of c ''share'' \<noteq> None then d else dict_set ''config'' (PDict (dict_set ''share'' share c)) d)
         | v \<Rightarrow> bindE (text_in ''share'' v) (\<lambda>b. if b then Inr d else Inl TypeError))"

definition insert_group :: "group_row \<Rightarrow> group_db \<Rightarrow> group_row option \<times> group_db" where
  "insert_group g db = (if g_id g \<in> g_id ` set (gd_groups db) then (None, db) else (Some g, db\<lparr>gd_groups := gd_groups db @ [g]\<rparr>))"

definition insert_new_group :: "pyval \<Rightarrow> string \<Rightarrow> int \<Rightarrow> string \<Rightarrow> group_form \<Rightarrow> group_db \<Rightarrow> group_row option res \<times> group_db" where
  "insert_new_group share i now user_id form db =
     (case ensure_default_share_config share (gf_data form) of
        Inl e \<Rightarrow> (Inl e, db)
      | Inr data \<Rightarrow>
          (case insert_group \<lparr>g_id = i, g_user_id = user_id, g_name = gf_name form, g_description = gf_description form, g_data = Some data,
                              g_meta = None, g_permissions = gf_permissions form, g_created_at = now, g_updated_at = now\<rparr> db of
             (r, db') \<Rightarrow> (Inr r, db')))"

definition newest_groups :: "group_row list \<Rightarrow> group_row list" where
  "newest_groups gs = sort_key (\<lambda>g. - g_updated_at g) gs"

definition get_all_groups :: "group_db \<Rightarrow> group_row list" where
  "get_all_groups db = newest_groups (gd_groups db)"

definition get_group_by_name :: "string \<Rightarrow> group_db \<Rightarrow> group_row option" where
  "get_group_by_name name db = find (\<lambda>g. g_name g = name) (gd_groups db)"

text \<open>\<open>create_groups_by_group_names\<close>: each group is committed on its own. The names that exist are read once, so a name that is given twice is created twice.\<close>

fun create_groups :: "pyval \<Rightarrow> (nat \<Rightarrow> string) \<Rightarrow> int \<Rightarrow> string \<Rightarrow> string set \<Rightarrow> nat \<Rightarrow> string list \<Rightarrow> group_db \<Rightarrow> group_row list \<times> group_db" where
  "create_groups share ids now user_id existing n [] db = ([], db)"
| "create_groups share ids now user_id existing n (name # names) db =
     (if name \<in> existing then create_groups share ids now user_id existing n names db
      else (case insert_group \<lparr>g_id = ids n, g_user_id = user_id, g_name = name, g_description = '''',
                    g_data = Some [(''config'', PDict [(''share'', share)])], g_meta = None, g_permissions = None,
                    g_created_at = now, g_updated_at = now\<rparr> db of
              (r, db') \<Rightarrow> (case create_groups share ids now user_id existing (Suc n) names db' of
                 (gs, db'') \<Rightarrow> ((case r of None \<Rightarrow> [] | Some g \<Rightarrow> [g]) @ gs, db''))))"

definition create_groups_by_group_names :: "pyval \<Rightarrow> (nat \<Rightarrow> string) \<Rightarrow> int \<Rightarrow> string \<Rightarrow> string list \<Rightarrow> group_db \<Rightarrow> group_row list \<times> group_db" where
  "create_groups_by_group_names share ids now user_id names db =
     create_groups share ids now user_id (g_name ` set (get_all_groups db)) 0 names db"

subsection \<open>Reading memberships\<close>

definition is_member :: "string \<Rightarrow> group_row \<Rightarrow> group_db \<Rightarrow> bool" where
  "is_member user_id g db \<longleftrightarrow> (g_id g, user_id) \<in> membership ` set (gd_members db)"

text \<open>The join of the two tables: a group occurs once for each membership of the user.\<close>

definition joined_groups :: "string \<Rightarrow> group_db \<Rightarrow> group_row list" where
  "joined_groups user_id db =
     concat (map (\<lambda>g. map (\<lambda>m. g) (filter (\<lambda>m. gm_group_id m = g_id g \<and> gm_user_id m = user_id) (gd_members db))) (gd_groups db))"

definition get_groups_by_member_id :: "string \<Rightarrow> group_db \<Rightarrow> group_row list" where
  "get_groups_by_member_id user_id db = newest_groups (joined_groups user_id db)"

definition get_groups_by_member_ids :: "string list \<Rightarrow> group_db \<Rightarrow> (string, group_row list) dict" where
  "get_groups_by_member_ids user_ids db = map (\<lambda>u. (u, get_groups_by_member_id u db)) (remdups user_ids)"

definition get_group_by_id :: "string \<Rightarrow> group_db \<Rightarrow> group_row option" where
  "get_group_by_id i db = find_group i db"

definition get_group_user_ids_by_id :: "string \<Rightarrow> group_db \<Rightarrow> string list" where
  "get_group_user_ids_by_id i db = map gm_user_id (filter (\<lambda>m. gm_group_id m = i) (gd_members db))"

definition get_group_user_ids_by_ids :: "string list \<Rightarrow> group_db \<Rightarrow> (string, string list) dict" where
  "get_group_user_ids_by_ids group_ids db =
     foldl (\<lambda>acc m. if gm_group_id m \<in> set group_ids
                    then dict_set (gm_group_id m) (dict_get_or acc (gm_group_id m) [] @ [gm_user_id m]) acc else acc)
       (map (\<lambda>i. (i, [])) (remdups group_ids)) (gd_members db)"

definition get_group_member_count_by_id :: "string \<Rightarrow> group_db \<Rightarrow> nat" where
  "get_group_member_count_by_id i db = length (filter (\<lambda>m. gm_group_id m = i) (gd_members db))"

text \<open>Grouped counting: only groups with a member occur.\<close>

definition get_group_member_counts_by_ids :: "string list \<Rightarrow> group_db \<Rightarrow> (string, nat) dict" where
  "get_group_member_counts_by_ids ids db =
     (if ids = [] then []
      else map (\<lambda>i. (i, get_group_member_count_by_id i db))
             (remdups (filter (\<lambda>i. i \<in> set ids) (map gm_group_id (gd_members db)))))"

subsection \<open>Changing groups and memberships\<close>

text \<open>New rows of one transaction: all are added or none.\<close>

fun insert_members :: "group_member list \<Rightarrow> group_member list \<Rightarrow> group_member list res" where
  "insert_members [] T = Inr T"
| "insert_members (m # ms') T = bindE (insert_member m T) (insert_members ms')"

definition set_group_user_ids_by_id :: "(nat \<Rightarrow> string) \<Rightarrow> int \<Rightarrow> string \<Rightarrow> string list \<Rightarrow> group_db \<Rightarrow> unit res \<times> group_db" where
  "set_group_user_ids_by_id ids now group_id user_ids db =
     (case insert_members (with_ids ids 0 (\<lambda>i. new_member now i group_id) user_ids)
             (filter (\<lambda>m. gm_group_id m \<noteq> group_id) (gd_members db)) of
        Inl e \<Rightarrow> (Inl e, db)
      | Inr T \<Rightarrow> (Inr (), db\<lparr>gd_members := T\<rparr>))"

definition given_or :: "'a option \<Rightarrow> 'a option \<Rightarrow> 'a option" where
  "given_or new old = (case new of None \<Rightarrow> old | Some v \<Rightarrow> Some v)"

definition update_group_by_id :: "int \<Rightarrow> string \<Rightarrow> group_form \<Rightarrow> group_db \<Rightarrow> group_row option \<times> group_db" where
  "update_group_by_id now i form db =
     (case find_group i db of
        None \<Rightarrow> (None, db)
      | Some g \<Rightarrow>
          (let g' = g\<lparr>g_name := gf_name form, g_description := gf_description form, g_permissions := given_or (gf_permissions form) (g_permissions g),
                      g_data := given_or (gf_data form) (g_data g), g_updated_at := now\<rparr>
           in (Some g', put_group g' db)))"

definition delete_group_by_id :: "string \<Rightarrow> group_db \<Rightarrow> group_db" where
  "delete_group_by_id i db = db\<lparr>gd_groups := filter (\<lambda>g. g_id g \<noteq> i) (gd_groups db)\<rparr>"

definition delete_all_groups :: "group_db \<Rightarrow> group_db" where
  "delete_all_groups db = db\<lparr>gd_groups := []\<rparr>"

text \<open>\<open>update(Group).filter(...).values(updated_at=now)\<close>.\<close>

definition touch_groups :: "int \<Rightarrow> (string \<Rightarrow> bool) \<Rightarrow> group_db \<Rightarrow> group_db" where
  "touch_groups now P db = db\<lparr>gd_groups := map (\<lambda>g. if P (g_id g) then g\<lparr>g_updated_at := now\<rparr> else g) (gd_groups db)\<rparr>"

definition leave_group :: "int \<Rightarrow> string \<Rightarrow> group_db \<Rightarrow> group_row \<Rightarrow> group_db" where
  "leave_group now user_id db g =
     touch_groups now (\<lambda>i. i = g_id g) (db\<lparr>gd_members := filter (\<lambda>m. membership m \<noteq> (g_id g, user_id)) (gd_members db)\<rparr>)"

definition remove_user_from_all_groups :: "int \<Rightarrow> string \<Rightarrow> group_db \<Rightarrow> group_db" where
  "remove_user_from_all_groups now user_id db = foldl (leave_group now user_id) db (joined_groups user_id db)"

text \<open>
  \<open>sync_groups_by_group_names\<close>. The order in which Python walks through the set of groups to add only decides the order of the new
  rows; here it is the order of the table.
\<close>

definition sync_groups_by_group_names :: "(nat \<Rightarrow> string) \<Rightarrow> int \<Rightarrow> string \<Rightarrow> string list \<Rightarrow> group_db \<Rightarrow> bool \<times> group_db" where
  "sync_groups_by_group_names ids now user_id group_names db =
     (let targets = map g_id (filter (\<lambda>g. g_name g \<in> set group_names) (gd_groups db));
          existing = map g_id (joined_groups user_id db);
          adds = filter (\<lambda>i. i \<notin> set existing) (remdups targets);
          removes = filter (\<lambda>i. i \<notin> set targets) existing;
          db1 = touch_groups now (\<lambda>i. i \<in> set removes)
                  (db\<lparr>gd_members := filter (\<lambda>m. \<not> (gm_user_id m = user_id \<and> gm_group_id m \<in> set removes)) (gd_members db)\<rparr>)
      in case insert_members (with_ids ids 0 (\<lambda>n i. new_member now n i user_id) adds) (gd_members db1) of
           Inl e \<Rightarrow> (False, db)
         | Inr T \<Rightarrow> (True, touch_groups now (\<lambda>i. i \<in> set adds) (db1\<lparr>gd_members := T\<rparr>)))"

text \<open>
  \<open>add_users_to_group\<close>: every membership is flushed; a duplicate rolls the session back, and with it the memberships flushed before.
  \<open>T0\<close> is the table at the beginning of the transaction.
\<close>

fun add_members :: "(nat \<Rightarrow> string) \<Rightarrow> int \<Rightarrow> string \<Rightarrow> group_member list \<Rightarrow> nat \<Rightarrow> string list \<Rightarrow> group_member list \<Rightarrow> group_member list" where
  "add_members ids now group_id T0 n [] T = T"
| "add_members ids now group_id T0 n (u # us) T =
     add_members ids now group_id T0 (Suc n) us (case insert_member (new_member now (ids n) group_id u) T of Inl e \<Rightarrow> T0 | Inr T' \<Rightarrow> T')"

definition add_users_to_group :: "(nat \<Rightarrow> string) \<Rightarrow> int \<Rightarrow> string \<Rightarrow> string list option \<Rightarrow> group_db \<Rightarrow> group_row option \<times> group_db" where
  "add_users_to_group ids now i user_ids db =
     (case find_group i db of
        None \<Rightarrow> (None, db)
      | Some g \<Rightarrow>
          (let T = add_members ids now i (gd_members db) 0 (case user_ids of None \<Rightarrow> [] | Some us \<Rightarrow> us) (gd_members db);
               g' = g\<lparr>g_updated_at := now\<rparr>
           in (Some g', put_group g' (db\<lparr>gd_members := T\<rparr>))))"

definition remove_users_from_group :: "int \<Rightarrow> string \<Rightarrow> string list option \<Rightarrow> group_db \<Rightarrow> group_row option \<times> group_db" where
  "remove_users_from_group now i user_ids db =
     (case find_group i db of
        None \<Rightarrow> (None, db)
      | Some g \<Rightarrow>
          (case user_ids of
             None \<Rightarrow> (Some g, db)
           | Some us \<Rightarrow>
               if us = [] then (Some g, db)
               else (let g' = g\<lparr>g_updated_at := now\<rparr>
                     in (Some g', put_group g' (db\<lparr>gd_members := filter (\<lambda>m. \<not> (gm_group_id m = i \<and> gm_user_id m \<in> set us)) (gd_members db)\<rparr>)))))"

subsection \<open>Ids and memberships are unique\<close>

definition members_ok :: "group_member list \<Rightarrow> bool" where
  "members_ok T \<longleftrightarrow> distinct (map gm_id T) \<and> distinct (map membership T)"

definition group_ok :: "group_db \<Rightarrow> bool" where
  "group_ok db \<longleftrightarrow> distinct (map g_id (gd_groups db)) \<and> members_ok (gd_members db)"

lemma insert_member_ok: "insert_member m T = Inr T' \<Longrightarrow> members_ok T \<Longrightarrow> members_ok T'"
  by (auto simp: insert_member_def members_ok_def split: if_splits)

lemma insert_members_ok: "insert_members ms' T = Inr T' \<Longrightarrow> members_ok T \<Longrightarrow> members_ok T'"
  by (induction ms' arbitrary: T) (auto simp: bindE_eq_Inr dest: insert_member_ok)

lemma members_ok_filter: "members_ok T \<Longrightarrow> members_ok (filter P T)"
  by (simp add: members_ok_def distinct_map_filter)

lemma add_members_ok: "members_ok T0 \<Longrightarrow> members_ok T \<Longrightarrow> members_ok (add_members ids now i T0 n us T)"
proof (induction us arbitrary: n T)
  case (Cons u us)
  then show ?case using insert_member_ok [of _ T] by (simp split: sum.split)
qed simp

lemma insert_members_eq: "insert_members ms' T = Inr T' \<Longrightarrow> T' = T @ ms'"
proof (induction ms' arbitrary: T)
  case (Cons m ms')
  then show ?case using Cons.IH [of "T @ [m]"] by (auto simp: bindE_eq_Inr insert_member_def split: if_splits)
qed simp

lemma insert_members_fresh: "members_ok (T @ ms') \<Longrightarrow> insert_members ms' T = Inr (T @ ms')"
proof (induction ms' arbitrary: T)
  case (Cons m ms')
  then have "insert_member m T = Inr (T @ [m])" by (auto simp: members_ok_def insert_member_def)
  then show ?case using Cons.IH [of "T @ [m]"] Cons.prems by simp
qed simp

lemma group_ok_groups: "group_ok db \<Longrightarrow> map g_id gs = map g_id (gd_groups db) \<Longrightarrow> group_ok (db\<lparr>gd_groups := gs\<rparr>)"
  by (simp add: group_ok_def)

lemma group_ok_members: "group_ok db \<Longrightarrow> members_ok T \<Longrightarrow> group_ok (db\<lparr>gd_members := T\<rparr>)"
  by (simp add: group_ok_def)

lemma group_ok_put: "group_ok db \<Longrightarrow> group_ok (put_group g db)"
  unfolding put_group_def by (rule group_ok_groups) auto

lemma group_ok_touch: "group_ok db \<Longrightarrow> group_ok (touch_groups now P db)"
  unfolding touch_groups_def by (rule group_ok_groups) auto

lemma group_ok_insert: "group_ok db \<Longrightarrow> group_ok (snd (insert_group g db))"
  by (auto simp: insert_group_def group_ok_def)

lemma create_groups_ok: "group_ok db \<Longrightarrow> group_ok (snd (create_groups share ids now u ex n names db))"
proof (induction names arbitrary: n db)
  case (Cons name names)
  then show ?case by (simp add: split_beta group_ok_insert)
qed simp

lemma leave_group_ok: "group_ok db \<Longrightarrow> group_ok (leave_group now u db g)"
  unfolding leave_group_def by (intro group_ok_touch group_ok_members members_ok_filter) (simp_all add: group_ok_def)

lemma leave_groups_ok: "group_ok db \<Longrightarrow> group_ok (foldl (leave_group now u) db gs)"
  by (induction gs arbitrary: db) (simp_all add: leave_group_ok)

lemma group_okD: "group_ok db \<Longrightarrow> members_ok (gd_members db)"
  by (simp add: group_ok_def)

lemma sync_ok:
  assumes db: "group_ok db"
  shows "group_ok (snd (sync_groups_by_group_names ids now u names db))"
proof -
  have step: "group_ok (snd (case insert_members ms' (filter P (gd_members db)) of Inl e \<Rightarrow> (False, db) | Inr T \<Rightarrow> (True, touch_groups now Q ((touch_groups now R (db\<lparr>gd_members := filter P (gd_members db)\<rparr>))\<lparr>gd_members := T\<rparr>))))" for ms' P Q R
    using db insert_members_ok [OF _ members_ok_filter [OF group_okD [OF db]], of ms' P]
    by (auto split: sum.split intro!: group_ok_touch group_ok_members members_ok_filter group_okD)
  have gm: "gd_members (touch_groups now R (db\<lparr>gd_members := T\<rparr>)) = T" for R T by (simp add: touch_groups_def)
  show ?thesis unfolding sync_groups_by_group_names_def Let_def gm by (rule step)
qed

inductive group_step :: "group_db \<Rightarrow> group_db \<Rightarrow> bool" where
  create: "group_step db (snd (insert_new_group share i now u form db))"
| create_names: "group_step db (snd (create_groups_by_group_names share ids now u names db))"
| set_members: "group_step db (snd (set_group_user_ids_by_id ids now i us db))"
| edit: "group_step db (snd (update_group_by_id now i form db))"
| delete: "group_step db (delete_group_by_id i db)"
| delete_all: "group_step db (delete_all_groups db)"
| leave_all: "group_step db (remove_user_from_all_groups now u db)"
| sync: "group_step db (snd (sync_groups_by_group_names ids now u names db))"
| add_users: "group_step db (snd (add_users_to_group ids now i us' db))"
| remove_users: "group_step db (snd (remove_users_from_group now i us' db))"

lemma group_step_ok: "group_step db db' \<Longrightarrow> group_ok db \<Longrightarrow> group_ok db'"
proof (induction rule: group_step.induct)
  case (create db share i now u form)
  then show ?case by (auto simp: insert_new_group_def split_beta group_ok_insert split: sum.split)
next
  case (create_names db share ids now u names)
  then show ?case by (simp add: create_groups_by_group_names_def create_groups_ok)
next
  case (set_members db ids now i us)
  then show ?case
    by (auto simp: set_group_user_ids_by_id_def split: sum.split intro!: group_ok_members intro: insert_members_ok members_ok_filter group_okD)
next
  case (edit db now i form)
  then show ?case by (auto simp: update_group_by_id_def Let_def split: option.split intro: group_ok_put)
next
  case (delete db i)
  then show ?case by (simp add: delete_group_by_id_def group_ok_def distinct_map_filter)
next
  case (leave_all db now u)
  then show ?case by (simp add: remove_user_from_all_groups_def leave_groups_ok)
next
  case (sync db ids now u names)
  then show ?case by (rule sync_ok)
next
  case (add_users db ids now i us')
  then show ?case by (auto simp: add_users_to_group_def Let_def split: option.split intro!: group_ok_put group_ok_members add_members_ok group_okD)
next
  case (remove_users db now i us')
  then show ?case by (auto simp: remove_users_from_group_def Let_def split: option.split intro!: group_ok_put group_ok_members members_ok_filter group_okD)
qed (simp add: delete_all_groups_def group_ok_def)

subsection \<open>Adding users\<close>

lemma takeWhile_stop: "\<not> P x \<Longrightarrow> takeWhile P (xs @ x # ys) = takeWhile P xs"
  by (induction xs) auto

lemma add_members_run:
  assumes "inj ids" and "\<And>k. ids k \<notin> gm_id ` set T0"
    and "distinct (vs @ us)" and "\<And>v. v \<in> set vs \<Longrightarrow> (i, v) \<notin> membership ` set T0"
    and "membership ` set T = membership ` set T0 \<union> Pair i ` set vs" and "\<And>k. k \<ge> n \<Longrightarrow> ids k \<notin> gm_id ` set T"
  shows "membership ` set (add_members ids now i T0 n us T)
     = membership ` set T0 \<union> Pair i ` set (takeWhile (\<lambda>u. (i, u) \<notin> membership ` set T0) (rev (vs @ us)))"
  using assms(3-6)
proof (induction us arbitrary: vs T n)
  case Nil
  then have all: "takeWhile (\<lambda>u. (i, u) \<notin> membership ` set T0) (rev vs) = rev vs" by (simp only: takeWhile_eq_all_conv) simp
  show ?case unfolding append_Nil2 all using Nil by simp
next
  case (Cons u us)
  show ?case
  proof (cases "(i, u) \<in> membership ` set T0")
    case True
    then have "(i, u) \<in> membership ` set T" using Cons.prems(3) by blast
    then have "insert_member (new_member now (ids n) i u) T = Inl OtherError" by (simp add: insert_member_def)
    then show ?thesis using True Cons.prems(1) assms(2) Cons.IH [of "[]" T0 "Suc n"]
      by (simp add: takeWhile_stop)
  next
    case False
    then have "(i, u) \<notin> membership ` set T" using Cons.prems(1,3) by auto
    then have ins: "insert_member (new_member now (ids n) i u) T = Inr (T @ [new_member now (ids n) i u])"
      using Cons.prems(4) [of n] by (simp add: insert_member_def)
    have "ids k \<notin> gm_id ` set (T @ [new_member now (ids n) i u])" if "k \<ge> Suc n" for k
      using that Cons.prems(4) [of k] inj_eq [OF assms(1)] by auto
    then show ?thesis using Cons.IH [of "vs @ [u]" "T @ [new_member now (ids n) i u]" "Suc n"] Cons.prems False
      by (simp add: ins) blast
  qed
qed


definition sample_group :: "string \<Rightarrow> string \<Rightarrow> group_row" where
  "sample_group i name = \<lparr>g_id = i, g_user_id = ''o'', g_name = name, g_description = '''', g_data = None, g_meta = None,
     g_permissions = None, g_created_at = 0, g_updated_at = 0\<rparr>"


subsection \<open>Synchronising a user's groups\<close>

lemma joined_iff: "g \<in> set (joined_groups u db) \<longleftrightarrow> g \<in> set (gd_groups db) \<and> is_member u g db"
  unfolding is_member_def membership_iff by (auto simp: joined_groups_def)

lemma joined_ids: "set (map g_id (joined_groups u db)) = g_id ` {g \<in> set (gd_groups db). is_member u g db}"
  using joined_iff [of _ u db] by auto

lemma new_members_ok:
  assumes "inj ids" and "distinct is'"
  shows "members_ok (with_ids ids n (\<lambda>n i. new_member now n i u) is')"
  using with_ids_distinct [OF assms(1), of gm_id "\<lambda>n i. new_member now n i u"]
    with_ids_map [of membership "\<lambda>n i. new_member now n i u" "\<lambda>i. (i, u)"] assms(2)
  by (simp add: members_ok_def distinct_map inj_on_def)

text \<open>
  C31. Synchronising. When the generated ids are new, \<open>sync_groups_by_group_names\<close> succeeds, and afterwards the user is a member of a group
  exactly when its name is one of those given; no other membership changes.
\<close>

theorem sync_groups_exact:
  assumes ok: "group_ok db" and ids: "inj ids" "\<And>k. ids k \<notin> gm_id ` set (gd_members db)"
  shows "\<exists>db'. sync_groups_by_group_names ids now u names db = (True, db')
     \<and> map g_id (gd_groups db') = map g_id (gd_groups db) \<and> map g_name (gd_groups db') = map g_name (gd_groups db)
     \<and> (\<forall>g \<in> set (gd_groups db). is_member u g db' \<longleftrightarrow> g_name g \<in> set names)
     \<and> (\<forall>i v. v \<noteq> u \<or> i \<notin> g_id ` set (gd_groups db) \<longrightarrow>
          ((i, v) \<in> membership ` set (gd_members db') \<longleftrightarrow> (i, v) \<in> membership ` set (gd_members db)))"
proof -
  let ?targets = "map g_id (filter (\<lambda>g. g_name g \<in> set names) (gd_groups db))"
  let ?existing = "map g_id (joined_groups u db)"
  let ?adds = "filter (\<lambda>i. i \<notin> set ?existing) (remdups ?targets)"
  let ?removes = "filter (\<lambda>i. i \<notin> set ?targets) ?existing"
  let ?kept = "filter (\<lambda>m. \<not> (gm_user_id m = u \<and> gm_group_id m \<in> set ?removes)) (gd_members db)"
  let ?new = "with_ids ids 0 (\<lambda>n i. new_member now n i u) ?adds"
  let ?db1 = "touch_groups now (\<lambda>i. i \<in> set ?removes) (db\<lparr>gd_members := ?kept\<rparr>)"
  let ?db' = "touch_groups now (\<lambda>i. i \<in> set ?adds) (?db1\<lparr>gd_members := ?kept @ ?new\<rparr>)"
  have new: "members_ok ?new" by (rule new_members_ok [OF ids(1)]) simp
  have pairs: "membership ` set ?new = (\<lambda>i. (i, u)) ` set ?adds"
    using arg_cong [OF with_ids_map [of membership "\<lambda>n i. new_member now n i u" "\<lambda>i. (i, u)" ids 0 ?adds], of set]
    by simp
  have existing: "i \<in> set ?existing \<longleftrightarrow> i \<in> g_id ` set (gd_groups db) \<and> (i, u) \<in> membership ` set (gd_members db)" for i
    unfolding joined_ids by (auto simp: is_member_def)
  have targets: "set ?targets \<subseteq> g_id ` set (gd_groups db)" by auto
  have kept: "members_ok ?kept" using ok by (intro members_ok_filter) (simp add: group_ok_def)
  have "gm_id ` set ?new \<inter> gm_id ` set (gd_members db) = {}"
    by (rule with_ids_fresh [OF ids(2)]) simp
  moreover have "membership ` set ?new \<inter> membership ` set (gd_members db) = {}"
    unfolding pairs using existing targets by fastforce
  ultimately have "members_ok (?kept @ ?new)" using kept new by (auto simp: members_ok_def)
  then have ins: "insert_members ?new ?kept = Inr (?kept @ ?new)" by (rule insert_members_fresh)
  have gm: "gd_members (touch_groups now R (db0\<lparr>gd_members := T\<rparr>)) = T" for R T and db0 :: group_db by (simp add: touch_groups_def)
  have run: "sync_groups_by_group_names ids now u names db = (True, ?db')"
    unfolding sync_groups_by_group_names_def Let_def gm ins by simp
  have member: "(i, v) \<in> membership ` set (gd_members ?db')
      \<longleftrightarrow> (i, v) \<in> membership ` set (gd_members db) \<and> \<not> (v = u \<and> i \<in> set ?removes) \<or> v = u \<and> i \<in> set ?adds" for i v
    unfolding gm set_append image_Un pairs by (auto simp: membership_def image_iff)
  have same: "map g_id (gd_groups ?db') = map g_id (gd_groups db)" "map g_name (gd_groups ?db') = map g_name (gd_groups db)"
    by (simp_all add: touch_groups_def)
  have uniq: "g_name g \<in> set names \<longleftrightarrow> g_id g \<in> set ?targets" if "g \<in> set (gd_groups db)" for g
    using that ok by (auto simp: group_ok_def distinct_map dest: inj_onD)
  have "is_member u g ?db' \<longleftrightarrow> g_name g \<in> set names" if g: "g \<in> set (gd_groups db)" for g
    unfolding is_member_def member uniq [OF g] using existing [of "g_id g"] g by auto
  moreover have "(i, v) \<in> membership ` set (gd_members ?db') \<longleftrightarrow> (i, v) \<in> membership ` set (gd_members db)"
    if "v \<noteq> u \<or> i \<notin> g_id ` set (gd_groups db)" for i v
    using that existing [of i] targets unfolding member by auto
  ultimately show ?thesis using run same by blast
qed

theorem sync_groups_exact_witness:
  "\<exists>db'. sync_groups_by_group_names (\<lambda>n. replicate n (CHR ''x'')) 1 ''u'' [''a'']
       \<lparr>gd_groups = [sample_group ''g'' ''a''], gd_members = [new_member 0 ''m'' ''g'' ''b'']\<rparr> = (True, db')
     \<and> (''g'', ''u'') \<in> membership ` set (gd_members db') \<and> (''g'', ''b'') \<in> membership ` set (gd_members db')"
proof -
  let ?ids = "\<lambda>n::nat. replicate n (CHR ''x'')"
  let ?db = "\<lparr>gd_groups = [sample_group ''g'' ''a''], gd_members = [new_member 0 ''m'' ''g'' ''b'']\<rparr>"
  have ok: "group_ok ?db" by (simp add: group_ok_def members_ok_def)
  have inj: "inj ?ids" by (rule injI) (metis length_replicate)
  have new: "?ids k \<notin> gm_id ` set (gd_members ?db)" for k by (cases k) auto
  obtain db' where "sync_groups_by_group_names ?ids 1 ''u'' [''a''] ?db = (True, db')"
      "is_member ''u'' (sample_group ''g'' ''a'') db'" "(''g'', ''b'') \<in> membership ` set (gd_members db')"
    using sync_groups_exact [OF ok inj new, of 1 "''u''" "[''a'']"] by (auto simp: sample_group_def)
  then show ?thesis by (auto simp: is_member_def sample_group_def)
qed

text \<open>Starting from empty tables every sequence of operations keeps ids and memberships unique.\<close>

lemma group_store_unique:
  assumes "group_step\<^sup>*\<^sup>* \<lparr>gd_groups = [], gd_members = []\<rparr> db"
  shows "group_ok db"
  using assms
proof (induction rule: rtranclp_induct)
  case base
  show ?case by (simp add: group_ok_def members_ok_def)
qed (rule group_step_ok)

end
