(* ===== verification/OWUI_Grants.thy ===== *)
theory OWUI_Grants
  imports OWUI_Groups
begin

section \<open>Access grants (models/access_grants.py)\<close>

text \<open>
  Who may read or write a resource. A grant names a resource, a principal (a user, a group, the wildcard user \<open>*\<close> for every signed-in
  user, or \<open>anyone\<close>) and a permission; the table holds each such combination once (\<open>uq_access_grant_grant\<close>). The conversions between the
  table, the payloads of the API and the older \<open>access_control\<close> dictionaries are here too. A payload comes from a client, so its entries
  are any values; a principal id that is no text does not fit its column and raises. Generated ids and the clock are arguments.
\<close>

record access_grant =
  ag_id :: string
  ag_resource_type :: string
  ag_resource_id :: string
  ag_principal_type :: string
  ag_principal_id :: string
  ag_permission :: string
  ag_created_at :: int

type_synonym grants_table = "access_grant list"

text \<open>What a grant gives, without the resource: principal type, principal id and permission.\<close>

type_synonym right = "string \<times> string \<times> string"

definition resource_of :: "access_grant \<Rightarrow> string \<times> string" where
  "resource_of g = (ag_resource_type g, ag_resource_id g)"

definition right_of :: "access_grant \<Rightarrow> right" where
  "right_of g = (ag_principal_type g, ag_principal_id g, ag_permission g)"

definition new_grant :: "int \<Rightarrow> string \<times> string \<Rightarrow> string \<Rightarrow> right \<Rightarrow> access_grant" where
  "new_grant now resource i r =
     (case r of (principal_type, principal_id, permission) \<Rightarrow>
        \<lparr>ag_id = i, ag_resource_type = fst resource, ag_resource_id = snd resource, ag_principal_type = principal_type,
         ag_principal_id = principal_id, ag_permission = permission, ag_created_at = now\<rparr>)"

lemma new_grant_simps [simp]:
  "ag_id (new_grant now resource i r) = i" "resource_of (new_grant now resource i r) = resource" "right_of (new_grant now resource i r) = r"
  by (simp_all add: new_grant_def resource_of_def right_of_def split_beta)

definition grant_key :: "access_grant \<Rightarrow> (string \<times> string) \<times> right" where
  "grant_key g = (resource_of g, right_of g)"

lemma grant_key_new [simp]: "grant_key (new_grant now resource i r) = (resource, r)"
  by (simp add: grant_key_def)

subsection \<open>Old access control dictionaries\<close>

text \<open>\<open>perm_data.get(key, [])\<close> as the ids a loop runs over.\<close>

definition principal_ids :: "pyval \<Rightarrow> string \<Rightarrow> pyval list res" where
  "principal_ids perm_data key = (case perm_data of PDict d \<Rightarrow> iterate (dict_get_or d key (PList [])) | _ \<Rightarrow> Inl OtherError)"

text \<open>A grant before its principal is known to be a text.\<close>

definition grants_of_permission :: "pydict \<Rightarrow> string \<Rightarrow> (string \<times> pyval \<times> string) list res" where
  "grants_of_permission access_control permission =
     (let perm_data = dict_get_or access_control permission (PDict [])
      in if \<not> truthy perm_data then Inr []
         else bindE (principal_ids perm_data ''group_ids'') (\<lambda>gs.
              bindE (principal_ids perm_data ''user_ids'') (\<lambda>us.
                Inr (map (\<lambda>v. (''group'', v, permission)) gs @ map (\<lambda>v. (''user'', v, permission)) us))))"

definition access_control_to_grants :: "string \<Rightarrow> pydict option \<Rightarrow> (string \<times> pyval \<times> string) list res" where
  "access_control_to_grants resource_type access_control =
     (case access_control of
        None \<Rightarrow> Inr (if resource_type \<noteq> ''file'' then [(''user'', PStr ''*'', ''read'')] else [])
      | Some ac \<Rightarrow>
          if ac = [] then Inr []
          else bindE (grants_of_permission ac ''read'') (\<lambda>rs. bindE (grants_of_permission ac ''write'') (\<lambda>ws. Inr (rs @ ws))))"

text \<open>\<open>grants_to_access_control\<close>: \<open>kept\<close> holds the ids collected for a permission and a kind of principal; \<open>None\<close> is public.\<close>

definition collect_principal :: "(string \<times> string \<Rightarrow> string list) \<Rightarrow> right \<Rightarrow> (string \<times> string \<Rightarrow> string list)" where
  "collect_principal kept r =
     (case r of (principal_type, principal_id, permission) \<Rightarrow>
       (let add = (\<lambda>kind. if principal_id \<in> set (kept (permission, kind)) then kept
                          else kept((permission, kind) := kept (permission, kind) @ [principal_id]))
        in if r = (''user'', ''*'', ''read'') then kept
           else if permission \<notin> {''read'', ''write''} then kept
           else if principal_type = ''group'' then add ''group_ids''
           else if principal_type = ''user'' then add ''user_ids''
           else kept))"

definition access_lists :: "(string \<times> string \<Rightarrow> string list) \<Rightarrow> pydict" where
  "access_lists kept =
     (let part = (\<lambda>p. PDict [(''group_ids'', PList (map PStr (kept (p, ''group_ids'')))), (''user_ids'', PList (map PStr (kept (p, ''user_ids''))))])
      in [(''read'', part ''read''), (''write'', part ''write'')])"

definition grants_to_access_control :: "access_grant list \<Rightarrow> pydict option" where
  "grants_to_access_control gs =
     (if gs = [] then Some []
      else if (''user'', ''*'', ''read'') \<in> right_of ` set gs then None
      else Some (access_lists (foldl collect_principal (\<lambda>_. []) (map right_of gs))))"

subsection \<open>Grants in payloads\<close>

text \<open>\<open>grant.get(k) if isinstance(grant, dict) else getattr(grant, k, None)\<close> for a value of a payload.\<close>

definition grant_field :: "pyval \<Rightarrow> string \<Rightarrow> pyval" where
  "grant_field g k = (case g of PDict d \<Rightarrow> dget d k | _ \<Rightarrow> PNone)"

text \<open>The checks of \<open>normalize_access_grants\<close> on one entry.\<close>

definition valid_right :: "pyval \<Rightarrow> right option" where
  "valid_right g =
     (case g of
        PDict d \<Rightarrow>
          (let principal_type = dget d ''principal_type''; principal_id = dget d ''principal_id''; permission = dget d ''permission''
           in if principal_type \<notin> {PStr ''user'', PStr ''group'', PStr ''anyone''} then None
              else if permission \<notin> {PStr ''read'', PStr ''write''} then None
              else if \<not> is_str principal_id \<or> the_str principal_id = [] then None
              else if principal_type = PStr ''anyone'' \<and> (principal_id \<noteq> PStr ''*'' \<or> permission \<noteq> PStr ''read'') then None
              else Some (the_str principal_type, the_str principal_id, the_str permission))
      | _ \<Rightarrow> None)"

text \<open>The accepted entries by right, each with its own id or a generated one; a repeated right keeps its place and takes the last id.\<close>

fun normalize_loop :: "(nat \<Rightarrow> string) \<Rightarrow> nat \<Rightarrow> pyval list \<Rightarrow> (right, string) dict \<Rightarrow> (right, string) dict" where
  "normalize_loop ids n [] deduped = deduped"
| "normalize_loop ids n (g # gs) deduped =
     (case valid_right g of
        None \<Rightarrow> normalize_loop ids n gs deduped
      | Some r \<Rightarrow>
          (case grant_field g ''id'' of
             PStr i \<Rightarrow> if i \<noteq> [] then normalize_loop ids n gs (dict_set r i deduped) else normalize_loop ids (Suc n) gs (dict_set r (ids n) deduped)
           | _ \<Rightarrow> normalize_loop ids (Suc n) gs (dict_set r (ids n) deduped)))"

definition normalize_access_grants :: "(nat \<Rightarrow> string) \<Rightarrow> pyval list \<Rightarrow> (right, string) dict" where
  "normalize_access_grants ids access_grants = normalize_loop ids 0 access_grants []"

text \<open>The tests on payloads look at the rights only, not at the ids.\<close>

definition payload_rights :: "pyval list \<Rightarrow> right list" where
  "payload_rights access_grants = map fst (normalize_access_grants (\<lambda>_. []) access_grants)"

definition has_public_read_access_grant :: "pyval list \<Rightarrow> bool" where
  "has_public_read_access_grant gs \<longleftrightarrow> list_ex (\<lambda>r. r = (''user'', ''*'', ''read'')) (payload_rights gs)"

definition has_public_write_access_grant :: "pyval list \<Rightarrow> bool" where
  "has_public_write_access_grant gs \<longleftrightarrow> list_ex (\<lambda>r. r = (''user'', ''*'', ''write'')) (payload_rights gs)"

definition has_anyone_read_access_grant :: "pyval list \<Rightarrow> bool" where
  "has_anyone_read_access_grant gs \<longleftrightarrow> list_ex (\<lambda>r. r = (''anyone'', ''*'', ''read'')) (payload_rights gs)"

definition has_user_access_grant :: "pyval list \<Rightarrow> bool" where
  "has_user_access_grant gs \<longleftrightarrow> list_ex (\<lambda>(t, p, _). t = ''user'' \<and> p \<noteq> ''*'') (payload_rights gs)"

definition strip_user_access_grants :: "pyval list \<Rightarrow> pyval list" where
  "strip_user_access_grants gs =
     filter (\<lambda>g. \<not> (grant_field g ''principal_type'' = PStr ''user'' \<and> grant_field g ''principal_id'' \<noteq> PStr ''*'')) gs"

definition strip_anyone_access_grants :: "pyval list \<Rightarrow> pyval list" where
  "strip_anyone_access_grants gs = filter (\<lambda>g. grant_field g ''principal_type'' \<noteq> PStr ''anyone'') gs"

subsection \<open>The table\<close>

text \<open>Inserting a row raises when its id or its combination of resource and right exists.\<close>

definition insert_grant :: "access_grant \<Rightarrow> grants_table \<Rightarrow> grants_table res" where
  "insert_grant g T =
     (if ag_id g \<in> ag_id ` set T \<or> grant_key g \<in> grant_key ` set T then Inl OtherError else Inr (T @ [g]))"

fun insert_grants :: "access_grant list \<Rightarrow> grants_table \<Rightarrow> grants_table res" where
  "insert_grants [] T = Inr T"
| "insert_grants (g # gs) T = bindE (insert_grant g T) (insert_grants gs)"

definition grant_access :: "string \<Rightarrow> int \<Rightarrow> string \<times> string \<Rightarrow> right \<Rightarrow> grants_table \<Rightarrow> access_grant res \<times> grants_table" where
  "grant_access i now resource r T =
     (case find (\<lambda>g. resource_of g = resource \<and> right_of g = r) T of
        Some g \<Rightarrow> (Inr g, T)
      | None \<Rightarrow> (case insert_grant (new_grant now resource i r) T of Inl e \<Rightarrow> (Inl e, T) | Inr T' \<Rightarrow> (Inr (new_grant now resource i r), T')))"

definition revoke_access :: "string \<times> string \<Rightarrow> right \<Rightarrow> grants_table \<Rightarrow> bool \<times> grants_table" where
  "revoke_access resource r T =
     (let gone = (\<lambda>g. resource_of g = resource \<and> right_of g = r)
      in (length (filter gone T) > 0, filter (\<lambda>g. \<not> gone g) T))"

definition revoke_all_access :: "string \<times> string \<Rightarrow> grants_table \<Rightarrow> nat \<times> grants_table" where
  "revoke_all_access resource T = (length (filter (\<lambda>g. resource_of g = resource) T), filter (\<lambda>g. resource_of g \<noteq> resource) T)"

text \<open>Replacing all grants of a resource: the deletion and the insertions are one transaction.\<close>

definition replace_grants :: "(nat \<Rightarrow> string) \<Rightarrow> int \<Rightarrow> string \<times> string \<Rightarrow> right list \<Rightarrow> grants_table \<Rightarrow> access_grant list res \<times> grants_table" where
  "replace_grants ids now resource rights T =
     (let rows = with_ids ids 0 (new_grant now resource) rights
      in case insert_grants rows (filter (\<lambda>g. resource_of g \<noteq> resource) T) of
           Inl e \<Rightarrow> (Inl e, T)
         | Inr T' \<Rightarrow> (Inr rows, T'))"

definition text_rights :: "(string \<times> pyval \<times> string) list \<Rightarrow> right list res" where
  "text_rights gs = mapE (\<lambda>(t, v, p). if is_str v then Inr (t, the_str v, p) else Inl OtherError) gs"

definition set_access_control :: "(nat \<Rightarrow> string) \<Rightarrow> int \<Rightarrow> string \<times> string \<Rightarrow> pydict option \<Rightarrow> grants_table \<Rightarrow> access_grant list res \<times> grants_table" where
  "set_access_control ids now resource access_control T =
     (case bindE (access_control_to_grants (fst resource) access_control) text_rights of
        Inl e \<Rightarrow> (Inl e, T)
      | Inr rights \<Rightarrow> replace_grants ids now resource rights T)"

definition set_access_grants :: "(nat \<Rightarrow> string) \<Rightarrow> int \<Rightarrow> string \<times> string \<Rightarrow> pyval list \<Rightarrow> grants_table \<Rightarrow> access_grant list res \<times> grants_table" where
  "set_access_grants ids now resource access_grants T = replace_grants ids now resource (payload_rights access_grants) T"

definition get_grants_by_resource :: "string \<times> string \<Rightarrow> grants_table \<Rightarrow> access_grant list" where
  "get_grants_by_resource resource T = filter (\<lambda>g. resource_of g = resource) T"

definition get_access_control :: "string \<times> string \<Rightarrow> grants_table \<Rightarrow> pydict option" where
  "get_access_control resource T = grants_to_access_control (get_grants_by_resource resource T)"

definition get_grants_by_resources :: "string \<Rightarrow> string list \<Rightarrow> grants_table \<Rightarrow> (string, access_grant list) dict" where
  "get_grants_by_resources resource_type resource_ids T =
     (if resource_ids = [] then []
      else foldl (\<lambda>acc g. dict_set (ag_resource_id g) (dict_get_or acc (ag_resource_id g) [] @ [g]) acc)
             (map (\<lambda>i. (i, [])) (remdups resource_ids))
             (filter (\<lambda>g. ag_resource_type g = resource_type \<and> ag_resource_id g \<in> set resource_ids) T))"

subsection \<open>Checking access\<close>

definition has_anyone_access :: "string \<times> string \<Rightarrow> string \<Rightarrow> grants_table \<Rightarrow> bool" where
  "has_anyone_access resource permission T \<longleftrightarrow> list_ex (\<lambda>g. resource_of g = resource \<and> right_of g = (''anyone'', ''*'', permission)) T"

text \<open>The groups of a user: those given, or those of the table.\<close>

definition user_group_ids :: "string \<Rightarrow> string list option \<Rightarrow> group_db \<Rightarrow> string list" where
  "user_group_ids user_id given G = (case given of Some ids \<Rightarrow> ids | None \<Rightarrow> map g_id (get_groups_by_member_id user_id G))"

text \<open>The conditions on the principal: everyone, the user, one of the groups.\<close>

definition principal_matches :: "string option \<Rightarrow> string list \<Rightarrow> access_grant \<Rightarrow> bool" where
  "principal_matches user_id groups g \<longleftrightarrow>
     ag_principal_type g = ''user'' \<and> ag_principal_id g = ''*''
     \<or> ag_principal_type g = ''user'' \<and> user_id = Some (ag_principal_id g)
     \<or> ag_principal_type g = ''group'' \<and> ag_principal_id g \<in> set groups"

definition has_access :: "string \<Rightarrow> string \<times> string \<Rightarrow> string \<Rightarrow> string list option \<Rightarrow> group_db \<Rightarrow> grants_table \<Rightarrow> bool" where
  "has_access user_id resource permission given G T \<longleftrightarrow>
     list_ex (\<lambda>g. resource_of g = resource \<and> ag_permission g = permission
                  \<and> principal_matches (Some user_id) (user_group_ids user_id given G) g) T"

definition get_accessible_resource_ids :: "string \<Rightarrow> string \<Rightarrow> string list \<Rightarrow> string \<Rightarrow> string list option \<Rightarrow> group_db \<Rightarrow> grants_table \<Rightarrow> string set" where
  "get_accessible_resource_ids user_id resource_type resource_ids permission given G T =
     (if resource_ids = [] then {}
      else ag_resource_id ` set (filter (\<lambda>g. ag_resource_type g = resource_type \<and> ag_resource_id g \<in> set resource_ids
             \<and> ag_permission g = permission \<and> principal_matches (Some user_id) (user_group_ids user_id given G) g) T))"

text \<open>The users that \<open>get_users_with_access\<close> looks for: everyone whose role is not \<open>pending\<close>, or those with one of the ids.\<close>

record user_row =
  u_id :: string
  u_role :: string

definition ids_with_access :: "group_db \<Rightarrow> access_grant list \<Rightarrow> string set" where
  "ids_with_access G gs =
     foldl (\<lambda>acc g. if ag_principal_type g = ''user'' then insert (ag_principal_id g) acc
                    else if ag_principal_type g = ''group'' then acc \<union> set (get_group_user_ids_by_id (ag_principal_id g) G) else acc) {} gs"

definition get_users_with_access :: "string \<times> string \<Rightarrow> string \<Rightarrow> group_db \<Rightarrow> user_row list \<Rightarrow> grants_table \<Rightarrow> user_row list" where
  "get_users_with_access resource permission G users T =
     (let gs = filter (\<lambda>g. resource_of g = resource \<and> ag_permission g = permission) T
      in if list_ex (\<lambda>g. ag_principal_type g = ''user'' \<and> ag_principal_id g = ''*'') gs then filter (\<lambda>u. u_role u \<noteq> ''pending'') users
         else filter (\<lambda>u. u_id u \<in> ids_with_access G gs) users)"

text \<open>
  The filters on a query over documents, as the test a row with id \<open>i\<close> and owner \<open>owner\<close> must pass. An empty user id or an empty list of groups
  counts as not given; when neither is given, nothing is filtered.
\<close>

definition grant_exists :: "string \<Rightarrow> string \<Rightarrow> string \<Rightarrow> string option \<Rightarrow> string list \<Rightarrow> grants_table \<Rightarrow> bool" where
  "grant_exists resource_type i permission user_id groups T \<longleftrightarrow>
     list_ex (\<lambda>g. resource_of g = (resource_type, i) \<and> ag_permission g = permission \<and> principal_matches user_id groups g) T"

definition given_id :: "string option \<Rightarrow> string option" where
  "given_id u = (if u = Some [] then None else u)"

definition has_read_only_permission_filter :: "string option \<Rightarrow> string list \<Rightarrow> string \<Rightarrow> grants_table \<Rightarrow> string \<times> string \<Rightarrow> bool" where
  "has_read_only_permission_filter user_id groups resource_type T doc =
     (let user_id = given_id user_id
      in grant_exists resource_type (fst doc) ''read'' user_id groups T \<and> \<not> grant_exists resource_type (fst doc) ''write'' user_id groups T
         \<and> (user_id = None \<or> user_id \<noteq> Some (snd doc)))"

definition has_permission_filter :: "string option \<Rightarrow> string list \<Rightarrow> string \<Rightarrow> string \<Rightarrow> grants_table \<Rightarrow> string \<times> string \<Rightarrow> bool" where
  "has_permission_filter user_id groups resource_type permission T doc =
     (if permission = ''read_only'' then has_read_only_permission_filter user_id groups resource_type T doc
      else (let user_id = given_id user_id
            in if groups = [] \<and> user_id = None then True
               else grant_exists resource_type (fst doc) permission user_id groups T \<or> user_id = Some (snd doc)))"

subsection \<open>Replacing the grants of a resource\<close>

definition grants_ok :: "grants_table \<Rightarrow> bool" where
  "grants_ok T \<longleftrightarrow> distinct (map ag_id T) \<and> distinct (map grant_key T)"

lemma grants_ok_filter: "grants_ok T \<Longrightarrow> grants_ok (filter P T)"
  by (simp add: grants_ok_def distinct_map_filter)

lemma insert_grants_fresh: "grants_ok (T @ gs) \<Longrightarrow> insert_grants gs T = Inr (T @ gs)"
proof (induction gs arbitrary: T)
  case (Cons g gs)
  then have "insert_grant g T = Inr (T @ [g])" by (auto simp: grants_ok_def insert_grant_def)
  then show ?case using Cons.IH [of "T @ [g]"] Cons.prems by simp
qed simp

lemma insert_grants_eq: "insert_grants gs T = Inr T' \<Longrightarrow> T' = T @ gs \<and> distinct (map grant_key gs)
    \<and> (\<forall>g \<in> set gs. grant_key g \<notin> grant_key ` set T)"
proof (induction gs arbitrary: T)
  case (Cons g gs)
  then show ?case using Cons.IH [of "T @ [g]"] by (auto simp: bindE_eq_Inr insert_grant_def split: if_splits)
qed simp

lemma new_grants_keys:
  "map grant_key (with_ids ids n (new_grant now resource) rights) = map (Pair resource) rights"
  by (rule with_ids_map) simp

lemma grants_ok_replaced:
  assumes "grants_ok T" and "inj ids" and "\<And>k. ids k \<notin> ag_id ` set T" and "distinct rights"
  shows "grants_ok (filter (\<lambda>g. resource_of g \<noteq> resource) T @ with_ids ids 0 (new_grant now resource) rights)"
proof -
  let ?new = "with_ids ids 0 (new_grant now resource) rights" and ?old = "filter (\<lambda>g. resource_of g \<noteq> resource) T"
  have old: "grants_ok ?old" by (rule grants_ok_filter [OF assms(1)])
  have "distinct (map ag_id ?new)" by (rule with_ids_distinct [OF assms(2)]) simp
  moreover have "ag_id ` set ?new \<inter> ag_id ` set T = {}" by (rule with_ids_fresh [OF assms(3)]) simp
  then have "ag_id ` set ?old \<inter> ag_id ` set ?new = {}" by auto
  moreover have "distinct (map grant_key ?new)"
    unfolding new_grants_keys using assms(4) by (simp add: distinct_map inj_on_def)
  moreover have "grant_key ` set ?new = Pair resource ` set rights"
    using arg_cong [OF new_grants_keys [of ids 0 now resource rights], of set] by simp
  then have "grant_key ` set ?old \<inter> grant_key ` set ?new = {}" by (auto simp: grant_key_def)
  ultimately show ?thesis using old unfolding grants_ok_def map_append distinct_append set_map by blast
qed

lemma replace_grants_run:
  assumes "grants_ok T" and "inj ids" and "\<And>k. ids k \<notin> ag_id ` set T" and "distinct rights"
  shows "replace_grants ids now resource rights T
     = (Inr (with_ids ids 0 (new_grant now resource) rights),
        filter (\<lambda>g. resource_of g \<noteq> resource) T @ with_ids ids 0 (new_grant now resource) rights)"
  by (simp add: replace_grants_def insert_grants_fresh [OF grants_ok_replaced [OF assms]] Let_def)

lemma replace_grants_dup:
  assumes "\<not> distinct rights"
  shows "\<exists>e. replace_grants ids now resource rights T = (Inl e, T)"
proof (cases "insert_grants (with_ids ids 0 (new_grant now resource) rights) (filter (\<lambda>g. resource_of g \<noteq> resource) T)")
  case (Inr T')
  then have "distinct (map (Pair resource) rights)" using insert_grants_eq [OF Inr] unfolding new_grants_keys by blast
  then show ?thesis using assms by (simp add: distinct_map)
qed (simp add: replace_grants_def)

text \<open>The rights a table holds for a resource.\<close>

definition rights_in :: "grants_table \<Rightarrow> string \<times> string \<Rightarrow> right set" where
  "rights_in T resource = right_of ` {g \<in> set T. resource_of g = resource}"

lemma rights_in_replaced:
  "rights_in (filter (\<lambda>g. resource_of g \<noteq> resource) T @ with_ids ids 0 (new_grant now resource) rights) r
     = (if r = resource then set rights else rights_in T r)"
proof -
  have rows: "set (with_ids ids n (new_grant now resource) rights) \<subseteq> {g. resource_of g = resource}" for n
    by (induction rights arbitrary: n) auto
  have "right_of ` set (with_ids ids 0 (new_grant now resource) rights) = set rights"
    using arg_cong [OF with_ids_map [of right_of "new_grant now resource" id ids 0 rights], of set] by simp
  then show ?thesis using rows [of 0] unfolding rights_in_def by auto
qed

subsection \<open>What a payload stores\<close>

lemma normalize_keys: "fst ` set (normalize_loop ids n gs d) = fst ` set d \<union> {r. \<exists>g \<in> set gs. valid_right g = Some r}"
proof (induction gs arbitrary: n d)
  case (Cons g gs)
  show ?case
  proof (cases "valid_right g")
    case (Some r)
    have "fst ` set (normalize_loop ids m gs (dict_set r i d)) = insert r (fst ` set d) \<union> {r. \<exists>g \<in> set gs. valid_right g = Some r}" for m i
      unfolding Cons.IH using dict_set_keys [of r i d] by simp
    then show ?thesis using Some by (auto split: pyval.split)
  qed (use Cons.IH in auto)
qed simp

lemma normalize_distinct: "dict_ok d \<Longrightarrow> dict_ok (normalize_loop ids n gs d)"
  by (induction gs arbitrary: n d) (auto split: option.split pyval.split)

lemma payload_rights_set: "set (payload_rights gs) = {r. \<exists>g \<in> set gs. valid_right g = Some r}"
  using normalize_keys [of "\<lambda>_. []" 0 gs "[]"] by (simp add: payload_rights_def normalize_access_grants_def)

lemma payload_rights_distinct: "distinct (payload_rights gs)"
  using normalize_distinct [of "[]" "\<lambda>_. []" 0 gs] by (simp add: payload_rights_def normalize_access_grants_def dict_ok_def)

text \<open>A grant counts for a user of some groups.\<close>

definition right_covers :: "string \<Rightarrow> string list \<Rightarrow> string \<Rightarrow> right \<Rightarrow> bool" where
  "right_covers user_id groups permission r \<longleftrightarrow>
     (case r of (t, p, q) \<Rightarrow> q = permission \<and> (t = ''user'' \<and> (p = ''*'' \<or> p = user_id) \<or> t = ''group'' \<and> p \<in> set groups))"

lemma has_access_rights:
  "has_access user_id resource permission given G T \<longleftrightarrow> (\<exists>r \<in> rights_in T resource. right_covers user_id (user_group_ids user_id given G) permission r)"
  unfolding has_access_def rights_in_def list_ex_iff by (auto simp: right_covers_def right_of_def principal_matches_def)

text \<open>
  C29. What \<open>set_access_grants\<close> stores. With new ids it always succeeds, whatever the payload holds; the resource's grants are then exactly the
  valid entries of the payload, those of other resources are unchanged, and a user has access exactly when a valid entry covers them.
\<close>

theorem set_access_grants_exact:
  assumes "grants_ok T" and "inj ids" and "\<And>k. ids k \<notin> ag_id ` set T"
  shows "\<exists>rows T'. set_access_grants ids now resource gs T = (Inr rows, T') \<and> grants_ok T'
     \<and> rights_in T' resource = {r. \<exists>g \<in> set gs. valid_right g = Some r}
     \<and> (\<forall>r. r \<noteq> resource \<longrightarrow> rights_in T' r = rights_in T r)
     \<and> (has_access user_id resource permission given G T'
          \<longleftrightarrow> (\<exists>g \<in> set gs. \<exists>r. valid_right g = Some r \<and> right_covers user_id (user_group_ids user_id given G) permission r))"
proof -
  let ?T' = "filter (\<lambda>g. resource_of g \<noteq> resource) T @ with_ids ids 0 (new_grant now resource) (payload_rights gs)"
  have run: "set_access_grants ids now resource gs T = (Inr (with_ids ids 0 (new_grant now resource) (payload_rights gs)), ?T')"
    unfolding set_access_grants_def by (rule replace_grants_run [OF assms payload_rights_distinct])
  have r: "rights_in ?T' r = (if r = resource then {r. \<exists>g \<in> set gs. valid_right g = Some r} else rights_in T r)" for r
    unfolding rights_in_replaced payload_rights_set ..
  have "grants_ok ?T'" by (rule grants_ok_replaced [OF assms payload_rights_distinct])
  then show ?thesis using run unfolding has_access_rights by (auto simp: r)
qed


theorem set_access_grants_exact_witness:
  "\<exists>rows T'. set_access_grants (\<lambda>n. replicate n (CHR ''x'')) 0 (''note'', ''1'')
       [PDict [(''principal_type'', PStr ''user''), (''principal_id'', PStr ''u''), (''permission'', PStr ''read'')], PNone] [] = (Inr rows, T')
     \<and> has_access ''u'' (''note'', ''1'') ''read'' (Some []) \<lparr>gd_groups = [], gd_members = []\<rparr> T'"
proof -
  let ?g = "PDict [(''principal_type'', PStr ''user''), (''principal_id'', PStr ''u''), (''permission'', PStr ''read'')]"
  have ok: "grants_ok []" by (simp add: grants_ok_def)
  have inj: "inj (\<lambda>n::nat. replicate n (CHR ''x''))" by (rule injI) (metis length_replicate)
  have new: "replicate k (CHR ''x'') \<notin> ag_id ` set []" for k by simp
  have "valid_right ?g = Some (''user'', ''u'', ''read'')" by (simp add: valid_right_def dget_def dict_get_or_def)
  then have "\<exists>g \<in> set [?g, PNone]. \<exists>r. valid_right g = Some r
      \<and> right_covers ''u'' (user_group_ids ''u'' (Some []) \<lparr>gd_groups = [], gd_members = []\<rparr>) ''read'' r"
    by (auto simp: right_covers_def)
  then show ?thesis
    using set_access_grants_exact [OF ok inj new, of 0 "(''note'', ''1'')" "[?g, PNone]" "''u''" "''read''" "Some []" "\<lparr>gd_groups = [], gd_members = []\<rparr>"]
    by blast
qed

subsection \<open>Old dictionaries are read back\<close>

definition kind_of :: "string \<Rightarrow> string" where
  "kind_of t = (if t = ''group'' then ''group_ids'' else ''user_ids'')"

lemma collect_block:
  assumes "t \<in> {''group'', ''user''}" and "p \<in> {''read'', ''write''}" and "distinct (kept (p, kind_of t) @ xs)"
    and "\<not> (t = ''user'' \<and> p = ''read'' \<and> ''*'' \<in> set xs)"
  shows "foldl collect_principal kept (map (\<lambda>x. (t, x, p)) xs) = kept((p, kind_of t) := kept (p, kind_of t) @ xs)"
  using assms(3,4)
proof (induction xs arbitrary: kept)
  case (Cons x xs)
  have "collect_principal kept (t, x, p) = kept((p, kind_of t) := kept (p, kind_of t) @ [x])"
  proof -
    have new: "x \<notin> set (kept (p, kind_of t))" "(t, x, p) \<noteq> (''user'', ''*'', ''read'')" using Cons.prems by auto
    have p: "\<not> p \<notin> {''read'', ''write''}" using assms(2) by blast
    show ?thesis
    proof (cases "t = ''group''")
      case False
      then have "t = ''user''" using assms(1) by simp
      then show ?thesis using new p by (auto simp: collect_principal_def kind_of_def Let_def)
    qed (use new p in \<open>simp add: collect_principal_def kind_of_def Let_def del: insert_iff\<close>)
  qed
  moreover have "foldl collect_principal (kept((p, kind_of t) := kept (p, kind_of t) @ [x])) (map (\<lambda>x. (t, x, p)) xs)
      = (kept((p, kind_of t) := kept (p, kind_of t) @ [x]))((p, kind_of t) := (kept((p, kind_of t) := kept (p, kind_of t) @ [x])) (p, kind_of t) @ xs)"
    by (rule Cons.IH) (use Cons.prems in auto)
  ultimately show ?case by simp
qed simp

definition lists_rights :: "(string \<times> string \<Rightarrow> string list) \<Rightarrow> right list" where
  "lists_rights ls = concat (map (\<lambda>p. map (\<lambda>x. (''group'', x, p)) (ls (p, ''group_ids'')) @ map (\<lambda>x. (''user'', x, p)) (ls (p, ''user_ids''))) [''read'', ''write''])"

definition lists_ok :: "(string \<times> string \<Rightarrow> string list) \<Rightarrow> bool" where
  "lists_ok ls \<longleftrightarrow> (\<forall>p \<in> {''read'', ''write''}. \<forall>k \<in> {''group_ids'', ''user_ids''}. distinct (ls (p, k))) \<and> ''*'' \<notin> set (ls (''read'', ''user_ids''))"

lemma text_rights_texts: "text_rights (map (\<lambda>v. (t, v, p)) (map PStr xs)) = Inr (map (\<lambda>x. (t, x, p)) xs)"
  unfolding text_rights_def map_map by (induction xs) auto

lemma text_rights_append: "text_rights (xs @ ys) = bindE (text_rights xs) (\<lambda>a. bindE (text_rights ys) (\<lambda>b. Inr (a @ b)))"
  unfolding text_rights_def by (induction xs) (auto simp: bindE_def split: sum.split)

lemma grants_of_lists:
  "p \<in> {''read'', ''write''} \<Longrightarrow> grants_of_permission (access_lists ls) p
     = Inr (map (\<lambda>v. (''group'', v, p)) (map PStr (ls (p, ''group_ids''))) @ map (\<lambda>v. (''user'', v, p)) (map PStr (ls (p, ''user_ids''))))"
  by (auto simp: grants_of_permission_def access_lists_def principal_ids_def dict_get_or_def Let_def)

lemma access_lists_grants:
  "bindE (access_control_to_grants t (Some (access_lists ls))) text_rights = Inr (lists_rights ls)"
proof -
  have "access_lists ls \<noteq> []" by (simp add: access_lists_def Let_def)
  then have "bindE (access_control_to_grants t (Some (access_lists ls))) text_rights
      = text_rights ((map (\<lambda>v. (''group'', v, ''read'')) (map PStr (ls (''read'', ''group_ids''))) @ map (\<lambda>v. (''user'', v, ''read'')) (map PStr (ls (''read'', ''user_ids''))))
          @ (map (\<lambda>v. (''group'', v, ''write'')) (map PStr (ls (''write'', ''group_ids''))) @ map (\<lambda>v. (''user'', v, ''write'')) (map PStr (ls (''write'', ''user_ids'')))))"
    by (simp only: access_control_to_grants_def option.case grants_of_lists insertI1 insertI2 singletonI bindE_Inr if_False)
  then show ?thesis by (simp only: text_rights_append text_rights_texts bindE_Inr lists_rights_def list.map concat.simps append_Nil2 append_assoc)
qed

lemma lists_rights_collected:
  assumes "lists_ok ls"
  shows "access_lists (foldl collect_principal (\<lambda>_. []) (lists_rights ls)) = access_lists ls"
proof -
  have d: "distinct (ls (''read'', ''group_ids''))" "distinct (ls (''read'', ''user_ids''))" "distinct (ls (''write'', ''group_ids''))"
      "distinct (ls (''write'', ''user_ids''))" "''*'' \<notin> set (ls (''read'', ''user_ids''))"
    using assms by (auto simp: lists_ok_def)
  show ?thesis unfolding lists_rights_def list.map concat.simps append_Nil2 foldl_append
    using d by (simp add: collect_block kind_of_def access_lists_def Let_def)
qed

lemma lists_rights_distinct: "lists_ok ls \<Longrightarrow> distinct (lists_rights ls)"
  by (auto simp: lists_rights_def lists_ok_def distinct_map inj_on_def)

text \<open>
  The old interface round-trips. Dictionaries with distinct ids, at least one of them, and no public read are stored without an error
  and read back as they were.
\<close>

theorem access_control_roundtrip:
  assumes "grants_ok T" and "inj ids" and "\<And>k. ids k \<notin> ag_id ` set T" and "lists_ok ls" and "lists_rights ls \<noteq> []"
  shows "\<exists>rows T'. set_access_control ids now resource (Some (access_lists ls)) T = (Inr rows, T')
     \<and> get_access_control resource T' = Some (access_lists ls)"
proof -
  let ?rows = "with_ids ids 0 (new_grant now resource) (lists_rights ls)"
  let ?T' = "filter (\<lambda>g. resource_of g \<noteq> resource) T @ ?rows"
  have run: "set_access_control ids now resource (Some (access_lists ls)) T = (Inr ?rows, ?T')"
    using replace_grants_run [OF assms(1-3) lists_rights_distinct [OF assms(4)]] by (simp add: set_access_control_def access_lists_grants)
  have rows: "map right_of ?rows = lists_rights ls" using with_ids_map [of right_of "new_grant now resource" id ids 0 "lists_rights ls"] by simp
  have "set (with_ids ids n (new_grant now resource) rs) \<subseteq> {g. resource_of g = resource}" for n rs by (induction rs arbitrary: n) auto
  then have mine: "get_grants_by_resource resource ?T' = ?rows" unfolding get_grants_by_resource_def by (auto simp: filter_id_conv)
  have public: "(''user'', ''*'', ''read'') \<notin> right_of ` set ?rows"
    using arg_cong [OF rows, of set] assms(4) by (auto simp: lists_rights_def lists_ok_def)
  have "?rows \<noteq> []" using rows assms(5) by auto
  then have "get_access_control resource ?T' = Some (access_lists ls)"
    unfolding get_access_control_def mine grants_to_access_control_def rows lists_rights_collected [OF assms(4)] using public by simp
  then show ?thesis using run by blast
qed

theorem access_control_roundtrip_witness:
  "\<exists>rows T'. set_access_control (\<lambda>n. replicate n (CHR ''x'')) 0 (''note'', ''1'')
       (Some (access_lists ((\<lambda>_. [])((''read'', ''user_ids'') := [''u''])))) [] = (Inr rows, T')
     \<and> get_access_control (''note'', ''1'') T' = Some (access_lists ((\<lambda>_. [])((''read'', ''user_ids'') := [''u''])))"
proof (rule access_control_roundtrip)
  show "inj (\<lambda>n::nat. replicate n (CHR ''x''))" by (rule injI) (metis length_replicate)
qed (simp_all add: grants_ok_def lists_ok_def lists_rights_def)

text \<open>A dictionary that names a principal twice is refused, and the old grants stay.\<close>

lemma access_control_repeated:
  assumes "x \<in> set xs"
  shows "\<exists>e. set_access_control ids now resource
     (Some (access_lists ((\<lambda>_. [])((''read'', ''user_ids'') := x # xs)))) T = (Inl e, T)"
proof -
  have "\<not> distinct (lists_rights ((\<lambda>_. [])((''read'', ''user_ids'') := x # xs)))" using assms by (simp add: lists_rights_def image_iff)
  then show ?thesis using replace_grants_dup by (simp add: set_access_control_def access_lists_grants)
qed

subsection \<open>The checks agree\<close>

lemma access_checks_agree_parts:
  assumes "user_id \<noteq> []"
  shows "get_accessible_resource_ids user_id rt is permission given G T = {i \<in> set is. has_access user_id (rt, i) permission given G T}"
    and "has_permission_filter (Some user_id) groups rt permission T (i, owner)
       = (if permission = ''read_only''
          then owner \<noteq> user_id \<and> has_access user_id (rt, i) ''read'' (Some groups) G T \<and> \<not> has_access user_id (rt, i) ''write'' (Some groups) G T
          else owner = user_id \<or> has_access user_id (rt, i) permission (Some groups) G T)"
  using assms
  by (auto simp: get_accessible_resource_ids_def has_access_def list_ex_iff resource_of_def has_permission_filter_def given_id_def
      has_read_only_permission_filter_def grant_exists_def user_group_ids_def Let_def)

text \<open>
  C30. One notion of access. The batch check, the filter of a query and the read-only filter all give what \<open>has_access\<close> gives for a single
  resource, together with ownership; and the users listed for a resource are those who have access, except that pending users are not listed
  for a public resource.
\<close>

theorem access_checks_agree:
  assumes "user_id \<noteq> []"
  shows "get_accessible_resource_ids user_id rt is permission given G T = {i \<in> set is. has_access user_id (rt, i) permission given G T}
     \<and> has_permission_filter (Some user_id) groups rt permission T (i, owner)
       = (if permission = ''read_only''
          then owner \<noteq> user_id \<and> has_access user_id (rt, i) ''read'' (Some groups) G T \<and> \<not> has_access user_id (rt, i) ''write'' (Some groups) G T
          else owner = user_id \<or> has_access user_id (rt, i) permission (Some groups) G T)"
  by (intro conjI access_checks_agree_parts [OF assms])

theorem access_checks_agree_witness:
  "get_accessible_resource_ids ''u'' ''note'' [''1''] ''read'' (Some []) \<lparr>gd_groups = [], gd_members = []\<rparr>
       [new_grant 0 (''note'', ''1'') ''i'' (''user'', ''*'', ''read'')] = {''1''}"
  by (subst access_checks_agree [THEN conjunct1]) (auto simp: has_access_def resource_of_def new_grant_def principal_matches_def)

text \<open>
  The users listed for a resource are those who have access, except that pending users are not listed when everyone has. The membership
  table must name existing groups only.
\<close>

lemma users_with_access:
  assumes "\<And>m. m \<in> set (gd_members G) \<Longrightarrow> gm_group_id m \<in> g_id ` set (gd_groups G)" and "u \<in> set users" and "u_role u \<noteq> ''pending''"
  shows "u \<in> set (get_users_with_access resource permission G users T) \<longleftrightarrow> has_access (u_id u) resource permission None G T"
proof -
  have ids: "ids_with_access G gs = {i. \<exists>g \<in> set gs. ag_principal_type g = ''user'' \<and> i = ag_principal_id g
       \<or> ag_principal_type g = ''group'' \<and> i \<in> set (get_group_user_ids_by_id (ag_principal_id g) G)}" for gs
  proof -
    have "foldl (\<lambda>acc g. if ag_principal_type g = ''user'' then insert (ag_principal_id g) acc
        else if ag_principal_type g = ''group'' then acc \<union> set (get_group_user_ids_by_id (ag_principal_id g) G) else acc) S gs
      = S \<union> {i. \<exists>g \<in> set gs. ag_principal_type g = ''user'' \<and> i = ag_principal_id g
           \<or> ag_principal_type g = ''group'' \<and> i \<in> set (get_group_user_ids_by_id (ag_principal_id g) G)}" for S
      by (induction gs arbitrary: S) auto
    then show ?thesis by (simp add: ids_with_access_def)
  qed
  have group: "u_id u \<in> set (get_group_user_ids_by_id p G) \<longleftrightarrow> p \<in> set (user_group_ids (u_id u) None G)" for p
  proof -
    have "p \<in> set (user_group_ids (u_id u) None G) \<longleftrightarrow> (\<exists>g \<in> set (gd_groups G). g_id g = p \<and> (p, u_id u) \<in> membership ` set (gd_members G))"
      using joined_iff [of _ "u_id u" G] by (auto simp: user_group_ids_def get_groups_by_member_id_def newest_groups_def is_member_def)
    moreover have "u_id u \<in> set (get_group_user_ids_by_id p G) \<longleftrightarrow> (p, u_id u) \<in> membership ` set (gd_members G)"
      unfolding membership_iff by (force simp: get_group_user_ids_by_id_def)
    moreover have "p \<in> g_id ` set (gd_groups G)" if "(p, u_id u) \<in> membership ` set (gd_members G)"
      using that assms(1) unfolding membership_iff by blast
    ultimately show ?thesis by blast
  qed
  show ?thesis using assms(2,3) unfolding get_users_with_access_def Let_def has_access_def list_ex_iff
    by (auto simp: ids group principal_matches_def)
qed

end
