(* ===== verification/OWUI_Folders.thy ===== *)
theory OWUI_Folders
  imports OWUI_Grants
begin

section \<open>Open WebUI folders (models/folders.py)\<close>

text \<open>
  The table of folders in which the Tests chats are kept. A table is the list of its rows in the order of insertion,
  ids are its primary key. A query without an order returns the rows in that order; rows with the same
  \<open>updated_at\<close> keep it. The generated id and the clock are arguments. A database that cannot be reached is not
  modelled: the only failure of a statement is an insertion that repeats an id.
\<close>

record folder =
  f_id :: string
  f_parent_id :: "string option"
  f_user_id :: string
  f_name :: string
  f_items :: "pydict option"
  f_meta :: "pydict option"
  f_data :: "pydict option"
  f_is_expanded :: bool
  f_created_at :: int
  f_updated_at :: int

type_synonym folders = "folder list"

text \<open>The fields of a form that the client set.\<close>

record folder_form =
  ff_name :: string
  ff_data :: "pydict option option"
  ff_meta :: "pydict option option"
  ff_parent_id :: "string option"

subsection \<open>Queries\<close>

definition insert_new_folder :: "string \<Rightarrow> int \<Rightarrow> string \<Rightarrow> folder_form \<Rightarrow> string option \<Rightarrow> folders \<Rightarrow> folder option \<times> folders" where
  "insert_new_folder new_id now user_id form parent_id T =
     (let f = \<lparr>f_id = new_id, f_parent_id = parent_id, f_user_id = user_id, f_name = ff_name form, f_items = None,
               f_meta = (case ff_meta form of None \<Rightarrow> None | Some m \<Rightarrow> m), f_data = (case ff_data form of None \<Rightarrow> None | Some d \<Rightarrow> d),
               f_is_expanded = False, f_created_at = now, f_updated_at = now\<rparr>
      in if new_id \<in> f_id ` set T then (None, T) else (Some f, T @ [f]))"

definition first_folder :: "(folder \<Rightarrow> bool) \<Rightarrow> folders \<Rightarrow> folder option" where
  "first_folder P T = find P T"

definition get_folder_by_id_and_user_id :: "string \<Rightarrow> string \<Rightarrow> folders \<Rightarrow> folder option" where
  "get_folder_by_id_and_user_id i user_id T = first_folder (\<lambda>f. f_id f = i \<and> f_user_id f = user_id) T"

definition get_folder_by_id :: "string \<Rightarrow> folders \<Rightarrow> folder option" where
  "get_folder_by_id i T = first_folder (\<lambda>f. f_id f = i) T"

definition newest_first :: "folders \<Rightarrow> folders" where
  "newest_first T = sort_key (\<lambda>f. - f_updated_at f) T"

definition get_folders_by_ids :: "string list \<Rightarrow> folders \<Rightarrow> folders" where
  "get_folders_by_ids ids T = newest_first (filter (\<lambda>f. f_id f \<in> set ids) T)"

definition get_folders_by_user_id :: "string \<Rightarrow> folders \<Rightarrow> folders" where
  "get_folders_by_user_id user_id T = filter (\<lambda>f. f_user_id f = user_id) T"

definition get_folder_by_parent_id_and_user_id_and_name :: "string option \<Rightarrow> string \<Rightarrow> string \<Rightarrow> folders \<Rightarrow> folder option" where
  "get_folder_by_parent_id_and_user_id_and_name parent_id user_id name T =
     first_folder (\<lambda>f. f_parent_id f = parent_id \<and> f_user_id f = user_id \<and> lower (f_name f) = lower name) T"

definition get_folders_by_parent_id_and_user_id :: "string option \<Rightarrow> string \<Rightarrow> folders \<Rightarrow> folders" where
  "get_folders_by_parent_id_and_user_id parent_id user_id T =
     newest_first (filter (\<lambda>f. f_parent_id f = parent_id \<and> f_user_id f = user_id) T)"

definition grant_applies :: "string \<Rightarrow> string list \<Rightarrow> access_grant \<Rightarrow> bool" where
  "grant_applies user_id groups g \<longleftrightarrow> ag_resource_type g = ''folder'' \<and> principal_matches (Some user_id) groups g"

definition get_shared_folder_ids_for_user :: "string \<Rightarrow> string list \<Rightarrow> access_grant list \<Rightarrow> (string, string) dict" where
  "get_shared_folder_ids_for_user user_id groups granted =
     foldl (\<lambda>perms g. if map_of perms (ag_resource_id g) \<noteq> Some ''write'' then dict_set (ag_resource_id g) (ag_permission g) perms else perms)
       [] (filter (grant_applies user_id groups) granted)"

subsection \<open>Subtrees\<close>

text \<open>
  \<open>get_children\<close> inside \<open>get_children_folders_by_id_and_user_id\<close>: the loop over the children, each of which is
  visited before it is appended. The depth of the recursion is bounded; \<open>None\<close> is a recursion deeper than the
  bound, and as many levels as the table has rows are enough (\<open>collect_children_enough\<close>).
\<close>

fun collect_children :: "nat \<Rightarrow> folders \<Rightarrow> string \<Rightarrow> folder list \<Rightarrow> string list \<times> folder list \<Rightarrow> (string list \<times> folder list) option" where
  "collect_children n T user_id [] st = Some st"
| "collect_children n T user_id (c # cs) (seen, found) =
     (if f_id c \<in> set seen then collect_children n T user_id cs (seen, found)
      else (case n of
              0 \<Rightarrow> None
            | Suc m \<Rightarrow>
                (case collect_children m T user_id (get_folders_by_parent_id_and_user_id (Some (f_id c)) user_id T) (f_id c # seen, found) of
                   None \<Rightarrow> None
                 | Some (seen', found') \<Rightarrow> collect_children n T user_id cs (seen', found' @ [c]))))"

definition get_children_folders_by_id_and_user_id :: "string \<Rightarrow> string \<Rightarrow> folders \<Rightarrow> folder list option" where
  "get_children_folders_by_id_and_user_id i user_id T =
     (case get_folder_by_id_and_user_id i user_id T of
        None \<Rightarrow> None
      | Some f \<Rightarrow> map_option snd
          (collect_children (length T) T user_id (get_folders_by_parent_id_and_user_id (Some (f_id f)) user_id T) ([i], [])))"

text \<open>
  The loop of \<open>get_folder_ids_by_id_and_user_id_in_subtree\<close>; the stack is kept with its top first. \<open>push\<close> is the inner loop over
  the children.
\<close>

fun push_new :: "folder list \<Rightarrow> string list \<times> folder list \<Rightarrow> string list \<times> folder list" where
  "push_new [] st = st"
| "push_new (c # cs) (ids, stack) = push_new cs (if f_id c \<in> set ids then (ids, stack) else (f_id c # ids, c # stack))"

lemma push_new_ids:
  "push_new cs (ids, stack) = (ids', stack') \<Longrightarrow> set ids' = set ids \<union> f_id ` set cs
     \<and> (\<exists>new. stack' = new @ stack \<and> set new \<subseteq> set cs \<and> f_id ` set new = set ids' - set ids \<and> distinct (map f_id new))"
proof (induction cs arbitrary: ids stack)
  case (Cons c cs)
  show ?case
  proof (cases "f_id c \<in> set ids")
    case True
    then show ?thesis using Cons.IH [of ids stack] Cons.prems by auto
  next
    case False
    then have p: "push_new cs (f_id c # ids, c # stack) = (ids', stack')" using Cons.prems by simp
    from Cons.IH [OF p] obtain new where new: "stack' = new @ c # stack" "set new \<subseteq> set cs" "f_id ` set new = set ids' - set (f_id c # ids)"
        "distinct (map f_id new)" and ids': "set ids' = set (f_id c # ids) \<union> f_id ` set cs" by blast
    have "f_id ` set (new @ [c]) = set ids' - set ids" using new(3) ids' False by auto
    moreover have "distinct (map f_id (new @ [c]))" using new(3,4) by auto
    ultimately show ?thesis using new(1,2) ids' by (intro conjI exI [of _ "new @ [c]"]) auto
  qed
qed simp

definition unseen :: "folders \<Rightarrow> string list \<Rightarrow> nat" where
  "unseen T ids = card (f_id ` set T - set ids)"

lemma children_subset: "set (get_folders_by_parent_id_and_user_id p user_id T) \<subseteq> set T"
  by (auto simp: get_folders_by_parent_id_and_user_id_def newest_first_def)

function subtree_loop :: "folders \<Rightarrow> string \<Rightarrow> string list \<Rightarrow> folder list \<Rightarrow> string list" where
  "subtree_loop T user_id ids [] = ids"
| "subtree_loop T user_id ids (f # stack) =
     (case push_new (get_folders_by_parent_id_and_user_id (Some (f_id f)) user_id T) (ids, stack) of
        (ids', stack') \<Rightarrow> subtree_loop T user_id ids' stack')"
  by pat_completeness auto

termination
proof (relation "measures [\<lambda>(T, user_id, ids, stack). unseen T ids, \<lambda>(T, user_id, ids, stack). length stack]", goal_cases)
  case (2 T user_id ids f stack ids' stack')
  let ?cs = "get_folders_by_parent_id_and_user_id (Some (f_id f)) user_id T"
  from 2 have p: "push_new ?cs (ids, stack) = (ids', stack')" by simp
  from push_new_ids [OF p] obtain new where ids': "set ids' = set ids \<union> f_id ` set ?cs"
    and new: "stack' = new @ stack" "f_id ` set new = set ids' - set ids" by blast
  have sub: "f_id ` set ?cs \<subseteq> f_id ` set T" using children_subset by blast
  show ?case
  proof (cases "new = []")
    case True
    with new ids' have "set ids' = set ids" by auto
    with True new show ?thesis by (simp add: unseen_def)
  next
    case False
    then have "f_id (hd new) \<in> f_id ` set new" by simp
    then obtain x where x: "x \<in> set ids'" "x \<notin> set ids" using new(2) by blast
    with ids' sub have "x \<in> f_id ` set T - set ids" by auto
    with x ids' have "f_id ` set T - set ids' \<subset> f_id ` set T - set ids" by auto
    then have "unseen T ids' < unseen T ids" unfolding unseen_def by (intro psubset_card_mono) auto
    then show ?thesis by simp
  qed
qed simp

definition get_folder_ids_by_id_and_user_id_in_subtree :: "string \<Rightarrow> string \<Rightarrow> folders \<Rightarrow> string list" where
  "get_folder_ids_by_id_and_user_id_in_subtree i user_id T =
     (case get_folder_by_id_and_user_id i user_id T of
        None \<Rightarrow> []
      | Some f \<Rightarrow> subtree_loop T user_id [f_id f] [f])"

subsection \<open>Updates\<close>

text \<open>\<open>f\<close> replaces the row with its id.\<close>

definition put_folder :: "folder \<Rightarrow> folders \<Rightarrow> folders" where
  "put_folder f T = map (\<lambda>g. if f_id g = f_id f then f else g) T"

definition change_folder :: "(folder \<Rightarrow> folder) \<Rightarrow> string \<Rightarrow> string \<Rightarrow> folders \<Rightarrow> folder option \<times> folders" where
  "change_folder change i user_id T =
     (case get_folder_by_id_and_user_id i user_id T of
        None \<Rightarrow> (None, T)
      | Some f \<Rightarrow> (Some (change f), put_folder (change f) T))"

definition update_folder_parent_id_by_id_and_user_id :: "int \<Rightarrow> string \<Rightarrow> string \<Rightarrow> string option \<Rightarrow> folders \<Rightarrow> folder option \<times> folders" where
  "update_folder_parent_id_by_id_and_user_id now i user_id parent_id =
     change_folder (\<lambda>f. f\<lparr>f_parent_id := parent_id, f_updated_at := now\<rparr>) i user_id"

definition update_folder_is_expanded_by_id_and_user_id :: "int \<Rightarrow> string \<Rightarrow> string \<Rightarrow> bool \<Rightarrow> folders \<Rightarrow> folder option \<times> folders" where
  "update_folder_is_expanded_by_id_and_user_id now i user_id expanded =
     change_folder (\<lambda>f. f\<lparr>f_is_expanded := expanded, f_updated_at := now\<rparr>) i user_id"

definition merged :: "pydict option \<Rightarrow> pydict \<Rightarrow> pydict" where
  "merged old new = dict_update (case old of None \<Rightarrow> [] | Some d \<Rightarrow> d) new"

text \<open>
  A form that sets the name to null writes null into a column the model requires to be text; the validation then
  fails after the commit and nothing is returned. A null dictionary cannot be merged. Both cases are left out: the forms
  here carry a text and dictionaries when they carry anything.
\<close>

definition update_folder_by_id_and_user_id :: "int \<Rightarrow> string \<Rightarrow> string \<Rightarrow> string option \<Rightarrow> pydict option \<Rightarrow> pydict option \<Rightarrow> folders \<Rightarrow> folder option \<times> folders" where
  "update_folder_by_id_and_user_id now i user_id name data meta T =
     (case get_folder_by_id_and_user_id i user_id T of
        None \<Rightarrow> (None, T)
      | Some f \<Rightarrow>
          if (case first_folder (\<lambda>g. Some (f_name g) = name \<and> f_parent_id g = f_parent_id f \<and> f_user_id g = user_id) T of
                None \<Rightarrow> False | Some g \<Rightarrow> f_id g \<noteq> i)
          then (None, T)
          else
            let f' = f\<lparr>f_name := (case name of None \<Rightarrow> f_name f | Some s \<Rightarrow> s),
                       f_data := (case data of None \<Rightarrow> f_data f | Some d \<Rightarrow> Some (merged (f_data f) d)),
                       f_meta := (case meta of None \<Rightarrow> f_meta f | Some m \<Rightarrow> Some (merged (f_meta f) m)), f_updated_at := now\<rparr>
            in (Some f', put_folder f' T))"

subsection \<open>Deletion\<close>

definition delete_row :: "string \<Rightarrow> folders \<Rightarrow> folders" where
  "delete_row i T = filter (\<lambda>f. f_id f \<noteq> i) T"

text \<open>\<open>delete_children\<close>: as the walk above, but each visited child is deleted once its own children are gone.\<close>

fun delete_children :: "nat \<Rightarrow> string \<Rightarrow> folder list \<Rightarrow> string list \<times> string list \<times> folders \<Rightarrow> (string list \<times> string list \<times> folders) option" where
  "delete_children n user_id [] st = Some st"
| "delete_children n user_id (c # cs) (seen, gone, T) =
     (if f_id c \<in> set seen then delete_children n user_id cs (seen, gone, T)
      else (case n of
              0 \<Rightarrow> None
            | Suc m \<Rightarrow>
                (case delete_children m user_id (get_folders_by_parent_id_and_user_id (Some (f_id c)) user_id T) (f_id c # seen, gone, T) of
                   None \<Rightarrow> None
                 | Some (seen', gone', T') \<Rightarrow> delete_children n user_id cs (seen', gone' @ [f_id c], delete_row (f_id c) T'))))"

text \<open>The ids of the deleted folders and the table; \<open>None\<close> does not occur (\<open>delete_folder_removes\<close>).\<close>

definition delete_folder_by_id_and_user_id :: "string \<Rightarrow> string \<Rightarrow> folders \<Rightarrow> (string list \<times> folders) option" where
  "delete_folder_by_id_and_user_id i user_id T =
     (case get_folder_by_id_and_user_id i user_id T of
        None \<Rightarrow> Some ([], T)
      | Some f \<Rightarrow>
          map_option (\<lambda>(seen, gone, T'). (gone, delete_row (f_id f) T'))
            (delete_children (length T) user_id (get_folders_by_parent_id_and_user_id (Some (f_id f)) user_id T) ([f_id f], [f_id f], T)))"

subsection \<open>Search\<close>

text \<open>\<open>re.sub(r"[\s_]+", " ", name).strip().lower()\<close>.\<close>

definition normalize_folder_name :: "string \<Rightarrow> string" where
  "normalize_folder_name name = lower (strip (re_sub (rplus (RSat (\<lambda>c. is_space c \<or> c = CHR ''_''))) '' '' name))"

definition search_folders_by_names :: "string \<Rightarrow> string list \<Rightarrow> folders \<Rightarrow> folder list" where
  "search_folders_by_names user_id queries T =
     (let qs = map normalize_folder_name queries
      in if qs = [] then []
         else map snd (foldl (\<lambda>found f.
                if normalize_folder_name (f_name f) \<in> set qs
                then foldl (\<lambda>d c. dict_set (f_id c) c d) (dict_set (f_id f) f found)
                       (case get_children_folders_by_id_and_user_id (f_id f) user_id T of None \<Rightarrow> [] | Some cs \<Rightarrow> cs)
                else found) [] (get_folders_by_user_id user_id T)))"

definition search_folders_by_name_contains :: "string \<Rightarrow> string \<Rightarrow> folders \<Rightarrow> folder list" where
  "search_folders_by_name_contains user_id query T =
     filter (\<lambda>f. contains (normalize_folder_name query) (normalize_folder_name (f_name f))) (get_folders_by_user_id user_id T)"

subsection \<open>Subtrees are exactly what is reachable\<close>

text \<open>\<open>b\<close> is the id of a folder of the user whose parent is \<open>a\<close>.\<close>

definition child_rel :: "folders \<Rightarrow> string \<Rightarrow> (string \<times> string) set" where
  "child_rel T user_id = {(a, b). \<exists>f \<in> set T. f_id f = b \<and> f_parent_id f = Some a \<and> f_user_id f = user_id}"

definition subtree :: "folders \<Rightarrow> string \<Rightarrow> string \<Rightarrow> string set" where
  "subtree T user_id i = {x. (i, x) \<in> (child_rel T user_id)\<^sup>*}"

lemma children_iff:
  "f \<in> set (get_folders_by_parent_id_and_user_id p user_id T) \<longleftrightarrow> f \<in> set T \<and> f_parent_id f = p \<and> f_user_id f = user_id"
  by (auto simp: get_folders_by_parent_id_and_user_id_def newest_first_def)

lemma child_rel_children:
  "(a, b) \<in> child_rel T user_id \<longleftrightarrow> b \<in> f_id ` set (get_folders_by_parent_id_and_user_id (Some a) user_id T)"
  by (auto simp: child_rel_def image_iff children_iff)

lemma child_in_rel: "d \<in> set (get_folders_by_parent_id_and_user_id (Some a) user_id T) \<Longrightarrow> (a, f_id d) \<in> child_rel T user_id"
  by (auto simp: child_rel_children)

lemma unseen_mono: "set a \<subseteq> set b \<Longrightarrow> unseen T b \<le> unseen T a"
  by (auto simp: unseen_def intro!: card_mono)

text \<open>A set that contains the root, holds only what is reachable and is closed under children is the subtree.\<close>

lemma subtree_eqI:
  assumes "i \<in> S" "S \<subseteq> subtree T user_id i" "\<And>a b. a \<in> S \<Longrightarrow> (a, b) \<in> child_rel T user_id \<Longrightarrow> b \<in> S"
  shows "S = subtree T user_id i"
proof
  show "subtree T user_id i \<subseteq> S"
  proof
    fix x assume "x \<in> subtree T user_id i"
    then have "(i, x) \<in> (child_rel T user_id)\<^sup>*" by (simp add: subtree_def)
    then show "x \<in> S" by (induction rule: rtrancl_induct) (use assms(1,3) in auto)
  qed
qed (rule assms(2))

definition loop_ok :: "folders \<Rightarrow> string \<Rightarrow> string \<Rightarrow> string list \<Rightarrow> folder list \<Rightarrow> bool" where
  "loop_ok T user_id i ids stack \<longleftrightarrow> i \<in> set ids \<and> set ids \<subseteq> subtree T user_id i \<and> f_id ` set stack \<subseteq> set ids
     \<and> (\<forall>a \<in> set ids - f_id ` set stack. \<forall>b. (a, b) \<in> child_rel T user_id \<longrightarrow> b \<in> set ids)"

lemma subtree_loop_correct: "loop_ok T user_id i ids stack \<Longrightarrow> set (subtree_loop T user_id ids stack) = subtree T user_id i"
proof (induction T user_id ids stack rule: subtree_loop.induct)
  case (1 T user_id ids)
  then show ?case unfolding subtree_loop.simps by (intro subtree_eqI) (auto simp: loop_ok_def)
next
  case (2 T user_id ids f stack)
  let ?cs = "get_folders_by_parent_id_and_user_id (Some (f_id f)) user_id T"
  obtain ids' stack' where p: "push_new ?cs (ids, stack) = (ids', stack')" by fastforce
  from push_new_ids [OF p] obtain new where ids': "set ids' = set ids \<union> f_id ` set ?cs"
    and new: "stack' = new @ stack" "f_id ` set new = set ids' - set ids" by blast
  have root: "f_id f \<in> subtree T user_id i" using 2 by (auto simp: loop_ok_def)
  then have kids: "f_id ` set ?cs \<subseteq> subtree T user_id i"
    by (auto simp: subtree_def intro: rtrancl_into_rtrancl child_in_rel)
  have closed: "b \<in> set ids'" if "a \<in> set ids' - f_id ` set stack'" "(a, b) \<in> child_rel T user_id" for a b
  proof (cases "a = f_id f")
    case True
    then show ?thesis using that(2) ids' by (auto simp: child_rel_children)
  next
    case False
    then have "a \<in> set ids - f_id ` set (f # stack)" using that(1) new by auto
    then show ?thesis using 2(2) that(2) ids' unfolding loop_ok_def by blast
  qed
  have "f_id ` set stack' \<subseteq> set ids'" using 2(2) new ids' unfolding loop_ok_def by (simp add: image_Un) blast
  moreover have "i \<in> set ids'" "set ids' \<subseteq> subtree T user_id i" using 2(2) kids unfolding loop_ok_def ids' by simp_all
  ultimately have "loop_ok T user_id i ids' stack'" using closed unfolding loop_ok_def by metis
  then show ?case using 2(1) [OF p [symmetric]] p by simp
qed

lemma subtree_ids:
  assumes "get_folder_by_id_and_user_id i user_id T = Some f"
  shows "set (get_folder_ids_by_id_and_user_id_in_subtree i user_id T) = subtree T user_id i"
proof -
  have "f_id f = i" using assms by (auto simp: get_folder_by_id_and_user_id_def first_folder_def find_Some_iff)
  moreover have "loop_ok T user_id i [i] [f]" using calculation by (auto simp: loop_ok_def subtree_def)
  ultimately show ?thesis using subtree_loop_correct assms by (simp add: get_folder_ids_by_id_and_user_id_in_subtree_def del: subtree_loop.simps)
qed

text \<open>
  C23. The subtree of a folder. For a folder of the user, \<open>get_folder_ids_by_id_and_user_id_in_subtree\<close> returns
  exactly the ids that are reachable from it through the user's folders, whether or not the parent links form a
  cycle; the loop ends on every table.
\<close>

theorem subtree_ids_exact:
  assumes "get_folder_by_id_and_user_id i user_id T = Some f"
  shows "set (get_folder_ids_by_id_and_user_id_in_subtree i user_id T) = subtree T user_id i"
  using assms by (rule subtree_ids)

definition sample_folder :: "string \<Rightarrow> string option \<Rightarrow> folder" where
  "sample_folder i p = \<lparr>f_id = i, f_parent_id = p, f_user_id = ''u'', f_name = i, f_items = None, f_meta = None, f_data = None,
     f_is_expanded = False, f_created_at = 1, f_updated_at = 1\<rparr>"

theorem subtree_ids_exact_witness:
  "set (get_folder_ids_by_id_and_user_id_in_subtree ''a'' ''u'' [sample_folder ''a'' (Some ''b''), sample_folder ''b'' (Some ''a''), sample_folder ''c'' None])
     = subtree [sample_folder ''a'' (Some ''b''), sample_folder ''b'' (Some ''a''), sample_folder ''c'' None] ''u'' ''a''"
  by (rule subtree_ids_exact [of _ _ _ "sample_folder ''a'' (Some ''b'')"])
     (simp add: get_folder_by_id_and_user_id_def first_folder_def sample_folder_def)

subsection \<open>The recursive walks\<close>

text \<open>
  What a walk that starts with the seen ids \<open>S\<close> and ends with \<open>S'\<close> has done for the nodes \<open>C\<close>: it has seen all of them,
  the children of everything it newly saw, and nothing that is not below them.
\<close>

definition walked :: "('a \<times> 'a) set \<Rightarrow> 'a set \<Rightarrow> 'a set \<Rightarrow> 'a set \<Rightarrow> bool" where
  "walked R C S S' \<longleftrightarrow> S \<subseteq> S' \<and> C \<subseteq> S' \<and> R `` (S' - S) \<subseteq> S' \<and> S' - S \<subseteq> R\<^sup>* `` C"

lemma walked_Nil: "walked R {} S S"
  by (simp add: walked_def)

lemma walked_skip: "walked R C S S' \<Longrightarrow> c \<in> S \<Longrightarrow> walked R (insert c C) S S'"
  by (auto simp: walked_def)

lemma walked_visit:
  assumes "walked R (R `` {c}) (insert c S) S1" "walked R C S1 S'"
  shows "walked R (insert c C) S S'"
proof -
  have "R `` (S' - S) \<subseteq> R `` (S' - S1) \<union> R `` (S1 - insert c S) \<union> R `` {c}" by blast
  then have "R `` (S' - S) \<subseteq> S'" using assms unfolding walked_def by blast
  moreover have "R\<^sup>* `` (R `` {c}) \<subseteq> R\<^sup>* `` {c}" by (auto intro: converse_rtrancl_into_rtrancl)
  then have "S1 - S \<subseteq> R\<^sup>* `` {c}" using assms(1) unfolding walked_def by blast
  then have "S' - S \<subseteq> R\<^sup>* `` insert c C" using assms(2) unfolding walked_def by blast
  ultimately show ?thesis using assms unfolding walked_def by blast
qed

lemma walked_subtree:
  assumes "walked (child_rel T user_id) (child_rel T user_id `` {i}) {i} S'"
  shows "S' = subtree T user_id i"
proof -
  have "S' \<subseteq> subtree T user_id i"
    using assms by (auto simp: walked_def subtree_def intro: converse_rtrancl_into_rtrancl)
  then show ?thesis using assms by (intro subtree_eqI) (auto simp: walked_def)
qed

lemma children_image: "f_id ` set (get_folders_by_parent_id_and_user_id (Some a) user_id T) = child_rel T user_id `` {a}"
  by (auto simp: child_rel_children)

lemma collect_children_walks:
  assumes "collect_children n T user_id cs (seen, found) = Some (seen', found')"
  shows "walked (child_rel T user_id) (f_id ` set cs) (set seen) (set seen')
    \<and> (\<exists>new. found' = found @ new \<and> f_id ` set new = set seen' - set seen)"
  using assms
proof (induction n T user_id cs "(seen, found)" arbitrary: seen found seen' found' rule: collect_children.induct)
  case (2 n T user_id c cs seen found)
  show ?case
  proof (cases "f_id c \<in> set seen")
    case True
    then show ?thesis using 2(1) [OF True] 2(4) by (simp add: walked_skip)
  next
    case False
    let ?cs = "get_folders_by_parent_id_and_user_id (Some (f_id c)) user_id T"
    obtain m seen1 found1 where n: "n = Suc m" and one: "collect_children m T user_id ?cs (f_id c # seen, found) = Some (seen1, found1)"
      and two: "collect_children n T user_id cs (seen1, found1 @ [c]) = Some (seen', found')"
      using 2(4) False by (auto split: nat.splits option.splits)
    from 2(2) [OF False n one] obtain new1
      where A: "walked (child_rel T user_id) (child_rel T user_id `` {f_id c}) (insert (f_id c) (set seen)) (set seen1)"
        "found1 = found @ new1" "f_id ` set new1 = set seen1 - insert (f_id c) (set seen)"
      unfolding children_image list.set by blast
    from 2(3) [OF False n one refl two] obtain new2
      where B: "walked (child_rel T user_id) (f_id ` set cs) (set seen1) (set seen')"
        "found' = (found1 @ [c]) @ new2" "f_id ` set new2 = set seen' - set seen1" by blast
    have sub: "insert (f_id c) (set seen) \<subseteq> set seen1" "set seen1 \<subseteq> set seen'" using A(1) B(1) by (simp_all add: walked_def)
    have "found' = found @ (new1 @ c # new2)" using A(2) B(2) by simp
    moreover have "f_id ` set (new1 @ c # new2) = set seen' - set seen"
      unfolding set_append image_Un A(3) list.set image_insert B(3) using sub False by blast
    ultimately show ?thesis using walked_visit [OF A(1) B(1)] by (auto simp only: list.set image_insert)
  qed
qed (simp add: walked_Nil)

lemma unseen_visit:
  assumes "x \<in> f_id ` set T" "x \<notin> set seen"
  shows "unseen T seen = Suc (unseen T (x # seen))"
proof -
  have "f_id ` set T - set seen = insert x (f_id ` set T - set (x # seen))" using assms by auto
  then have "card (f_id ` set T - set seen) = card (insert x (f_id ` set T - set (x # seen)))" by (rule arg_cong)
  then show ?thesis unfolding unseen_def by (subst (asm) card_insert_disjoint) auto
qed

lemma collect_children_enough:
  assumes "set cs \<subseteq> set T" "unseen T seen \<le> n"
  shows "\<exists>seen' found'. collect_children n T user_id cs (seen, found) = Some (seen', found')"
  using assms
proof (induction n T user_id cs "(seen, found)" arbitrary: seen found rule: collect_children.induct)
  case (2 n T user_id c cs seen found)
  show ?case
  proof (cases "f_id c \<in> set seen")
    case True
    then show ?thesis using 2(1) [OF True] 2(4,5) by auto
  next
    case False
    let ?cs = "get_folders_by_parent_id_and_user_id (Some (f_id c)) user_id T"
    have c: "f_id c \<in> f_id ` set T" using 2(4) by auto
    have less: "unseen T seen = Suc (unseen T (f_id c # seen))" using c False by (rule unseen_visit)
    then obtain m where n: "n = Suc m" "unseen T (f_id c # seen) \<le> m" using 2(5) by (cases n) auto
    from 2(2) [OF False n(1) children_subset n(2)] obtain seen1 found1
      where one: "collect_children m T user_id ?cs (f_id c # seen, found) = Some (seen1, found1)" by blast
    have "set seen \<subseteq> set seen1" using collect_children_walks [OF one] by (simp add: walked_def)
    then have "unseen T seen1 \<le> n" using 2(5) unseen_mono [of seen seen1 T] by simp
    then obtain seen2 found2 where "collect_children n T user_id cs (seen1, found1 @ [c]) = Some (seen2, found2)"
      using 2(3) [OF False n(1) one refl] 2(4) by auto
    then show ?thesis using False n(1) one by simp
  qed
qed simp

lemma collect_children_total:
  assumes "get_folder_by_id_and_user_id i user_id T = Some f"
  obtains seen found where
    "collect_children (length T) T user_id (get_folders_by_parent_id_and_user_id (Some i) user_id T) ([i], []) = Some (seen, found)"
    "set seen = subtree T user_id i" "f_id ` set found = subtree T user_id i - {i}"
proof -
  have "unseen T [i] \<le> length T"
    unfolding unseen_def by (meson Diff_subset List.finite_set card_image_le card_length card_mono finite_imageI order_trans)
  from collect_children_enough [OF children_subset this] obtain seen found
    where c: "collect_children (length T) T user_id (get_folders_by_parent_id_and_user_id (Some i) user_id T) ([i], []) = Some (seen, found)"
    by blast
  note w = collect_children_walks [OF c, unfolded children_image]
  have "set seen = subtree T user_id i" using w walked_subtree [of T user_id i "set seen"] by simp
  with c w that show thesis by auto
qed

subsection \<open>Deletion removes the subtree and nothing else\<close>

lemma delete_children_seen:
  "delete_children n user_id cs (seen, gone, T) = Some (seen', gone', T') \<Longrightarrow> set seen \<subseteq> set seen'"
proof (induction n user_id cs "(seen, gone, T)" arbitrary: seen gone T seen' gone' T' rule: delete_children.induct)
  case (2 n user_id c cs seen gone T)
  show ?case
  proof (cases "f_id c \<in> set seen")
    case True
    then show ?thesis using 2(1) [OF True] 2(4) by simp
  next
    case False
    obtain m seen1 gone1 T1 where n: "n = Suc m"
      and one: "delete_children m user_id (get_folders_by_parent_id_and_user_id (Some (f_id c)) user_id T) (f_id c # seen, gone, T) = Some (seen1, gone1, T1)"
      and two: "delete_children n user_id cs (seen1, gone1 @ [f_id c], delete_row (f_id c) T1) = Some (seen', gone', T')"
      using 2(4) False by (auto split: nat.splits option.splits)
    have "set (f_id c # seen) \<subseteq> set seen1" by (rule 2(2) [OF False n one])
    moreover have "set seen1 \<subseteq> set seen'" by (rule 2(3) [OF False n one refl refl two])
    ultimately show ?thesis by auto
  qed
qed simp

lemma delete_children_skip:
  "\<forall>d \<in> set cs. P d \<or> f_id d \<in> set seen \<Longrightarrow>
     delete_children n user_id (filter P cs) (seen, gone, T) = delete_children n user_id cs (seen, gone, T)"
proof (induction cs arbitrary: seen gone T)
  case (Cons c cs)
  show ?case
  proof (cases "f_id c \<in> set seen")
    case True
    then show ?thesis using Cons by simp
  next
    case False
    then have "P c" using Cons.prems by simp
    moreover have "delete_children n user_id (filter P cs) (seen1, gone1 @ [f_id c], delete_row (f_id c) T1)
        = delete_children n user_id cs (seen1, gone1 @ [f_id c], delete_row (f_id c) T1)"
      if "delete_children m user_id ds (f_id c # seen, gone, T) = Some (seen1, gone1, T1)" for m ds seen1 gone1 T1
      using delete_children_seen [OF that] Cons.prems by (intro Cons.IH) auto
    ultimately show ?thesis using False by (auto split: nat.splits option.splits)
  qed
qed simp

lemma children_filter:
  "get_folders_by_parent_id_and_user_id p user_id (filter P T) = filter P (get_folders_by_parent_id_and_user_id p user_id T)"
  by (simp add: get_folders_by_parent_id_and_user_id_def newest_first_def filter_sort conj_commute)

lemma collect_children_ids:
  assumes "collect_children n T user_id cs (i # seen, found) = Some (seen1, found1)"
    and "f_id ` set found \<subseteq> set (i # seen)"
  shows "i \<in> set seen1 \<and> f_id ` set found1 \<subseteq> set seen1"
proof -
  obtain new where found1: "found1 = found @ new" and new: "f_id ` set new = set seen1 - set (i # seen)"
    and sub: "set (i # seen) \<subseteq> set seen1"
    using collect_children_walks [OF assms(1)] by (auto simp: walked_def)
  have "f_id ` set found1 = f_id ` set found \<union> f_id ` set new" by (simp add: found1 image_Un)
  then show ?thesis using assms(2) new sub by auto
qed

lemma delete_as_collect:
  assumes "f_id ` set found \<subseteq> set seen"
  shows "delete_children n user_id cs (seen, pre @ map f_id found, filter (\<lambda>f. f_id f \<notin> f_id ` set found) T)
    = map_option (\<lambda>(seen', found'). (seen', pre @ map f_id found', filter (\<lambda>f. f_id f \<notin> f_id ` set found') T))
        (collect_children n T user_id cs (seen, found))"
  using assms
proof (induction n T user_id cs "(seen, found)" arbitrary: seen found rule: collect_children.induct)
  case (2 n T user_id c cs seen found)
  show ?case
  proof (cases "f_id c \<in> set seen")
    case True
    then show ?thesis using 2(1) [OF True] 2(4) by simp
  next
    case False
    let ?cs = "get_folders_by_parent_id_and_user_id (Some (f_id c)) user_id T"
    let ?T = "\<lambda>found. filter (\<lambda>f. f_id f \<notin> f_id ` set found) T"
    show ?thesis
    proof (cases n)
      case (Suc m)
      have sub: "f_id ` set found \<subseteq> set (f_id c # seen)" using 2(4) by auto
      have "delete_children m user_id (get_folders_by_parent_id_and_user_id (Some (f_id c)) user_id (?T found)) (f_id c # seen, pre @ map f_id found, ?T found)
          = delete_children m user_id ?cs (f_id c # seen, pre @ map f_id found, ?T found)"
        unfolding children_filter by (rule delete_children_skip) (use sub in auto)
      also have "\<dots> = map_option (\<lambda>(seen', found'). (seen', pre @ map f_id found', ?T found')) (collect_children m T user_id ?cs (f_id c # seen, found))"
        by (rule 2(2) [OF False Suc sub])
      finally have inner: "delete_children m user_id (get_folders_by_parent_id_and_user_id (Some (f_id c)) user_id (?T found)) (f_id c # seen, pre @ map f_id found, ?T found)
          = map_option (\<lambda>(seen', found'). (seen', pre @ map f_id found', ?T found')) (collect_children m T user_id ?cs (f_id c # seen, found))" .
      show ?thesis
      proof (cases "collect_children m T user_id ?cs (f_id c # seen, found)")
        case None
        then show ?thesis using False Suc inner by simp
      next
        case (Some r)
        obtain seen1 found1 where one: "collect_children m T user_id ?cs (f_id c # seen, found) = Some (seen1, found1)"
          using Some by (cases r) auto
        have "f_id ` set (found1 @ [c]) \<subseteq> set seen1"
          using collect_children_ids [OF one sub] by simp
        from 2(3) [OF False Suc one refl this]
        have "delete_children n user_id cs (seen1, (pre @ map f_id found1) @ [f_id c], delete_row (f_id c) (?T found1))
            = map_option (\<lambda>(seen', found'). (seen', pre @ map f_id found', ?T found')) (collect_children n T user_id cs (seen1, found1 @ [c]))"
          by (simp add: delete_row_def conj_commute)
        then show ?thesis using False Suc inner one by simp
      qed
    qed (use False in simp)
  qed
qed simp

lemma delete_folder_removes:
  assumes "get_folder_by_id_and_user_id i user_id T = Some f"
  shows "\<exists>gone. delete_folder_by_id_and_user_id i user_id T = Some (gone, filter (\<lambda>g. f_id g \<notin> subtree T user_id i) T)
    \<and> set gone = subtree T user_id i"
proof -
  have i: "f_id f = i" using assms by (auto simp: get_folder_by_id_and_user_id_def first_folder_def find_Some_iff)
  obtain seen found where c:
      "collect_children (length T) T user_id (get_folders_by_parent_id_and_user_id (Some i) user_id T) ([i], []) = Some (seen, found)"
      and ids: "f_id ` set found = subtree T user_id i - {i}"
    using collect_children_total [OF assms] by metis
  have root: "i \<in> subtree T user_id i" by (simp add: subtree_def)
  have "delete_children (length T) user_id (get_folders_by_parent_id_and_user_id (Some i) user_id T) ([i], [i], T)
      = Some (seen, [i] @ map f_id found, filter (\<lambda>g. f_id g \<notin> f_id ` set found) T)"
    using delete_as_collect [of "[]" "[i]" "length T" user_id "get_folders_by_parent_id_and_user_id (Some i) user_id T" "[i]" T] c by simp
  then have "delete_folder_by_id_and_user_id i user_id T
      = Some ([i] @ map f_id found, delete_row i (filter (\<lambda>g. f_id g \<notin> f_id ` set found) T))"
    unfolding delete_folder_by_id_and_user_id_def assms option.case i by simp
  moreover have "delete_row i (filter (\<lambda>g. f_id g \<notin> f_id ` set found) T) = filter (\<lambda>g. f_id g \<notin> subtree T user_id i) T"
    unfolding delete_row_def filter_filter ids by (rule filter_cong [OF refl]) (use root in blast)
  moreover have "set ([i] @ map f_id found) = subtree T user_id i"
    using insert_Diff [OF root] by (simp add: ids)
  ultimately show ?thesis by metis
qed

text \<open>
  C24. Deleting a folder. For a folder of the user the deletion always ends; it removes the rows whose ids are in the
  folder's subtree, no others, and returns exactly those ids, even when parent links form a cycle.
\<close>

theorem delete_folder_exact:
  assumes "get_folder_by_id_and_user_id i user_id T = Some f"
  shows "\<exists>gone. delete_folder_by_id_and_user_id i user_id T = Some (gone, filter (\<lambda>g. f_id g \<notin> subtree T user_id i) T)
    \<and> set gone = subtree T user_id i"
  using assms by (rule delete_folder_removes)

theorem delete_folder_exact_witness:
  "\<exists>gone rest. delete_folder_by_id_and_user_id ''a'' ''u'' [sample_folder ''a'' (Some ''b''), sample_folder ''b'' (Some ''a''), sample_folder ''c'' None]
       = Some (gone, rest) \<and> set gone = subtree [sample_folder ''a'' (Some ''b''), sample_folder ''b'' (Some ''a''), sample_folder ''c'' None] ''u'' ''a''"
proof -
  have "get_folder_by_id_and_user_id ''a'' ''u'' [sample_folder ''a'' (Some ''b''), sample_folder ''b'' (Some ''a''), sample_folder ''c'' None]
      = Some (sample_folder ''a'' (Some ''b''))"
    by (simp add: get_folder_by_id_and_user_id_def first_folder_def sample_folder_def)
  from delete_folder_exact [OF this] show ?thesis by blast
qed

end
