(* ===== verification/Relay_Pipe.thy ===== *)
theory Relay_Pipe
  imports Relay_Stream OWUI_Chats OWUI_Folders
begin

section \<open>The Open WebUI adapter (horizon\_relay\_pipe.py)\<close>

text \<open>
  The pipe that Open WebUI calls: the routing tests saved as chats in a folder, the scripted demo, the live model, and
  the dispatch between them. The tables of Open WebUI that the adapter writes are its state. The test fixtures, the search of a
  test's regular expression, generated ids and the clock are arguments.
\<close>

subsection \<open>Saving test runs\<close>

definition TESTS_FOLDER :: string where
  "TESTS_FOLDER = ''Tests''"

text \<open>
  \<open>clear_tests_folder\<close>: the Tests folder exists afterwards; the listed chats below it are deleted, except the one that
  runs the tests, which moves to the folder itself; then its subfolders go. A folder that could not be created is an
  \<open>AttributeError\<close>.
\<close>

definition clear_chat :: "int \<Rightarrow> string \<Rightarrow> string option \<Rightarrow> string \<Rightarrow> chat_row \<Rightarrow> chat_db \<Rightarrow> chat_db" where
  "clear_chat now user_id keep folder_id c db =
     (if Some (c_id c) = keep then snd (update_chat_folder_id_by_id_and_user_id now (c_id c) user_id (Some folder_id) db)
      else delete_chat_by_id_and_user_id (c_id c) user_id db)"

fun clear_folders :: "string \<Rightarrow> folder list \<Rightarrow> folders \<Rightarrow> folders" where
  "clear_folders user_id [] T = T"
| "clear_folders user_id (f # fs) T =
     clear_folders user_id fs (case delete_folder_by_id_and_user_id (f_id f) user_id T of None \<Rightarrow> T | Some (gone, T') \<Rightarrow> T')"

definition tests_form :: folder_form where
  "tests_form = \<lparr>ff_name = TESTS_FOLDER, ff_data = None, ff_meta = None, ff_parent_id = None\<rparr>"

definition tests_folder :: "string \<Rightarrow> int \<Rightarrow> string \<Rightarrow> folders \<Rightarrow> folder option \<times> folders" where
  "tests_folder new_id now user_id T =
     (case get_folder_by_parent_id_and_user_id_and_name None user_id TESTS_FOLDER T of
        Some f \<Rightarrow> (Some f, T)
      | None \<Rightarrow> insert_new_folder new_id now user_id tests_form None T)"

definition clear_tests_folder :: "string \<Rightarrow> int \<Rightarrow> string \<Rightarrow> string option \<Rightarrow> folders \<times> chat_db \<Rightarrow> string res \<times> folders \<times> chat_db" where
  "clear_tests_folder new_id now user_id keep st =
     (case st of (T, db) \<Rightarrow>
      case tests_folder new_id now user_id T of
        (None, T1) \<Rightarrow> (Inl OtherError, T1, db)
      | (Some f, T1) \<Rightarrow>
          (let subtree = get_folder_ids_by_id_and_user_id_in_subtree (f_id f) user_id T1;
               db1 = fold (clear_chat now user_id keep (f_id f)) (get_chats_by_folder_ids_and_user_id subtree user_id db) db;
               T2 = clear_folders user_id (get_folders_by_parent_id_and_user_id (Some (f_id f)) user_id T1) T1
           in (Inr (f_id f), T2, db1)))"

text \<open>\<open>save_chat\<close>: a question and its reply, linked to each other, as a new chat of the folder.\<close>

definition question_of :: "string \<Rightarrow> string \<Rightarrow> string \<Rightarrow> int \<Rightarrow> pydict" where
  "question_of qid rid prompt now =
     [(''id'', PStr qid), (''parentId'', PNone), (''childrenIds'', PList [PStr rid]), (''role'', PStr ''user''),
      (''content'', PStr prompt), (''timestamp'', PInt now), (''models'', PList [PStr ''horizon_relay.live''])]"

definition reply_of :: "string \<Rightarrow> string \<Rightarrow> string \<Rightarrow> string \<Rightarrow> string \<Rightarrow> int \<Rightarrow> pydict" where
  "reply_of qid rid content page final_status now =
     [(''id'', PStr rid), (''parentId'', PStr qid), (''childrenIds'', PList []), (''role'', PStr ''assistant''), (''content'', PStr content),
      (''done'', PBool True), (''model'', PStr ''horizon_relay.live''), (''modelName'', PStr ''Horizon Relay''), (''modelIdx'', PInt 0),
      (''timestamp'', PInt now),
      (''statusHistory'', PList [PDict [(''action'', PStr ''horizon_relay''), (''description'', PStr final_status), (''done'', PBool True)]]),
      (''embeds'', PList [PStr page])]"

definition saved_chat :: "string \<Rightarrow> string \<Rightarrow> string \<Rightarrow> string \<Rightarrow> string \<Rightarrow> string \<Rightarrow> string \<Rightarrow> int \<Rightarrow> pydict" where
  "saved_chat qid rid heading prompt content page final_status now =
     (let q = question_of qid rid prompt now; r = reply_of qid rid content page final_status now
      in [(''id'', PStr []), (''title'', PStr heading), (''models'', PList [PStr ''horizon_relay.live'']), (''params'', PDict []),
          (''tags'', PList []), (''files'', PList []), (''timestamp'', PInt (now * 1000)),
          (''history'', PDict [(''messages'', PDict (dict_set rid (PDict r) [(qid, PDict q)])), (''currentId'', PStr rid)]),
          (''messages'', PList [PDict q, PDict r])])"

definition save_chat :: "string \<times> string \<times> string \<Rightarrow> int \<Rightarrow> string \<Rightarrow> string \<Rightarrow> string \<Rightarrow> string \<Rightarrow> string \<Rightarrow> string \<Rightarrow> string \<Rightarrow> chat_db \<Rightarrow> string res \<times> chat_db" where
  "save_chat ids now user_id folder_id heading prompt content page final_status db =
     (case ids of (qid, rid, chat_id) \<Rightarrow>
        (case insert_new_chat now chat_id user_id
                \<lparr>cf_chat = saved_chat qid rid heading prompt content page final_status now, cf_variables = None, cf_folder_id = Some folder_id\<rparr>
                None None db of
           (Inl e, db') \<Rightarrow> (Inl e, db') | (Inr c, db') \<Rightarrow> (Inr chat_id, db')))"

subsection \<open>Replies of the pipe\<close>

text \<open>Stand-ins for the check mark, the cross and the en dash of the tables.\<close>

definition ch_check :: string where "ch_check = [CHR 0x89]"
definition ch_cross :: string where "ch_cross = [CHR 0x8A]"
definition ch_endash :: string where "ch_endash = [CHR 0x96]"

text \<open>\<open>f"{x:.0f}"\<close> and \<open>f"{x:.1f}"\<close> of numbers that are not negative.\<close>

definition fmt0 :: "real \<Rightarrow> string" where
  "fmt0 x = show_int (round_half_even x)"

definition fmt1 :: "real \<Rightarrow> string" where
  "fmt1 x = show_scaled 1 (nat (round_half_even (x * 10)))"

definition DEMO_HELP :: string where
  "DEMO_HELP = ''**Horizon Relay '' @ ch_emdash @ '' simulated prototype**'' @ newline @ newline
     @ ''Run `/relay-demo`, `/relay-demo trusted`, `/relay-demo local`, `/relay-demo repair`, or `/relay-demo escalate`. ''
     @ ''These use two built-in bug reports and scripted responses, not your conversation or a real model.''"

definition TESTS_HELP :: string where
  "TESTS_HELP = ''**Horizon Relay routing tests**'' @ newline @ newline
     @ ''Send `/run all` to run every test (a bare `/run` opens Open WebUI'' @ [CHR 0x27] @ ''s command menu instead), or narrow it: `/run 1 4 9`, `/run 0.9b`, `/run 4b`, `/run cloud`, `/run forced`, `/run hard`. ''
     @ ''Each run first empties the **Tests** folder, then saves every test as its own chat there, with its decision graph. ''
     @ ''**Expected** lists the models allowed to answer; '' @ ch_check @ ''/'' @ ch_cross @ '' under **Answer** checks the answer itself. ''
     @ ''*Forced* tests override the policy so a path always runs. Tests use the real models; cloud routes spend credits.'' @ newline @ newline"

definition demo_background_reply :: "string \<Rightarrow> string" where
  "demo_background_reply task =
     (if contains ''title'' task then json_dumps (PDict [(''title'', PStr ''Horizon Relay simulated demo'')])
      else if contains ''tag'' task then json_dumps (PDict [(''tags'', PList [PStr ''Demo''])])
      else if contains ''follow'' task then json_dumps (PDict [(''follow_ups'', PList [])])
      else ''Simulated background task; no model called.'')"

definition pipes :: "environ \<Rightarrow> (string \<times> string) list" where
  "pipes env =
     (if env_or env ''RELAY_PROVIDER'' ''simulated'' = ''live''
      then [(''live'', ''Horizon Relay''), (''tests'', ''Horizon Relay Tests''), (''demo'', ''Horizon Relay (Simulated Demo)'')]
      else [(''demo'', ''Horizon Relay (Simulated Demo)'')])"

subsection \<open>Running the tests\<close>

text \<open>
  What a test run depends on besides the request: the fixtures and the two regular-expression operations, the page template, and for
  the \<open>i\<close>th selected test its run (servers, the rest of the engine's environment, the schedule, the seconds it takes) and the
  three ids of the chat it is saved as.
\<close>

record tests_env =
  te_fixtures :: string
  te_compiles :: "string \<Rightarrow> bool"
  te_found :: "string \<Rightarrow> string \<Rightarrow> bool"
  te_template :: string
  te_server :: "nat \<Rightarrow> nat \<Rightarrow> server"
  te_base :: "nat \<Rightarrow> env"
  te_sched :: "nat \<Rightarrow> schedule"
  te_secs :: "nat \<Rightarrow> real"
  te_ids :: "nat \<Rightarrow> string \<times> string \<times> string"
  te_folder_id :: string
  te_now :: int

type_synonym webui = "folders \<times> chat_db"

definition model_names :: "relay \<Rightarrow> (string, string) dict" where
  "model_names r = map (\<lambda>(t, m). (t, short_model m)) (OpenAI_models (rl_endpoints r))"

definition name_of :: "(string, string) dict \<Rightarrow> string \<Rightarrow> string" where
  "name_of names t = dict_get_or names t t"

definition expected_names :: "(string, string) dict \<Rightarrow> test_case \<Rightarrow> string" where
  "expected_names names c = join '' or '' (map (name_of names) (tc_expected_route c))"

text \<open>The latest user message: \<open>m.get("content", "")\<close> of the last message whose role is user, empty when it is no text.\<close>

fun latest_user :: "pyval list \<Rightarrow> string res" where
  "latest_user [] = Inr []"
| "latest_user (m # rest) =
     (case m of
        PDict d \<Rightarrow> if dget d ''role'' = PStr ''user''
                   then Inr (case dict_get_or d ''content'' (PStr []) of PStr s \<Rightarrow> strip s | _ \<Rightarrow> [])
                   else latest_user rest
      | _ \<Rightarrow> Inl OtherError)"

definition is_forced :: "test_case \<Rightarrow> bool" where
  "is_forced c \<longleftrightarrow> tc_policy c \<noteq> None \<and> tc_policy c \<noteq> Some []"

definition listing_row :: "(string, string) dict \<Rightarrow> nat \<Rightarrow> test_case \<Rightarrow> string" where
  "listing_row names i c =
     ''| '' @ show_nat i @ '' | '' @ tc_name c @ (if is_forced c then '' *(forced)*'' else []) @ '' | '' @ tc_category c @ '' | ''
     @ tc_difficulty c @ '' | '' @ expected_names names c @ '' | '' @ (if wanted_pattern c \<noteq> None then ch_check else []) @ '' |''"

definition listing :: "(string, string) dict \<Rightarrow> test_case list \<Rightarrow> string" where
  "listing names cases =
     TESTS_HELP @ ''| # | Test | Category | Difficulty | Expected | Answer checked |'' @ newline @ ''|---|---|---|---|---|---|'' @ newline
     @ join newline (map (\<lambda>(i, c). listing_row names (Suc i) c) (enumerate 0 cases))"

text \<open>What is saved as the reply of a test's chat.\<close>

definition check_note :: "case_result \<Rightarrow> string" where
  "check_note r =
     (case cs_correct r of None \<Rightarrow> [] | Some ok \<Rightarrow> '' Answer check: '' @ (if ok then ''passed'' else ''failed'') @ ''.'')
     @ (if has_expects r
        then '' Delegation: '' @ show_int (cs_local_subtasks r) @ '' subtasks to local models''
             @ (if cs_parallel_ms r \<noteq> 0 then '', '' @ fmt0 (of_int (cs_parallel_ms r) / 1000) @ ''s alongside the cloud'' else [])
             @ (if cs_unmet r = [] then ''.'' else ''. Unmet: '' @ join ''; '' (cs_unmet r) @ ''.'')
        else [])"

definition saved_content :: "(string, string) dict \<Rightarrow> case_result \<Rightarrow> string" where
  "saved_content names r =
     (if cs_route r \<noteq> ''error''
      then cs_answer r @ newline @ newline @ ''---'' @ newline @ ''Expected **'' @ expected_names names (cs_case r) @ ''**, routed to **''
           @ name_of names (cs_route r) @ ''**.'' @ check_note r
      else stop_text (cs_error r))"

definition saved_title :: "nat \<Rightarrow> case_result \<Rightarrow> string" where
  "saved_title i r = (if cs_matched r then ch_check else ch_cross) @ '' '' @ pad_zero 2 (show_nat i) @ '' '' @ tc_name (cs_case r)"

definition save_result ::
    "tests_env \<Rightarrow> (string, string) dict \<Rightarrow> string \<Rightarrow> string \<Rightarrow> nat \<Rightarrow> case_result \<Rightarrow> webui \<Rightarrow> string res \<times> webui" where
  "save_result te names user_id folder_id i r st =
     (case save_chat (te_ids te i) (te_now te) user_id folder_id (saved_title (Suc i) r) (tc_prompt (cs_case r)) (saved_content names r)
             (render_html (te_template te) (cs_graph r))
             (''Expected '' @ expected_names names (cs_case r) @ '' '' @ ch_middot @ '' routed to '' @ name_of names (cs_route r)) (snd st) of
        (Inl e, db) \<Rightarrow> (Inl e, fst st, db)
      | (Inr chat_id, db) \<Rightarrow> (Inr (''[open](/c/'' @ chat_id @ '')''), fst st, db))"

text \<open>The loop over the selected tests: results and links so far, messages to the browser, the tables.\<close>

definition case_events :: "tests_env \<Rightarrow> relay \<Rightarrow> nat \<Rightarrow> test_case \<Rightarrow> relay_event list" where
  "case_events te r i c =
     (case case_env c (relay_env (te_server te i) r (te_base te i)) of
        Inl e \<Rightarrow> [] | Inr env' \<Rightarrow> events (snd (chat env' (te_sched te i) (user_message (tc_prompt c)))))"

fun run_selected ::
    "tests_env \<Rightarrow> relay \<Rightarrow> string option \<Rightarrow> string \<Rightarrow> bool \<Rightarrow> nat \<Rightarrow> nat \<Rightarrow> test_case list
     \<Rightarrow> (case_result \<times> string) list \<times> ui_message list \<times> webui \<Rightarrow> ((case_result \<times> string) list) res \<times> ui_message list \<times> webui" where
  "run_selected te r user_id folder_id emitting n i [] (acc, ui, st) = (Inr acc, ui, st)"
| "run_selected te r user_id folder_id emitting n i (c # cs) (acc, ui, st) =
     (let ui = ui @ (if emitting then status (''Test '' @ show_nat (Suc i) @ ''/'' @ show_nat n @ '': '' @ tc_name c) False
                         # graph_emitter (te_template te) False (case_events te r i c) RunGraph_init else [])
      in case run_case (te_found te) (relay_env (te_server te i) r (te_base te i)) (te_sched te i) (te_secs te i) c of
           Inl e \<Rightarrow> (Inl e, ui, st)
         | Inr result \<Rightarrow>
             (case user_id of
                None \<Rightarrow> run_selected te r user_id folder_id emitting n (Suc i) cs (acc @ [(result, [])], ui, st)
              | Some u \<Rightarrow>
                  (case save_result te (model_names r) u folder_id i result st of
                     (Inl e, st') \<Rightarrow> (Inl e, ui, st')
                   | (Inr link, st') \<Rightarrow> run_selected te r user_id folder_id emitting n (Suc i) cs (acc @ [(result, link)], ui, st'))))"

definition delegated_cell :: "case_result \<Rightarrow> string" where
  "delegated_cell r =
     (if cs_local_subtasks r = 0 \<and> \<not> has_expects r then ch_endash else show_int (cs_local_subtasks r) @ '' local'')
     @ (if cs_parallel_ms r \<noteq> 0 then '', '' @ fmt0 (of_int (cs_parallel_ms r) / 1000) @ ''s in parallel'' else [])
     @ (if cs_unmet r \<noteq> [] then '' '' @ ch_cross else [])"

definition mark :: "bool \<Rightarrow> string" where
  "mark b = (if b then ch_check else ch_cross)"

definition result_row :: "(string, string) dict \<Rightarrow> nat \<Rightarrow> case_result \<times> string \<Rightarrow> string" where
  "result_row names i rl =
     (case rl of (r, link) \<Rightarrow>
        let scores = join ('' '' @ ch_middot @ '' '') (map (\<lambda>(t, s). name_of names t @ '' '' @ fmt2 s) (cs_scores r))
        in ''| '' @ show_nat i @ '' | '' @ tc_name (cs_case r) @ '' | '' @ expected_names names (cs_case r) @ '' | '' @ name_of names (cs_route r)
           @ '' | '' @ mark (cs_matched r) @ '' | '' @ (case cs_correct r of None \<Rightarrow> ch_endash | Some ok \<Rightarrow> mark ok) @ '' | '' @ delegated_cell r
           @ '' | '' @ (if scores = [] then ch_endash else scores) @ '' | '' @ show_int (cs_cloud_calls r) @ '' | '' @ fmt1 (cs_elapsed_s r)
           @ ''s | '' @ link @ '' |'')"

definition tests_report :: "(string, string) dict \<Rightarrow> (case_result \<times> string) list \<Rightarrow> bool \<Rightarrow> string" where
  "tests_report names rows saved =
     (let s = summarize (map fst rows); dot = '' '' @ ch_middot @ '' '';
          tiers = join dot (map (\<lambda>(t, n). name_of names t @ '' '' @ show_nat n) (filter (\<lambda>(t, n). n \<noteq> 0) (sm_by_tier s)))
      in ''**'' @ show_nat (sm_matched s) @ ''/'' @ show_nat (sm_cases s) @ '' routed as expected**'' @ dot
         @ ''**'' @ show_nat (sm_answers_correct s) @ ''/'' @ show_nat (sm_answers_checked s) @ '' answers correct**''
         @ (if sm_expectations_checked s \<noteq> 0
            then dot @ ''**'' @ show_nat (sm_expectations_met s) @ ''/'' @ show_nat (sm_expectations_checked s) @ '' delegation checks passed**'' else [])
         @ dot @ ''answered by '' @ (if tiers = [] then ''none'' else tiers) @ dot @ show_nat (sm_errors s) @ '' errors'' @ dot
         @ show_int (sm_cloud_calls s) @ '' cloud calls'' @ dot @ real_repr (sm_seconds s) @ ''s'' @ newline @ newline
         @ ''| # | Test | Expected | Routed to | Route | Answer | Delegated | Scores | Cloud calls | Time | Chat |'' @ newline
         @ ''|---|---|---|---|---|---|---|---|---|---|---|'' @ newline
         @ join newline (map (\<lambda>(i, r). result_row names (Suc i) r) (enumerate 0 rows))
         @ (if saved then newline @ newline @ ''Each test is saved in **'' @ TESTS_FOLDER @ ''** in the sidebar with its decision graph.'' else []))"

definition run_tests ::
    "tests_env \<Rightarrow> relay \<Rightarrow> string option \<Rightarrow> string option \<Rightarrow> bool \<Rightarrow> test_case list \<Rightarrow> webui \<Rightarrow> string res \<times> ui_message list \<times> webui" where
  "run_tests te r user_id chat_id emitting selected st =
     (let ui0 = (if emitting \<and> user_id \<noteq> None then [status ''Clearing the Tests folder'' False] else []);
          (folder_id, st1) = (case user_id of None \<Rightarrow> (Inr [], st)
                              | Some u \<Rightarrow> clear_tests_folder (te_folder_id te) (te_now te) u chat_id st)
      in case folder_id of
           Inl e \<Rightarrow> (Inl e, ui0, st1)
         | Inr fid \<Rightarrow>
             (case run_selected te r user_id fid emitting (length selected) 0 selected ([], ui0, st1) of
                (Inl e, ui, st2) \<Rightarrow> (Inl e, ui, st2)
              | (Inr rows, ui, st2) \<Rightarrow>
                  (let s = summarize (map fst rows)
                   in (Inr (tests_report (model_names r) rows (user_id \<noteq> None)),
                       ui @ (if emitting then [Embeds [], status (show_nat (sm_matched s) @ ''/'' @ show_nat (sm_cases s) @ '' routed as expected'') True] else []),
                       st2))))"

definition tests ::
    "tests_env \<Rightarrow> environ \<Rightarrow> pyval \<Rightarrow> string option \<Rightarrow> string option \<Rightarrow> bool \<Rightarrow> webui \<Rightarrow> string res \<times> ui_message list \<times> webui" where
  "tests te env msgs user_id chat_id emitting st =
     (let user_id = (if user_id = Some [] then None else user_id)
      in case bindE (load_cases (te_compiles te) (te_fixtures te)) (\<lambda>cases.
           bindE (from_env env None) (\<lambda>r.
           bindE (iterate msgs) (\<lambda>ms'.
           bindE (latest_user (rev ms')) (\<lambda>latest.
             if \<not> prefix ''/run'' latest then Inr (Inl (listing (model_names r) cases))
             else bindE (select_cases cases (drop 4 latest)) (\<lambda>selected.
               Inr (if selected = [] then Inl ''No test matches that selection. Send any other message to list the tests.'' else Inr (r, selected))))))) of
           Inl e \<Rightarrow> (Inl e, [], st)
         | Inr (Inl reply) \<Rightarrow> (Inr reply, [], st)
         | Inr (Inr (r, selected)) \<Rightarrow> run_tests te r user_id chat_id emitting selected st)"

subsection \<open>The demo and the dispatch\<close>

definition is_text_message :: "pyval \<Rightarrow> bool" where
  "is_text_message m = (case m of PDict d \<Rightarrow> is_str (dget d ''content'') | _ \<Rightarrow> False)"

fun latest_command :: "pyval list \<Rightarrow> string" where
  "latest_command [] = []"
| "latest_command (m # rest) =
     (if dget (dict_or_empty m) ''role'' = PStr ''user'' then strip (the_str (dget (dict_or_empty m) ''content'')) else latest_command rest)"

text \<open>The scenario the latest message asks for; \<open>None\<close> is answered with the help text.\<close>

definition demo_scenario :: "pyval list \<Rightarrow> string option" where
  "demo_scenario msgs =
     (let parts = split_ws (latest_command (rev msgs))
      in if parts = [] \<or> hd parts \<noteq> ''/relay-demo'' \<or> length parts > 2 \<or> (length parts = 2 \<and> parts ! 1 \<notin> set SCENARIOS) then None
         else Some (if length parts = 2 then parts ! 1 else ''standard''))"

definition demo :: "string \<Rightarrow> schedule \<Rightarrow> environ \<Rightarrow> pyval \<Rightarrow> string option \<Rightarrow> bool \<Rightarrow> string res \<times> ui_message list" where
  "demo template sched env msgs task emitting =
     (case task of
        Some t \<Rightarrow> (Inr (demo_background_reply t), [])
      | None \<Rightarrow>
          (case msgs of
             PList vs \<Rightarrow>
               if \<not> list_all is_text_message vs then (Inr ''This prototype supports text messages only.'', [])
               else (case demo_scenario vs of
                       None \<Rightarrow> (Inr DEMO_HELP, [])
                     | Some scenario \<Rightarrow>
                         (case run_demo sched scenario (15 / 100) (env_flag env ''CLOUD_ENABLED'') emitting of
                            (result, s) \<Rightarrow>
                              (bindE result (\<lambda>rr. Inr (rr_content rr @ newline @ newline @ summary rr)),
                               if emitting then graph_emitter template True (events s) RunGraph_init else [])))
           | _ \<Rightarrow> (Inr ''This prototype supports text messages only.'', [])))"

text \<open>
  A request as the pipe reads it: the model, the messages, whether there are attachments anywhere, the background task, the user, the chat,
  and whether there is a browser to send to. \<open>pr_deltas\<close> and \<open>pr_server\<close>, \<open>pr_base\<close>, \<open>pr_sched\<close> are what the models do.
\<close>

record pipe_request =
  pr_model :: string
  pr_messages :: pyval
  pr_files :: bool
  pr_task :: "string option"
  pr_user_id :: "string option"
  pr_chat_id :: "string option"
  pr_emitting :: bool
  pr_server :: "nat \<Rightarrow> server"
  pr_base :: env
  pr_sched :: schedule
  pr_deltas :: "(delta_call \<times> string) list"

datatype pipe_reply = Whole string | Pieces "piece list"

definition ends_with :: "string \<Rightarrow> string \<Rightarrow> bool" where
  "ends_with suf s = suffix suf s"

definition live_env :: "environ \<Rightarrow> pipe_request \<Rightarrow> env res" where
  "live_env env q =
     bindE (from_env env None) (\<lambda>r. Inr (relay_env (pr_server q) r ((pr_base q)\<lparr>e_emit := pr_emitting q, e_on_delta := True\<rparr>)))"

text \<open>The live model: a background task is one local call, a question is streamed. \<open>str\<close> of a reply that is no text is its representation.\<close>

definition live :: "string \<Rightarrow> environ \<Rightarrow> pipe_request \<Rightarrow> pipe_reply res \<times> ui_message list" where
  "live template env q =
     (case live_env env q of
        Inl e \<Rightarrow> (Inl e, [])
      | Inr e' \<Rightarrow>
          (case pr_task q of
             Some t \<Rightarrow> (bindE (complete e' (pr_messages q)) (\<lambda>v. Inr (Whole (py_str v))), [])
           | None \<Rightarrow>
               (case chat e' (pr_sched q) (pr_messages q) of
                  (result, s) \<Rightarrow>
                    (Inr (Pieces (stream_relay (models_of e') (pr_deltas q) result)),
                     if pr_emitting q then graph_emitter template True (events s) RunGraph_init else []))))"

text \<open>\<open>except RelayError\<close> around the three modes.\<close>

definition guarded :: "pipe_reply res \<Rightarrow> pipe_reply res" where
  "guarded r = (case r of Inl e \<Rightarrow> if is_relay_error e then Inr (Whole (stop_text (exn_str e))) else Inl e | Inr x \<Rightarrow> Inr x)"

definition pipe :: "tests_env \<Rightarrow> environ \<Rightarrow> pipe_request \<Rightarrow> webui \<Rightarrow> pipe_reply res \<times> ui_message list \<times> webui" where
  "pipe te env q st =
     (let mode = env_or env ''RELAY_PROVIDER'' ''simulated''
      in if mode \<noteq> ''live'' \<and> mode \<noteq> ''simulated'' then (Inl (ValueError ''Unknown RELAY_PROVIDER; use live or simulated''), [], st)
         else if pr_files q then (Inr (Whole ''Horizon Relay currently supports text only; remove attachments to continue.''), [], st)
         else if mode = ''live'' \<and> ends_with ''.tests'' (pr_model q) then
           (case pr_task q of
              Some t \<Rightarrow>
                (Inr (Whole (if contains ''title'' t then json_dumps (PDict [(''title'', PStr ''Relay test run'')])
                             else json_dumps (PDict [(''tags'', PList [PStr ''Tests''])]))), [], st)
            | None \<Rightarrow>
                (case tests te env (pr_messages q) (pr_user_id q) (pr_chat_id q) (pr_emitting q) st of
                   (r, ui, st') \<Rightarrow> (guarded (bindE r (\<lambda>s. Inr (Whole s))), ui, st')))
         else if mode = ''live'' \<and> \<not> ends_with ''.demo'' (pr_model q) then
           (case live (te_template te) env q of (r, ui) \<Rightarrow> (guarded r, ui, st))
         else (case demo (te_template te) (pr_sched q) env (pr_messages q) (pr_task q) (pr_emitting q) of
                 (r, ui) \<Rightarrow> (guarded (bindE r (\<lambda>s. Inr (Whole s))), ui, st)))"

subsection \<open>Emptying the Tests folder\<close>

lemma child_rel_filter:
  "child_rel (filter (\<lambda>f. f_id f \<notin> S) T) u = {(a, b) \<in> child_rel T u. b \<notin> S}"
  by (auto simp: child_rel_def)

text \<open>When what is already gone is closed under children, the rest of a subtree is the same with and without it.\<close>

lemma subtree_without:
  assumes "child_rel T u `` S \<subseteq> S" and "i \<notin> S"
  shows "S \<union> subtree (filter (\<lambda>f. f_id f \<notin> S) T) u i = S \<union> subtree T u i"
proof -
  let ?R = "child_rel T u" and ?R' = "child_rel (filter (\<lambda>f. f_id f \<notin> S) T) u"
  have "x \<in> S \<or> (i, x) \<in> ?R'\<^sup>*" if "(i, x) \<in> ?R\<^sup>*" for x
    using that
  proof (induction rule: rtrancl_induct)
    case (step y z)
    then show ?case using assms(1) by (auto simp: child_rel_filter intro: rtrancl_into_rtrancl)
  qed simp
  moreover have "?R' \<subseteq> ?R" by (auto simp: child_rel_filter)
  then have "?R'\<^sup>* \<subseteq> ?R\<^sup>*" by (rule rtrancl_mono)
  ultimately show ?thesis by (auto simp: subtree_def)
qed

lemma closed_subtree: "child_rel T u `` subtree T u i \<subseteq> subtree T u i"
  by (auto simp: subtree_def intro: rtrancl_into_rtrancl)

lemma subtree_in_closed:
  assumes "child_rel T u `` S \<subseteq> S" and "i \<in> S"
  shows "subtree T u i \<subseteq> S"
proof -
  have "x \<in> S" if "(i, x) \<in> (child_rel T u)\<^sup>*" for x
    using that by (induction rule: rtrancl_induct) (use assms in auto)
  then show ?thesis by (auto simp: subtree_def)
qed

lemma clear_folders_removes:
  assumes "child_rel T u `` S \<subseteq> S" and "\<forall>f \<in> set fs. f \<in> set T \<and> f_user_id f = u"
  shows "clear_folders u fs (filter (\<lambda>f. f_id f \<notin> S) T) = filter (\<lambda>f. f_id f \<notin> S \<union> (\<Union>g \<in> set fs. subtree T u (f_id g))) T"
  using assms
proof (induction fs arbitrary: S)
  case (Cons g gs)
  let ?T = "filter (\<lambda>f. f_id f \<notin> S) T" and ?i = "f_id g"
  show ?case
  proof (cases "?i \<in> S")
    case True
    then have "get_folder_by_id_and_user_id ?i u ?T = None"
      by (auto simp: get_folder_by_id_and_user_id_def first_folder_def find_None_iff)
    then have "clear_folders u (g # gs) ?T = clear_folders u gs ?T" by (simp add: delete_folder_by_id_and_user_id_def)
    moreover have "subtree T u ?i \<subseteq> S" by (rule subtree_in_closed [OF Cons.prems(1) True])
    then have "S \<union> (\<Union>g \<in> set (g # gs). subtree T u (f_id g)) = S \<union> (\<Union>g \<in> set gs. subtree T u (f_id g))" by auto
    ultimately show ?thesis using Cons.IH [OF Cons.prems(1)] Cons.prems(2) by simp
  next
    case False
    then have "g \<in> set ?T" "f_user_id g = u" using Cons.prems(2) by auto
    then obtain f where "get_folder_by_id_and_user_id ?i u ?T = Some f"
      by (cases "get_folder_by_id_and_user_id ?i u ?T") (auto simp: get_folder_by_id_and_user_id_def first_folder_def find_None_iff)
    from delete_folder_removes [OF this]
    have "clear_folders u (g # gs) ?T = clear_folders u gs (filter (\<lambda>f. f_id f \<notin> subtree ?T u ?i) ?T)" by auto
    also have "filter (\<lambda>f. f_id f \<notin> subtree ?T u ?i) ?T = filter (\<lambda>f. f_id f \<notin> S \<union> subtree T u ?i) T"
      using subtree_without [OF Cons.prems(1) False] by (auto intro!: filter_cong)
    also have "clear_folders u gs \<dots> = filter (\<lambda>f. f_id f \<notin> (S \<union> subtree T u ?i) \<union> (\<Union>g \<in> set gs. subtree T u (f_id g))) T"
      using Cons.prems closed_subtree [of T u ?i] by (intro Cons.IH) auto
    finally show ?thesis by (simp add: Un_assoc)
  qed
qed simp

lemma subtree_children:
  assumes "distinct (map f_id T)" and "f \<in> set T" and "f_parent_id f = None"
  shows "(\<Union>g \<in> set (get_folders_by_parent_id_and_user_id (Some (f_id f)) u T). subtree T u (f_id g)) = subtree T u (f_id f) - {f_id f}"
proof -
  have top: "(a, f_id f) \<notin> child_rel T u" for a
  proof
    assume "(a, f_id f) \<in> child_rel T u"
    then obtain g where "g \<in> set T" "f_id g = f_id f" "f_parent_id g = Some a" by (auto simp: child_rel_def)
    moreover from this assms(1,2) have "g = f" by (metis distinct_map inj_on_def)
    ultimately show False using assms(3) by simp
  qed
  have walk: "(f_id f, x) \<in> (child_rel T u)\<^sup>* \<and> x \<noteq> f_id f \<longleftrightarrow> (\<exists>b. (f_id f, b) \<in> child_rel T u \<and> (b, x) \<in> (child_rel T u)\<^sup>*)" for x
  proof
    assume "(f_id f, x) \<in> (child_rel T u)\<^sup>* \<and> x \<noteq> f_id f"
    then show "\<exists>b. (f_id f, b) \<in> child_rel T u \<and> (b, x) \<in> (child_rel T u)\<^sup>*" by (auto elim: converse_rtranclE)
  next
    assume "\<exists>b. (f_id f, b) \<in> child_rel T u \<and> (b, x) \<in> (child_rel T u)\<^sup>*"
    then obtain b where b: "(f_id f, b) \<in> child_rel T u" "(b, x) \<in> (child_rel T u)\<^sup>*" by blast
    have "x \<noteq> f_id f" using b(2) by (rule rtranclE) (use b(1) top in auto)
    then show "(f_id f, x) \<in> (child_rel T u)\<^sup>* \<and> x \<noteq> f_id f" using b by (auto intro: converse_rtrancl_into_rtrancl)
  qed
  have "(\<Union>g \<in> set (get_folders_by_parent_id_and_user_id (Some (f_id f)) u T). subtree T u (f_id g))
      = (\<Union>b \<in> child_rel T u `` {f_id f}. subtree T u b)"
    by (simp flip: children_image)
  also have "\<dots> = subtree T u (f_id f) - {f_id f}" using walk by (simp add: subtree_def set_eq_iff) blast
  finally show ?thesis .
qed

text \<open>What becomes of a chat row.\<close>

definition moved_chat :: "int \<Rightarrow> string \<Rightarrow> chat_row \<Rightarrow> chat_row" where
  "moved_chat now folder_id c =
     c\<lparr>c_folder_id := Some folder_id, c_updated_at := now, c_last_read_at := Some now, c_pinned := Some False, c_archived := False\<rparr>"

definition clear_row :: "int \<Rightarrow> string option \<Rightarrow> string \<Rightarrow> (chat_row \<Rightarrow> bool) \<Rightarrow> chat_row \<Rightarrow> chat_row list" where
  "clear_row now keep folder_id doomed c =
     (if \<not> doomed c then [c] else if Some (c_id c) = keep then [moved_chat now folder_id c] else [])"

definition owned :: "string \<Rightarrow> chat_row list \<Rightarrow> chat_row list \<Rightarrow> bool" where
  "owned u cs rows \<longleftrightarrow> distinct (map c_id rows) \<and> (\<forall>r \<in> set rows. c_id r \<in> c_id ` set cs \<longrightarrow> c_user_id r = u)"

lemma concat_map_self: "(\<And>x. x \<in> set xs \<Longrightarrow> g x = [x]) \<Longrightarrow> concat (map g xs) = xs"
  by (induction xs) auto

lemma filter_as_concat: "filter P xs = concat (map (\<lambda>r. if P r then [r] else []) xs)"
  by (induction xs) auto

lemma clear_chat_row:
  assumes "owned u [c] (db_chats db)"
  shows "db_chats (clear_chat now u keep fid c db) = concat (map (clear_row now keep fid (\<lambda>r. c_id r = c_id c)) (db_chats db))"
proof (cases "Some (c_id c) = keep")
  case True
  show ?thesis
  proof (cases "find_chat (c_id c) db")
    case None
    then have "\<forall>r \<in> set (db_chats db). c_id r \<noteq> c_id c" by (auto simp: find_chat_def find_None_iff)
    then have "concat (map (clear_row now keep fid (\<lambda>r. c_id r = c_id c)) (db_chats db)) = db_chats db"
      by (intro concat_map_self) (simp add: clear_row_def)
    then show ?thesis using True None by (simp add: clear_chat_def update_chat_folder_id_by_id_and_user_id_def)
  next
    case (Some d)
    have d: "d \<in> set (db_chats db)" "c_id d = c_id c" using find_chat_id [OF Some] by auto
    have only: "r = d" if "r \<in> set (db_chats db)" "c_id r = c_id c" for r
      using that d assms unfolding owned_def by (metis distinct_map inj_on_def)
    have "clear_row now keep fid (\<lambda>r. c_id r = c_id c) r = [if c_id r = c_id c then moved_chat now fid d else r]"
      if "r \<in> set (db_chats db)" for r
      using only [OF that] True by (auto simp: clear_row_def)
    then have "concat (map (clear_row now keep fid (\<lambda>r. c_id r = c_id c)) (db_chats db))
        = map (\<lambda>r. if c_id r = c_id c then moved_chat now fid d else r) (db_chats db)"
      by (simp add: concat_map_singleton cong: map_cong)
    then show ?thesis using True Some d
      by (auto simp: clear_chat_def update_chat_folder_id_by_id_and_user_id_def put_chat_def moved_chat_def Let_def)
  qed
next
  case False
  then have "db_chats (clear_chat now u keep fid c db) = filter (\<lambda>r. \<not> (c_id r = c_id c \<and> c_user_id r = u)) (db_chats db)"
    by (simp add: clear_chat_def delete_chat_by_id_and_user_id_def Let_def delete_shared_chat_by_chat_id_def forget_chats_def)
  also have "\<dots> = filter (\<lambda>r. c_id r \<noteq> c_id c) (db_chats db)"
    using assms by (intro filter_cong) (auto simp: owned_def)
  also have "\<dots> = concat (map (\<lambda>r. if c_id r \<noteq> c_id c then [r] else []) (db_chats db))" by (rule filter_as_concat)
  also have "\<dots> = concat (map (clear_row now keep fid (\<lambda>r. c_id r = c_id c)) (db_chats db))"
    using False by (intro arg_cong [where f = concat] map_cong) (auto simp: clear_row_def)
  finally show ?thesis .
qed

lemma clear_row_subset: "r \<in> set (concat (map (clear_row now keep fid P) rows)) \<Longrightarrow> \<exists>r' \<in> set rows. c_id r = c_id r' \<and> c_user_id r = c_user_id r'"
  by (auto simp: clear_row_def moved_chat_def split: if_splits)

lemma clear_row_distinct: "distinct (map c_id rows) \<Longrightarrow> distinct (map c_id (concat (map (clear_row now keep fid P) rows)))"
proof (induction rows)
  case (Cons r rows)
  have "c_id r \<notin> c_id ` set (concat (map (clear_row now keep fid P) rows))"
    using Cons.prems clear_row_subset by fastforce
  then show ?case using Cons by (auto simp: clear_row_def moved_chat_def)
qed simp

lemma clear_row_twice:
  "concat (map (clear_row now keep fid Q) (clear_row now keep fid P r)) = clear_row now keep fid (\<lambda>r. P r \<or> Q r) r"
  if "\<And>r. Q (moved_chat now fid r) = Q r"
  by (auto simp: clear_row_def that moved_chat_def)

lemma concat_map_concat: "concat (map f (concat xss)) = concat (map (\<lambda>xs. concat (map f xs)) xss)"
  by (induction xss) auto

lemma clear_chats_rows:
  assumes "owned u cs (db_chats db)"
  shows "db_chats (fold (clear_chat now u keep fid) cs db) = concat (map (clear_row now keep fid (\<lambda>r. c_id r \<in> c_id ` set cs)) (db_chats db))"
  using assms
proof (induction cs arbitrary: db)
  case Nil
  then show ?case by (simp add: clear_row_def)
next
  case (Cons c cs)
  let ?db = "clear_chat now u keep fid c db"
  have one: "db_chats ?db = concat (map (clear_row now keep fid (\<lambda>r. c_id r = c_id c)) (db_chats db))"
    by (rule clear_chat_row) (use Cons.prems in \<open>auto simp: owned_def\<close>)
  have "owned u cs (db_chats ?db)"
    unfolding one owned_def using Cons.prems clear_row_subset by (fastforce simp: owned_def intro: clear_row_distinct)
  from Cons.IH [OF this] show ?case
    unfolding one by (simp add: concat_map_concat comp_def clear_row_twice [where Q = "\<lambda>r. c_id r \<in> c_id ` set cs"] moved_chat_def)
qed

lemma clear_chats_messages:
  "db_messages (fold (clear_chat now u keep fid) cs db)
    = filter (\<lambda>r. \<not> (cm_chat_id r \<in> c_id ` set cs \<and> Some (cm_chat_id r) \<noteq> keep)) (db_messages db)"
proof (induction cs arbitrary: db)
  case (Cons c cs)
  have "db_messages (clear_chat now u keep fid c db)
      = filter (\<lambda>r. \<not> (cm_chat_id r = c_id c \<and> Some (cm_chat_id r) \<noteq> keep)) (db_messages db)"
  proof (cases "Some (c_id c) = keep")
    case True
    then have "db_messages (clear_chat now u keep fid c db) = db_messages db"
      by (simp add: clear_chat_def update_chat_folder_id_by_id_and_user_id_def put_chat_def Let_def split: option.split)
    moreover have "filter (\<lambda>r. \<not> (cm_chat_id r = c_id c \<and> Some (cm_chat_id r) \<noteq> keep)) (db_messages db) = db_messages db"
      using True by (auto intro: filter_True)
    ultimately show ?thesis by simp
  next
    case False
    then show ?thesis
      by (auto simp: clear_chat_def delete_chat_by_id_and_user_id_def delete_shared_chat_by_chat_id_def forget_chats_def Let_def intro!: filter_cong)
  qed
  then show ?case by (auto simp: Cons.IH intro!: filter_cong)
qed simp

lemma tests_folder_there:
  assumes "distinct (map f_id T)" and "new_id \<notin> f_id ` set T"
  shows "\<exists>f T1. tests_folder new_id now u T = (Some f, T1) \<and> distinct (map f_id T1) \<and> f \<in> set T1 \<and> f_parent_id f = None \<and> f_user_id f = u"
proof (cases "get_folder_by_parent_id_and_user_id_and_name None u TESTS_FOLDER T")
  case None
  then show ?thesis using assms by (simp add: tests_folder_def insert_new_folder_def Let_def)
next
  case (Some f)
  then have "f \<in> set T" "f_parent_id f = None" "f_user_id f = u"
    by (auto simp: get_folder_by_parent_id_and_user_id_and_name_def first_folder_def find_Some_iff)
  then show ?thesis using Some assms by (simp add: tests_folder_def)
qed

text \<open>The chats below the folder that the listing shows.\<close>

definition doomed :: "folders \<Rightarrow> string \<Rightarrow> string \<Rightarrow> chat_row \<Rightarrow> bool" where
  "doomed T u fid c \<longleftrightarrow> c_folder_id c \<in> Some ` subtree T u fid \<and> c_user_id c = u \<and> is_listed c"

text \<open>
  C35. Emptying the Tests folder. With unique ids, the Tests folder exists afterwards, every folder below it is gone and every
  other folder is untouched; of the chats, exactly the user's listed ones in the folder or below it are deleted with their messages,
  except the chat that runs the tests, which ends up in the folder itself; every other chat and message, pinned and
  archived chats of the folder included, stays as it was.
\<close>

theorem clear_tests_folder_exact:
  assumes "distinct (map c_id (db_chats db))" and "distinct (map f_id T)" and "new_id \<notin> f_id ` set T"
  shows "\<exists>f T1 T2 db'. tests_folder new_id now u T = (Some f, T1)
    \<and> clear_tests_folder new_id now u keep (T, db) = (Inr (f_id f), T2, db')
    \<and> T2 = filter (\<lambda>g. f_id g \<notin> subtree T1 u (f_id f) - {f_id f}) T1
    \<and> db_chats db' = concat (map (clear_row now keep (f_id f) (doomed T1 u (f_id f))) (db_chats db))
    \<and> db_messages db' = filter (\<lambda>r. Some (cm_chat_id r) = keep \<or> (\<forall>c \<in> set (db_chats db). doomed T1 u (f_id f) c \<longrightarrow> c_id c \<noteq> cm_chat_id r)) (db_messages db)"
proof -
  obtain f T1 where f: "tests_folder new_id now u T = (Some f, T1)" "distinct (map f_id T1)" "f \<in> set T1" "f_parent_id f = None" "f_user_id f = u"
    using tests_folder_there [OF assms(2,3)] by metis
  obtain g where g: "get_folder_by_id_and_user_id (f_id f) u T1 = Some g"
    using f(3,5) by (cases "get_folder_by_id_and_user_id (f_id f) u T1") (auto simp: get_folder_by_id_and_user_id_def first_folder_def find_None_iff)
  let ?cs = "get_chats_by_folder_ids_and_user_id (get_folder_ids_by_id_and_user_id_in_subtree (f_id f) u T1) u db"
  let ?db = "fold (clear_chat now u keep (f_id f)) ?cs db"
  let ?kids = "get_folders_by_parent_id_and_user_id (Some (f_id f)) u T1"
  have cs: "set ?cs = {c \<in> set (db_chats db). doomed T1 u (f_id f) c}"
    by (auto simp: get_chats_by_folder_ids_and_user_id_def newest_chats_def doomed_def subtree_ids [OF g])
  have here: "c_id c \<in> c_id ` set ?cs \<longleftrightarrow> doomed T1 u (f_id f) c" if "c \<in> set (db_chats db)" for c
    using that assms(1) unfolding cs by (auto simp: distinct_map inj_on_def)
  have "owned u ?cs (db_chats db)" using here assms(1) by (auto simp: owned_def doomed_def)
  from clear_chats_rows [OF this] have rows: "db_chats ?db = concat (map (clear_row now keep (f_id f) (doomed T1 u (f_id f))) (db_chats db))"
    using here by (auto simp: clear_row_def intro!: arg_cong [where f = concat])
  have "clear_folders u ?kids T1 = filter (\<lambda>h. f_id h \<notin> (\<Union>g \<in> set ?kids. subtree T1 u (f_id g))) T1"
    using clear_folders_removes [of T1 u "{}" ?kids] by (simp add: children_iff)
  then have fs: "clear_folders u ?kids T1 = filter (\<lambda>h. f_id h \<notin> subtree T1 u (f_id f) - {f_id f}) T1"
    unfolding subtree_children [OF f(2-4)] .
  have "db_messages ?db = filter (\<lambda>r. Some (cm_chat_id r) = keep \<or> (\<forall>c \<in> set (db_chats db). doomed T1 u (f_id f) c \<longrightarrow> c_id c \<noteq> cm_chat_id r)) (db_messages db)"
    unfolding clear_chats_messages cs by (rule filter_cong [OF refl]) (auto simp: image_iff)
  then show ?thesis using f(1) rows fs by (simp add: clear_tests_folder_def Let_def)
qed

theorem clear_tests_folder_exact_witness:
  "\<exists>T2 db'. clear_tests_folder ''n'' 0 ''u'' None ([], empty_db) = (Inr ''n'', T2, db')"
proof -
  from clear_tests_folder_exact [of empty_db "[]" "''n''" 0 "''u''" None]
  obtain f T1 T2 db' where f: "tests_folder ''n'' 0 ''u'' [] = (Some f, T1)" "clear_tests_folder ''n'' 0 ''u'' None ([], empty_db) = (Inr (f_id f), T2, db')"
    by (auto simp: empty_db_def)
  have "f_id f = ''n''" using f(1)
    by (auto simp: tests_folder_def get_folder_by_parent_id_and_user_id_and_name_def first_folder_def insert_new_folder_def Let_def)
  then show ?thesis using f(2) by auto
qed

subsection \<open>A saved test can be read back\<close>

lemma sanitize_clean: "no_nulls v \<Longrightarrow> dicts_ok v \<Longrightarrow> sanitize_data_for_db v = v"
  by (simp add: sanitize_eq_strip strip_clean)

lemma saved_chat_clean:
  assumes "list_all (\<lambda>s. CHR 0x00 \<notin> set s) [qid, rid, heading, prompt, content, page, final_status]" and "qid \<noteq> rid"
  shows "sanitize_data_for_db (PDict (saved_chat qid rid heading prompt content page final_status now))
    = PDict (saved_chat qid rid heading prompt content page final_status now)"
proof (rule sanitize_clean)
  show "no_nulls (PDict (saved_chat qid rid heading prompt content page final_status now))"
    using assms by (simp add: saved_chat_def question_of_def reply_of_def Let_def dict_set_fresh)
  show "dicts_ok (PDict (saved_chat qid rid heading prompt content page final_status now))"
    using assms(2) by (simp add: saved_chat_def question_of_def reply_of_def Let_def dict_set_fresh dict_ok_def)
qed

lemma saved_history:
  "dget (dict_or_empty (dget (saved_chat qid rid heading prompt content page final_status now) ''history'')) ''messages''
    = PDict (dict_set rid (PDict (reply_of qid rid content page final_status now)) [(qid, PDict (question_of qid rid prompt now))])"
  by (simp add: saved_chat_def Let_def dget_def dict_get_or_def)

lemma saved_branch:
  assumes "qid \<noteq> rid" and "qid \<noteq> []"
  shows "get_message_list (dict_set rid (PDict (reply_of qid rid content page final_status now)) [(qid, PDict (question_of qid rid prompt now))]) rid
    = Inr [PDict (question_of qid rid prompt now), PDict (reply_of qid rid content page final_status now)]"
  using assms by (simp add: get_message_list_def message_walk.simps dict_set_fresh message_at_def value_get_def
      question_of_def reply_of_def dget_def dict_get_or_def)

definition saved_row :: "string \<Rightarrow> string \<Rightarrow> string \<Rightarrow> pydict \<Rightarrow> int \<Rightarrow> chat_message" where
  "saved_row chat_id user_id k d now =
     \<lparr>cm_id = composite_id chat_id k, cm_chat_id = chat_id, cm_user_id = user_id, cm_role = dget d ''role'', cm_parent_id = dget d ''parentId'',
      cm_content = dget d ''content'', cm_output = PNone, cm_model_id = dget d ''model'', cm_files = PNone, cm_sources = PNone,
      cm_embeds = dget d ''embeds'', cm_meta = PNone, cm_done = PBool True, cm_status_history = dget d ''statusHistory'', cm_error = PNone,
      cm_usage = None, cm_context_summary = PNone, cm_created_at = PInt now, cm_updated_at = now\<rparr>"

lemma saved_rows:
  assumes "qid \<noteq> rid" and "qid \<noteq> []"
    and "\<forall>r \<in> set T. cm_id r \<noteq> composite_id chat_id qid \<and> cm_id r \<noteq> composite_id chat_id rid"
  shows "write_messages now chat_id user_id (initial_messages (saved_chat qid rid heading prompt content page final_status now)) T
    = T @ [saved_row chat_id user_id qid (question_of qid rid prompt now) now,
           saved_row chat_id user_id rid (reply_of qid rid content page final_status now) now]"
proof -
  let ?q = "question_of qid rid prompt now" and ?r = "reply_of qid rid content page final_status now"
  have init: "initial_messages (saved_chat qid rid heading prompt content page final_status now) = [(qid, ?q), (rid, ?r)]"
    using assms(1) unfolding initial_messages_def saved_history Let_def
    by (simp add: dict_set_fresh writable_def question_of_def reply_of_def dget_def dict_get_or_def)
  have none: "find_message (composite_id chat_id qid) T = None" "find_message (composite_id chat_id rid) (T @ [r]) = None" if "cm_id r = composite_id chat_id qid" for r
    using assms(1,3) that by (auto simp: find_message_def find_None_iff composite_id_def)
  have q: "build_message (composite_id chat_id qid) chat_id user_id ?q now = Inr (saved_row chat_id user_id qid ?q now)"
    by (simp add: build_message_def saved_row_def question_of_def get_usage_def value_get_def or_else_def either_key_def dget_def dict_get_or_def)
  have r: "build_message (composite_id chat_id rid) chat_id user_id ?r now = Inr (saved_row chat_id user_id rid ?r now)"
    using assms(2) by (simp add: build_message_def saved_row_def reply_of_def get_usage_def value_get_def or_else_def either_key_def dget_def dict_get_or_def)
  have "cm_id (saved_row chat_id user_id qid ?q now) = composite_id chat_id qid" by (simp add: saved_row_def)
  from none [OF this] show ?thesis unfolding init by (simp add: upsert_message_def q r)
qed

lemma saved_map:
  assumes "qid \<noteq> rid" and "qid \<noteq> []" and "\<forall>r \<in> set T. cm_chat_id r \<noteq> chat_id"
  shows "\<exists>q r. messages_map_by_chat_id chat_id (T @ [saved_row chat_id user_id qid (question_of qid rid prompt now) now,
           saved_row chat_id user_id rid (reply_of qid rid content page final_status now) now]) = Some [(qid, q), (rid, r)]
    \<and> dget q ''content'' = PStr prompt \<and> dget q ''childrenIds'' = PList [PStr rid]
    \<and> dget r ''content'' = PStr content \<and> dget r ''parentId'' = PStr qid \<and> dget r ''childrenIds'' = PList []"
proof -
  have T: "filter (\<lambda>r. cm_chat_id r = chat_id) T = []" using assms(3) by (simp add: filter_empty_conv)
  have key: "message_key chat_id (saved_row chat_id user_id k d now) = k" for k d
    by (simp add: message_key_def saved_row_def composite_id_def Let_def)
  have chat: "cm_chat_id (saved_row chat_id user_id k d now) = chat_id" for k d by (simp add: saved_row_def)
  let ?q = "row_message chat_id (saved_row chat_id user_id qid (question_of qid rid prompt now) now)"
  let ?r = "row_message chat_id (saved_row chat_id user_id rid (reply_of qid rid content page final_status now) now)"
  have q: "dget ?q ''content'' = PStr prompt" "map_of ?q ''childrenIds'' = None" "dget ?q ''parentId'' = PNone"
    unfolding row_message_def Let_def key
    by (simp_all add: saved_row_def row_columns_def question_of_def dget_def dict_get_or_def dict_update_Cons setdefault_def dict_set_fresh)
  have r: "dget ?r ''content'' = PStr content" "map_of ?r ''childrenIds'' = None" "dget ?r ''parentId'' = PStr qid"
    unfolding row_message_def Let_def key
    by (simp_all add: saved_row_def row_columns_def reply_of_def dget_def dict_get_or_def dict_update_Cons setdefault_def dict_set_fresh)
  have "messages_map_by_chat_id chat_id (T @ [saved_row chat_id user_id qid (question_of qid rid prompt now) now,
           saved_row chat_id user_id rid (reply_of qid rid content page final_status now) now])
      = Some [(qid, dict_set ''childrenIds'' (PList [PStr rid]) ?q), (rid, setdefault ''childrenIds'' (PList []) ?r)]"
    using assms(1,2) q r
    by (simp add: messages_map_by_chat_id_def T chat key dict_set_fresh link_row_def setdefault_def Let_def) (simp add: dict_set_def)
  then show ?thesis using q r by (auto simp: dget_def dict_get_or_def setdefault_def map_add_def split: option.splits)
qed

text \<open>
  C36. A saved test run can be read back. For new ids and texts without null bytes, saving succeeds and adds one chat to the folder
  with the given title; the branch that ends in its current message is the question followed by the reply, and the message table
  gives the same two messages, linked to each other, with their contents. No other chat is changed.
\<close>

theorem saved_chat_reads_back:
  assumes "qid \<noteq> rid" and "qid \<noteq> []" and "rid \<noteq> []"
    and "list_all (\<lambda>s. CHR 0x00 \<notin> set s) [qid, rid, heading, prompt, content, page, final_status]"
    and "chat_id \<notin> c_id ` set (db_chats db)"
    and "\<forall>r \<in> set (db_messages db). cm_chat_id r \<noteq> chat_id \<and> cm_id r \<noteq> composite_id chat_id qid \<and> cm_id r \<noteq> composite_id chat_id rid"
  shows "\<exists>db' c M q r. save_chat (qid, rid, chat_id) now user_id folder_id heading prompt content page final_status db = (Inr chat_id, db')
    \<and> db_chats db' = db_chats db @ [c] \<and> c_id c = chat_id \<and> c_user_id c = user_id \<and> c_folder_id c = Some folder_id \<and> c_title c = heading
    \<and> dget (dict_or_empty (dget (c_chat c) ''history'')) ''messages'' = PDict M \<and> c_current_message_id c = PStr rid
    \<and> get_message_list M rid = Inr [PDict (question_of qid rid prompt now), PDict (reply_of qid rid content page final_status now)]
    \<and> messages_map_by_chat_id chat_id (db_messages db') = Some [(qid, q), (rid, r)]
    \<and> dget q ''content'' = PStr prompt \<and> dget q ''childrenIds'' = PList [PStr rid]
    \<and> dget r ''content'' = PStr content \<and> dget r ''parentId'' = PStr qid"
proof -
  let ?chat = "saved_chat qid rid heading prompt content page final_status now"
  let ?form = "\<lparr>cf_chat = ?chat, cf_variables = None, cf_folder_id = Some folder_id\<rparr>"
  have clean: "sanitize_data_for_db (PDict ?chat) = PDict ?chat" by (rule saved_chat_clean [OF assms(4,1)])
  have heading: "sanitize_data_for_db (dict_get_or ?chat ''title'' (PStr ''New Chat'')) = PStr heading"
    using assms(4) by (simp add: saved_chat_def Let_def dict_get_or_def sanitize_clean)
  have current: "get_current_message_id ?chat = PStr rid"
    using assms(3) by (simp add: get_current_message_id_def saved_chat_def Let_def dget_def dict_get_or_def)
  obtain c where c: "new_chat_row now chat_id user_id ?form None None = Inr c" "c_id c = chat_id" "c_user_id c = user_id"
      "c_folder_id c = Some folder_id" "c_title c = heading" "c_chat c = ?chat" "c_current_message_id c = PStr rid"
    by (simp add: new_chat_row_def Let_def heading current clean)
  let ?M = "dict_set rid (PDict (reply_of qid rid content page final_status now)) [(qid, PDict (question_of qid rid prompt now))]"
  let ?T = "db_messages db @ [saved_row chat_id user_id qid (question_of qid rid prompt now) now,
           saved_row chat_id user_id rid (reply_of qid rid content page final_status now) now]"
  have rows: "write_messages now chat_id user_id (initial_messages ?chat) (db_messages db) = ?T"
    using assms(6) by (intro saved_rows [OF assms(1,2)]) blast
  obtain q r where "messages_map_by_chat_id chat_id ?T = Some [(qid, q), (rid, r)]" "dget q ''content'' = PStr prompt"
      "dget q ''childrenIds'' = PList [PStr rid]" "dget r ''content'' = PStr content" "dget r ''parentId'' = PStr qid"
    using saved_map [OF assms(1,2), of "db_messages db" chat_id user_id prompt now content page final_status] assms(6) by blast
  moreover have "save_chat (qid, rid, chat_id) now user_id folder_id heading prompt content page final_status db
      = (Inr chat_id, db\<lparr>db_chats := db_chats db @ [c], db_messages := ?T\<rparr>)"
    using assms(5) by (simp add: save_chat_def insert_new_chat_def c(1) rows)
  ultimately show ?thesis
    using c(2-5,7) saved_history [of qid rid heading prompt content page final_status now] saved_branch [OF assms(1,2)]
    by (intro exI [of _ "db\<lparr>db_chats := db_chats db @ [c], db_messages := ?T\<rparr>"] exI [of _ c] exI [of _ ?M] exI [of _ q] exI [of _ r]) (simp add: c(6))
qed

theorem saved_chat_reads_back_witness:
  "\<exists>db'. save_chat (''q'', ''r'', ''c'') 0 ''u'' ''f'' ''t'' ''p'' ''x'' ''g'' ''s'' empty_db = (Inr ''c'', db')"
proof -
  have "''q'' \<noteq> ''r''" "''q'' \<noteq> []" "''r'' \<noteq> []" "list_all (\<lambda>s. CHR 0x00 \<notin> set s) [''q'', ''r'', ''t'', ''p'', ''x'', ''g'', ''s'']"
    "''c'' \<notin> c_id ` set (db_chats empty_db)"
    "\<forall>r \<in> set (db_messages empty_db). cm_chat_id r \<noteq> ''c'' \<and> cm_id r \<noteq> composite_id ''c'' ''q'' \<and> cm_id r \<noteq> composite_id ''c'' ''r''"
    by (simp_all add: empty_db_def)
  from saved_chat_reads_back [OF this, of 0 "''u''" "''f''"] show ?thesis by blast
qed

end
