(* ===== verification/OWUI_Functions.thy ===== *)
theory OWUI_Functions
  imports OWUI_Messages Py_Json OWUI_Table
begin

section \<open>Functions of Open WebUI and the installation of the pipe (models/functions.py, sync\_pipe.py)\<close>

text \<open>
  The table of plugins, the settings (\<open>valves\<close>) kept with them, and the script that installs the relay's pipe in it before the
  server starts. The cipher for valves and what happens when a plugin's source is executed are arguments. A row is one that
  the model class accepts: it has content and metadata.
\<close>

subsection \<open>Valves (utils/valves.py)\<close>

text \<open>
  \<open>cipher = Some (encrypt, decrypt)\<close> when valves are encrypted; \<open>decrypt\<close> is \<open>None\<close> on an invalid token. \<open>JSONCodec\<close> is
  \<open>json\<close>. A value that is no dictionary and no text reads as empty.
\<close>

type_synonym cipher = "((string \<Rightarrow> string) \<times> (string \<Rightarrow> string option)) option"

definition encrypt_valves :: "cipher \<Rightarrow> pydict \<Rightarrow> pyval" where
  "encrypt_valves cipher valves = (case cipher of None \<Rightarrow> PDict valves | Some (enc, dec) \<Rightarrow> PStr (enc (json_dumps (PDict valves))))"

definition decrypt_valves :: "(string \<Rightarrow> string option) \<Rightarrow> pyval \<Rightarrow> pydict" where
  "decrypt_valves dec v =
     (if \<not> truthy v then []
      else case v of
        PDict d \<Rightarrow> d
      | PStr s \<Rightarrow> (case dec s of None \<Rightarrow> [] | Some t \<Rightarrow> (case json_loads t of Some (PDict d) \<Rightarrow> d | _ \<Rightarrow> []))
      | _ \<Rightarrow> [])"

subsection \<open>Rows\<close>

record function_row =
  fn_id :: string
  fn_user_id :: "string option"
  fn_name :: string
  fn_type :: string
  fn_content :: string
  fn_meta :: pydict
  fn_valves :: pyval
  fn_is_active :: bool
  fn_is_global :: bool
  fn_updated_at :: int
  fn_created_at :: int

type_synonym function_table = "function_row list"

record function_form =
  fo_id :: string
  fo_name :: string
  fo_content :: string
  fo_meta :: pydict

definition get_function_by_id :: "string \<Rightarrow> function_table \<Rightarrow> function_row option" where
  "get_function_by_id i T = find (\<lambda>r. fn_id r = i) T"

definition put_function :: "function_row \<Rightarrow> function_table \<Rightarrow> function_table" where
  "put_function f T = map (\<lambda>r. if fn_id r = fn_id f then f else r) T"

interpretation function_rows: row_store fn_id "map fn_id" get_function_by_id put_function
  using list_row_store [of fn_id] unfolding get_function_by_id_def [abs_def] put_function_def [abs_def] .

text \<open>\<open>insert_new_function\<close>: a second row with the id violates the primary key, which is caught.\<close>

definition insert_new_function :: "int \<Rightarrow> string option \<Rightarrow> string \<Rightarrow> function_form \<Rightarrow> function_table \<Rightarrow> function_row option \<times> function_table" where
  "insert_new_function now user_id kind form T =
     (let f = \<lparr>fn_id = fo_id form, fn_user_id = user_id, fn_name = fo_name form, fn_type = kind, fn_content = fo_content form,
               fn_meta = fo_meta form, fn_valves = PNone, fn_is_active = False, fn_is_global = False,
               fn_updated_at = now, fn_created_at = now\<rparr>
      in if fo_id form \<in> fn_id ` set T then (None, T) else (Some f, T @ [f]))"

text \<open>
  \<open>sync_functions\<close>: the given functions replace the table. Which of them exist is looked up once, so an id that is given twice and is
  new violates the primary key and nothing is changed. An existing row takes every given column.
\<close>

definition synced_row :: "cipher \<Rightarrow> int \<Rightarrow> string \<Rightarrow> function_row \<times> pydict option \<Rightarrow> function_row" where
  "synced_row cipher now user_id fv =
     (case fv of (f, valves) \<Rightarrow>
        f\<lparr>fn_valves := (case valves of None \<Rightarrow> PNone | Some [] \<Rightarrow> PNone | Some v \<Rightarrow> encrypt_valves cipher v),
          fn_user_id := Some user_id, fn_updated_at := now\<rparr>)"

definition sync_one :: "string list \<Rightarrow> function_row \<Rightarrow> function_table \<Rightarrow> function_table" where
  "sync_one existing_ids f T = (if fn_id f \<in> set existing_ids then put_function f T else T @ [f])"

definition sync_functions :: "cipher \<Rightarrow> int \<Rightarrow> string \<Rightarrow> (function_row \<times> pydict option) list \<Rightarrow> function_table \<Rightarrow> function_table \<times> function_table" where
  "sync_functions cipher now user_id fs T =
     (let existing_ids = map fn_id T;
          rows = map (synced_row cipher now user_id) fs;
          T1 = fold (sync_one existing_ids) rows T;
          T2 = filter (\<lambda>r. fn_id r \<in> fn_id ` set rows) T1
      in if distinct (map fn_id T2) then (T2, T2) else ([], T))"

subsection \<open>Reading\<close>

definition get_functions_by_ids :: "string list \<Rightarrow> function_table \<Rightarrow> function_table" where
  "get_functions_by_ids fids T = concat (map (\<lambda>i. case get_function_by_id i T of None \<Rightarrow> [] | Some f \<Rightarrow> [f]) fids)"

definition get_functions :: "bool \<Rightarrow> function_table \<Rightarrow> function_table" where
  "get_functions active_only T = filter (\<lambda>f. active_only \<longrightarrow> fn_is_active f) T"

definition get_functions_with_valves :: "(string \<Rightarrow> string option) \<Rightarrow> bool \<Rightarrow> function_table \<Rightarrow> (function_row \<times> pydict) list" where
  "get_functions_with_valves dec active_only T = map (\<lambda>f. (f, decrypt_valves dec (fn_valves f))) (get_functions active_only T)"

definition get_function_list :: "string list \<Rightarrow> function_table \<Rightarrow> (function_row \<times> string option) list" where
  "get_function_list users T =
     map (\<lambda>f. (f, case fn_user_id f of Some u \<Rightarrow> if u \<in> set users then Some u else None | None \<Rightarrow> None)) (sort_key (\<lambda>f. - fn_updated_at f) T)"

definition get_functions_by_type :: "string \<Rightarrow> bool \<Rightarrow> function_table \<Rightarrow> function_table" where
  "get_functions_by_type kind active_only T = filter (\<lambda>f. fn_type f = kind \<and> (active_only \<longrightarrow> fn_is_active f)) T"

definition get_global_filter_functions :: "function_table \<Rightarrow> function_table" where
  "get_global_filter_functions T = filter (\<lambda>f. fn_type f = ''filter'' \<and> fn_is_active f \<and> fn_is_global f) T"

definition get_active_function_ids_by_type :: "string \<Rightarrow> function_table \<Rightarrow> (string \<times> bool) list" where
  "get_active_function_ids_by_type kind T = map (\<lambda>f. (fn_id f, fn_is_global f)) (filter (\<lambda>f. fn_type f = kind \<and> fn_is_active f) T)"

definition get_active_filter_ids :: "function_table \<Rightarrow> (string \<times> bool) list" where
  "get_active_filter_ids T = get_active_function_ids_by_type ''filter'' T"

definition get_global_action_functions :: "function_table \<Rightarrow> function_table" where
  "get_global_action_functions T = filter (\<lambda>f. fn_type f = ''action'' \<and> fn_is_active f \<and> fn_is_global f) T"

definition get_function_valves_by_id :: "(string \<Rightarrow> string option) \<Rightarrow> string \<Rightarrow> function_table \<Rightarrow> pydict" where
  "get_function_valves_by_id dec i T = decrypt_valves dec (case get_function_by_id i T of None \<Rightarrow> PNone | Some f \<Rightarrow> fn_valves f)"

definition get_function_valves_by_ids :: "(string \<Rightarrow> string option) \<Rightarrow> string list \<Rightarrow> function_table \<Rightarrow> (string, pydict) dict" where
  "get_function_valves_by_ids dec fids T = map (\<lambda>f. (fn_id f, decrypt_valves dec (fn_valves f))) (filter (\<lambda>f. fn_id f \<in> set fids) T)"

subsection \<open>Writing\<close>

definition update_function_valves_by_id :: "cipher \<Rightarrow> int \<Rightarrow> string \<Rightarrow> pydict \<Rightarrow> function_table \<Rightarrow> function_row option \<times> function_table" where
  "update_function_valves_by_id cipher now i valves T =
     (case get_function_by_id i T of
        None \<Rightarrow> (None, T)
      | Some f \<Rightarrow> (let f' = f\<lparr>fn_valves := encrypt_valves cipher valves, fn_updated_at := now\<rparr> in (Some f', put_function f' T)))"

text \<open>The metadata has to fit \<open>FunctionMeta\<close> when the row is returned; by then it has been committed.\<close>

definition meta_fits :: "pydict \<Rightarrow> bool" where
  "meta_fits m \<longleftrightarrow> (dget m ''description'' = PNone \<or> is_str (dget m ''description''))
     \<and> (dget m ''manifest'' = PNone \<or> is_dict (dget m ''manifest''))"

definition update_function_metadata_by_id :: "int \<Rightarrow> string \<Rightarrow> pydict \<Rightarrow> function_table \<Rightarrow> function_row option \<times> function_table" where
  "update_function_metadata_by_id now i metadata T =
     (case get_function_by_id i T of
        None \<Rightarrow> (None, T)
      | Some f \<Rightarrow>
          (let f' = f\<lparr>fn_meta := dict_update (fn_meta f) metadata, fn_updated_at := now\<rparr>
           in (if meta_fits (fn_meta f') then Some f' else None, put_function f' T)))"

text \<open>The columns an update may name.\<close>

record function_changes =
  fc_name :: "string option"
  fc_type :: "string option"
  fc_content :: "string option"
  fc_meta :: "pydict option"
  fc_is_active :: "bool option"
  fc_is_global :: "bool option"

definition no_changes :: function_changes where
  "no_changes = \<lparr>fc_name = None, fc_type = None, fc_content = None, fc_meta = None, fc_is_active = None, fc_is_global = None\<rparr>"

definition opt_or :: "'a option \<Rightarrow> 'a \<Rightarrow> 'a" where
  "opt_or v d = (case v of None \<Rightarrow> d | Some x \<Rightarrow> x)"

definition changed_function :: "int \<Rightarrow> function_changes \<Rightarrow> function_row \<Rightarrow> function_row" where
  "changed_function now u f =
     f\<lparr>fn_name := opt_or (fc_name u) (fn_name f), fn_type := opt_or (fc_type u) (fn_type f), fn_content := opt_or (fc_content u) (fn_content f),
       fn_meta := opt_or (fc_meta u) (fn_meta f), fn_is_active := opt_or (fc_is_active u) (fn_is_active f),
       fn_is_global := opt_or (fc_is_global u) (fn_is_global f), fn_updated_at := now\<rparr>"

definition update_function_by_id :: "int \<Rightarrow> string \<Rightarrow> function_changes \<Rightarrow> function_table \<Rightarrow> function_row option \<times> function_table" where
  "update_function_by_id now i updated T =
     (let T' = map (\<lambda>f. if fn_id f = i then changed_function now updated f else f) T
      in (case get_function_by_id i T' of None \<Rightarrow> None | Some f \<Rightarrow> if meta_fits (fn_meta f) then Some f else None, T'))"

definition deactivate_all_functions :: "int \<Rightarrow> function_table \<Rightarrow> function_table" where
  "deactivate_all_functions now T = map (\<lambda>f. f\<lparr>fn_is_active := False, fn_updated_at := now\<rparr>) T"

definition delete_function_by_id :: "string \<Rightarrow> function_table \<Rightarrow> function_table" where
  "delete_function_by_id i T = filter (\<lambda>f. fn_id f \<noteq> i) T"

text \<open>
  A user's own valves live in the user's settings. \<open>UserSettings\<close> has one declared field, \<open>ui\<close>; every other key is kept.
  \<open>None\<close> is what the operations return when anything raised.
\<close>

definition user_settings :: "pydict \<Rightarrow> pydict res" where
  "user_settings s =
     (let ui = dict_get_or s ''ui'' (PDict [])
      in if ui = PNone \<or> is_dict ui then Inr ((''ui'', ui) # filter (\<lambda>(k, v). k \<noteq> ''ui'') s) else Inl OtherError)"

definition functions_valves :: "pydict \<Rightarrow> (pydict \<times> pydict) res" where
  "functions_valves s =
     (case dict_get_or s ''functions'' (PDict []) of
        PDict fns \<Rightarrow> (case dict_get_or fns ''valves'' (PDict []) of PDict v \<Rightarrow> Inr (fns, v) | _ \<Rightarrow> Inl OtherError)
      | _ \<Rightarrow> Inl TypeError)"

definition get_user_valves_by_id_and_user_id :: "(string \<Rightarrow> string option) \<Rightarrow> string \<Rightarrow> pydict option \<Rightarrow> pydict option" where
  "get_user_valves_by_id_and_user_id dec i settings =
     (case bindE (case settings of None \<Rightarrow> Inr [] | Some [] \<Rightarrow> Inr [] | Some s \<Rightarrow> user_settings s) functions_valves of Inl e \<Rightarrow> None | Inr (fns, v) \<Rightarrow> Some (decrypt_valves dec (dget v i)))"

text \<open>The settings that are stored; a user that does not exist is an \<open>AttributeError\<close>, which is caught as well.\<close>

definition update_user_valves_by_id_and_user_id :: "cipher \<Rightarrow> string \<Rightarrow> pydict \<Rightarrow> pydict option option \<Rightarrow> (pydict \<times> pydict) option" where
  "update_user_valves_by_id_and_user_id cipher i valves user =
     (case user of
        None \<Rightarrow> None
      | Some settings \<Rightarrow>
          (case bindE (case settings of None \<Rightarrow> Inr [] | Some s \<Rightarrow> user_settings s) (\<lambda>s. bindE (functions_valves s) (\<lambda>(fns, v).
                  Inr (dict_set ''functions'' (PDict (dict_set ''valves'' (PDict (dict_set i (encrypt_valves cipher valves) v)) fns)) s))) of
             Inl e \<Rightarrow> None
           | Inr s \<Rightarrow> Some (valves, s)))"

end
