(* ===== verification/Relay_Install.thy ===== *)
theory Relay_Install
  imports OWUI_Functions Py_Regex
begin

section \<open>Installing the pipe (sync\_pipe.py, utils/plugin.py)\<close>

text \<open>
  The script that runs before the server starts: it loads the pipe's source as a plugin and installs or updates its row. Executing the
  source, constructing its class and installing its requirements are outside the model; \<open>plugin_env\<close> says how they end.
\<close>

subsection \<open>Loading a plugin (utils/plugin.py)\<close>

text \<open>\<open>str.splitlines\<close>, for the model's characters.\<close>

definition is_line_end :: "char \<Rightarrow> bool" where
  "is_line_end c \<longleftrightarrow> (of_char c :: nat) \<in> {10, 11, 12, 13, 28, 29, 30, 133}"

function splitlines :: "string \<Rightarrow> string list" where
  "splitlines s =
     (if s = [] then []
      else takeWhile (Not \<circ> is_line_end) s #
        (case dropWhile (Not \<circ> is_line_end) s of
           [] \<Rightarrow> []
         | c # r \<Rightarrow> if c = CHR 0x0D \<and> prefix [CHR 0x0A] r then splitlines (tl r) else splitlines r))"
  by pat_completeness auto
termination
proof (relation "measure length", goal_cases)
  case (2 s c r)
  then have "length (dropWhile (Not \<circ> is_line_end) s) = Suc (length r)" by simp
  then have "Suc (length r) \<le> length s" using length_dropWhile_le [of "Not \<circ> is_line_end" s] by linarith
  then show ?case by (simp add: less_le_trans)
next
  case (3 s c r)
  then have "length (dropWhile (Not \<circ> is_line_end) s) = Suc (length r)" by simp
  then have "Suc (length r) \<le> length s" using length_dropWhile_le [of "Not \<circ> is_line_end" s] by linarith
  then show ?case by simp
qed simp

declare splitlines.simps [simp del]

text \<open>\<open>^\s*([a-z_]+):\s*(.*)\s*$\<close>, ignoring case.\<close>

definition is_key_char :: "char \<Rightarrow> bool" where
  "is_key_char c \<longleftrightarrow> is_lower_az (lower_char c) \<or> c = CHR ''_''"

definition frontmatter_pattern :: re where
  "frontmatter_pattern = rseqs [RStart, rspaces, RGroup 1 (rplus (RSat is_key_char)), rlit '':'', rspaces,
     RGroup 2 (RStar (RSat (\<lambda>c. c \<noteq> CHR 0x0A))), rspaces, REnd]"

definition triple_quote :: string where
  "triple_quote = [CHR 0x22, CHR 0x22, CHR 0x22]"

fun frontmatter_lines :: "string list \<Rightarrow> (string, string) dict \<Rightarrow> (string, string) dict" where
  "frontmatter_lines [] acc = acc"
| "frontmatter_lines (l # ls) acc =
     (if contains triple_quote l then acc
      else frontmatter_lines ls (case re_match frontmatter_pattern l of
                                   None \<Rightarrow> acc
                                 | Some (m, rest, g) \<Rightarrow> dict_set (strip (group_of g 1)) (strip (group_of g 2)) acc))"

definition extract_frontmatter :: "string \<Rightarrow> (string, string) dict" where
  "extract_frontmatter content =
     (case splitlines content of
        [] \<Rightarrow> []
      | l # ls \<Rightarrow> if strip l \<noteq> triple_quote then [] else frontmatter_lines ls [])"

definition import_replacements :: "(string \<times> string) list" where
  "import_replacements =
     [(''from utils'', ''from open_webui.utils''), (''from apps'', ''from open_webui.apps''),
      (''from main'', ''from open_webui.main''), (''from config'', ''from open_webui.config'')]"

definition replace_imports :: "string \<Rightarrow> string" where
  "replace_imports content = foldl (\<lambda>c (old, new). py_replace old new c) content import_replacements"

text \<open>
  Outside the model: whether plugins are enabled, installing requirements, executing a source (the names it defines) and
  constructing the class.
\<close>

record plugin_env =
  pe_enabled :: bool
  pe_install :: "string \<Rightarrow> exn option"
  pe_exec :: "string \<Rightarrow> string list res"
  pe_construct :: "string \<Rightarrow> exn option"

definition function_classes :: "(string \<times> string) list" where
  "function_classes = [(''Pipe'', ''pipe''), (''Filter'', ''filter''), (''Action'', ''action''), (''Event'', ''event'')]"

definition instantiate :: "plugin_env \<Rightarrow> string \<Rightarrow> string res" where
  "instantiate pe content =
     bindE (pe_exec pe content) (\<lambda>names.
       case find (\<lambda>(c, k). c \<in> set names) function_classes of
         None \<Rightarrow> Inl OtherError
       | Some (c, k) \<Rightarrow> (case pe_construct pe c of Some e \<Rightarrow> Inl e | None \<Rightarrow> Inr k))"

text \<open>When the execution raises, the function is deactivated before the exception goes on.\<close>

definition run_source :: "plugin_env \<Rightarrow> int \<Rightarrow> string \<Rightarrow> string \<Rightarrow> function_table \<Rightarrow> (string \<times> (string, string) dict) res \<times> function_table" where
  "run_source pe now i content T =
     (case instantiate pe content of
        Inl e \<Rightarrow> (Inl e, snd (update_function_by_id now i (no_changes\<lparr>fc_is_active := Some False\<rparr>) T))
      | Inr k \<Rightarrow> (Inr (k, extract_frontmatter content), T))"

definition load_function_module_by_id ::
    "plugin_env \<Rightarrow> int \<Rightarrow> string \<Rightarrow> string option \<Rightarrow> function_table \<Rightarrow> (string \<times> (string, string) dict) res \<times> function_table" where
  "load_function_module_by_id pe now i content T =
     (if \<not> pe_enabled pe then (Inl OtherError, T)
      else case content of
        None \<Rightarrow>
          (case get_function_by_id i T of
             None \<Rightarrow> (Inl OtherError, T)
           | Some f \<Rightarrow>
               (let c = replace_imports (fn_content f)
                in run_source pe now i c (snd (update_function_by_id now i (no_changes\<lparr>fc_content := Some c\<rparr>) T))))
      | Some c \<Rightarrow>
          (case pe_install pe (dict_get_or (extract_frontmatter c) ''requirements'' []) of
             Some e \<Rightarrow> (Inl e, T)
           | None \<Rightarrow> run_source pe now i c T))"

subsection \<open>The script\<close>

definition FUNCTION_ID :: string where
  "FUNCTION_ID = ''horizon_relay''"

definition pipe_meta :: "(string, string) dict \<Rightarrow> pydict" where
  "pipe_meta fm =
     [(''description'', case map_of fm ''description'' of None \<Rightarrow> PNone | Some d \<Rightarrow> PStr d),
      (''manifest'', PDict (map (\<lambda>(k, v). (k, PStr v)) fm))]"

definition pipe_changes :: "string \<Rightarrow> string \<Rightarrow> (string, string) dict \<Rightarrow> function_changes" where
  "pipe_changes content kind fm =
     \<lparr>fc_name = Some (dict_get_or fm ''title'' ''Horizon Relay''), fc_type = Some kind, fc_content = Some content,
      fc_meta = Some (pipe_meta fm), fc_is_active = Some True, fc_is_global = None\<rparr>"

definition report :: "(string, string) dict \<Rightarrow> string \<Rightarrow> string" where
  "report fm action =
     ''horizon-relay: Pipe '' @ (case map_of fm ''version'' of None \<Rightarrow> ''None'' | Some v \<Rightarrow> v) @ '' '' @ action"

text \<open>\<open>main\<close>: what it prints, or how it stops (\<open>sys.exit\<close> is \<open>OtherError\<close>), and the table. \<open>admin\<close> is the id of the first administrator.\<close>

definition main :: "plugin_env \<Rightarrow> int \<Rightarrow> string option \<Rightarrow> string \<Rightarrow> function_table \<Rightarrow> string res \<times> function_table" where
  "main pe now admin source T =
     (let content = replace_imports source
      in case load_function_module_by_id pe now FUNCTION_ID (Some content) T of
           (Inl e, T1) \<Rightarrow> (Inl e, T1)
         | (Inr (kind, fm), T1) \<Rightarrow>
             (let changes = pipe_changes content kind fm
              in case get_function_by_id FUNCTION_ID T1 of
                   None \<Rightarrow>
                     (case insert_new_function now admin kind
                             \<lparr>fo_id = FUNCTION_ID, fo_name = dict_get_or fm ''title'' ''Horizon Relay'', fo_content = content, fo_meta = pipe_meta fm\<rparr> T1 of
                        (None, T2) \<Rightarrow> (Inl OtherError, T2)
                      | (Some f, T2) \<Rightarrow> (Inr (report fm ''installed''), snd (update_function_by_id now FUNCTION_ID changes T2)))
                 | Some f \<Rightarrow>
                     if fn_content f \<noteq> content \<or> \<not> fn_is_active f
                     then (Inr (report fm ''updated''), snd (update_function_by_id now FUNCTION_ID changes T1))
                     else (Inr (report fm ''already current''), T1)))"

subsection \<open>What the script does to the table\<close>

lemma get_updated:
  "get_function_by_id j (snd (update_function_by_id now i u T))
     = (if j = i then map_option (changed_function now u) (get_function_by_id i T) else get_function_by_id j T)"
  unfolding update_function_by_id_def get_function_by_id_def Let_def snd_conv
  by (rule find_changed) (simp add: changed_function_def)

lemma load_ok:
  assumes "pe_enabled pe" and "pe_install pe (dict_get_or (extract_frontmatter c) ''requirements'' []) = None" and "instantiate pe c = Inr kind"
  shows "load_function_module_by_id pe now i (Some c) T = (Inr (kind, extract_frontmatter c), T)"
  using assms by (simp add: load_function_module_by_id_def run_source_def)

text \<open>
  C37. Installing the pipe. When the source can be loaded, the script ends with the pipe's row present, active and holding the current
  source; valves set by an administrator are kept, every other function is left alone, a row that was already current is left as
  it was, and running the script again, at any time, changes nothing.
\<close>

theorem pipe_installed:
  assumes "pe_enabled pe" and "pe_install pe (dict_get_or (extract_frontmatter (replace_imports source)) ''requirements'' []) = None"
    and "instantiate pe (replace_imports source) = Inr kind"
  shows "\<exists>said T' f. main pe now admin source T = (Inr said, T') \<and> get_function_by_id FUNCTION_ID T' = Some f
    \<and> fn_is_active f \<and> fn_content f = replace_imports source
    \<and> fn_valves f = (case get_function_by_id FUNCTION_ID T of None \<Rightarrow> PNone | Some g \<Rightarrow> fn_valves g)
    \<and> (\<forall>g. get_function_by_id FUNCTION_ID T = Some g \<and> fn_is_active g \<and> fn_content g = replace_imports source \<longrightarrow> T' = T)
    \<and> (\<forall>j. j \<noteq> FUNCTION_ID \<longrightarrow> get_function_by_id j T' = get_function_by_id j T)
    \<and> (\<forall>later admin'. main pe later admin' source T' = (Inr (report (extract_frontmatter (replace_imports source)) ''already current''), T'))"
proof -
  let ?c = "replace_imports source" and ?fm = "extract_frontmatter (replace_imports source)"
  note load = load_ok [OF assms]
  have again: "main pe later admin' source T' = (Inr (report ?fm ''already current''), T')"
    if "get_function_by_id FUNCTION_ID T' = Some f" "fn_is_active f" "fn_content f = ?c" for later admin' T' f
    using that by (simp add: main_def Let_def load)
  show ?thesis
  proof (cases "get_function_by_id FUNCTION_ID T")
    case None
    let ?f = "\<lparr>fn_id = FUNCTION_ID, fn_user_id = admin, fn_name = dict_get_or ?fm ''title'' ''Horizon Relay'', fn_type = kind, fn_content = ?c,
               fn_meta = pipe_meta ?fm, fn_valves = PNone, fn_is_active = False, fn_is_global = False, fn_updated_at = now, fn_created_at = now\<rparr>"
    let ?T' = "snd (update_function_by_id now FUNCTION_ID (pipe_changes ?c kind ?fm) (T @ [?f]))"
    have new: "FUNCTION_ID \<notin> fn_id ` set T" using None function_rows.get_None [of FUNCTION_ID T] by simp
    have added: "get_function_by_id j (T @ [?f]) = (if j = FUNCTION_ID then Some ?f else get_function_by_id j T)" for j
      using new by (induction T) (auto simp: get_function_by_id_def)
    have "main pe now admin source T = (Inr (report ?fm ''installed''), ?T')"
      using None new by (simp add: main_def Let_def load insert_new_function_def)
    moreover have "get_function_by_id j ?T' = (if j = FUNCTION_ID then Some (changed_function now (pipe_changes ?c kind ?fm) ?f) else get_function_by_id j T)" for j
      unfolding get_updated added by simp
    ultimately show ?thesis using None
      by (intro exI [of _ "report ?fm ''installed''"] exI [of _ ?T'] exI [of _ "changed_function now (pipe_changes ?c kind ?fm) ?f"])
         (auto simp: changed_function_def pipe_changes_def opt_or_def intro!: again)
  next
    case (Some g')
    show ?thesis
    proof (cases "fn_content g' = ?c \<and> fn_is_active g'")
      case True
      then have "main pe now admin source T = (Inr (report ?fm ''already current''), T)" using again Some by blast
      then show ?thesis using Some True again by (intro exI [of _ "report ?fm ''already current''"] exI [of _ T] exI [of _ g']) auto
    next
      case False
      let ?T' = "snd (update_function_by_id now FUNCTION_ID (pipe_changes ?c kind ?fm) T)"
      have "main pe now admin source T = (Inr (report ?fm ''updated''), ?T')" using Some False by (auto simp: main_def Let_def load)
      then show ?thesis using Some False
        by (intro exI [of _ "report ?fm ''updated''"] exI [of _ ?T'] exI [of _ "changed_function now (pipe_changes ?c kind ?fm) g'"])
           (auto simp: get_updated changed_function_def pipe_changes_def opt_or_def intro!: again)
    qed
  qed
qed

definition sample_plugin_env :: plugin_env where
  "sample_plugin_env = \<lparr>pe_enabled = True, pe_install = (\<lambda>_. None), pe_exec = (\<lambda>_. Inr [''Pipe'']), pe_construct = (\<lambda>_. None)\<rparr>"

theorem pipe_installed_witness:
  "\<exists>said T' f. main sample_plugin_env 5 None ''class Pipe: pass'' [] = (Inr said, T') \<and> get_function_by_id FUNCTION_ID T' = Some f
    \<and> fn_is_active f \<and> fn_valves f = PNone"
proof -
  have "pe_enabled sample_plugin_env" "pe_install sample_plugin_env r = None" "instantiate sample_plugin_env c = Inr ''pipe''" for r c
    by (simp_all add: sample_plugin_env_def instantiate_def function_classes_def)
  from pipe_installed [where source = "''class Pipe: pass''" and now = 5 and admin = None and T = "[]", OF this] show ?thesis by (auto simp: get_function_by_id_def)
qed

text \<open>A source that cannot be executed: the script stops with the exception, and an installed pipe is switched off but not changed otherwise.\<close>

lemma broken_pipe_deactivated:
  assumes "pe_enabled pe" and "pe_install pe (dict_get_or (extract_frontmatter (replace_imports source)) ''requirements'' []) = None"
    and "instantiate pe (replace_imports source) = Inl e"
  shows "\<exists>T'. main pe now admin source T = (Inl e, T')
    \<and> (\<forall>j. get_function_by_id j T' =
          (if j = FUNCTION_ID then map_option (\<lambda>f. f\<lparr>fn_is_active := False, fn_updated_at := now\<rparr>) (get_function_by_id j T) else get_function_by_id j T))"
  using assms
  by (auto simp: main_def Let_def load_function_module_by_id_def run_source_def get_updated changed_function_def no_changes_def opt_or_def
      intro!: map_option_cong)

end
