(* ===== verification/Relay_Cli.thy ===== *)
theory Relay_Cli
  imports Relay_Tuning
begin

section \<open>The command line (cli.py, \_\_main\_\_.py)\<close>

text \<open>
  The commands \<^verbatim>\<open>ask\<close>, \<^verbatim>\<open>eval\<close>, \<^verbatim>\<open>tune\<close> and \<^verbatim>\<open>demo\<close> from their parsed options to the exit status. \<open>argparse\<close> is not part of the
  model: a command is the datatype of the options it hands over. What a command reads (files, environment variables, the servers' answers, the
  clock) is \<open>surroundings\<close>, what it leaves behind (the two output streams, the files and directories in the order they were written) is
  \<open>console\<close>. Paths are taken to be written the way \<open>str(Path(p))\<close> writes them.
\<close>

subsection \<open>Output as JSON\<close>

text \<open>The code point a character of the model stands for, see \<^verbatim>\<open>Py_Text\<close>.\<close>

definition code_point :: "char \<Rightarrow> nat" where
  "code_point c =
     dict_get_or [(0x97, 0x2014), (0x86, 0x2026), (0x87, 0x2265), (0x93, 0x201C), (0x94, 0x201D), (0x88, 0x2192)] (of_char c :: nat) (of_char c)"

definition hex4 :: "nat \<Rightarrow> string" where
  "hex4 n = hex2 (n div 256) @ hex2 (n mod 256)"

text \<open>\<open>json.dumps\<close> of a text as it is by default: everything but printable ASCII is escaped.\<close>

definition json_ascii_char :: "char \<Rightarrow> string" where
  "json_ascii_char c = (if (of_char c :: nat) < 127 then json_char c else [CHR 0x5C, CHR ''u''] @ hex4 (code_point c))"

definition json_ascii_text :: "string \<Rightarrow> string" where
  "json_ascii_text s = [CHR 0x22] @ concat (map json_ascii_char s) @ [CHR 0x22]"

text \<open>The texts of the values that have no parts.\<close>

fun json_atom :: "pyval \<Rightarrow> string" where
  "json_atom (PBool b) = (if b then ''true'' else ''false'')"
| "json_atom (PInt i) = show_int i"
| "json_atom (PFloat x) = json_float x"
| "json_atom (PStr s) = json_ascii_text s"
| "json_atom _ = ''null''"

text \<open>\<open>json.dumps(v)\<close>.\<close>

fun json_ascii :: "pyval \<Rightarrow> string" where
  "json_ascii (PList vs) = ''['' @ join '', '' (map json_ascii vs) @ '']''"
| "json_ascii (PDict d) = ''{'' @ join '', '' (map (\<lambda>(k, v). json_ascii_text k @ '': '' @ json_ascii v) d) @ ''}''"
| "json_ascii v = json_atom v"

text \<open>\<open>json.dumps(v, indent=2)\<close>, from nesting depth \<open>n\<close> on.\<close>

definition line_at :: "nat \<Rightarrow> string" where
  "line_at n = newline @ replicate (2 * n) (CHR '' '')"

definition json_block :: "nat \<Rightarrow> string \<Rightarrow> string \<Rightarrow> string list \<Rightarrow> string" where
  "json_block n opening closing parts =
     (if parts = [] then opening @ closing
      else opening @ line_at (Suc n) @ join ('','' @ line_at (Suc n)) parts @ line_at n @ closing)"

fun json_indented :: "nat \<Rightarrow> pyval \<Rightarrow> string" where
  "json_indented n (PList vs) = json_block n ''['' '']'' (map (json_indented (Suc n)) vs)"
| "json_indented n (PDict d) = json_block n ''{'' ''}'' (map (\<lambda>(k, v). json_ascii_text k @ '': '' @ json_indented (Suc n) v) d)"
| "json_indented n v = json_atom v"

text \<open>\<open>asdict\<close> of an event and of a run's result.\<close>

definition event_dict :: "relay_event \<Rightarrow> pyval" where
  "event_dict e = PDict
     [(''run_id'', PStr (ev_run_id e)), (''seq'', PInt (int (ev_seq e))), (''name'', PStr (ev_name e)),
      (''message'', PStr (ev_message e)), (''done'', PBool (ev_done e)), (''simulated'', PBool (ev_simulated e)),
      (''data'', PDict (ev_data e))]"

definition result_dict :: "run_result \<Rightarrow> pyval" where
  "result_dict r = PDict
     [(''run_id'', PStr (rr_run_id r)), (''content'', PStr (rr_content r)), (''results'', PDict (rr_results r)),
      (''metrics'', metrics_dict (rr_metrics r))]"

definition case_dict :: "test_case \<Rightarrow> pyval" where
  "case_dict c = PDict
     [(''name'', PStr (tc_name c)), (''category'', PStr (tc_category c)), (''difficulty'', PStr (tc_difficulty c)),
      (''expected_route'', PList (map PStr (tc_expected_route c))), (''prompt'', PStr (tc_prompt c)),
      (''answer_pattern'', opt_val PStr (tc_answer_pattern c)), (''policy'', opt_val PDict (tc_policy c)),
      (''expects'', opt_val PDict (tc_expects c)), (''note'', PStr (tc_note c))]"

text \<open>\<open>{**r.to_dict(), "graph": None}\<close>.\<close>

definition case_result_dict :: "case_result \<Rightarrow> pyval" where
  "case_result_dict r = PDict
     [(''case'', case_dict (cs_case r)), (''route'', PStr (cs_route r)), (''matched'', PBool (cs_matched r)),
      (''elapsed_s'', PFloat (Fin (cs_elapsed_s r))), (''correct'', opt_val PBool (cs_correct r)), (''answer'', PStr (cs_answer r)),
      (''scores'', PDict (map (\<lambda>(t, x). (t, PFloat (Fin x))) (cs_scores r))), (''local_calls'', PInt (cs_local_calls r)),
      (''cloud_calls'', PInt (cs_cloud_calls r)), (''local_subtasks'', PInt (cs_local_subtasks r)),
      (''cloud_subtasks'', PInt (cs_cloud_subtasks r)), (''parallel_ms'', PInt (cs_parallel_ms r)),
      (''unmet'', PList (map PStr (cs_unmet r))), (''error'', PStr (cs_error r)), (''graph'', PNone)]"

definition summary_dict :: "test_summary \<Rightarrow> pyval" where
  "summary_dict m = PDict
     [(''cases'', PInt (int (sm_cases m))), (''matched'', PInt (int (sm_matched m))),
      (''answers_checked'', PInt (int (sm_answers_checked m))), (''answers_correct'', PInt (int (sm_answers_correct m))),
      (''expectations_checked'', PInt (int (sm_expectations_checked m))), (''expectations_met'', PInt (int (sm_expectations_met m))),
      (''delegated_subtasks'', PInt (sm_delegated_subtasks m)), (''errors'', PInt (int (sm_errors m))),
      (''by_tier'', PDict (map (\<lambda>(t, n). (t, PInt (int n))) (sm_by_tier m))), (''cloud_calls'', PInt (sm_cloud_calls m)),
      (''local_calls'', PInt (sm_local_calls m)), (''seconds'', PFloat (Fin (sm_seconds m)))]"

subsection \<open>The outside\<close>

text \<open>
  One run's circumstances: what the servers answer, what else the run depends on, how its subtasks are interleaved and how long it took. Run \<open>0\<close>
  is the only run of \<^verbatim>\<open>ask\<close> and \<^verbatim>\<open>demo\<close>; \<^verbatim>\<open>eval\<close> and \<^verbatim>\<open>tune\<close> number their runs from \<open>1\<close>.
\<close>

record circumstances =
  ci_server :: "nat \<Rightarrow> server"
  ci_base :: env
  ci_sched :: schedule
  ci_secs :: real

text \<open>
  \<open>su_read\<close> is \<open>read_text\<close> of a path and \<open>su_exists\<close> its \<open>exists\<close>, \<open>su_write\<close> and \<open>su_mkdir\<close> say which paths cannot be written or made and with what exception,
  \<open>su_template\<close> and \<open>su_tests\<close> are the two files of the package; \<open>su_compiles\<close> and \<open>su_found\<close> stand for the regular expressions of the tests. A
  command writes only after it has read, so a file it reads is never one it wrote.
\<close>

record surroundings =
  su_env :: environ
  su_read :: "string \<Rightarrow> string res"
  su_exists :: "string \<Rightarrow> bool"
  su_write :: "string \<Rightarrow> exn option"
  su_mkdir :: "string \<Rightarrow> exn option"
  su_template :: string
  su_tests :: string
  su_compiles :: "string \<Rightarrow> bool"
  su_found :: "string \<Rightarrow> string \<Rightarrow> bool"
  su_runs :: "nat \<Rightarrow> circumstances"

record console =
  co_out :: string
  co_err :: string
  co_files :: "(string \<times> string) list"
  co_dirs :: "string list"

definition print_out :: "string \<Rightarrow> console \<Rightarrow> console" where
  "print_out line w = w\<lparr>co_out := co_out w @ line @ newline\<rparr>"

definition print_err :: "string \<Rightarrow> console \<Rightarrow> console" where
  "print_err line w = w\<lparr>co_err := co_err w @ line @ newline\<rparr>"

definition write_text :: "surroundings \<Rightarrow> string \<Rightarrow> string \<Rightarrow> console \<Rightarrow> unit res \<times> console" where
  "write_text S path body w =
     (case su_write S path of Some e \<Rightarrow> (Inl e, w) | None \<Rightarrow> (Inr (), w\<lparr>co_files := co_files w @ [(path, body)]\<rparr>))"

definition make_dir :: "surroundings \<Rightarrow> string \<Rightarrow> console \<Rightarrow> unit res \<times> console" where
  "make_dir S path w = (case su_mkdir S path of Some e \<Rightarrow> (Inl e, w) | None \<Rightarrow> (Inr (), w\<lparr>co_dirs := co_dirs w @ [path]\<rparr>))"

subsection \<open>Options\<close>

record output_opts =
  oo_events :: bool
  oo_json :: bool
  oo_graph :: "string option"

record ask_opts =
  ao_question :: string
  ao_source :: "string list"
  ao_local_extract :: bool
  ao_output :: output_opts

record eval_opts =
  vo_select :: string
  vo_cases :: "string option"
  vo_graph_dir :: "string option"
  vo_json :: bool

record tune_opts =
  to_profiles :: string
  to_reuse :: bool
  to_cases :: "string option"

record demo_opts =
  do_scenario :: string
  do_delay :: real
  do_no_cloud :: bool
  do_output :: output_opts

datatype command = Ask ask_opts | Eval eval_opts | Tune tune_opts | Demo demo_opts

text \<open>An option that is a path counts only when it is not empty.\<close>

definition given :: "string option \<Rightarrow> string option" where
  "given p = (if p = Some [] then None else p)"

subsection \<open>Events, the graph and the answer\<close>

text \<open>Whether \<open>_emitter\<close> returns a callback, and what that callback prints for the events it gets.\<close>

definition has_emitter :: "output_opts \<Rightarrow> bool" where
  "has_emitter o1 \<longleftrightarrow> oo_events o1 \<or> given (oo_graph o1) \<noteq> None"

definition emit_events :: "output_opts \<Rightarrow> relay_event list \<Rightarrow> console \<Rightarrow> console" where
  "emit_events o1 es w = (if oo_events o1 then fold (\<lambda>e. print_err (json_ascii (event_dict e))) es w else w)"

definition write_graph :: "surroundings \<Rightarrow> output_opts \<Rightarrow> run_graph \<Rightarrow> console \<Rightarrow> unit res \<times> console" where
  "write_graph S o1 g w =
     (case given (oo_graph o1) of
        None \<Rightarrow> (Inr (), w)
      | Some path \<Rightarrow>
          (case write_text S path (render_html (su_template S) (graph_dict g)) w of
             (Inl e, w1) \<Rightarrow> (Inl e, w1)
           | (Inr _, w1) \<Rightarrow> (Inr (), print_err (''Decision graph written to '' @ path) w1)))"

definition print_result :: "run_result \<Rightarrow> bool \<Rightarrow> console \<Rightarrow> console" where
  "print_result r as_json w =
     (if as_json then print_out (json_indented 0 (result_dict r)) w
      else print_err (newline @ summary r) (print_out (rr_content r) w))"

text \<open>
  The common end of \<open>ask\<close> and \<open>demo\<close>: the run with its events, the \<open>finally\<close> clause, whose own exception takes the place of the
  run's, and the answer.
\<close>

definition finish_run :: "surroundings \<Rightarrow> output_opts \<Rightarrow> run_result res \<times> run_state \<Rightarrow> console \<Rightarrow> unit res \<times> console" where
  "finish_run S o1 outcome w =
     (case outcome of (x, s) \<Rightarrow>
        (case write_graph S o1 (graph_of (events s)) (emit_events o1 (events s) w) of
           (Inl e, w1) \<Rightarrow> (Inl e, w1)
         | (Inr _, w1) \<Rightarrow> (case x of Inl e \<Rightarrow> (Inl e, w1) | Inr r \<Rightarrow> (Inr (), print_result r (oo_json o1) w1))))"

subsection \<open>ask\<close>

fun read_sources :: "surroundings \<Rightarrow> string list \<Rightarrow> sources \<Rightarrow> sources res" where
  "read_sources S [] sources = Inr sources"
| "read_sources S (entry # items) sources =
     (case partition_at (CHR ''='') entry of (name, sep, path) \<Rightarrow>
        if \<not> sep \<or> name = [] \<or> path = [] then Inl (ValueError (''--source expects NAME=FILE, got '' @ repr_text entry))
        else bindE (su_read S path) (\<lambda>body. read_sources S items (dict_set name body sources)))"

text \<open>The engine's view of the relay in run \<open>i\<close>, with or without a callback.\<close>

definition cli_env :: "surroundings \<Rightarrow> relay \<Rightarrow> nat \<Rightarrow> bool \<Rightarrow> env" where
  "cli_env S r i emitting =
     relay_env (ci_server (su_runs S i)) r ((ci_base (su_runs S i))\<lparr>e_emit := emitting, e_on_delta := False\<rparr>)"

definition ask_run :: "surroundings \<Rightarrow> ask_opts \<Rightarrow> sources \<Rightarrow> relay \<Rightarrow> run_result res \<times> run_state" where
  "ask_run S a sources r =
     (let env = cli_env S r 0 (has_emitter (ao_output a)); sched = ci_sched (su_runs S 0)
      in if sources \<noteq> [] then run env sched (ao_question a) sources (ao_local_extract a)
         else chat env sched (user_message (ao_question a)))"

text \<open>What precedes the run: the source files and the relay's configuration.\<close>

definition ask_inputs :: "surroundings \<Rightarrow> ask_opts \<Rightarrow> (sources \<times> relay) res" where
  "ask_inputs S a =
     bindE (read_sources S (ao_source a) []) (\<lambda>sources. bindE (from_env (su_env S) None) (\<lambda>r. Inr (sources, r)))"

definition ask :: "surroundings \<Rightarrow> ask_opts \<Rightarrow> console \<Rightarrow> unit res \<times> console" where
  "ask S a w =
     (case ask_inputs S a of
        Inl e \<Rightarrow> (Inl e, w)
      | Inr (sources, r) \<Rightarrow> finish_run S (ao_output a) (ask_run S a sources r) w)"

subsection \<open>demo\<close>

definition demo_command :: "surroundings \<Rightarrow> demo_opts \<Rightarrow> console \<Rightarrow> unit res \<times> console" where
  "demo_command S d w =
     finish_run S (do_output d)
       (run_demo (ci_sched (su_runs S 0)) (do_scenario d) (do_delay d) (\<not> do_no_cloud d) (has_emitter (do_output d))) w"

subsection \<open>eval\<close>

text \<open>\<open>str.isalnum\<close> of one character up to 255.\<close>

definition isalnum :: "char \<Rightarrow> bool" where
  "isalnum c \<longleftrightarrow> is_digit c \<or> is_lower_latin c \<or> is_upper_latin c
     \<or> (of_char c :: nat) \<in> {0xAA, 0xB2, 0xB3, 0xB5, 0xB9, 0xBA, 0xBC, 0xBD, 0xBE, 0xDF, 0xFF}"

definition slug :: "string \<Rightarrow> string" where
  "slug name = rstrip_chars ''-'' (lstrip_chars ''-'' (map (\<lambda>c. if isalnum c then c else CHR ''-'') (lower name)))"

definition page_name :: "nat \<Rightarrow> test_case \<Rightarrow> string" where
  "page_name i c = pad_zero 2 (show_nat i) @ ''-'' @ slug (tc_name c) @ ''.html''"

definition case_line :: "nat \<Rightarrow> nat \<Rightarrow> test_case \<Rightarrow> string" where
  "case_line i n c =
     ''['' @ show_nat i @ ''/'' @ show_nat n @ ''] '' @ tc_name c @ '' (expect '' @ join '' or '' (tc_expected_route c) @ '')''"

definition answer_note :: "case_result \<Rightarrow> string" where
  "answer_note r =
     (case cs_correct r of None \<Rightarrow> [] | Some b \<Rightarrow> '' answer '' @ (if b then ''correct'' else ''WRONG''))
     @ (if has_expects r
        then '' delegated '' @ show_int (cs_local_subtasks r)
             @ (if cs_parallel_ms r \<noteq> 0 then '' ('' @ show_int (cs_parallel_ms r) @ ''ms parallel)'' else [])
             @ (if cs_unmet r = [] then [] else '' UNMET: '' @ join ''; '' (cs_unmet r))
        else [])"

definition result_line :: "case_result \<Rightarrow> string" where
  "result_line r =
     ''    -> '' @ cs_route r @ '' '' @ (if cs_matched r then ''OK'' else ''MISMATCH'') @ answer_note r @ '' ''
     @ join '' '' (map (\<lambda>(t, x). t @ ''='' @ fmt2 x) (cs_scores r)) @ '' '' @ real_repr (cs_elapsed_s r) @ ''s''
     @ (if cs_error r \<noteq> [] then '' error: '' @ cs_error r else [])"

definition eval_case :: "surroundings \<Rightarrow> relay \<Rightarrow> nat \<Rightarrow> test_case \<Rightarrow> case_result res" where
  "eval_case S r i c = run_case (su_found S) (cli_env S r i True) (ci_sched (su_runs S i)) (ci_secs (su_runs S i)) c"

definition write_page :: "surroundings \<Rightarrow> eval_opts \<Rightarrow> nat \<Rightarrow> case_result \<Rightarrow> console \<Rightarrow> unit res \<times> console" where
  "write_page S v i x w =
     (case given (vo_graph_dir v) of
        None \<Rightarrow> (Inr (), w)
      | Some d \<Rightarrow> write_text S (d @ ''/'' @ page_name i (cs_case x)) (render_html (su_template S) (cs_graph x)) w)"

text \<open>The loop over the selected cases, from number \<open>i\<close> of \<open>n\<close> on.\<close>

fun eval_loop ::
    "surroundings \<Rightarrow> eval_opts \<Rightarrow> relay \<Rightarrow> nat \<Rightarrow> nat \<Rightarrow> test_case list \<Rightarrow> case_result list \<Rightarrow> console \<Rightarrow> case_result list res \<times> console" where
  "eval_loop S v r n i [] rs w = (Inr rs, w)"
| "eval_loop S v r n i (c # cs) rs w =
     (let w1 = print_err (case_line i n c) w
      in case eval_case S r i c of
           Inl e \<Rightarrow> (Inl e, w1)
         | Inr x \<Rightarrow>
             (case write_page S v i x (print_err (result_line x) w1) of
                (Inl e, w2) \<Rightarrow> (Inl e, w2)
              | (Inr _, w2) \<Rightarrow> eval_loop S v r n (Suc i) cs (rs @ [x]) w2))"

text \<open>\<open>load_cases(path)\<close>: the given file, or the tests of the package.\<close>

definition read_cases :: "surroundings \<Rightarrow> string option \<Rightarrow> test_case list res" where
  "read_cases S p =
     bindE (case given p of None \<Rightarrow> Inr (su_tests S) | Some q \<Rightarrow> su_read S q) (load_cases (su_compiles S))"

text \<open>What precedes the loop: the relay and the selected cases.\<close>

definition eval_inputs :: "surroundings \<Rightarrow> eval_opts \<Rightarrow> (relay \<times> test_case list) res" where
  "eval_inputs S v =
     bindE (from_env (su_env S) None) (\<lambda>r.
     bindE (read_cases S (vo_cases v)) (\<lambda>all.
     bindE (select_cases all (vo_select v)) (\<lambda>cases.
     bindE (requireE (cases \<noteq> []) (ValueError ''No test case matches that selection'')) (\<lambda>_. Inr (r, cases)))))"

definition eval_report :: "bool \<Rightarrow> case_result list \<Rightarrow> pyval" where
  "eval_report as_json rs =
     (if as_json then PDict [(''summary'', summary_dict (summarize rs)), (''results'', PList (map case_result_dict rs))]
      else summary_dict (summarize rs))"

definition evaluate_command :: "surroundings \<Rightarrow> eval_opts \<Rightarrow> console \<Rightarrow> unit res \<times> console" where
  "evaluate_command S v w =
     (case eval_inputs S v of
        Inl e \<Rightarrow> (Inl e, w)
      | Inr (r, cases) \<Rightarrow>
          (case (case given (vo_graph_dir v) of None \<Rightarrow> (Inr (), w) | Some d \<Rightarrow> make_dir S d w) of
             (Inl e, w1) \<Rightarrow> (Inl e, w1)
           | (Inr _, w1) \<Rightarrow>
               (case eval_loop S v r (length cases) 1 cases [] w1 of
                  (Inl e, w2) \<Rightarrow> (Inl e, w2)
                | (Inr rs, w2) \<Rightarrow> (Inr (), print_out (json_indented 0 (eval_report (vo_json v) rs)) w2))))"

subsection \<open>tune\<close>

text \<open>A profile as \<^verbatim>\<open>profile_case\<close> returns it.\<close>

definition real_val :: "real option \<Rightarrow> pyval" where
  "real_val x = opt_val (\<lambda>y. PFloat (Fin y)) x"

definition tier_dict :: "tier_profile \<Rightarrow> pyval" where
  "tier_dict t = PDict
     [(''signals'', PDict (map (\<lambda>(k, x). (k, real_val x)) (tp_signals t))),
      (''token_stats'', PDict [(''prob'', real_val (tp_prob t)), (''hesitation'', real_val (tp_hesitation t)),
                             (''count'', opt_val (\<lambda>n. PInt (int n)) (tp_count t))]),
      (''answer_tokens'', PInt (int (tp_answer_tokens t))), (''requested'', PBool (tp_requested t)), (''empty'', PBool (tp_empty t)),
      (''critic'', PDict [(''passed'', PBool (tp_critic_passed t)), (''severity'', PFloat (Fin (tp_critic_severity t))),
                        (''skipped'', PBool (tp_critic_skipped t))]),
      (''answer'', PStr (tp_answer t)), (''correct'', opt_val PBool (tp_correct t))]"

definition profile_dict :: "case_profile \<Rightarrow> pyval" where
  "profile_dict p = PDict
     [(''name'', PStr (pf_name p)), (''expected'', PList (map PStr (pf_expected p))), (''complexity'', PFloat (Fin (pf_complexity p))),
      (''parts'', PInt (int (pf_parts p))), (''tiers'', PDict (map (\<lambda>(k, t). (k, tier_dict t)) (pf_tiers p)))]"

text \<open>
  The profiles of a saved file. An entry that is missing or of another type than \<^verbatim>\<open>profile\<close> writes is an exception here; the code fails
  where it uses the entry.
\<close>

fun read_opt :: "(pyval \<Rightarrow> 'a res) \<Rightarrow> pyval \<Rightarrow> 'a option res" where
  "read_opt f PNone = Inr None"
| "read_opt f v = bindE (f v) (\<lambda>x. Inr (Some x))"

fun read_nat :: "pyval \<Rightarrow> nat res" where
  "read_nat (PInt i) = (if 0 \<le> i then Inr (nat i) else Inl TypeError)"
| "read_nat _ = Inl TypeError"

fun read_list :: "(pyval \<Rightarrow> 'a res) \<Rightarrow> pyval \<Rightarrow> 'a list res" where
  "read_list f (PList vs) = mapE f vs"
| "read_list f _ = Inl TypeError"

fun read_dict :: "(pyval \<Rightarrow> 'a res) \<Rightarrow> pyval \<Rightarrow> (string, 'a) dict res" where
  "read_dict f (PDict d) = mapE (\<lambda>(k, v). bindE (f v) (\<lambda>x. Inr (k, x))) d"
| "read_dict f _ = Inl TypeError"

definition read_item :: "(pyval \<Rightarrow> 'a res) \<Rightarrow> string \<Rightarrow> pydict \<Rightarrow> 'a res" where
  "read_item f k d = bindE (item d k) f"

definition read_tier :: "pyval \<Rightarrow> tier_profile res" where
  "read_tier v =
     (case v of PDict d \<Rightarrow>
        bindE (read_item (read_dict (read_opt as_real)) ''signals'' d) (\<lambda>sigs. bindE (dict_item d ''token_stats'') (\<lambda>st.
        bindE (read_item (read_opt as_real) ''prob'' st) (\<lambda>prob. bindE (read_item (read_opt as_real) ''hesitation'' st) (\<lambda>hes.
        bindE (read_item (read_opt read_nat) ''count'' st) (\<lambda>n. bindE (read_item read_nat ''answer_tokens'' d) (\<lambda>tokens.
        bindE (read_item as_bool ''requested'' d) (\<lambda>requested. bindE (read_item as_bool ''empty'' d) (\<lambda>empty.
        bindE (dict_item d ''critic'') (\<lambda>cr. bindE (read_item as_bool ''passed'' cr) (\<lambda>passed.
        bindE (read_item as_real ''severity'' cr) (\<lambda>severity. bindE (read_item as_bool ''skipped'' cr) (\<lambda>skipped.
        bindE (read_item as_text ''answer'' d) (\<lambda>answer. bindE (read_item (read_opt as_bool) ''correct'' d) (\<lambda>correct.
        Inr \<lparr>tp_signals = sigs, tp_prob = prob, tp_hesitation = hes, tp_count = n, tp_answer_tokens = tokens, tp_requested = requested,
             tp_empty = empty, tp_critic_passed = passed, tp_critic_severity = severity, tp_critic_skipped = skipped, tp_answer = answer,
             tp_correct = correct\<rparr>))))))))))))))
      | _ \<Rightarrow> Inl TypeError)"

definition read_profile :: "pyval \<Rightarrow> case_profile res" where
  "read_profile v =
     (case v of PDict d \<Rightarrow>
        bindE (read_item as_text ''name'' d) (\<lambda>name. bindE (read_item (read_list as_text) ''expected'' d) (\<lambda>route.
        bindE (read_item as_real ''complexity'' d) (\<lambda>complexity. bindE (read_item read_nat ''parts'' d) (\<lambda>n.
        bindE (read_item (read_dict read_tier) ''tiers'' d) (\<lambda>tiers.
        Inr \<lparr>pf_name = name, pf_expected = route, pf_complexity = complexity, pf_parts = n, pf_tiers = tiers\<rparr>)))))
      | _ \<Rightarrow> Inl TypeError)"

text \<open>The loop of \<^verbatim>\<open>profile\<close> with its progress lines.\<close>

fun profile_loop :: "surroundings \<Rightarrow> relay \<Rightarrow> nat \<Rightarrow> test_case list \<Rightarrow> case_profile list \<Rightarrow> console \<Rightarrow> case_profile list res \<times> console" where
  "profile_loop S r i [] ps w = (Inr ps, w)"
| "profile_loop S r i (c # cs) ps w =
     (let w1 = print_err (''[profile '' @ show_nat i @ ''] '' @ tc_name c) w
      in case profile_case (su_found S) (cli_env S r i True) (ci_sched (su_runs S i)) c of
           Inl e \<Rightarrow> (Inl e, w1)
         | Inr p \<Rightarrow> profile_loop S r (Suc i) cs (ps @ [p]) w1)"

definition tune_profiles :: "surroundings \<Rightarrow> tune_opts \<Rightarrow> console \<Rightarrow> case_profile list res \<times> console" where
  "tune_profiles S t w =
     (if to_reuse t \<and> su_exists S (to_profiles t)
      then (bindE (su_read S (to_profiles t)) (\<lambda>body.
              case json_loads body of None \<Rightarrow> Inl (ValueError ''not a JSON document'') | Some v \<Rightarrow> read_list read_profile v), w)
      else
        (case bindE (read_cases S (to_cases t)) (\<lambda>cs. bindE (from_env (su_env S) None) (\<lambda>r. Inr (r, unforced cs))) of
           Inl e \<Rightarrow> (Inl e, w)
         | Inr (r, cs) \<Rightarrow>
             (case profile_loop S r 1 cs [] w of
                (Inl e, w1) \<Rightarrow> (Inl e, w1)
              | (Inr ps, w1) \<Rightarrow>
                  (case write_text S (to_profiles t) (json_indented 0 (PList (map profile_dict ps))) w1 of
                     (Inl e, w2) \<Rightarrow> (Inl e, w2)
                   | (Inr _, w2) \<Rightarrow> (Inr ps, print_err (''Profiles saved to '' @ to_profiles t) w2)))))"

text \<open>The configured policy as a candidate.\<close>

definition rule_attr :: "policy \<Rightarrow> string \<Rightarrow> (rule \<Rightarrow> 'a option) \<Rightarrow> 'a option" where
  "rule_attr p name attr = (case filter (\<lambda>r. rule_name r = name) (rules p) of [] \<Rightarrow> None | r # _ \<Rightarrow> attr r)"

definition current_params :: "policy \<Rightarrow> params" where
  "current_params p =
     \<lparr>pa_weights = weights p, pa_threshold_local = threshold p ''local'', pa_threshold_mid = threshold p ''mid'',
      pa_critic_min = rule_attr p ''escalate_when_critic_rejects'' rule_min_severity, pa_skip_small_above = skip_small_above p,
      pa_token_max = rule_attr p ''escalate_when_tokens_are_uncertain'' rule_limit,
      pa_token_min_length = Some (case rule_attr p ''escalate_when_tokens_are_uncertain'' rule_min_tokens of
                                    None \<Rightarrow> 1 | Some n \<Rightarrow> if n = 0 then 1 else n),
      pa_token_signal = None, pa_big_goal_parts = None\<rparr>"

text \<open>The keys a candidate has; \<open>current\<close> has no \<open>token_signal\<close>, and no candidate of \<^verbatim>\<open>tune\<close> has \<open>big_goal_parts\<close>.\<close>

definition params_dict :: "params \<Rightarrow> pyval" where
  "params_dict pa = PDict
     ([(''weights'', PDict (map (\<lambda>(k, x). (k, PFloat (Fin x))) (pa_weights pa))),
       (''thresholds'', PDict [(''local'', PFloat (Fin (pa_threshold_local pa))), (''mid'', PFloat (Fin (pa_threshold_mid pa)))]),
       (''critic_min'', real_val (pa_critic_min pa)), (''skip_small_above'', opt_val PFloat (pa_skip_small_above pa)),
       (''token_max'', real_val (pa_token_max pa)), (''token_min_length'', opt_val (\<lambda>n. PInt (int n)) (pa_token_min_length pa))]
      @ (case pa_token_signal pa of None \<Rightarrow> [] | Some sig \<Rightarrow> [(''token_signal'', PStr sig)]))"

definition tuning_counts :: "tuning_result \<Rightarrow> pydict" where
  "tuning_counts x =
     [(''objective'', PFloat (Fin (tr_objective x))), (''matched'', PInt (int (tr_matched x))), (''wrong_local'', PInt (int (tr_wrong_local x))),
      (''passed_over_correct'', PInt (int (tr_passed_over_correct x))), (''wasted_cloud'', PInt (int (tr_wasted_cloud x))),
      (''cloud'', PInt (int (tr_cloud x))), (''cases'', PInt (int (tr_cases x)))]"

definition tuning_dict :: "tuning_result \<Rightarrow> pyval" where
  "tuning_dict x = PDict (tuning_counts x @ [(''routes'', PList (map PStr (tr_routes x)))])"

definition tune_report :: "params \<Rightarrow> tuning_result \<Rightarrow> (params \<times> tuning_result) list \<Rightarrow> case_profile list \<Rightarrow> pyval" where
  "tune_report cur result ranked ps =
     PDict [(''current'', PDict [(''params'', params_dict cur), (''result'', tuning_dict result)]),
            (''best'', PDict [(''params'', params_dict (fst (hd ranked))), (''result'', tuning_dict (snd (hd ranked)))]),
            (''runners_up'', PList (map (\<lambda>(p, x). PDict [(''params'', params_dict p), (''result'', PDict (tuning_counts x))]) (take 5 (tl ranked)))),
            (''cases'', PList (map (\<lambda>(p, c, b). PDict
               [(''name'', PStr (pf_name p)), (''expected'', PList (map PStr (pf_expected p))), (''current'', PStr c), (''best'', PStr b)])
               (zip ps (zip (tr_routes result) (tr_routes (snd (hd ranked)))))))]"

definition tune :: "surroundings \<Rightarrow> tune_opts \<Rightarrow> console \<Rightarrow> unit res \<times> console" where
  "tune S t w =
     (case tune_profiles S t w of
        (Inl e, w1) \<Rightarrow> (Inl e, w1)
      | (Inr ps, w1) \<Rightarrow>
          (case from_env (su_env S) None of
             Inl e \<Rightarrow> (Inl e, w1)
           | Inr r \<Rightarrow>
               (let cur = current_params (rl_policy r); result = evaluate cur ps; ranked = search ps
                in (Inr (), print_out (json_indented 0 (tune_report cur result ranked ps))
                      (print_err (''best:    '' @ py_repr (tuning_dict (snd (hd ranked))))
                        (print_err (''current: '' @ py_repr (tuning_dict result)) w1))))))"

subsection \<open>main\<close>

text \<open>The end of the process: an exit status, or an exception that nobody caught.\<close>

datatype exit_status = Exit nat | Traceback exn

text \<open>What \<open>main\<close> catches; Python's \<open>TimeoutError\<close> is an \<open>OSError\<close>.\<close>

fun is_caught :: "exn \<Rightarrow> bool" where
  "is_caught (ValueError _) = True"
| "is_caught (OSError _) = True"
| "is_caught TimeoutError = True"
| "is_caught e = is_relay_error e"

definition run_command :: "surroundings \<Rightarrow> command \<Rightarrow> console \<Rightarrow> unit res \<times> console" where
  "run_command S c w = (case c of Ask a \<Rightarrow> ask S a w | Eval v \<Rightarrow> evaluate_command S v w | Tune t \<Rightarrow> tune S t w | Demo d \<Rightarrow> demo_command S d w)"

definition cli_main :: "surroundings \<Rightarrow> command \<Rightarrow> console \<Rightarrow> exit_status \<times> console" where
  "cli_main S c w =
     (case run_command S c w of
        (Inr _, w1) \<Rightarrow> (Exit 0, w1)
      | (Inl e, w1) \<Rightarrow> if is_caught e then (Exit 1, print_err (''Relay stopped: '' @ exn_str e) w1) else (Traceback e, w1))"

end
