(* ===== verification/Relay_Cli_Laws.thy ===== *)
theory Relay_Cli_Laws
  imports Relay_Cli Relay_Graph_Laws
begin

section \<open>What the command line promises\<close>

text \<open>
  Standard output carries the answer and nothing else; the page of a run is written whether or not it succeeds, and says how it ended; every
  routing test has a page of its own. Also what happens at the edges: a page that cannot be written, a request that is refused.
\<close>

subsection \<open>What a command leaves behind\<close>

text \<open>Everything but the answer goes to stderr or to a file.\<close>

lemma print_err_simps [simp]:
  "co_out (print_err l w) = co_out w" "co_files (print_err l w) = co_files w" "co_dirs (print_err l w) = co_dirs w"
  "co_err (print_err l w) = co_err w @ l @ newline"
  by (simp_all add: print_err_def)

lemma print_out_simps [simp]:
  "co_out (print_out l w) = co_out w @ l @ newline" "co_files (print_out l w) = co_files w" "co_dirs (print_out l w) = co_dirs w"
  "co_err (print_out l w) = co_err w"
  by (simp_all add: print_out_def)

lemma emit_events_simps [simp]:
  "co_out (emit_events o1 es w) = co_out w" "co_files (emit_events o1 es w) = co_files w"
  "co_err (emit_events o1 es w) = co_err w @ (if oo_events o1 then concat (map (\<lambda>e. json_ascii (event_dict e) @ newline) es) else [])"
proof -
  have "co_out (fold (\<lambda>e. print_err (f e)) es w) = co_out w \<and> co_files (fold (\<lambda>e. print_err (f e)) es w) = co_files w
      \<and> co_err (fold (\<lambda>e. print_err (f e)) es w) = co_err w @ concat (map (\<lambda>e. f e @ newline) es)" for f :: "relay_event \<Rightarrow> string"
    by (induction es arbitrary: w) simp_all
  then show "co_out (emit_events o1 es w) = co_out w" "co_files (emit_events o1 es w) = co_files w"
    "co_err (emit_events o1 es w) = co_err w @ (if oo_events o1 then concat (map (\<lambda>e. json_ascii (event_dict e) @ newline) es) else [])"
    by (simp_all add: emit_events_def)
qed

lemma write_text_out: "write_text S p body w = (x, w1) \<Longrightarrow> co_out w1 = co_out w"
  by (auto simp: write_text_def split: option.splits)

lemma write_graph_out: "write_graph S o1 g w = (x, w1) \<Longrightarrow> co_out w1 = co_out w"
  by (auto simp: write_graph_def write_text_def split: option.splits)

lemma finish_run_out:
  assumes "finish_run S o1 (x, s) w = (y, w1)"
  shows "case y of Inl e \<Rightarrow> co_out w1 = co_out w
    | Inr _ \<Rightarrow> \<exists>r. x = Inr r \<and> co_out w1 = co_out w @ (if oo_json o1 then json_indented 0 (result_dict r) else rr_content r) @ newline"
proof -
  obtain z w2 where wg: "write_graph S o1 (graph_of (events s)) (emit_events o1 (events s) w) = (z, w2)" by force
  from write_graph_out [OF this] assms wg show ?thesis
    by (cases z; cases x) (auto simp: finish_run_def print_result_def)
qed

subsection \<open>The graph of a command's run\<close>

lemma graph_of_snoc: "graph_of (es @ [e]) = (case add_event e (graph_of es) of Inl _ \<Rightarrow> graph_of es | Inr g \<Rightarrow> g)"
  unfolding graph_of_def by simp

lemma graph_of_sound: "graph_sound (graph_of es)"
  by (induction es rule: rev_induct)
    (auto simp: graph_of_snoc intro: add_event_sound split: sum.split, simp add: graph_of_def RunGraph_init_sound)

lemma graph_of_stopped:
  assumes "ev_name e \<in> {''run_failed'', ''run_cancelled''}"
  shows "g_status (graph_of (es @ [e])) \<in> {''failed'', ''cancelled''} \<and> nothing_running (graph_of (es @ [e]))"
proof -
  let ?g = "graph_of es\<lparr>g_run_id := PStr (ev_run_id e), g_simulated := ev_simulated e\<rparr>"
  have g: "graph_sound ?g" using graph_of_sound [of es] by (simp add: graph_sound_def)
  have "graph_of (es @ [e])
      = stop (if ev_name e = ''run_failed'' then ''failed'' else ''cancelled'') (ev_message e) (field (ev_data e) ''metrics'') ?g"
    using assms by (elim insertE emptyE) (simp_all add: graph_of_snoc add_event_def handle_def Let_def)
  then show ?thesis using stop_sound(2) [OF g] by (simp add: stop_def)
qed

text \<open>A run that fails says so: the last event of a run that was accepted and did not return is the one of its failure.\<close>

lemma fail_run_last:
  assumes "e_emit env"
  shows "\<exists>ev. events (snd (fail_run env e s)) = events s @ [ev] \<and> ev_name ev \<in> {''run_failed'', ''run_cancelled''}"
proof -
  have "\<exists>ev. events (snd (after (final_event env name message) (\<lambda>_. raise y) s)) = events s @ [ev] \<and> ev_name ev = name" for name message y
  proof -
    obtain x t where ev: "event (outside env) name message True [(''metrics'', metrics_dict (metrics_of env s))] s = (x, t)" by force
    then have "t = publish (outside env) name message True [(''metrics'', metrics_dict (metrics_of env s))] s" by (metis event_state snd_conv)
    with ev show ?thesis using assms
      by (cases x) (auto simp: after_def final_event_def raise_def publish_def outside_def Let_def)
  qed
  then show ?thesis unfolding fail_run_def by (cases "e = CancelledError"; cases "e = TimeoutError \<or> e = DeadlineCancelled") fastforce+
qed

lemma failed_run_last:
  assumes "run env sched goal sources local_extract = (Inl e, s)" "e_emit env" "events s \<noteq> []"
  shows "\<exists>es ev. events s = es @ [ev] \<and> ev_name ev \<in> {''run_failed'', ''run_cancelled''}"
proof (cases "check_request (e_limits env) goal sources")
  case (Inl x)
  then show ?thesis using assms by (auto simp: run_def Run_init_def)
next
  case (Inr u)
  obtain x s1 where body: "run_body env sched goal sources local_extract (Run_init env) = (x, s1)" by force
  then obtain e1 where "x = Inl e1" using assms(1) Inr by (cases x) (auto simp: run_def catch_def)
  then have "s = snd (fail_run env e1 s1)" using assms(1) Inr body by (simp add: run_def catch_def)
  then show ?thesis using fail_run_last [OF assms(2), of e1 s1] by blast
qed

lemma failed_chat_last:
  assumes "chat env sched msgs = (Inl e, s)" "e_emit env" "events s \<noteq> []"
  shows "\<exists>es ev. events s = es @ [ev] \<and> ev_name ev \<in> {''run_failed'', ''run_cancelled''}"
  using assms(1,3) failed_run_last [OF _ assms(2,3)] by (auto simp: chat_def Run_init_def split: sum.splits)

text \<open>The page of a failed run: it shows the failure, or nothing but the blank graph when the request was refused before the run.\<close>

definition shows_failure :: "relay_event list \<Rightarrow> bool" where
  "shows_failure es \<longleftrightarrow>
     (if es = [] then graph_of es = RunGraph_init
      else g_status (graph_of es) \<in> {''failed'', ''cancelled''} \<and> nothing_running (graph_of es))"

lemma shows_failureI:
  "(es \<noteq> [] \<Longrightarrow> \<exists>fs ev. es = fs @ [ev] \<and> ev_name ev \<in> {''run_failed'', ''run_cancelled''}) \<Longrightarrow> shows_failure es"
  using graph_of_stopped by (fastforce simp: shows_failure_def graph_of_def)

lemma ask_run_failure:
  assumes "ask_run S a sources r = (Inl e, s)" "has_emitter (ao_output a)"
  shows "shows_failure (events s)"
proof (rule shows_failureI)
  have emit: "e_emit (cli_env S r 0 True)" by (simp add: cli_env_def relay_env_def)
  assume "events s \<noteq> []"
  then show "\<exists>fs ev. events s = fs @ [ev] \<and> ev_name ev \<in> {''run_failed'', ''run_cancelled''}"
    using assms failed_run_last [OF _ emit] failed_chat_last [OF _ emit] by (auto simp: ask_run_def Let_def split: if_splits)
qed


text \<open>What a run raises is an error of the relay, unless it is cancelled.\<close>

lemma run_raisesD: "run env sched goal sources local_extract = (Inl e, s) \<Longrightarrow> is_relay_error e \<or> e = CancelledError"
  using run_raises [of env sched goal sources local_extract] by simp

lemma chat_raises: "chat env sched msgs = (Inl e, s) \<Longrightarrow> is_relay_error e \<or> e = CancelledError"
  using run_raisesD check_messages_errors
  by (auto simp: chat_def to_request_def bindE_eq_Inl Let_def split: sum.splits if_splits)

lemma ask_run_raises: "ask_run S a sources r = (Inl e, s) \<Longrightarrow> is_relay_error e \<or> e = CancelledError"
  unfolding ask_run_def Let_def using run_raisesD chat_raises by (simp split: if_splits)

lemma is_caught_relay [simp]: "is_relay_error e \<Longrightarrow> is_caught e" "\<not> is_caught CancelledError"
  by (cases e) auto

subsection \<open>The loop of the routing tests\<close>

lemma write_page_out: "write_page S v i x w = (y, w1) \<Longrightarrow> co_out w1 = co_out w"
  by (auto simp: write_page_def split: option.splits dest: write_text_out)

definition pages :: "surroundings \<Rightarrow> eval_opts \<Rightarrow> nat \<Rightarrow> case_result list \<Rightarrow> (string \<times> string) list" where
  "pages S v i xs =
     (case given (vo_graph_dir v) of
        None \<Rightarrow> []
      | Some d \<Rightarrow> map (\<lambda>(j, x). (d @ ''/'' @ page_name j (cs_case x), render_html (su_template S) (cs_graph x))) (enumerate i xs))"

lemma eval_loop_out: "co_out (snd (eval_loop S v r n i cs rs w)) = co_out w"
  by (induction cs arbitrary: i rs w)
    (auto simp: Let_def write_page_out split: sum.split prod.split)

lemma eval_loop_Inr:
  "eval_loop S v r n i cs rs w = (Inr out, w') \<Longrightarrow>
     \<exists>xs. out = rs @ xs \<and> list_all2 (\<lambda>(j, c) x. eval_case S r j c = Inr x) (enumerate i cs) xs
        \<and> co_files w' = co_files w @ pages S v i xs"
proof (induction cs arbitrary: i rs w)
  case Nil
  then show ?case by (auto simp: pages_def split: option.split)
next
  case (Cons c cs)
  let ?w1 = "print_err (case_line i n c) w"
  obtain x where x: "eval_case S r i c = Inr x" using Cons.prems by (auto simp: Let_def split: sum.splits)
  obtain u w2 where wp: "write_page S v i x (print_err (result_line x) ?w1) = (Inr u, w2)"
    and rest: "eval_loop S v r n (Suc i) cs (rs @ [x]) w2 = (Inr out, w')"
    using Cons.prems x by (auto simp: Let_def split: sum.splits prod.splits)
  obtain xs where xs: "out = (rs @ [x]) @ xs" "list_all2 (\<lambda>(j, c) x. eval_case S r j c = Inr x) (enumerate (Suc i) cs) xs"
    "co_files w' = co_files w2 @ pages S v (Suc i) xs"
    using Cons.IH [OF rest] by blast
  have "co_files w2 @ pages S v (Suc i) xs = co_files w @ pages S v i (x # xs)"
    using wp by (auto simp: pages_def write_page_def write_text_def split: option.splits)
  then show ?case using xs x by (intro exI [of _ "x # xs"]) simp
qed

subsection \<open>The pages of the routing tests\<close>

lemma digits_value_pad: "digits_value (pad_zero k (show_nat n)) = int n"
proof -
  have step: "foldl (\<lambda>acc c. if is_digit c then acc * 10 + (int (of_char c) - 48) else acc) a (show_nat n) = a * 10 ^ length (show_nat n) + int n" for a
  proof (induction n arbitrary: a rule: show_nat.induct)
    case (1 n)
    have d: "is_digit (digit_char m) \<and> int (of_char (digit_char m)) - 48 = int m" if "m < 10" for m
      using that by (auto simp: digit_char_def is_digit_def Let_def)
    show ?case
    proof (cases "n < 10")
      case True
      then show ?thesis using d [OF True] by (simp add: show_nat.simps [of n])
    next
      case False
      then show ?thesis using d [of "n mod 10"] 1 [OF False]
        by (simp add: show_nat.simps [of n] algebra_simps) presburger
    qed
  qed
  have "foldl (\<lambda>acc c. if is_digit c then acc * 10 + (int (of_char c) - 48) else acc) 0 (replicate m (CHR ''0'')) = 0" for m
    by (induction m) (auto simp: is_digit_def)
  then show ?thesis by (simp add: digits_value_def pad_zero_def step)
qed

lemma show_nat_digits: "list_all is_digit (show_nat n)"
proof (induction n rule: show_nat.induct)
  case (1 n)
  have d: "is_digit (digit_char m)" if "m < 10" for m
    using that by (auto simp: digit_char_def is_digit_def Let_def)
  show ?case using 1 d by (subst show_nat.simps) auto
qed

lemma page_number: "takeWhile is_digit (page_name i c) = pad_zero 2 (show_nat i)"
proof -
  have "list_all is_digit (pad_zero 2 (show_nat i))"
    using show_nat_digits [of i] by (auto simp: pad_zero_def list_all_iff is_digit_def)
  then show ?thesis by (auto simp: page_name_def list_all_iff takeWhile_append is_digit_def)
qed

lemma page_name_number: "page_name i c = page_name j d \<Longrightarrow> i = j"
  using page_number [of i c] page_number [of j d] digits_value_pad [of 2 i] digits_value_pad [of 2 j] by simp

text \<open>No test overwrites the page of another one.\<close>

lemma pages_distinct: "distinct (map fst (pages S v i xs))"
proof (cases "given (vo_graph_dir v)")
  case (Some d)
  have "inj_on (\<lambda>(j, x). d @ ''/'' @ page_name j (cs_case x)) (set (enumerate i xs))"
    by (auto simp: inj_on_def dest!: page_name_number) (metis eq_key_imp_eq_value distinct_enumerate in_set_enumerate_eq fst_conv snd_conv)
  then have "distinct (map (\<lambda>(j, x). d @ ''/'' @ page_name j (cs_case x)) (enumerate i xs))" by (simp add: distinct_map)
  then show ?thesis by (simp add: pages_def Some split_def comp_def)
qed (simp add: pages_def)

text \<open>The sources of \<open>ask\<close>: each one is a nonempty name, the first equals sign and a nonempty path; a name given again gets the later text.\<close>

definition names_source :: "surroundings \<Rightarrow> string \<Rightarrow> string \<times> string \<Rightarrow> bool" where
  "names_source S entry nb \<longleftrightarrow>
     (\<exists>p. entry = fst nb @ CHR ''='' # p \<and> fst nb \<noteq> [] \<and> CHR ''='' \<notin> set (fst nb) \<and> p \<noteq> [] \<and> su_read S p = Inr (snd nb))"

lemma names_source_iff:
  "names_source S entry (m, body) \<longleftrightarrow>
     (case partition_at (CHR ''='') entry of (n, sep, p) \<Rightarrow> sep \<and> m = n \<and> n \<noteq> [] \<and> p \<noteq> [] \<and> su_read S p = Inr body)"
proof -
  obtain n sep p where part: "partition_at (CHR ''='') entry = (n, sep, p)" by (metis surj_pair)
  have "entry = m @ CHR ''='' # q \<and> CHR ''='' \<notin> set m \<longleftrightarrow> sep \<and> m = n \<and> q = p" for q
  proof
    assume "entry = m @ CHR ''='' # q \<and> CHR ''='' \<notin> set m"
    then have "partition_at (CHR ''='') entry = (m, True, q)" by (simp add: partition_at_append)
    then show "sep \<and> m = n \<and> q = p" using part by simp
  next
    assume r: "sep \<and> m = n \<and> q = p"
    then have "partition_at (CHR ''='') entry = (n, True, p)" using part by simp
    from partition_at_found [OF this] r show "entry = m @ CHR ''='' # q \<and> CHR ''='' \<notin> set m" by simp
  qed
  note split = this
  have "names_source S entry (m, body)
      \<longleftrightarrow> (\<exists>q. (entry = m @ CHR ''='' # q \<and> CHR ''='' \<notin> set m) \<and> m \<noteq> [] \<and> q \<noteq> [] \<and> su_read S q = Inr body)"
    by (auto simp: names_source_def)
  then show ?thesis unfolding split using part by auto
qed

lemma read_sources_Inr:
  "read_sources S items acc = Inr out \<longleftrightarrow>
     (\<exists>named. list_all2 (names_source S) items named \<and> out = foldl (\<lambda>d (n, body). dict_set n body d) acc named)"
proof (induction items arbitrary: acc)
  case (Cons entry items)
  obtain n sep p where part: "partition_at (CHR ''='') entry = (n, sep, p)" by (metis surj_pair)
  have "read_sources S (entry # items) acc = Inr out \<longleftrightarrow>
      (\<exists>mb. names_source S entry mb \<and> read_sources S items (dict_set (fst mb) (snd mb) acc) = Inr out)"
    using part by (auto simp: bindE_eq_Inr names_source_iff)
  also have "\<dots> \<longleftrightarrow> (\<exists>mb named. names_source S entry mb \<and> list_all2 (names_source S) items named
      \<and> out = foldl (\<lambda>d (n, body). dict_set n body d) (dict_set (fst mb) (snd mb) acc) named)"
    unfolding Cons.IH by blast
  also have "\<dots> \<longleftrightarrow> (\<exists>named. list_all2 (names_source S) (entry # items) named
      \<and> out = foldl (\<lambda>d (n, body). dict_set n body d) acc named)" (is "?L \<longleftrightarrow> ?R")
  proof
    assume ?L
    then obtain mb named where "names_source S entry mb" "list_all2 (names_source S) items named"
        "out = foldl (\<lambda>d (n, body). dict_set n body d) (dict_set (fst mb) (snd mb) acc) named" by blast
    then show ?R by (intro exI [of _ "mb # named"]) (simp add: split_def)
  next
    assume ?R
    then obtain mb named where "names_source S entry mb" "list_all2 (names_source S) items named"
        "out = foldl (\<lambda>d (n, body). dict_set n body d) acc (mb # named)" by (auto simp only: list_all2_Cons1)
    then show ?L by (intro exI [of _ mb] exI [of _ named]) (simp add: split_def)
  qed
  finally show ?case .
qed auto

subsection \<open>Guarantees\<close>

lemma ask_out:
  "ask S a w = (y, w1) \<Longrightarrow> case y of Inl e \<Rightarrow> co_out w1 = co_out w
    | Inr _ \<Rightarrow> \<exists>sources r rr s. ask_inputs S a = Inr (sources, r) \<and> ask_run S a sources r = (Inr rr, s)
        \<and> co_out w1 = co_out w @ (if oo_json (ao_output a) then json_indented 0 (result_dict rr) else rr_content rr) @ newline"
proof (cases "ask_inputs S a")
  case (Inr sr)
  obtain sources r x s where parts: "sr = (sources, r)" "ask_run S a sources r = (x, s)" by (metis surj_pair)
  assume "ask S a w = (y, w1)"
  then have "finish_run S (ao_output a) (x, s) w = (y, w1)" using Inr parts by (simp add: ask_def)
  from finish_run_out [OF this] show ?thesis using Inr parts by (cases y) auto
qed (auto simp: ask_def)

lemma demo_out:
  "demo_command S d w = (y, w1) \<Longrightarrow> case y of Inl e \<Rightarrow> co_out w1 = co_out w
    | Inr _ \<Rightarrow> \<exists>rr s. run_demo (ci_sched (su_runs S 0)) (do_scenario d) (do_delay d) (\<not> do_no_cloud d) (has_emitter (do_output d)) = (Inr rr, s)
        \<and> co_out w1 = co_out w @ (if oo_json (do_output d) then json_indented 0 (result_dict rr) else rr_content rr) @ newline"
  unfolding demo_command_def
  by (cases "run_demo (ci_sched (su_runs S 0)) (do_scenario d) (do_delay d) (\<not> do_no_cloud d) (has_emitter (do_output d))")
    (auto dest!: finish_run_out split: sum.splits split del: if_split)

lemma evaluate_Inr:
  assumes "evaluate_command S v w = (Inr u, w1)"
  obtains r cases rs where "eval_inputs S v = Inr (r, cases)"
    "list_all2 (\<lambda>(i, c) x. eval_case S r i c = Inr x) (enumerate 1 cases) rs"
    "co_out w1 = co_out w @ json_indented 0 (eval_report (vo_json v) rs) @ newline"
    "co_files w1 = co_files w @ pages S v 1 rs"
proof -
  obtain r cases w0 rs w2 where inputs: "eval_inputs S v = Inr (r, cases)"
      and dir: "(case given (vo_graph_dir v) of None \<Rightarrow> (Inr (), w) | Some d \<Rightarrow> make_dir S d w) = (Inr (), w0)"
      and loop: "eval_loop S v r (length cases) 1 cases [] w0 = (Inr rs, w2)" and w1: "w1 = print_out (json_indented 0 (eval_report (vo_json v) rs)) w2"
    using assms by (auto simp: evaluate_command_def split: sum.splits prod.splits)
  have w0: "co_out w0 = co_out w" "co_files w0 = co_files w" using dir by (auto simp: make_dir_def split: option.splits)
  obtain xs where xs: "rs = [] @ xs" "list_all2 (\<lambda>(j, c) x. eval_case S r j c = Inr x) (enumerate 1 cases) xs"
    "co_files w2 = co_files w0 @ pages S v 1 xs"
    using eval_loop_Inr [OF loop] by blast
  moreover have "co_out w2 = co_out w0" using eval_loop_out [of S v r "length cases" 1 cases "[]" w0] loop by simp
  ultimately show thesis using that [OF inputs] w0 w1 by simp
qed

lemma evaluate_Inl: "evaluate_command S v w = (Inl e, w1) \<Longrightarrow> co_out w1 = co_out w"
proof (cases "eval_inputs S v")
  case (Inr rc)
  obtain r cases u w0 where parts: "rc = (r, cases)" "(case given (vo_graph_dir v) of None \<Rightarrow> (Inr (), w) | Some d \<Rightarrow> make_dir S d w) = (u, w0)"
    by (metis surj_pair)
  obtain rs w2 where loop: "eval_loop S v r (length cases) 1 cases [] w0 = (rs, w2)" by force
  have "co_out w0 = co_out w" using parts(2) by (auto simp: make_dir_def split: option.splits)
  moreover have "co_out w2 = co_out w0" using eval_loop_out [of S v r "length cases" 1 cases "[]" w0] loop by simp
  moreover assume "evaluate_command S v w = (Inl e, w1)"
  then have "w1 = w0 \<or> w1 = w2" using Inr parts loop by (auto simp: evaluate_command_def split: sum.splits)
  ultimately show ?thesis by auto
qed (simp add: evaluate_command_def)

lemma profile_loop_out: "co_out (snd (profile_loop S r i cs ps w)) = co_out w"
  by (induction cs arbitrary: i ps w) (auto simp: Let_def split: sum.split)

lemma tune_profiles_out: "tune_profiles S t w = (x, w1) \<Longrightarrow> co_out w1 = co_out w"
proof (cases "to_reuse t \<and> su_exists S (to_profiles t)")
  case False
  assume tp: "tune_profiles S t w = (x, w1)"
  show ?thesis
  proof (cases "bindE (read_cases S (to_cases t)) (\<lambda>cs. bindE (from_env (su_env S) None) (\<lambda>r. Inr (r, unforced cs)))")
    case (Inl e)
    then show ?thesis using tp False by (auto simp: tune_profiles_def)
  next
    case (Inr rc)
    obtain r cs y w0 where parts: "rc = (r, cs)" "profile_loop S r 1 cs [] w = (y, w0)" by (metis surj_pair)
    then have "co_out w0 = co_out w" using profile_loop_out [of S r 1 cs "[]" w] by simp
    then show ?thesis using tp Inr parts False
      by (auto simp: tune_profiles_def dest!: write_text_out split: sum.splits prod.splits)
  qed
qed (auto simp: tune_profiles_def)

lemma tune_out:
  "tune S t w = (y, w1) \<Longrightarrow> case y of Inl e \<Rightarrow> co_out w1 = co_out w
    | Inr _ \<Rightarrow> \<exists>ps w2 r. tune_profiles S t w = (Inr ps, w2) \<and> from_env (su_env S) None = Inr r
        \<and> co_out w1 = co_out w @ json_indented 0
            (tune_report (current_params (rl_policy r)) (evaluate (current_params (rl_policy r)) ps) (search ps) ps) @ newline"
proof -
  obtain x w0 where tp: "tune_profiles S t w = (x, w0)" by force
  from tune_profiles_out [OF this] show "tune S t w = (y, w1) \<Longrightarrow> ?thesis"
    using tp by (cases x; cases "from_env (su_env S) None") (auto simp: tune_def Let_def)
qed

text \<open>\<^verbatim>\<open>tune --reuse\<close> reads the profiles that the profiling run wrote.\<close>

lemma mapE_map: "(\<And>x. x \<in> set xs \<Longrightarrow> f (g x) = Inr x) \<Longrightarrow> mapE f (map g xs) = Inr xs"
  by (induction xs) auto

lemma read_opt_vals [simp]:
  "read_opt as_real (real_val r) = Inr r" "read_opt read_nat (opt_val (\<lambda>n. PInt (int n)) m) = Inr m" "read_opt as_bool (opt_val PBool b) = Inr b"
  by (cases r, auto simp: real_val_def opt_val_def) (cases m, auto simp: opt_val_def, cases b, auto simp: opt_val_def)

lemma read_entries: "(\<And>x. f (g x) = Inr x) \<Longrightarrow> mapE (\<lambda>(k, v). bindE (f v) (\<lambda>x. Inr (k, x))) (map (\<lambda>(k, x). (k, g x)) d) = Inr d"
  by (induction d) auto

lemma read_tier_dict: "read_tier (tier_dict t) = Inr t"
  by (simp add: read_tier_def tier_dict_def read_item_def item_def dict_item_def read_entries)

lemma read_profile_dict: "read_profile (profile_dict p) = Inr p"
  by (simp add: read_profile_def profile_dict_def read_item_def item_def read_entries read_tier_dict mapE_map)

lemma reuse_reads_saved:
  assumes "to_reuse t" "su_exists S (to_profiles t)" "su_read S (to_profiles t) = Inr body"
    "json_loads body = Some (PList (map profile_dict ps))"
  shows "tune_profiles S t w = (Inr ps, w)"
  using assms by (simp add: tune_profiles_def mapE_map read_profile_dict)

text \<open>
  C16. What a command prints. Standard output gets the answer and nothing else: when the status is 0, one line-terminated text, which is the
  answer of the run the options ask for, that run's full result as JSON, the report over the results of the selected tests in their order, or the report of the tuning over
  its profiles. In every other   case it gets nothing; then the status is 1 and standard error ends with why the relay stopped, or an exception was not caught.
\<close>

theorem stdout_is_the_answer:
  "case cli_main S c w of (x, w1) \<Rightarrow>
     if x = Exit 0
     then (case c of
        Ask a \<Rightarrow> \<exists>sources r rr s. ask_inputs S a = Inr (sources, r) \<and> ask_run S a sources r = (Inr rr, s)
          \<and> co_out w1 = co_out w @ (if oo_json (ao_output a) then json_indented 0 (result_dict rr) else rr_content rr) @ newline
      | Demo d \<Rightarrow> \<exists>rr s. run_demo (ci_sched (su_runs S 0)) (do_scenario d) (do_delay d) (\<not> do_no_cloud d) (has_emitter (do_output d)) = (Inr rr, s)
          \<and> co_out w1 = co_out w @ (if oo_json (do_output d) then json_indented 0 (result_dict rr) else rr_content rr) @ newline
      | Eval v \<Rightarrow> \<exists>r cases rs. eval_inputs S v = Inr (r, cases)
          \<and> list_all2 (\<lambda>(i, c) x. eval_case S r i c = Inr x) (enumerate 1 cases) rs
          \<and> co_out w1 = co_out w @ json_indented 0 (eval_report (vo_json v) rs) @ newline
      | Tune t \<Rightarrow> \<exists>ps w2 r. tune_profiles S t w = (Inr ps, w2) \<and> from_env (su_env S) None = Inr r
          \<and> co_out w1 = co_out w @ json_indented 0
              (tune_report (current_params (rl_policy r)) (evaluate (current_params (rl_policy r)) ps) (search ps) ps) @ newline)
     else co_out w1 = co_out w
        \<and> (case x of Exit n \<Rightarrow> n = 1 \<and> (\<exists>e before. is_caught e \<and> co_err w1 = before @ ''Relay stopped: '' @ exn_str e @ newline)
           | Traceback e \<Rightarrow> \<not> is_caught e)"
proof (cases c)
  case (Ask a)
  obtain y w1 where run: "ask S a w = (y, w1)" by force
  from ask_out [OF this] show ?thesis by (cases y) (auto simp: cli_main_def run_command_def Ask run)
next
  case (Demo d)
  obtain y w1 where run: "demo_command S d w = (y, w1)" by force
  from demo_out [OF this] show ?thesis by (cases y) (auto simp: cli_main_def run_command_def Demo run)
next
  case (Tune t)
  obtain y w1 where run: "tune S t w = (y, w1)" by force
  from tune_out [OF this] show ?thesis by (cases y) (auto simp: cli_main_def run_command_def Tune run)
next
  case (Eval v)
  obtain y w1 where run: "evaluate_command S v w = (y, w1)" by force
  show ?thesis
  proof (cases y)
    case (Inl e)
    then show ?thesis using evaluate_Inl run by (auto simp: cli_main_def run_command_def Eval)
  next
    case (Inr u)
    then have fin: "evaluate_command S v w = (Inr u, w1)" using run by simp
    from evaluate_Inr [OF this] show ?thesis
      unfolding cli_main_def run_command_def Eval command.case fin prod.case sum.case by simp blast
  qed
qed

text \<open>The pages of the routing tests: one per selected case, in their order and each in a file of its own.\<close>

lemma eval_pages:
  assumes "cli_main S (Eval v) w = (Exit 0, w1)" "given (vo_graph_dir v) = Some d"
  shows "\<exists>r cases rs. eval_inputs S v = Inr (r, cases) \<and> list_all2 (\<lambda>(i, c) x. eval_case S r i c = Inr x) (enumerate 1 cases) rs
    \<and> co_files w1 = co_files w @ map (\<lambda>(i, x). (d @ ''/'' @ page_name i (cs_case x), render_html (su_template S) (cs_graph x))) (enumerate 1 rs)
    \<and> distinct (map (\<lambda>(i, x). d @ ''/'' @ page_name i (cs_case x)) (enumerate 1 rs))"
proof -
  have fin: "evaluate_command S v w = (Inr (), w1)"
    using assms(1) by (auto simp: cli_main_def run_command_def split: prod.splits sum.splits if_splits)
  obtain r cases rs where "eval_inputs S v = Inr (r, cases)" "list_all2 (\<lambda>(i, c) x. eval_case S r i c = Inr x) (enumerate 1 cases) rs"
      "co_files w1 = co_files w @ pages S v 1 rs"
    using evaluate_Inr [OF fin] by metis
  then show ?thesis using pages_distinct [of S v 1 rs] by (auto simp: pages_def assms(2) split_def comp_def)
qed

subsection \<open>The graph page\<close>

lemma finish_run_failed:
  assumes "given (oo_graph o1) = Some path" "su_write S path = None"
  shows "\<exists>w1. finish_run S o1 (Inl e, s) w = (Inl e, w1) \<and> co_out w1 = co_out w
    \<and> co_files w1 = co_files w @ [(path, render_html (su_template S) (graph_dict (graph_of (events s))))]"
  using assms by (simp add: finish_run_def write_graph_def write_text_def print_err_def)

text \<open>An answer that is there is not printed when the page cannot be written.\<close>

lemma unwritable_page_loses_answer:
  assumes "given (oo_graph o1) = Some path" "su_write S path = Some e"
  shows "\<exists>w1. finish_run S o1 (Inr rr, s) w = (Inl e, w1) \<and> co_out w1 = co_out w"
  using assms by (simp add: finish_run_def write_graph_def write_text_def)

text \<open>A request that is refused before anything runs leaves a page that shows a run in progress, here a demo with a delay that is too long.\<close>

lemma refused_demo_shows_running:
  assumes "do_scenario d \<in> set SCENARIOS" "2 < do_delay d" "given (oo_graph (do_output d)) = Some path" "su_write S path = None"
  shows "\<exists>w1. cli_main S (Demo d) w = (Exit 1, w1)
    \<and> co_files w1 = co_files w @ [(path, render_html (su_template S) (graph_dict RunGraph_init))] \<and> g_status RunGraph_init = ''running''"
proof -
  let ?e = "ValueError ''Demo delay must be between 0 and 2 seconds''"
  obtain s where "run_demo (ci_sched (su_runs S 0)) (do_scenario d) (do_delay d) (\<not> do_no_cloud d) (has_emitter (do_output d)) = (Inl ?e, s)"
      "events s = []"
    using assms(1,2) by (auto simp: run_demo_def SimulatedProvider_init_def requireE_def Run_init_def)
  then obtain w1 where "demo_command S d w = (Inl ?e, w1)"
      "co_files w1 = co_files w @ [(path, render_html (su_template S) (graph_dict (graph_of [])))]"
    using finish_run_failed [OF assms(3,4), of ?e s w] unfolding demo_command_def by metis
  then show ?thesis by (simp add: cli_main_def run_command_def graph_of_def RunGraph_init_def)
qed



text \<open>A command line whose user presses Ctrl-C as soon as the run has started.\<close>

definition interrupted :: surroundings where
  "interrupted =
     \<lparr>su_env = [], su_read = (\<lambda>p. Inl (OSError ''No such file or directory'')),
      su_exists = (\<lambda>p. False), su_write = (\<lambda>p. None), su_mkdir = (\<lambda>p. None),
      su_template = ''<script>/*RELAY_GRAPH*/null</script>'', su_tests = ''[]'', su_compiles = (\<lambda>p. True), su_found = (\<lambda>p t. False),
      su_runs = (\<lambda>i. \<lparr>ci_server = (\<lambda>j tier headers body. HttpFailure), ci_base = offline_env\<lparr>e_interrupt := (\<lambda>n. Some CancelledError)\<rparr>,
                         ci_sched = (\<lambda>s ws. Step 0), ci_secs = 0\<rparr>)\<rparr>"

definition ask_hi :: ask_opts where
  "ask_hi = \<lparr>ao_question = ''Hi'', ao_source = [], ao_local_extract = False,
             ao_output = \<lparr>oo_events = False, oo_json = False, oo_graph = Some ''run.html''\<rparr>\<rparr>"


end
