(* ===== verification/OWUI_Access.thy ===== *)
theory OWUI_Access
  imports OWUI_Folders
begin

section \<open>Permissions and access checks (utils/access_control)\<close>

text \<open>
  What a user may do (the permission trees of the groups and the configured defaults), which grants a user may hand out, and who may use
  a model or a folder. A permission tree is a dictionary of dictionaries with truth values at its leaves; nothing enforces that, so walking
  one may raise. \<open>fill_missing_permissions\<close> changes its argument in place; here the changed dictionary is the result, and filling again
  changes nothing (\<open>fill_twice\<close>). An \<open>HTTPException\<close> with status 403 is \<open>OtherError\<close>.
\<close>

subsection \<open>Permission trees\<close>

fun fill_missing_permissions :: "pydict \<Rightarrow> pydict \<Rightarrow> pydict" where
  "fill_missing_permissions permissions [] = permissions"
| "fill_missing_permissions permissions ((key, PDict v) # rest) =
     fill_missing_permissions
       (case map_of permissions key of
          None \<Rightarrow> dict_set key (PDict v) permissions
        | Some (PDict d) \<Rightarrow> dict_set key (PDict (fill_missing_permissions d v)) permissions
        | Some _ \<Rightarrow> permissions) rest"
| "fill_missing_permissions permissions ((key, v) # rest) =
     fill_missing_permissions (if map_of permissions key = None then dict_set key v permissions else permissions) rest"

text \<open>\<open>combine_permissions\<close>: a value that is no dictionary cannot be combined with one that has entries.\<close>

fun combine_permissions :: "pydict \<Rightarrow> pydict \<Rightarrow> pydict res" where
  "combine_permissions permissions [] = Inr permissions"
| "combine_permissions permissions ((key, PDict v) # rest) =
     (case dict_get_or permissions key (PDict []) of
        PDict d \<Rightarrow> bindE (combine_permissions d v) (\<lambda>d'. combine_permissions (dict_set key (PDict d') permissions) rest)
      | x \<Rightarrow> if v = [] then combine_permissions permissions rest else Inl TypeError)"
| "combine_permissions permissions ((key, v) # rest) =
     combine_permissions (dict_set key (case map_of permissions key of None \<Rightarrow> v | Some x \<Rightarrow> if truthy x then x else v) permissions) rest"

definition group_permissions :: "group_row \<Rightarrow> pydict" where
  "group_permissions g = (case g_permissions g of None \<Rightarrow> [] | Some p \<Rightarrow> p)"

fun combine_groups :: "pydict \<Rightarrow> group_row list \<Rightarrow> pydict res" where
  "combine_groups permissions [] = Inr permissions"
| "combine_groups permissions (g # gs) = bindE (combine_permissions permissions (group_permissions g)) (\<lambda>p. combine_groups p gs)"

definition get_permissions :: "string \<Rightarrow> pydict \<Rightarrow> group_db \<Rightarrow> pydict res" where
  "get_permissions user_id default_permissions G =
     bindE (combine_groups default_permissions (get_groups_by_member_id user_id G)) (\<lambda>p. Inr (fill_missing_permissions p default_permissions))"

fun get_permission :: "pyval \<Rightarrow> string list \<Rightarrow> bool res" where
  "get_permission permissions [] = Inr (truthy permissions)"
| "get_permission permissions (key # keys) =
     bindE (text_in key permissions) (\<lambda>b.
       if \<not> b then Inr False
       else (case permissions of PDict d \<Rightarrow> get_permission (dget d key) keys | _ \<Rightarrow> Inl TypeError))"

fun some_group_permits :: "group_row list \<Rightarrow> string list \<Rightarrow> bool res" where
  "some_group_permits [] keys = Inr False"
| "some_group_permits (g # gs) keys =
     bindE (get_permission (PDict (group_permissions g)) keys) (\<lambda>b. if b then Inr True else some_group_permits gs keys)"

text \<open>\<open>defaults\<close> is the constant \<open>DEFAULT_USER_PERMISSIONS\<close> of the configuration.\<close>

definition has_permission :: "pydict \<Rightarrow> string \<Rightarrow> string \<Rightarrow> pydict \<Rightarrow> group_db \<Rightarrow> bool res" where
  "has_permission defaults user_id permission_key default_permissions G =
     (let keys = split_char (CHR ''.'') permission_key
      in bindE (some_group_permits (get_groups_by_member_id user_id G) keys) (\<lambda>b.
           if b then Inr True else get_permission (PDict (fill_missing_permissions default_permissions defaults)) keys))"

subsection \<open>Grants kept in configurations\<close>

text \<open>The loop over the entries. Looking up a principal that is a list or a dictionary in the set of groups raises.\<close>

fun some_grant_covers :: "string \<Rightarrow> string \<Rightarrow> string list \<Rightarrow> pyval list \<Rightarrow> bool res" where
  "some_grant_covers user_id permission groups [] = Inr False"
| "some_grant_covers user_id permission groups (g # gs) =
     (case g of
        PDict d \<Rightarrow>
          if dget d ''permission'' \<noteq> PStr permission then some_grant_covers user_id permission groups gs
          else if dget d ''principal_type'' = PStr ''user'' \<and> (dget d ''principal_id'' = PStr ''*'' \<or> dget d ''principal_id'' = PStr user_id) then Inr True
          else if dget d ''principal_type'' = PStr ''group'' \<and> groups \<noteq> []
          then (if \<not> hashable (dget d ''principal_id'') then Inl TypeError
                else if dget d ''principal_id'' \<in> PStr ` set groups then Inr True else some_grant_covers user_id permission groups gs)
          else some_grant_covers user_id permission groups gs
      | _ \<Rightarrow> some_grant_covers user_id permission groups gs)"

definition has_config_access :: "string \<Rightarrow> string \<Rightarrow> pyval \<Rightarrow> string list option \<Rightarrow> group_db \<Rightarrow> bool res" where
  "has_config_access user_id permission access_grants given G =
     (if \<not> truthy access_grants then Inr False
      else bindE (iterate access_grants) (some_grant_covers user_id permission (user_group_ids user_id given G)))"

definition has_connection_access :: "bool \<Rightarrow> user_row \<Rightarrow> pydict \<Rightarrow> string list option \<Rightarrow> group_db \<Rightarrow> bool res" where
  "has_connection_access bypass_admin user connection given G =
     (if u_role user = ''admin'' \<and> bypass_admin then Inr True
      else (let config = dget connection ''config''
            in case (if truthy config then config else PDict []) of
                 PDict c \<Rightarrow>
                   (let gs = dict_get_or c ''access_grants'' (PList [])
                    in if \<not> truthy gs then Inr (u_role user = ''admin'') else has_config_access (u_id user) ''read'' gs given G)
               | _ \<Rightarrow> Inl OtherError))"

definition grant_value :: "string \<times> pyval \<times> string \<Rightarrow> pyval" where
  "grant_value g = (case g of (t, v, p) \<Rightarrow> PDict [(''principal_type'', PStr t), (''principal_id'', v), (''permission'', PStr p)])"

definition migrate_access_control :: "pydict \<Rightarrow> string \<Rightarrow> string \<Rightarrow> pydict res" where
  "migrate_access_control data ac_key grants_key =
     (if map_of data grants_key \<noteq> None \<or> map_of data ac_key = None then Inr data
      else bindE (case dget data ac_key of
                    PDict ac \<Rightarrow>
                      if ac = [] then Inr []
                      else bindE (grants_of_permission ac ''read'') (\<lambda>rs. bindE (grants_of_permission ac ''write'') (\<lambda>ws. Inr (rs @ ws)))
                  | _ \<Rightarrow> Inr []) (\<lambda>gs.
           Inr (filter (\<lambda>(k, v). k \<noteq> ac_key) (dict_set grants_key (PList (map grant_value gs)) data))))"

subsection \<open>Which grants a user may hand out\<close>

text \<open>\<open>c and not await has_permission(...)\<close>: the permission is looked up only when \<open>c\<close> holds.\<close>

definition lacks :: "bool \<Rightarrow> bool res \<Rightarrow> bool res" where
  "lacks c p = (if c then bindE p (\<lambda>b. Inr (\<not> b)) else Inr False)"

definition is_wildcard_user :: "pyval \<Rightarrow> bool" where
  "is_wildcard_user g \<longleftrightarrow> grant_field g ''principal_type'' = PStr ''user'' \<and> grant_field g ''principal_id'' = PStr ''*''"

definition is_group_grant :: "pyval \<Rightarrow> bool" where
  "is_group_grant g \<longleftrightarrow> grant_field g ''principal_type'' = PStr ''group''"

definition anyone_denied :: "(string \<Rightarrow> bool res) \<Rightarrow> string \<Rightarrow> pyval list \<Rightarrow> string option \<Rightarrow> bool res" where
  "anyone_denied permitted user_role gs anyone_key =
     (if \<not> has_anyone_read_access_grant gs then Inr False
      else (case anyone_key of
              None \<Rightarrow> Inr True
            | Some k \<Rightarrow> if k = [] then Inr True else lacks (user_role \<noteq> ''admin'') (permitted k)))"

text \<open>One step of the filter: when the payload has such grants and the permission is missing, they are stripped.\<close>

definition restrict_grants :: "(pyval list \<Rightarrow> bool) \<Rightarrow> bool res \<Rightarrow> (pyval list \<Rightarrow> pyval list) \<Rightarrow> pyval list \<Rightarrow> pyval list res" where
  "restrict_grants test permission drop_them gs = bindE (lacks (test gs) permission) (\<lambda>no. Inr (if no then drop_them gs else gs))"

definition filter_allowed_access_grants :: "(string \<Rightarrow> bool res) \<Rightarrow> string \<Rightarrow> pyval list \<Rightarrow> string \<Rightarrow> string option \<Rightarrow> pyval list res" where
  "filter_allowed_access_grants permitted user_role gs public_key anyone_key =
     (if gs = [] then Inr gs
      else bindE (anyone_denied permitted user_role gs anyone_key) (\<lambda>no_anyone.
        (let gs = (if no_anyone then strip_anyone_access_grants gs else gs)
         in if user_role = ''admin'' then Inr gs
            else bindE (restrict_grants (\<lambda>gs. has_public_read_access_grant gs \<or> has_public_write_access_grant gs) (permitted public_key)
                          (filter (\<lambda>g. \<not> is_wildcard_user g)) gs)
                (\<lambda>gs. bindE (restrict_grants has_user_access_grant (permitted ''access_grants.allow_users'') strip_user_access_grants gs)
                  (restrict_grants (list_ex is_group_grant) (permitted ''access_grants.allow_groups'') (filter (\<lambda>g. \<not> is_group_grant g)))))))"

text \<open>The call for a user: every permission is looked up with \<open>has_permission\<close>.\<close>

definition filter_allowed_for :: "pydict \<Rightarrow> pydict \<Rightarrow> group_db \<Rightarrow> user_row \<Rightarrow> pyval list \<Rightarrow> string \<Rightarrow> string option \<Rightarrow> pyval list res" where
  "filter_allowed_for defaults default_permissions G user gs public_key anyone_key =
     filter_allowed_access_grants (\<lambda>k. has_permission defaults (u_id user) k default_permissions G) (u_role user) gs public_key anyone_key"

subsection \<open>Models\<close>

record model_row =
  md_id :: string
  md_user_id :: string
  md_base_model_id :: "string option"

definition find_model :: "string \<Rightarrow> model_row list \<Rightarrow> model_row option" where
  "find_model i M = find (\<lambda>m. md_id m = i) M"

text \<open>An empty id counts as none.\<close>

definition next_base :: "model_row \<Rightarrow> string option" where
  "next_base m = (case md_base_model_id m of None \<Rightarrow> None | Some b \<Rightarrow> if b = [] then None else Some b)"

definition may_read_model :: "string \<Rightarrow> string list option \<Rightarrow> group_db \<Rightarrow> grants_table \<Rightarrow> model_row \<Rightarrow> bool" where
  "may_read_model user_id given G T m \<longleftrightarrow> user_id = md_user_id m \<or> has_access user_id (''model'', md_id m) ''read'' given G T"

definition unseen_models :: "model_row list \<Rightarrow> string list \<Rightarrow> nat" where
  "unseen_models M seen = card (md_id ` set M - set seen)"

lemma unseen_less: "finite A \<Longrightarrow> x \<in> A \<Longrightarrow> x \<notin> S \<Longrightarrow> card (A - insert x S) < card (A - S)"
  by (rule psubset_card_mono) auto

lemma unseen_models_less: "find_model b M = Some m \<Longrightarrow> b \<notin> set seen \<Longrightarrow> unseen_models M (b # seen) < unseen_models M seen"
  using unseen_less [of "md_id ` set M" b "set seen"] find_key_Some [of md_id b M m] by (auto simp: find_model_def unseen_models_def)

function base_loop :: "model_row list \<Rightarrow> (model_row \<Rightarrow> bool) \<Rightarrow> bool \<Rightarrow> string list \<Rightarrow> string option \<Rightarrow> bool" where
  "base_loop M readable admin seen None = True"
| "base_loop M readable admin seen (Some b) =
     (if b \<in> set seen then True
      else (case find_model b M of
              None \<Rightarrow> admin
            | Some m \<Rightarrow> if \<not> readable m then False else base_loop M readable admin (b # seen) (next_base m)))"
  by pat_completeness auto
termination
  by (relation "measure (\<lambda>(M, _, _, seen, _). unseen_models M seen)") (auto simp: unseen_models_less)

definition has_base_model_access :: "string \<Rightarrow> string \<Rightarrow> string list option \<Rightarrow> group_db \<Rightarrow> grants_table \<Rightarrow> model_row list \<Rightarrow> model_row \<Rightarrow> bool" where
  "has_base_model_access user_id user_role given G T M m =
     base_loop M (may_read_model user_id given G T) (user_role = ''admin'') [md_id m] (next_base m)"

definition check_model_access :: "user_row \<Rightarrow> model_row option \<Rightarrow> bool \<Rightarrow> group_db \<Rightarrow> grants_table \<Rightarrow> model_row list \<Rightarrow> unit res" where
  "check_model_access user model_info bypass_filter G T M =
     (if bypass_filter then Inr ()
      else (case model_info of
              Some m \<Rightarrow>
                if u_role user \<noteq> ''admin''
                then (let groups = Some (user_group_ids (u_id user) None G)
                      in if \<not> may_read_model (u_id user) groups G T m then Inl OtherError
                         else if \<not> has_base_model_access (u_id user) (u_role user) groups G T M m then Inl OtherError
                         else Inr ())
                else Inr ()
            | None \<Rightarrow> if u_role user \<noteq> ''admin'' then Inl OtherError else Inr ()))"

subsection \<open>Folders\<close>

definition parent_folder :: "folders \<Rightarrow> folder \<Rightarrow> folder option" where
  "parent_folder T f = (case f_parent_id f of None \<Rightarrow> None | Some p \<Rightarrow> if p = [] then None else get_folder_by_id p T)"

definition may_open_folder :: "string \<Rightarrow> string \<Rightarrow> group_db \<Rightarrow> grants_table \<Rightarrow> folder \<Rightarrow> bool" where
  "may_open_folder user_id permission G A f \<longleftrightarrow> f_user_id f = user_id \<or> has_access user_id (''folder'', f_id f) permission None G A"

text \<open>The walk towards the root. Only rows of the table are met after the first, so the number of unseen rows falls.\<close>

lemma parent_in_table: "parent_folder T f = Some g \<Longrightarrow> g \<in> set T"
  by (auto simp: parent_folder_def get_folder_by_id_def first_folder_def find_Some_iff split: option.splits if_splits)

function folder_walk :: "folders \<Rightarrow> (folder \<Rightarrow> bool) \<Rightarrow> string list \<Rightarrow> folder option \<Rightarrow> bool" where
  "folder_walk T opens seen None = False"
| "folder_walk T opens seen (Some f) =
     (if f_id f \<in> set seen then False
      else if opens f then True
      else folder_walk T opens (f_id f # seen) (parent_folder T f))"
  by pat_completeness auto
termination
proof (relation "measure (\<lambda>(T, _, seen, cur). case cur of None \<Rightarrow> 0 | Some f \<Rightarrow> if f_id f \<in> set seen then 1 else 2 + unseen T (f_id f # seen))", goal_cases)
  case (2 T opens seen f)
  have "unseen T (f_id g # f_id f # seen) < unseen T (f_id f # seen)" if "parent_folder T f = Some g" "f_id g \<notin> set (f_id f # seen)" for g
    using unseen_less [of "f_id ` set T" "f_id g" "set (f_id f # seen)"] parent_in_table [OF that(1)] that(2) by (simp add: unseen_def)
  then show ?case using 2 by (auto split: option.split)
qed simp

definition has_folder_access :: "string \<Rightarrow> folder \<Rightarrow> string \<Rightarrow> folders \<Rightarrow> group_db \<Rightarrow> grants_table \<Rightarrow> bool" where
  "has_folder_access user_id f permission T G A = folder_walk T (may_open_folder user_id permission G A) [] (Some f)"

definition has_folder_write_access :: "string \<Rightarrow> string \<Rightarrow> folders \<Rightarrow> group_db \<Rightarrow> grants_table \<Rightarrow> bool" where
  "has_folder_write_access user_id folder_id T G A =
     (case get_folder_by_id folder_id T of None \<Rightarrow> False | Some f \<Rightarrow> has_folder_access user_id f ''write'' T G A)"

subsection \<open>Permissions shown and permissions enforced\<close>

text \<open>A permission key leads to a leaf or nowhere; it is present; it is permitted.\<close>

fun leaf_ok :: "pyval \<Rightarrow> string list \<Rightarrow> bool" where
  "leaf_ok v [] \<longleftrightarrow> (\<exists>b. v = PBool b)"
| "leaf_ok v (k # ks) \<longleftrightarrow> (case v of PDict d \<Rightarrow> (case map_of d k of None \<Rightarrow> True | Some x \<Rightarrow> leaf_ok x ks) | _ \<Rightarrow> False)"

fun present :: "pyval \<Rightarrow> string list \<Rightarrow> bool" where
  "present v [] \<longleftrightarrow> True"
| "present v (k # ks) \<longleftrightarrow> (case v of PDict d \<Rightarrow> (case map_of d k of None \<Rightarrow> False | Some x \<Rightarrow> present x ks) | _ \<Rightarrow> False)"

fun permitted_at :: "pyval \<Rightarrow> string list \<Rightarrow> bool" where
  "permitted_at v [] \<longleftrightarrow> v = PBool True"
| "permitted_at v (k # ks) \<longleftrightarrow> (case v of PDict d \<Rightarrow> (case map_of d k of None \<Rightarrow> False | Some x \<Rightarrow> permitted_at x ks) | _ \<Rightarrow> False)"

lemma get_permission_leaf: "leaf_ok v ks \<Longrightarrow> get_permission v ks = Inr (permitted_at v ks)"
proof (induction ks arbitrary: v)
  case (Cons k ks)
  then show ?case by (cases v) (auto simp: dget_def dict_get_or_def split: option.splits)
qed auto

text \<open>What a step of filling does to one key.\<close>

definition filled :: "pyval option \<Rightarrow> pyval \<Rightarrow> pyval" where
  "filled old v = (case old of None \<Rightarrow> v | Some (PDict d) \<Rightarrow> (case v of PDict w \<Rightarrow> PDict (fill_missing_permissions d w) | _ \<Rightarrow> PDict d) | Some x \<Rightarrow> x)"

lemma dict_set_stored: "dict_ok d \<Longrightarrow> map_of d k = Some v \<Longrightarrow> map_of (dict_set k v d) = map_of d"
  by auto

lemma fill_map_of: "dict_ok d \<Longrightarrow>
    map_of (fill_missing_permissions p d) k = (case map_of d k of None \<Rightarrow> map_of p k | Some v \<Rightarrow> Some (filled (map_of p k) v))"
proof (induction d arbitrary: p)
  case (Cons kv d)
  obtain key v where kv: "kv = (key, v)" by force
  have fresh: "map_of d key = None" "dict_ok d" using Cons.prems kv by (auto simp: dict_ok_def map_of_eq_None_iff)
  have "\<exists>q. fill_missing_permissions p (kv # d) = fill_missing_permissions q d \<and> map_of q key = Some (filled (map_of p key) v)
      \<and> (\<forall>k. k \<noteq> key \<longrightarrow> map_of q k = map_of p k)"
    unfolding kv by (cases v; cases "map_of p key") (auto simp: filled_def intro!: exI split: pyval.splits)
  then obtain q where q: "fill_missing_permissions p (kv # d) = fill_missing_permissions q d" "map_of q key = Some (filled (map_of p key) v)"
      "\<And>k. k \<noteq> key \<Longrightarrow> map_of q k = map_of p k" by blast
  show ?case
  proof (cases "k = key")
    case True
    then show ?thesis using Cons.IH [OF fresh(2), of q] fresh(1) q kv by simp
  next
    case False
    then show ?thesis using Cons.IH [OF fresh(2), of q] q(1) q(3) [OF False] kv by (simp split: option.split)
  qed
qed (simp split: option.split)

lemma fill_present: "dicts_ok (PDict d) \<Longrightarrow> present (PDict p) ks \<Longrightarrow>
    present (PDict (fill_missing_permissions p d)) ks \<and> permitted_at (PDict (fill_missing_permissions p d)) ks = permitted_at (PDict p) ks
    \<and> (leaf_ok (PDict p) ks \<longrightarrow> leaf_ok (PDict (fill_missing_permissions p d)) ks)"
proof (induction ks arbitrary: p d)
  case (Cons k ks)
  obtain x where x: "map_of p k = Some x" "present x ks" using Cons.prems by (auto split: option.splits)
  have ok: "dict_ok d" using Cons.prems(1) by simp
  show ?case
  proof (cases "map_of d k")
    case (Some v)
    have v: "dicts_ok v" using Some Cons.prems(1) map_of_SomeD [OF Some] by (auto simp: list_all_iff)
    have new: "map_of (fill_missing_permissions p d) k = Some (filled (Some x) v)" using fill_map_of [OF ok] Some x by simp
    show ?thesis
    proof (cases "\<exists>e w. x = PDict e \<and> v = PDict w")
      case True
      then obtain e w where e: "x = PDict e" "v = PDict w" by blast
      have "filled (Some x) v = PDict (fill_missing_permissions e w)" using e by (simp add: filled_def)
      then show ?thesis using Cons.IH [of w e] v e x new by simp
    next
      case False
      then have "filled (Some x) v = x" by (auto simp: filled_def split: pyval.split)
      then show ?thesis using new x by simp
    qed
  qed (use fill_map_of [OF ok] x in simp)
qed simp

text \<open>Filling twice is filling once.\<close>

lemma fill_fill:
  assumes "\<And>k v. (k, v) \<in> set d \<Longrightarrow> \<exists>x. map_of p k = Some x \<and> (\<forall>e w. x = PDict e \<and> v = PDict w \<longrightarrow> dict_set k (PDict (fill_missing_permissions e w)) p = p)"
  shows "fill_missing_permissions p d = p"
  using assms
proof (induction d)
  case (Cons kv d)
  obtain key v where kv: "kv = (key, v)" by force
  obtain x where x: "map_of p key = Some x" "\<And>e w. x = PDict e \<and> v = PDict w \<Longrightarrow> dict_set key (PDict (fill_missing_permissions e w)) p = p"
    using Cons.prems [of key v] kv by auto
  have "fill_missing_permissions p (kv # d) = fill_missing_permissions p d"
    using x unfolding kv by (cases v) (auto split: pyval.split)
  then show ?case using Cons.IH Cons.prems by simp
qed simp

lemma dict_set_again: "map_of p k = Some v \<Longrightarrow> dict_set k v p = p"
  by (simp add: dict_set_def update_triv)

lemma fill_self: "dicts_ok v \<Longrightarrow> v = PDict d \<Longrightarrow> fill_missing_permissions d d = d"
proof (induction v arbitrary: d)
  case (PDict fs)
  show ?case
  proof (rule fill_fill)
    fix k v
    assume kv: "(k, v) \<in> set d"
    then have m: "map_of d k = Some v" and ok: "dict_ok d" "dicts_ok v" using PDict.prems by (auto simp: dict_ok_def list_all_iff)
    have "dict_set k (PDict (fill_missing_permissions w w)) d = d" if "v = PDict w" for w
      using PDict.IH [of "(k, v)" v w] kv PDict.prems(2) that ok m by (auto intro: dict_set_again simp: snds.simps)
    then show "\<exists>x. map_of d k = Some x \<and> (\<forall>e w. x = PDict e \<and> v = PDict w \<longrightarrow> dict_set k (PDict (fill_missing_permissions e w)) d = d)"
      using m by auto
  qed
qed auto

lemma fill_twice: "dicts_ok v \<Longrightarrow> v = PDict d \<Longrightarrow> dicts_ok (PDict p) \<Longrightarrow>
    fill_missing_permissions (fill_missing_permissions p d) d = fill_missing_permissions p d"
proof (induction v arbitrary: d p)
  case (PDict fs)
  let ?q = "fill_missing_permissions p d"
  show ?case
  proof (rule fill_fill)
    fix k v
    assume kv: "(k, v) \<in> set d"
    then have m: "map_of d k = Some v" and ok: "dict_ok d" "dicts_ok v" using PDict.prems by (auto simp: dict_ok_def list_all_iff)
    have q: "map_of ?q k = Some (filled (map_of p k) v)" using fill_map_of [OF ok(1), of p k] m by simp
    have "dict_set k (PDict (fill_missing_permissions e w)) ?q = ?q" if e: "filled (map_of p k) v = PDict e" "v = PDict w" for e w
    proof -
      have "fill_missing_permissions e w = e"
      proof (cases "map_of p k")
        case None
        then show ?thesis using e fill_self [OF ok(2) e(2)] by (simp add: filled_def)
      next
        case (Some x)
        then obtain d' where d': "x = PDict d'" "e = fill_missing_permissions d' w" using e by (auto simp: filled_def split: pyval.splits)
        then have "dicts_ok (PDict d')" using list_all_lookup [of dicts_ok p k] Some PDict.prems(3) by simp
        then show ?thesis using PDict.IH [of "(k, v)" v w d'] kv PDict.prems(2) ok(2) e(2) d'(2) by simp
      qed
      then show ?thesis using q e by (simp add: dict_set_again)
    qed
    then show "\<exists>x. map_of ?q k = Some x \<and> (\<forall>e w. x = PDict e \<and> v = PDict w \<longrightarrow> dict_set k (PDict (fill_missing_permissions e w)) ?q = ?q)"
      using q by auto
  qed
qed auto

text \<open>Combining.\<close>

definition combined :: "pyval option \<Rightarrow> pyval \<Rightarrow> pyval option \<Rightarrow> bool" where
  "combined old v new \<longleftrightarrow>
     (case v of
        PDict w \<Rightarrow> (case (case old of None \<Rightarrow> PDict [] | Some x \<Rightarrow> x) of
                     PDict d \<Rightarrow> (\<exists>d'. combine_permissions d w = Inr d' \<and> new = Some (PDict d'))
                   | _ \<Rightarrow> new = old)
      | _ \<Rightarrow> new = Some (case old of None \<Rightarrow> v | Some x \<Rightarrow> if truthy x then x else v))"

lemma combine_map_of: "dict_ok g \<Longrightarrow> combine_permissions p g = Inr q \<Longrightarrow>
    (case map_of g k of None \<Rightarrow> map_of q k = map_of p k | Some v \<Rightarrow> combined (map_of p k) v (map_of q k))"
proof (induction g arbitrary: p)
  case (Cons kv g)
  obtain key v where kv: "kv = (key, v)" by force
  have fresh: "map_of g key = None" "dict_ok g" using Cons.prems(1) kv by (auto simp: dict_ok_def map_of_eq_None_iff)
  have "\<exists>p'. combine_permissions p' g = Inr q \<and> combined (map_of p key) v (map_of p' key) \<and> (\<forall>k. k \<noteq> key \<longrightarrow> map_of p' k = map_of p k)"
  proof (cases "\<exists>w. v = PDict w")
    case True
    then obtain w where w: "v = PDict w" by blast
    show ?thesis
    proof (cases "dict_get_or p key (PDict [])")
      case (PDict d)
      then obtain d' where "combine_permissions d w = Inr d'" "combine_permissions (dict_set key (PDict d') p) g = Inr q"
        using Cons.prems(2) unfolding kv w by (auto simp: bindE_eq_Inr)
      then show ?thesis using PDict w by (intro exI [of _ "dict_set key (PDict d') p"]) (auto simp: combined_def dict_get_or_def split: option.splits)
    qed (use Cons.prems(2) kv w in \<open>auto simp: combined_def dict_get_or_def split: option.splits if_splits\<close>)
  next
    case False
    then show ?thesis using Cons.prems(2) unfolding kv
      by (cases v) (auto simp: combined_def intro!: exI)
  qed
  then obtain p' where p': "combine_permissions p' g = Inr q" "combined (map_of p key) v (map_of p' key)" "\<And>k. k \<noteq> key \<Longrightarrow> map_of p' k = map_of p k"
    by blast
  show ?case
  proof (cases "k = key")
    case True
    then show ?thesis using Cons.IH [OF fresh(2) p'(1)] fresh(1) p'(2) kv by simp
  next
    case False
    then show ?thesis using Cons.IH [OF fresh(2) p'(1)] p'(3) [OF False] kv by (simp split: option.splits)
  qed
qed simp

lemma combine_leaf: "combine_permissions p g = Inr q \<Longrightarrow> dicts_ok (PDict g) \<Longrightarrow> leaf_ok (PDict p) ks \<Longrightarrow> leaf_ok (PDict g) ks \<Longrightarrow>
    leaf_ok (PDict q) ks \<and> permitted_at (PDict q) ks = (permitted_at (PDict p) ks \<or> permitted_at (PDict g) ks)
    \<and> (present (PDict p) ks \<longrightarrow> present (PDict q) ks)"
proof (induction ks arbitrary: p g q)
  case (Cons k ks)
  have ok: "dict_ok g" using Cons.prems(2) by simp
  show ?case
  proof (cases "map_of g k")
    case None
    then have "map_of q k = map_of p k" using combine_map_of [OF ok Cons.prems(1), of k] by simp
    then show ?thesis using None Cons.prems(3) by simp
  next
    case (Some v)
    have v: "dicts_ok v" "leaf_ok v ks" using Cons.prems(2,4) Some map_of_SomeD [OF Some] by (auto simp: list_all_iff)
    have c: "combined (map_of p k) v (map_of q k)" using combine_map_of [OF ok Cons.prems(1), of k] Some by simp
    show ?thesis
    proof (cases ks)
      case Nil
      then obtain b where b: "v = PBool b" using v by auto
      show ?thesis using c Cons.prems(3) Some Nil unfolding b by (auto simp: combined_def split: option.splits)
    next
      case (Cons k' ks')
      then obtain w where w: "v = PDict w" using v by (auto split: pyval.splits)
      define d where "d = (case map_of p k of Some (PDict d) \<Rightarrow> d | _ \<Rightarrow> [])"
      have d: "(case map_of p k of None \<Rightarrow> PDict [] | Some x \<Rightarrow> x) = PDict d" "leaf_ok (PDict d) ks"
          "permitted_at (PDict p) (k # ks) = permitted_at (PDict d) ks" "present (PDict p) (k # ks) \<longrightarrow> present (PDict d) ks"
        using Cons.prems(3) \<open>ks = k' # ks'\<close> by (auto simp: d_def split: option.splits pyval.splits)
      obtain d' where d': "combine_permissions d w = Inr d'" "map_of q k = Some (PDict d')"
        using c unfolding w combined_def d(1) by auto
      show ?thesis using Cons.IH [OF d'(1)] v w d d'(2) Some by simp
    qed
  qed
qed simp

lemma combine_groups_leaf:
  "combine_groups p gs = Inr q \<Longrightarrow> leaf_ok (PDict p) ks \<Longrightarrow> \<forall>g \<in> set gs. dicts_ok (PDict (group_permissions g)) \<and> leaf_ok (PDict (group_permissions g)) ks \<Longrightarrow>
    leaf_ok (PDict q) ks \<and> permitted_at (PDict q) ks = (permitted_at (PDict p) ks \<or> (\<exists>g \<in> set gs. permitted_at (PDict (group_permissions g)) ks))
    \<and> (present (PDict p) ks \<longrightarrow> present (PDict q) ks)"
proof (induction gs arbitrary: p)
  case (Cons g gs)
  obtain r where r: "combine_permissions p (group_permissions g) = Inr r" "combine_groups r gs = Inr q"
    using Cons.prems(1) by (auto simp: bindE_eq_Inr)
  show ?case using combine_leaf [OF r(1)] Cons.IH [OF r(2)] Cons.prems(2,3) by auto
qed simp

lemma some_group_permits_leaf:
  "\<forall>g \<in> set gs. leaf_ok (PDict (group_permissions g)) ks \<Longrightarrow> some_group_permits gs ks = Inr (\<exists>g \<in> set gs. permitted_at (PDict (group_permissions g)) ks)"
  by (induction gs) (auto simp: get_permission_leaf)

text \<open>
  The permissions shown are the permissions enforced. For a key that leads to a leaf of the configured defaults, and that no group uses as a
  branch, looking the key up in the tree of \<open>get_permissions\<close> gives what \<open>has_permission\<close> answers: true when the defaults or one of the
  user's groups say so.
\<close>

theorem permissions_agree:
  assumes "get_permissions user_id default_permissions G = Inr P" and "keys = split_char (CHR ''.'') permission_key"
    and "present (PDict default_permissions) keys" and "leaf_ok (PDict default_permissions) keys" and "dicts_ok (PDict default_permissions)" and "dicts_ok (PDict defaults)"
    and "\<And>g. g \<in> set (gd_groups G) \<Longrightarrow> is_member user_id g G \<Longrightarrow> dicts_ok (PDict (group_permissions g)) \<and> leaf_ok (PDict (group_permissions g)) keys"
  shows "get_permission (PDict P) keys = has_permission defaults user_id permission_key default_permissions G"
    and "has_permission defaults user_id permission_key default_permissions G
       = Inr (permitted_at (PDict default_permissions) keys
              \<or> (\<exists>g \<in> set (gd_groups G). is_member user_id g G \<and> permitted_at (PDict (group_permissions g)) keys))"
proof -
  let ?gs = "get_groups_by_member_id user_id G"
  have gs: "set ?gs = {g \<in> set (gd_groups G). is_member user_id g G}"
    using joined_iff by (auto simp: get_groups_by_member_id_def newest_groups_def)
  have groups: "\<forall>g \<in> set ?gs. dicts_ok (PDict (group_permissions g)) \<and> leaf_ok (PDict (group_permissions g)) keys"
    using assms(7) unfolding gs by blast
  obtain q where q: "combine_groups default_permissions ?gs = Inr q" "P = fill_missing_permissions q default_permissions"
    using assms(1) by (auto simp: get_permissions_def bindE_eq_Inr)
  note c = combine_groups_leaf [OF q(1) assms(4) groups]
  note f = fill_present [OF assms(5), of q keys]
  note g = fill_present [OF assms(6) assms(3)]
  have shown: "get_permission (PDict P) keys = Inr (permitted_at (PDict default_permissions) keys \<or> (\<exists>g \<in> set ?gs. permitted_at (PDict (group_permissions g)) keys))"
    unfolding q(2) using c f assms(3) by (subst get_permission_leaf) auto
  have enforced: "has_permission defaults user_id permission_key default_permissions G
       = Inr (permitted_at (PDict default_permissions) keys \<or> (\<exists>g \<in> set ?gs. permitted_at (PDict (group_permissions g)) keys))"
    unfolding has_permission_def Let_def assms(2) [symmetric] using groups g assms(4)
    by (subst some_group_permits_leaf) (auto simp: get_permission_leaf)
  show "get_permission (PDict P) keys = has_permission defaults user_id permission_key default_permissions G"
    unfolding shown enforced ..
  show "has_permission defaults user_id permission_key default_permissions G
       = Inr (permitted_at (PDict default_permissions) keys
              \<or> (\<exists>g \<in> set (gd_groups G). is_member user_id g G \<and> permitted_at (PDict (group_permissions g)) keys))"
    unfolding enforced gs by (simp add: Bex_def conj_assoc)
qed


theorem permissions_agree_witness:
  "has_permission [] ''u'' ''a.b'' [(''a'', PDict [(''b'', PBool False)])]
     \<lparr>gd_groups = [(sample_group ''g'' ''n'')\<lparr>g_permissions := Some [(''a'', PDict [(''b'', PBool True)])]\<rparr>], gd_members = [new_member 0 ''m'' ''g'' ''u'']\<rparr> = Inr True"
proof -
  let ?g = "(sample_group ''g'' ''n'')\<lparr>g_permissions := Some [(''a'', PDict [(''b'', PBool True)])]\<rparr>"
  let ?G = "\<lparr>gd_groups = [?g], gd_members = [new_member 0 ''m'' ''g'' ''u'']\<rparr>"
  have member: "is_member ''u'' ?g ?G" by (simp add: is_member_def sample_group_def)
  have "get_permissions ''u'' [(''a'', PDict [(''b'', PBool False)])] ?G = Inr [(''a'', PDict [(''b'', PBool True)])]"
    by (simp add: get_permissions_def get_groups_by_member_id_def joined_groups_def newest_groups_def sample_group_def new_member_def
        group_permissions_def dict_get_or_def dict_set_def)
  then have "has_permission [] ''u'' ''a.b'' [(''a'', PDict [(''b'', PBool False)])] ?G
      = Inr (permitted_at (PDict [(''a'', PDict [(''b'', PBool False)])]) [''a'', ''b'']
             \<or> (\<exists>g \<in> set (gd_groups ?G). is_member ''u'' g ?G \<and> permitted_at (PDict (group_permissions g)) [''a'', ''b'']))"
    by (rule permissions_agree(2)) (auto simp: group_permissions_def dict_ok_def)
  moreover have "permitted_at (PDict (group_permissions ?g)) [''a'', ''b'']" by (simp add: group_permissions_def)
  ultimately show ?thesis using member by simp
qed

subsection \<open>Grants a user may not hand out\<close>

lemma valid_fields:
  "valid_right g = Some (t, p, q) \<Longrightarrow> grant_field g ''principal_type'' = PStr t \<and> grant_field g ''principal_id'' = PStr p"
  by (auto simp: valid_right_def grant_field_def Let_def is_str_iff split: pyval.splits if_splits)

lemma lacks_False: "lacks c p = Inr False \<Longrightarrow> c \<Longrightarrow> p = Inr True"
  by (auto simp: lacks_def bindE_eq_Inr split: if_splits)

lemma restrict_grants_Inr: "restrict_grants test p drop_them gs = Inr gs' \<Longrightarrow> gs' = drop_them gs \<or> gs' = gs \<and> (test gs \<longrightarrow> p = Inr True)"
  by (auto simp: restrict_grants_def bindE_eq_Inr dest: lacks_False split: if_splits)

lemma payload_has: "list_ex P (payload_rights gs) \<longleftrightarrow> (\<exists>g \<in> set gs. \<exists>r. valid_right g = Some r \<and> P r)"
  unfolding list_ex_iff payload_rights_set by auto

lemmas payload_tests = has_public_read_access_grant_def has_public_write_access_grant_def has_anyone_read_access_grant_def
  has_user_access_grant_def payload_has

lemma anyone_valid: "valid_right g = Some (''anyone'', p, q) \<Longrightarrow> p = ''*'' \<and> q = ''read''"
  by (auto simp: valid_right_def Let_def is_str_iff split: pyval.splits if_splits)

lemma permission_valid: "valid_right g = Some (t, p, q) \<Longrightarrow> q = ''read'' \<or> q = ''write''"
  by (auto simp: valid_right_def Let_def split: pyval.splits if_splits)

text \<open>The stages of the filter: what is left after each, and why.\<close>

lemma filter_stages:
  assumes "filter_allowed_access_grants permitted user_role gs public_key anyone_key = Inr gs'" and "gs \<noteq> []"
  shows "\<exists>d gs1. anyone_denied permitted user_role gs anyone_key = Inr d \<and> gs1 = (if d then strip_anyone_access_grants gs else gs)
     \<and> (user_role = ''admin'' \<longrightarrow> gs' = gs1)
     \<and> (user_role \<noteq> ''admin'' \<longrightarrow> (\<exists>gs2 gs3.
          (gs2 = filter (\<lambda>g. \<not> is_wildcard_user g) gs1
           \<or> gs2 = gs1 \<and> (has_public_read_access_grant gs1 \<or> has_public_write_access_grant gs1 \<longrightarrow> permitted public_key = Inr True))
          \<and> (gs3 = strip_user_access_grants gs2 \<or> gs3 = gs2 \<and> (has_user_access_grant gs2 \<longrightarrow> permitted ''access_grants.allow_users'' = Inr True))
          \<and> (gs' = filter (\<lambda>g. \<not> is_group_grant g) gs3 \<or> gs' = gs3 \<and> (list_ex is_group_grant gs3 \<longrightarrow> permitted ''access_grants.allow_groups'' = Inr True))))"
proof -
  obtain d where d: "anyone_denied permitted user_role gs anyone_key = Inr d"
    using assms by (auto simp: filter_allowed_access_grants_def bindE_eq_Inr)
  define gs1 where "gs1 = (if d then strip_anyone_access_grants gs else gs)"
  show ?thesis
  proof (cases "user_role = ''admin''")
    case True
    then show ?thesis using assms d by (auto simp: filter_allowed_access_grants_def Let_def)
  next
    case False
    obtain gs2 gs3 where r: "restrict_grants (\<lambda>gs. has_public_read_access_grant gs \<or> has_public_write_access_grant gs) (permitted public_key)
          (filter (\<lambda>g. \<not> is_wildcard_user g)) gs1 = Inr gs2"
        "restrict_grants has_user_access_grant (permitted ''access_grants.allow_users'') strip_user_access_grants gs2 = Inr gs3"
        "restrict_grants (list_ex is_group_grant) (permitted ''access_grants.allow_groups'') (filter (\<lambda>g. \<not> is_group_grant g)) gs3 = Inr gs'"
      using assms False unfolding filter_allowed_access_grants_def Let_def d bindE_Inr gs1_def [symmetric] by (auto simp: bindE_eq_Inr)
    show ?thesis
      using d gs1_def False restrict_grants_Inr [OF r(1)] restrict_grants_Inr [OF r(2)] restrict_grants_Inr [OF r(3)] by blast
  qed
qed

lemma sharing_needs_permission_parts:
  assumes "filter_allowed_access_grants permitted user_role gs public_key anyone_key = Inr gs'" and "g \<in> set gs'" and "valid_right g = Some (t, p, q)"
  shows "g \<in> set gs"
    and "t = ''anyone'' \<Longrightarrow> \<exists>k. anyone_key = Some k \<and> k \<noteq> [] \<and> (user_role = ''admin'' \<or> permitted k = Inr True)"
    and "t = ''user'' \<Longrightarrow> user_role \<noteq> ''admin'' \<Longrightarrow> permitted (if p = ''*'' then public_key else ''access_grants.allow_users'') = Inr True"
    and "t = ''group'' \<Longrightarrow> user_role \<noteq> ''admin'' \<Longrightarrow> permitted ''access_grants.allow_groups'' = Inr True"
proof -
  have "gs \<noteq> []" using assms(1,2) by (auto simp: filter_allowed_access_grants_def)
  from filter_stages [OF assms(1) this] obtain d gs1 where d: "anyone_denied permitted user_role gs anyone_key = Inr d"
      "gs1 = (if d then strip_anyone_access_grants gs else gs)" "user_role = ''admin'' \<Longrightarrow> gs' = gs1"
    and rest: "user_role \<noteq> ''admin'' \<Longrightarrow> \<exists>gs2 gs3.
          (gs2 = filter (\<lambda>g. \<not> is_wildcard_user g) gs1
           \<or> gs2 = gs1 \<and> (has_public_read_access_grant gs1 \<or> has_public_write_access_grant gs1 \<longrightarrow> permitted public_key = Inr True))
          \<and> (gs3 = strip_user_access_grants gs2 \<or> gs3 = gs2 \<and> (has_user_access_grant gs2 \<longrightarrow> permitted ''access_grants.allow_users'' = Inr True))
          \<and> (gs' = filter (\<lambda>g. \<not> is_group_grant g) gs3 \<or> gs' = gs3 \<and> (list_ex is_group_grant gs3 \<longrightarrow> permitted ''access_grants.allow_groups'' = Inr True))"
    by blast
  note fields = valid_fields [OF assms(3)]
  have in1: "g \<in> set gs1" using d(3) rest assms(2) by (cases "user_role = ''admin''") (auto simp: strip_user_access_grants_def)
  then show gs: "g \<in> set gs" using d(2) by (auto simp: strip_anyone_access_grants_def split: if_splits)
  show "\<exists>k. anyone_key = Some k \<and> k \<noteq> [] \<and> (user_role = ''admin'' \<or> permitted k = Inr True)" if t: "t = ''anyone''"
  proof -
    have "\<not> d" using in1 d(2) fields t by (auto simp: strip_anyone_access_grants_def)
    moreover have "has_anyone_read_access_grant gs" using gs assms(3) anyone_valid [of g p q] t by (auto simp: payload_tests)
    ultimately show ?thesis using d(1) by (auto simp: anyone_denied_def split: option.splits if_splits dest: lacks_False)
  qed
  show "permitted (if p = ''*'' then public_key else ''access_grants.allow_users'') = Inr True" if t: "t = ''user''" "user_role \<noteq> ''admin''"
  proof -
    from rest [OF t(2)] obtain gs2 gs3 where r: "gs2 = filter (\<lambda>g. \<not> is_wildcard_user g) gs1
           \<or> gs2 = gs1 \<and> (has_public_read_access_grant gs1 \<or> has_public_write_access_grant gs1 \<longrightarrow> permitted public_key = Inr True)"
        "gs3 = strip_user_access_grants gs2 \<or> gs3 = gs2 \<and> (has_user_access_grant gs2 \<longrightarrow> permitted ''access_grants.allow_users'' = Inr True)"
        "gs' = filter (\<lambda>g. \<not> is_group_grant g) gs3 \<or> gs' = gs3 \<and> (list_ex is_group_grant gs3 \<longrightarrow> permitted ''access_grants.allow_groups'' = Inr True)"
      by (elim exE conjE) (rule that)
    have in3: "g \<in> set gs3" using r(3) assms(2) by auto
    then have in2: "g \<in> set gs2" using r(2) by (auto simp: strip_user_access_grants_def)
    show ?thesis
    proof (cases "p = ''*''")
      case True
      then have "gs2 \<noteq> filter (\<lambda>g. \<not> is_wildcard_user g) gs1" using in2 fields t(1) by (auto simp: is_wildcard_user_def)
      moreover have "has_public_read_access_grant gs1 \<or> has_public_write_access_grant gs1"
        using in1 assms(3) permission_valid [OF assms(3)] t(1) True by (auto simp: payload_tests)
      ultimately show ?thesis using r(1) True by simp
    next
      case False
      then have "gs3 \<noteq> strip_user_access_grants gs2" using in3 fields t(1) by (auto simp: strip_user_access_grants_def)
      moreover have "has_user_access_grant gs2" using in2 assms(3) t(1) False by (auto simp: payload_tests)
      ultimately show ?thesis using r(2) False by simp
    qed
  qed
  show "permitted ''access_grants.allow_groups'' = Inr True" if "t = ''group''" and "user_role \<noteq> ''admin''"
    using rest [OF that(2)] assms(2) fields that(1) by (auto simp: is_group_grant_def list_ex_iff)
qed



subsection \<open>Walks towards the root\<close>

definition up :: "folders \<Rightarrow> (folder \<times> folder) set" where
  "up T = {(f, g). parent_folder T f = Some g}"

definition known :: "folders \<Rightarrow> folder \<Rightarrow> bool" where
  "known T f \<longleftrightarrow> get_folder_by_id (f_id f) T = Some f"

lemma parent_known: "parent_folder T f = Some g \<Longrightarrow> known T g"
  by (auto simp: parent_folder_def known_def get_folder_by_id_def first_folder_def find_Some_iff split: option.splits if_splits)

lemma known_same: "known T f \<Longrightarrow> known T g \<Longrightarrow> f_id f = f_id g \<Longrightarrow> f = g"
  by (simp add: known_def)

lemma folder_walk_exact:
  assumes "\<forall>f \<in> S. known T f \<and> \<not> opens f" and "set seen = f_id ` S" and "up T `` S \<subseteq> S \<union> set_option cur" and "start \<in> S \<union> set_option cur"
    and "set_option cur \<subseteq> (up T)\<^sup>* `` {start}" and "\<forall>f \<in> set_option cur. known T f"
  shows "folder_walk T opens seen cur \<longleftrightarrow> (\<exists>g \<in> (up T)\<^sup>* `` {start}. opens g)"
  using assms
proof (induction T opens seen cur arbitrary: S rule: folder_walk.induct)
  case (1 T opens seen)
  then have "up T `` S \<subseteq> S" "start \<in> S" by auto
  then have "(up T)\<^sup>* `` {start} \<subseteq> S" using Image_closed_trancl [of "up T" S] by blast
  then show ?case using 1(1) by auto
next
  case (2 T opens seen f)
  show ?case
  proof (cases "f_id f \<in> set seen")
    case True
    then obtain g where g: "g \<in> S" "f_id f = f_id g" using 2(3) by auto
    then have "known T g" "known T f" using 2(2,7) by auto
    then have "f \<in> S" using known_same [of T f g] g by simp
    then have "up T `` S \<subseteq> S" "start \<in> S" using True \<open>f \<in> S\<close> 2(4,5) by auto
    then have "(up T)\<^sup>* `` {start} \<subseteq> S" using Image_closed_trancl [of "up T" S] by blast
    then show ?thesis using True 2(2) by auto
  next
    case False
    show ?thesis
    proof (cases "opens f")
      case True
      then show ?thesis using False 2(6) by auto
    next
      case not: False
      have "folder_walk T opens (f_id f # seen) (parent_folder T f) \<longleftrightarrow> (\<exists>g \<in> (up T)\<^sup>* `` {start}. opens g)"
      proof (rule 2(1) [OF False not, of "insert f S"])
        show "up T `` insert f S \<subseteq> insert f S \<union> set_option (parent_folder T f)" using 2(4) by (auto simp: up_def)
        show "set_option (parent_folder T f) \<subseteq> (up T)\<^sup>* `` {start}" using 2(6) by (auto simp: up_def intro: rtrancl_into_rtrancl)
      qed (use 2 not parent_known in auto)
      then show ?thesis using False not by simp
    qed
  qed
qed

text \<open>
  C26. Access to a folder is inherited. The walk ends on every table, cyclic parent links included, and a user has access to a folder exactly
  when they own the folder or one above it or hold a grant for one of them.
\<close>

theorem folder_access_inherited:
  assumes "get_folder_by_id (f_id f) T = Some f"
  shows "has_folder_access user_id f permission T G A
     \<longleftrightarrow> (\<exists>g \<in> (up T)\<^sup>* `` {f}. f_user_id g = user_id \<or> has_access user_id (''folder'', f_id g) permission None G A)"
  unfolding has_folder_access_def using folder_walk_exact [of "{}" T "may_open_folder user_id permission G A" "[]" "Some f" f] assms
  by (simp add: known_def may_open_folder_def)

theorem folder_access_inherited_witness:
  "\<not> has_folder_access ''u'' (sample_folder ''a'' (Some ''b'')) ''read''
       [sample_folder ''a'' (Some ''b''), sample_folder ''b'' (Some ''a'')] \<lparr>gd_groups = [], gd_members = []\<rparr> []
   \<longleftrightarrow> \<not> (\<exists>g \<in> (up [sample_folder ''a'' (Some ''b''), sample_folder ''b'' (Some ''a'')])\<^sup>* `` {sample_folder ''a'' (Some ''b'')}. f_user_id g = ''u'')"
  by (subst folder_access_inherited) (auto simp: get_folder_by_id_def first_folder_def sample_folder_def has_access_def)

subsection \<open>Chains of models\<close>

definition base_of :: "model_row list \<Rightarrow> (string \<times> string) set" where
  "base_of M = {(i, b). \<exists>m. find_model i M = Some m \<and> next_base m = Some b}"

definition base_good :: "model_row list \<Rightarrow> (model_row \<Rightarrow> bool) \<Rightarrow> bool \<Rightarrow> string \<Rightarrow> bool" where
  "base_good M readable admin b = (case find_model b M of None \<Rightarrow> admin | Some m \<Rightarrow> readable m)"

lemma base_loop_exact:
  assumes "start \<in> set seen" and "base_of M `` set seen \<subseteq> set seen \<union> set_option cur" and "set_option cur \<subseteq> (base_of M)\<^sup>+ `` {start}"
    and "\<forall>s \<in> set seen. s = start \<or> base_good M readable admin s"
  shows "base_loop M readable admin seen cur \<longleftrightarrow> (\<forall>b \<in> (base_of M)\<^sup>+ `` {start}. b = start \<or> base_good M readable admin b)"
  using assms
proof (induction M readable admin seen cur rule: base_loop.induct)
  case (1 M readable admin seen)
  then have "(base_of M)\<^sup>* `` set seen = set seen" by (intro Image_closed_trancl) simp
  then have "(base_of M)\<^sup>+ `` {start} \<subseteq> set seen" using 1(1) trancl_into_rtrancl by fastforce
  then show ?case using 1(4) by auto
next
  case (2 M readable admin seen b)
  have reach: "b \<in> (base_of M)\<^sup>+ `` {start}" using 2(4) by simp
  have closed: "(base_of M)\<^sup>+ `` {start} \<subseteq> S" if "base_of M `` S \<subseteq> S" "start \<in> S" for S
    using Image_closed_trancl [OF that(1)] that(2) trancl_into_rtrancl by fastforce
  show ?case
  proof (cases "b \<in> set seen")
    case True
    then have "(base_of M)\<^sup>+ `` {start} \<subseteq> set seen" using 2(2,3) by (intro closed) auto
    then show ?thesis using True 2(5) by auto
  next
    case new: False
    then have other: "b \<noteq> start" using 2(2) by auto
    show ?thesis
    proof (cases "find_model b M")
      case None
      then have good: "base_good M readable admin b = admin" by (simp add: base_good_def)
      have "(base_of M)\<^sup>+ `` {start} \<subseteq> insert b (set seen)"
        using 2(2,3) None by (intro closed) (auto simp: base_of_def)
      then show ?thesis using new None good other reach 2(5) by auto
    next
      case (Some m)
      then have good: "base_good M readable admin b = readable m" by (simp add: base_good_def)
      show ?thesis
      proof (cases "readable m")
        case False
        then show ?thesis using new Some good other reach by auto
      next
        case True
        have "base_loop M readable admin (b # seen) (next_base m) \<longleftrightarrow> (\<forall>b \<in> (base_of M)\<^sup>+ `` {start}. b = start \<or> base_good M readable admin b)"
        proof (rule 2(1) [OF new Some])
          show "\<not> \<not> readable m" using True by simp
          show "base_of M `` set (b # seen) \<subseteq> set (b # seen) \<union> set_option (next_base m)" using 2(3) Some by (auto simp: base_of_def)
          show "set_option (next_base m) \<subseteq> (base_of M)\<^sup>+ `` {start}" using reach Some by (auto simp: base_of_def intro: trancl_into_trancl)
        qed (use 2 good True in auto)
        then show ?thesis using new Some True by simp
      qed
    qed
  qed
qed

text \<open>
  C27. Using a model. The check ends on every chain of base models, cyclic ones included. A user who is no administrator passes exactly when
  the model is registered and they own or may read it and every model it is based on, directly or through others, all of them registered.
\<close>

theorem model_access_exact:
  assumes "find_model (md_id m) M = Some m" and "u_role user \<noteq> ''admin''"
  shows "check_model_access user (Some m) False G T M = Inr ()
     \<longleftrightarrow> (\<forall>b \<in> (base_of M)\<^sup>* `` {md_id m}. \<exists>n. find_model b M = Some n
            \<and> (md_user_id n = u_id user \<or> has_access (u_id user) (''model'', b) ''read'' None G T))"
proof -
  let ?groups = "Some (user_group_ids (u_id user) None G)"
  let ?may = "may_read_model (u_id user) ?groups G T"
  have id: "md_id n = b" if "find_model b M = Some n" for b n using that find_key_Some unfolding find_model_def by fast
  have groups: "has_access (u_id user) r p ?groups G T = has_access (u_id user) r p None G T" for r p
    by (simp add: has_access_def user_group_ids_def)
  have loop: "has_base_model_access (u_id user) (u_role user) ?groups G T M m
      \<longleftrightarrow> (\<forall>b \<in> (base_of M)\<^sup>+ `` {md_id m}. b = md_id m \<or> base_good M ?may False b)"
    unfolding has_base_model_access_def using assms
    by (subst base_loop_exact [of "md_id m"]) (auto simp: base_of_def)
  have good: "base_good M ?may False b \<longleftrightarrow> (\<exists>n. find_model b M = Some n
      \<and> (md_user_id n = u_id user \<or> has_access (u_id user) (''model'', b) ''read'' None G T))" for b
    unfolding base_good_def may_read_model_def groups by (auto split: option.split dest: id)
  have start: "?may m \<longleftrightarrow> base_good M ?may False (md_id m)" using assms(1) by (simp add: base_good_def)
  have "check_model_access user (Some m) False G T M = Inr () \<longleftrightarrow> ?may m \<and> has_base_model_access (u_id user) (u_role user) ?groups G T M m"
    using assms(2) by (simp add: check_model_access_def Let_def)
  moreover have "(\<forall>b \<in> (base_of M)\<^sup>* `` {x}. P b) \<longleftrightarrow> P x \<and> (\<forall>b \<in> (base_of M)\<^sup>+ `` {x}. b = x \<or> P b)" for x and P :: "string \<Rightarrow> bool"
    by (auto simp: rtrancl_eq_or_trancl)
  ultimately show ?thesis unfolding loop start good by (simp only:)
qed

theorem model_access_exact_witness:
  "check_model_access \<lparr>u_id = ''u'', u_role = ''user''\<rparr> (Some \<lparr>md_id = ''m'', md_user_id = ''u'', md_base_model_id = Some ''b''\<rparr>) False
     \<lparr>gd_groups = [], gd_members = []\<rparr> [] [\<lparr>md_id = ''m'', md_user_id = ''u'', md_base_model_id = Some ''b''\<rparr>] \<noteq> Inr ()"
proof -
  have "(''m'', ''b'') \<in> base_of [\<lparr>md_id = ''m'', md_user_id = ''u'', md_base_model_id = Some ''b''\<rparr>]"
    by (simp add: base_of_def find_model_def next_base_def)
  then show ?thesis
    by (subst model_access_exact) (auto simp: find_model_def intro!: bexI [of _ "''b''"])
qed

end
