(* ===== verification/OWUI_Reading.thy ===== *)
theory OWUI_Reading
  imports OWUI_Chats OWUI_Access
begin

section \<open>Reading chats (models/chats.py)\<close>

text \<open>
  The reads of a stored conversation. A read cleans the row and repairs its history and writes the result back; what cannot be repaired reads
  as nothing. \<open>get_chat_by_id_for_user\<close> decides who may read a chat. The message map comes from the message table and falls back on,
  and is completed from, the history in the chat. \<open>admin_access\<close> is the setting \<open>ENABLE_ADMIN_CHAT_ACCESS\<close>.
\<close>

subsection \<open>One chat\<close>

definition read_row :: "chat_row \<Rightarrow> chat_row res" where
  "read_row c =
     bindE (repair_chat_current_id (c_chat c)) (\<lambda>(repaired, chat).
       if repaired
       then (let current = get_current_message_id chat
             in if current = PNone \<or> is_str current
                then Inr (sanitize_chat_row (c\<lparr>c_chat := chat, c_current_message_id := current\<rparr>)) else Inl OtherError)
       else Inr (sanitize_chat_row c))"

definition get_chat_by_id :: "string \<Rightarrow> chat_db \<Rightarrow> chat_row option \<times> chat_db" where
  "get_chat_by_id i db =
     (case find_chat i db of
        None \<Rightarrow> (None, db)
      | Some c \<Rightarrow> (case read_row c of Inl e \<Rightarrow> (None, db) | Inr c' \<Rightarrow> (Some c', put_chat c' db)))"

definition get_chat_by_id_and_user_id :: "string \<Rightarrow> string \<Rightarrow> chat_db \<Rightarrow> chat_row option \<times> chat_db" where
  "get_chat_by_id_and_user_id i user_id db =
     (case find (\<lambda>c. c_id c = i \<and> c_user_id c = user_id) (db_chats db) of
        None \<Rightarrow> (None, db)
      | Some c \<Rightarrow> (case read_row c of Inl e \<Rightarrow> (None, db) | Inr c' \<Rightarrow> (Some c', put_chat c' db)))"

definition is_chat_owner :: "string \<Rightarrow> string \<Rightarrow> chat_db \<Rightarrow> bool" where
  "is_chat_owner i user_id db \<longleftrightarrow> list_ex (\<lambda>c. c_id c = i \<and> c_user_id c = user_id) (db_chats db)"

definition get_chat_folder_id :: "string \<Rightarrow> string \<Rightarrow> chat_db \<Rightarrow> string option" where
  "get_chat_folder_id i user_id db =
     (case find (\<lambda>c. c_id c = i \<and> c_user_id c = user_id) (db_chats db) of None \<Rightarrow> None | Some c \<Rightarrow> c_folder_id c)"

text \<open>The three further ways to a chat that is not the user's own.\<close>

definition may_read_chat :: "bool \<Rightarrow> user_row \<Rightarrow> chat_row \<Rightarrow> folders \<Rightarrow> group_db \<Rightarrow> grants_table \<Rightarrow> bool" where
  "may_read_chat admin_access user c T G A \<longleftrightarrow>
     u_role user = ''admin'' \<and> (admin_access \<or> is_internal_chat (c_meta c))
     \<or> has_access (u_id user) (''shared_chat'', c_id c) ''read'' None G A
     \<or> (case c_folder_id c of
          None \<Rightarrow> False
        | Some f \<Rightarrow> f \<noteq> [] \<and> (case get_folder_by_id f T of None \<Rightarrow> False | Some fo \<Rightarrow> has_folder_access (u_id user) fo ''read'' T G A))"

definition get_chat_by_id_for_user ::
    "bool \<Rightarrow> string \<Rightarrow> user_row \<Rightarrow> folders \<Rightarrow> group_db \<Rightarrow> grants_table \<Rightarrow> chat_db \<Rightarrow> chat_row option \<times> chat_db" where
  "get_chat_by_id_for_user admin_access i user T G A db =
     (case get_chat_by_id_and_user_id i (u_id user) db of
        (Some c, db') \<Rightarrow> (Some c, db')
      | (None, db') \<Rightarrow>
          (case get_chat_by_id i db' of
             (None, db'') \<Rightarrow> (None, db'')
           | (Some c, db'') \<Rightarrow> (if may_read_chat admin_access user c T G A then Some c else None, db'')))"

subsection \<open>The map of a chat's messages\<close>

text \<open>\<open>chat.chat.get('history', {}).get('messages', {})\<close>.\<close>

definition embedded_messages :: "pydict \<Rightarrow> pyval res" where
  "embedded_messages chat = bindE (history_of chat) (\<lambda>h. Inr (dict_get_or h ''messages'' (PDict [])))"

text \<open>
  The missing messages, in the order of the history (Python takes them in the order of a set, which only decides the order in which the rows
  are added). A value that is no dictionary fails as soon as one of the ids is found in it.
\<close>

definition holds_id :: "pyval \<Rightarrow> pyval \<Rightarrow> bool" where
  "holds_id v x = (case v of PList vs \<Rightarrow> x \<in> set vs | PStr s \<Rightarrow> (case x of PStr t \<Rightarrow> contains t s | _ \<Rightarrow> True) | _ \<Rightarrow> True)"

definition missing_messages :: "pyval set \<Rightarrow> pyval \<Rightarrow> pydict res" where
  "missing_messages ids v =
     (if \<not> truthy v then Inr []
      else case v of
        PDict M \<Rightarrow> Inr (filter (\<lambda>(k, m). PStr k \<in> ids) M)
      | _ \<Rightarrow> if Set.filter (holds_id v) ids = {} then Inr [] else Inl TypeError)"

definition get_messages_map_by_chat_id :: "int \<Rightarrow> string \<Rightarrow> chat_db \<Rightarrow> pyval option res \<times> chat_db" where
  "get_messages_map_by_chat_id now i db =
     (case messages_map_by_chat_id i (db_messages db) of
        Some rows \<Rightarrow>
          (let M = map (\<lambda>(k, m). (k, PDict m)) rows
           in case get_unresolved_parent_ids M of
                Inl e \<Rightarrow> (Inl e, db)
              | Inr ids \<Rightarrow>
                  if ids = {} then (Inr (Some (PDict M)), db)
                  else (case get_chat_by_id i db of
                          (None, db') \<Rightarrow> (Inr (Some (PDict M)), db')
                        | (Some c, db') \<Rightarrow>
                            (case bindE (embedded_messages (c_chat c)) (missing_messages ids) of
                               Inl e \<Rightarrow> (Inl e, db')
                             | Inr missing \<Rightarrow>
                                 if missing = [] then (Inr (Some (PDict M)), db')
                                 else (Inr (Some (PDict (dict_update M missing))), backfill_messages_by_chat_id now i (c_user_id c) missing db'))))
      | None \<Rightarrow>
          (case get_chat_by_id i db of
             (None, db') \<Rightarrow> (Inr None, db')
           | (Some c, db') \<Rightarrow>
               (case embedded_messages (c_chat c) of
                  Inl e \<Rightarrow> (Inl e, db')
                | Inr v \<Rightarrow>
                    if \<not> truthy v then (Inr (Some (PDict [])), db')
                    else (case v of
                            PDict M \<Rightarrow> (Inr (Some v), backfill_messages_by_chat_id now i (c_user_id c) M db')
                          | _ \<Rightarrow> (Inl OtherError, db')))))"

definition get_message_by_id_and_message_id :: "string \<Rightarrow> string \<Rightarrow> chat_db \<Rightarrow> pyval option res \<times> chat_db" where
  "get_message_by_id_and_message_id i message_id db =
     (case (case messages_map_by_chat_id i (db_messages db) of None \<Rightarrow> None | Some M \<Rightarrow> map_of M message_id) of
        Some m \<Rightarrow> (Inr (Some (PDict m)), db)
      | None \<Rightarrow>
          (case get_chat_by_id i db of
             (None, db') \<Rightarrow> (Inr None, db')
           | (Some c, db') \<Rightarrow>
               (bindE (embedded_messages (c_chat c)) (\<lambda>v. case v of PDict M \<Rightarrow> Inr (Some (dict_get_or M message_id (PDict []))) | _ \<Rightarrow> Inl OtherError), db')))"

text \<open>\<open>column\<close> reads one of the columns \<open>files\<close>, \<open>sources\<close> and \<open>embeds\<close> of a message row.\<close>

definition metadata_column :: "string \<Rightarrow> chat_message \<Rightarrow> pyval" where
  "metadata_column key r = (if key = ''files'' then cm_files r else if key = ''sources'' then cm_sources r else cm_embeds r)"

definition get_message_metadata :: "string \<Rightarrow> string \<Rightarrow> string \<Rightarrow> chat_db \<Rightarrow> pyval res \<times> chat_db" where
  "get_message_metadata i message_id key db =
     (case find_message (composite_id i message_id) (db_messages db) of
        Some r \<Rightarrow> (Inr (metadata_column key r), db)
      | None \<Rightarrow>
          (case get_chat_by_id i db of
             (None, db') \<Rightarrow> (Inr PNone, db')
           | (Some c, db') \<Rightarrow>
               (bindE (embedded_messages (c_chat c)) (\<lambda>v. case v of PDict M \<Rightarrow> value_get (dict_get_or M message_id (PDict [])) key | _ \<Rightarrow> Inl OtherError), db')))"

subsection \<open>Counting what is unread\<close>

definition is_unread :: "chat_row \<Rightarrow> chat_db \<Rightarrow> bool" where
  "is_unread c db \<longleftrightarrow> c_updated_at c > (case c_last_read_at c of None \<Rightarrow> 0 | Some t \<Rightarrow> t) \<and> \<not> has_unfinished_assistant_by_chat_id (c_id c) (db_messages db)"

definition count_unread_by_folder_ids :: "string \<Rightarrow> string list \<Rightarrow> chat_db \<Rightarrow> (string, nat) dict" where
  "count_unread_by_folder_ids user_id folder_ids db =
     (let unread = filter (\<lambda>c. c_user_id c = user_id \<and> c_folder_id c \<in> Some ` set folder_ids \<and> \<not> c_archived c \<and> is_unread c db) (db_chats db)
      in map (\<lambda>f. (f, length (filter (\<lambda>c. c_folder_id c = Some f) unread)))
           (filter (\<lambda>f. f \<noteq> []) (remdups (concat (map (\<lambda>c. case c_folder_id c of None \<Rightarrow> [] | Some f \<Rightarrow> [f]) unread)))))"

subsection \<open>Who may read\<close>

lemma read_row_same: "read_row c = Inr c' \<Longrightarrow> c_id c' = c_id c \<and> c_user_id c' = c_user_id c \<and> c_meta c' = c_meta c \<and> c_folder_id c' = c_folder_id c
    \<and> c_share_id c' = c_share_id c"
  by (auto simp: read_row_def bindE_eq_Inr Let_def sanitize_chat_row_def split: if_splits prod.splits)

text \<open>The results of a read: the row is put back, or nothing changes.\<close>

lemma get_chat_cases:
  "get_chat_by_id i db = (None, db) \<or> (\<exists>c c'. find_chat i db = Some c \<and> read_row c = Inr c' \<and> get_chat_by_id i db = (Some c', put_chat c' db))"
  by (auto simp: get_chat_by_id_def split: option.split sum.split)

lemma find_owned:
  assumes "distinct (map c_id cs)"
  shows "find (\<lambda>c. c_id c = i \<and> c_user_id c = u) cs = (case find (\<lambda>c. c_id c = i) cs of Some c \<Rightarrow> if c_user_id c = u then Some c else None | None \<Rightarrow> None)"
  using assms
proof (induction cs)
  case (Cons c cs)
  have "find (\<lambda>d. c_id d = i \<and> c_user_id d = u) cs = None" if "c_id c = i"
    unfolding find_None_iff using Cons.prems that by (metis distinct.simps(2) image_eqI list.set_map list.simps(9))
  then show ?case using Cons by auto
qed simp

text \<open>The three ways, with the grants and the folder spelled out.\<close>

lemma may_read_chat_iff:
  "may_read_chat admin_access user c T G A \<longleftrightarrow>
     u_role user = ''admin'' \<and> (admin_access \<or> is_internal_chat (c_meta c))
     \<or> (\<exists>g \<in> set A. ag_resource_type g = ''shared_chat'' \<and> ag_resource_id g = c_id c \<and> ag_permission g = ''read''
          \<and> principal_matches (Some (u_id user)) (user_group_ids (u_id user) None G) g)
     \<or> (\<exists>f fo. c_folder_id c = Some f \<and> f \<noteq> [] \<and> get_folder_by_id f T = Some fo
          \<and> has_folder_access (u_id user) fo ''read'' T G A)"
  by (auto simp: may_read_chat_def has_access_def resource_of_def list_ex_iff split: option.splits)

lemma chat_access_form:
  assumes "distinct (map c_id (db_chats db))"
  shows "fst (get_chat_by_id_for_user admin_access i user T G A db)
     = (case find_chat i db of
          None \<Rightarrow> None
        | Some c \<Rightarrow> (case read_row c of
            Inl e \<Rightarrow> None
          | Inr c' \<Rightarrow> if c_user_id c = u_id user \<or> may_read_chat admin_access user c T G A then Some c' else None))"
proof (cases "find_chat i db")
  case None
  then have "find (\<lambda>c. c_id c = i \<and> c_user_id c = u_id user) (db_chats db) = None" by (auto simp: find_chat_def find_None_iff)
  then show ?thesis using None by (simp add: get_chat_by_id_for_user_def get_chat_by_id_and_user_id_def get_chat_by_id_def)
next
  case (Some c)
  then have own: "find (\<lambda>c. c_id c = i \<and> c_user_id c = u_id user) (db_chats db) = (if c_user_id c = u_id user then Some c else None)"
    using find_owned [OF assms, of i "u_id user"] by (simp add: find_chat_def)
  show ?thesis
  proof (cases "read_row c")
    case (Inl e)
    then show ?thesis using Some own by (simp add: get_chat_by_id_for_user_def get_chat_by_id_and_user_id_def get_chat_by_id_def)
  next
    case (Inr c')
    have "may_read_chat admin_access user c' T G A = may_read_chat admin_access user c T G A"
      using read_row_same [OF Inr] by (simp add: may_read_chat_def)
    then show ?thesis using Some own Inr by (simp add: get_chat_by_id_for_user_def get_chat_by_id_and_user_id_def get_chat_by_id_def)
  qed
qed

text \<open>
  C25. Who may read a chat. The read for a user gives the chat, cleaned and repaired, exactly when it can be repaired and it is the
  user's own, or the user is an administrator and the setting or the chat's internal mark allows it, or a read grant on its shared copy names the
  user, everyone or one of the user's groups, or the user may open the folder it is in; otherwise it gives nothing.
\<close>

theorem chat_access_exact:
  assumes "distinct (map c_id (db_chats db))"
  shows "fst (get_chat_by_id_for_user admin_access i user T G A db)
     = (case find_chat i db of
          None \<Rightarrow> None
        | Some c \<Rightarrow> (case read_row c of
            Inl e \<Rightarrow> None
          | Inr c' \<Rightarrow>
              if c_user_id c = u_id user
                 \<or> u_role user = ''admin'' \<and> (admin_access \<or> is_internal_chat (c_meta c))
                 \<or> (\<exists>g \<in> set A. ag_resource_type g = ''shared_chat'' \<and> ag_resource_id g = c_id c \<and> ag_permission g = ''read''
                      \<and> principal_matches (Some (u_id user)) (user_group_ids (u_id user) None G) g)
                 \<or> (\<exists>f fo. c_folder_id c = Some f \<and> f \<noteq> [] \<and> get_folder_by_id f T = Some fo
                      \<and> has_folder_access (u_id user) fo ''read'' T G A)
              then Some c' else None))"
  by (rule chat_access_form [OF assms, unfolded may_read_chat_iff])

definition sample_chat :: "string \<Rightarrow> string \<Rightarrow> chat_row" where
  "sample_chat i user_id =
     \<lparr>c_id = i, c_user_id = user_id, c_title = ''t'', c_chat = [], c_created_at = 0, c_updated_at = 0, c_share_id = None, c_archived = False,
      c_pinned = None, c_meta = [], c_variables = [], c_folder_id = None, c_tasks = PNone, c_summary = None, c_current_message_id = PNone,
      c_last_read_at = None, c_timer_at = None\<rparr>"

theorem chat_access_exact_witness:
  "fst (get_chat_by_id_for_user True ''c'' \<lparr>u_id = ''u'', u_role = ''user''\<rparr> [] \<lparr>gd_groups = [], gd_members = []\<rparr>
          [new_grant 0 (''shared_chat'', ''c'') ''g'' (''user'', ''u'', ''read'')] (empty_db\<lparr>db_chats := [sample_chat ''c'' ''o'']\<rparr>)) \<noteq> None
   \<and> fst (get_chat_by_id_for_user True ''c'' \<lparr>u_id = ''u'', u_role = ''user''\<rparr> [] \<lparr>gd_groups = [], gd_members = []\<rparr> []
          (empty_db\<lparr>db_chats := [sample_chat ''c'' ''o'']\<rparr>)) = None"
proof -
  have read: "\<exists>c'. read_row (sample_chat ''c'' ''o'') = Inr c'"
    by (simp add: read_row_def sample_chat_def repair_chat_current_id_def dget_def dict_get_or_def)
  have granted: "has_access ''u'' (''shared_chat'', ''c'') ''read'' None \<lparr>gd_groups = [], gd_members = []\<rparr>
      [new_grant 0 (''shared_chat'', ''c'') ''g'' (''user'', ''u'', ''read'')]"
    by (simp add: has_access_def principal_matches_def resource_of_def new_grant_def)
  show ?thesis
    using read granted by (subst (1 2) chat_access_exact)
      (auto simp: empty_db_def find_chat_def sample_chat_def has_access_def resource_of_def split: sum.split)
qed

end
