(* ===== verification/OWUI_Sharing.thy ===== *)
theory OWUI_Sharing
  imports OWUI_Reading
begin

section \<open>Sharing chats (models/shared_chats.py, models/chats.py, routers/chats.py)\<close>

text \<open>
  A share is a snapshot of a chat under a token of its own; the chat keeps the token. Who may open the snapshot is decided by the
  grants for the resource \<open>shared_chat\<close> with the chat's id. The archive and pin switches of the chat table are here too. The generated token
  and the clock are arguments; \<open>limit = 0\<close> is no limit, as in the code. An \<open>HTTPException\<close> is \<open>OtherError\<close>.
\<close>

subsection \<open>The table of snapshots\<close>

definition find_shared :: "string \<Rightarrow> chat_db \<Rightarrow> shared_chat option" where
  "find_shared s db = find (\<lambda>r. sc_id r = s) (db_shared db)"

definition put_shared :: "shared_chat \<Rightarrow> chat_db \<Rightarrow> chat_db" where
  "put_shared r db = db\<lparr>db_shared := map (\<lambda>x. if sc_id x = sc_id r then r else x) (db_shared db)\<rparr>"

interpretation shared_rows: row_store sc_id "\<lambda>db. map sc_id (db_shared db)" find_shared put_shared
  by unfold_locales (auto simp: find_shared_def put_shared_def find_key_None find_replaced dest: find_key_Some)

definition shared_create :: "string \<Rightarrow> int \<Rightarrow> string \<Rightarrow> string \<Rightarrow> chat_db \<Rightarrow> shared_chat option res \<times> chat_db" where
  "shared_create token now chat_id user_id db =
     (case find_chat chat_id db of
        None \<Rightarrow> (Inr None, db)
      | Some c \<Rightarrow>
          (let r = \<lparr>sc_id = token, sc_chat_id = chat_id, sc_user_id = user_id, sc_title = c_title c, sc_chat = c_chat c, sc_created_at = now, sc_updated_at = now\<rparr>
           in if token \<in> sc_id ` set (db_shared db) then (Inl OtherError, db) else (Inr (Some r), db\<lparr>db_shared := db_shared db @ [r]\<rparr>)))"

definition shared_update :: "int \<Rightarrow> string \<Rightarrow> chat_db \<Rightarrow> shared_chat option \<times> chat_db" where
  "shared_update now token db =
     (case find_shared token db of
        None \<Rightarrow> (None, db)
      | Some r \<Rightarrow>
          (case find_chat (sc_chat_id r) db of
             None \<Rightarrow> (None, db)
           | Some c \<Rightarrow> (let r' = r\<lparr>sc_title := c_title c, sc_chat := c_chat c, sc_updated_at := now\<rparr> in (Some r', put_shared r' db))))"

definition newest_shared :: "shared_chat list \<Rightarrow> shared_chat list" where
  "newest_shared rs = sort_key (\<lambda>r. - sc_updated_at r) rs"

definition shared_get_by_chat_id :: "string \<Rightarrow> chat_db \<Rightarrow> shared_chat option" where
  "shared_get_by_chat_id chat_id db = (case newest_shared (filter (\<lambda>r. sc_chat_id r = chat_id) (db_shared db)) of [] \<Rightarrow> None | r # _ \<Rightarrow> Some r)"

text \<open>\<open>offset\<close> and \<open>limit\<close>, each only when it is not zero.\<close>

definition page_rows :: "nat \<Rightarrow> nat \<Rightarrow> 'a list \<Rightarrow> 'a list" where
  "page_rows skip limit xs = (let ys = drop skip xs in if limit = 0 then ys else take limit ys)"

text \<open>\<open>get_by_user_id\<close> without a filter. The default limit is 50.\<close>

definition shared_get_by_user_id :: "string \<Rightarrow> nat \<Rightarrow> nat \<Rightarrow> chat_db \<Rightarrow> shared_chat list" where
  "shared_get_by_user_id user_id skip limit db = page_rows skip limit (newest_shared (filter (\<lambda>r. sc_user_id r = user_id) (db_shared db)))"

definition shared_delete_by_id :: "string \<Rightarrow> chat_db \<Rightarrow> chat_db" where
  "shared_delete_by_id token db = db\<lparr>db_shared := filter (\<lambda>r. sc_id r \<noteq> token) (db_shared db)\<rparr>"

definition shared_delete_all_by_user_id :: "string \<Rightarrow> chat_db \<Rightarrow> chat_db" where
  "shared_delete_all_by_user_id user_id db = db\<lparr>db_shared := filter (\<lambda>r. sc_user_id r \<noteq> user_id) (db_shared db)\<rparr>"

text \<open>The view of a snapshot: id and share id are the token.\<close>

definition get_chat_by_share_id :: "string \<Rightarrow> chat_db \<Rightarrow> (string \<times> string \<times> string \<times> pydict \<times> int \<times> int) option" where
  "get_chat_by_share_id token db =
     map_option (\<lambda>r. (sc_id r, sc_user_id r, sc_title r, sc_chat r, sc_created_at r, sc_updated_at r)) (find_shared token db)"

subsection \<open>The chat table's side\<close>

definition has_share :: "chat_row \<Rightarrow> bool" where
  "has_share c \<longleftrightarrow> c_share_id c \<noteq> None \<and> c_share_id c \<noteq> Some []"

definition update_chat_share_id_by_id :: "string \<Rightarrow> string option \<Rightarrow> chat_db \<Rightarrow> chat_row option \<times> chat_db" where
  "update_chat_share_id_by_id i share_id db =
     (case find_chat i db of None \<Rightarrow> (None, db) | Some c \<Rightarrow> (let c' = c\<lparr>c_share_id := share_id\<rparr> in (Some c', put_chat c' db)))"

text \<open>
  \<open>insert_shared_chat_by_chat_id\<close> and \<open>update_shared_chat_by_chat_id\<close> call each other: sharing a shared chat refreshes it, refreshing a chat
  that is not shared shares it. They end because the chat does not change in between.
\<close>

definition shared_row :: "string \<Rightarrow> chat_db \<Rightarrow> bool" where
  "shared_row i db \<longleftrightarrow> (case find_chat i db of None \<Rightarrow> False | Some c \<Rightarrow> has_share c)"

function insert_shared_chat_by_chat_id :: "string \<Rightarrow> int \<Rightarrow> string \<Rightarrow> chat_db \<Rightarrow> chat_row option res \<times> chat_db"
  and update_shared_chat_by_chat_id :: "string \<Rightarrow> int \<Rightarrow> string \<Rightarrow> chat_db \<Rightarrow> chat_row option res \<times> chat_db" where
  "insert_shared_chat_by_chat_id token now i db =
     (case find_chat i db of
        None \<Rightarrow> (Inr None, db)
      | Some c \<Rightarrow>
          if shared_row i db then update_shared_chat_by_chat_id token now i db
          else (case shared_create token now i (c_user_id c) db of
                  (Inl e, db') \<Rightarrow> (Inl e, db')
                | (Inr None, db') \<Rightarrow> (Inr None, db')
                | (Inr (Some r), db') \<Rightarrow> (let c' = c\<lparr>c_share_id := Some (sc_id r)\<rparr> in (Inr (Some c'), put_chat c' db'))))"
| "update_shared_chat_by_chat_id token now i db =
     (if \<not> shared_row i db then insert_shared_chat_by_chat_id token now i db
      else (case find_chat i db of
              None \<Rightarrow> (Inr None, db)
            | Some c \<Rightarrow> (Inr (Some c), snd (shared_update now (case c_share_id c of None \<Rightarrow> [] | Some s \<Rightarrow> s) db))))"
  by pat_completeness auto
termination
  by (relation "measure (case_sum (\<lambda>(_, _, i, db). if shared_row i db then 1 else 0) (\<lambda>(_, _, i, db). if shared_row i db then 0 else 1))") auto

definition unarchive_all_chats_by_user_id :: "string \<Rightarrow> chat_db \<Rightarrow> chat_db" where
  "unarchive_all_chats_by_user_id user_id db =
     db\<lparr>db_chats := map (\<lambda>c. if c_user_id c = user_id then c\<lparr>c_archived := False\<rparr> else c) (db_chats db)\<rparr>"

definition archive_all_chats_by_user_id :: "string \<Rightarrow> chat_db \<Rightarrow> chat_db" where
  "archive_all_chats_by_user_id user_id db =
     db\<lparr>db_chats := map (\<lambda>c. if c_user_id c = user_id then c\<lparr>c_archived := True\<rparr> else c) (db_chats db)\<rparr>"

definition toggle_chat_pinned_by_id :: "int \<Rightarrow> string \<Rightarrow> chat_db \<Rightarrow> chat_row option \<times> chat_db" where
  "toggle_chat_pinned_by_id now i db =
     (case find_chat i db of
        None \<Rightarrow> (None, db)
      | Some c \<Rightarrow>
          (let c' = c\<lparr>c_pinned := Some (c_pinned c \<noteq> Some True), c_updated_at := now, c_last_read_at := Some now\<rparr> in (Some c', put_chat c' db)))"

definition toggle_chat_archive_by_id :: "int \<Rightarrow> string \<Rightarrow> chat_db \<Rightarrow> chat_row option \<times> chat_db" where
  "toggle_chat_archive_by_id now i db =
     (case find_chat i db of
        None \<Rightarrow> (None, db)
      | Some c \<Rightarrow>
          (let c' = c\<lparr>c_archived := \<not> c_archived c, c_folder_id := None, c_updated_at := now, c_last_read_at := Some now\<rparr>
           in (Some c', put_chat c' db)))"

subsection \<open>The requests\<close>

text \<open>The state of a request: the chats and the grants.\<close>

type_synonym share_state = "chat_db \<times> grants_table"

definition is_open_shared_chat :: "shared_chat \<Rightarrow> grants_table \<Rightarrow> bool" where
  "is_open_shared_chat r A = has_anyone_access (''shared_chat'', sc_chat_id r) ''read'' A"

definition can_read_shared_chat :: "bool \<Rightarrow> user_row \<Rightarrow> shared_chat \<Rightarrow> group_db \<Rightarrow> grants_table \<Rightarrow> bool" where
  "can_read_shared_chat admin_access user r G A =
     (if u_role user = ''pending'' then False
      else if u_role user = ''admin'' \<and> admin_access then True
      else if sc_user_id r = u_id user then True
      else has_access (u_id user) (''shared_chat'', sc_chat_id r) ''read'' None G A)"

text \<open>\<open>GET /share/{share_id}\<close>: \<open>user\<close> is \<open>None\<close> for a caller without an account. What is returned is the snapshot, or for administrators a chat itself.\<close>

definition get_shared_chat_by_id ::
    "bool \<Rightarrow> string \<Rightarrow> user_row option \<Rightarrow> group_db \<Rightarrow> share_state \<Rightarrow> (shared_chat + chat_row) res \<times> share_state" where
  "get_shared_chat_by_id admin_access token user G st =
     (case st of (db, A) \<Rightarrow>
        (case find_shared token db of
           Some r \<Rightarrow>
             (if is_open_shared_chat r A \<or> (case user of None \<Rightarrow> False | Some u \<Rightarrow> can_read_shared_chat admin_access u r G A)
              then Inr (Inl r) else Inl OtherError, st)
         | None \<Rightarrow>
             (case user of
                None \<Rightarrow> (Inl OtherError, st)
              | Some u \<Rightarrow>
                  if u_role u = ''admin'' \<and> admin_access
                  then (case get_chat_by_id token db of (Some c, db') \<Rightarrow> (Inr (Inr c), db', A) | (None, db') \<Rightarrow> (Inl OtherError, db', A))
                  else (Inl OtherError, st))))"

text \<open>\<open>POST /{id}/share\<close>. \<open>allowed\<close> is the answer of \<open>has_permission\<close> for \<open>chat.share\<close>, which administrators are not asked for.\<close>

definition share_chat_by_id :: "bool res \<Rightarrow> string \<Rightarrow> int \<Rightarrow> string \<Rightarrow> user_row \<Rightarrow> chat_db \<Rightarrow> chat_row res \<times> chat_db" where
  "share_chat_by_id allowed token now i user db =
     (case (if u_role user \<noteq> ''admin'' then allowed else Inr True) of
        Inl e \<Rightarrow> (Inl e, db)
      | Inr b \<Rightarrow>
          if \<not> b then (Inl OtherError, db)
          else (case get_chat_by_id_and_user_id i (u_id user) db of
                  (None, db1) \<Rightarrow> (Inl OtherError, db1)
                | (Some c, db1) \<Rightarrow>
                    (case (case c_share_id c of None \<Rightarrow> (None, db1) | Some s \<Rightarrow> if s = [] then (None, db1) else shared_update now s db1) of
                       (Some r, db2) \<Rightarrow> (case get_chat_by_id i db2 of (None, db3) \<Rightarrow> (Inl OtherError, db3) | (Some c', db3) \<Rightarrow> (Inr c', db3))
                     | (None, db2) \<Rightarrow>
                         (case shared_create token now i (u_id user) db2 of
                            (Inl e, db3) \<Rightarrow> (Inl e, db3)
                          | (Inr None, db3) \<Rightarrow> (Inl OtherError, db3)
                          | (Inr (Some r), db3) \<Rightarrow>
                              (case update_chat_share_id_by_id i (Some (sc_id r)) db3 of
                                 (None, db4) \<Rightarrow> (Inl OtherError, db4) | (Some c', db4) \<Rightarrow> (Inr c', db4))))))"

text \<open>Clearing the grants of a shared chat: \<open>set_access_grants(..., [])\<close>.\<close>

definition clear_share_grants :: "(nat \<Rightarrow> string) \<Rightarrow> int \<Rightarrow> string \<Rightarrow> grants_table \<Rightarrow> grants_table" where
  "clear_share_grants ids now i A = snd (set_access_grants ids now (''shared_chat'', i) [] A)"

text \<open>\<open>DELETE /{id}/share\<close>.\<close>

definition delete_shared_chat_by_id :: "(nat \<Rightarrow> string) \<Rightarrow> int \<Rightarrow> string \<Rightarrow> user_row \<Rightarrow> share_state \<Rightarrow> bool res \<times> share_state" where
  "delete_shared_chat_by_id ids now i user st =
     (case get_chat_by_id_and_user_id i (u_id user) (fst st) of
        (None, db) \<Rightarrow> (Inl OtherError, db, snd st)
      | (Some c, db) \<Rightarrow>
          (let db = delete_shared_chat_by_chat_id i db;
               db = (if has_share c then snd (update_chat_share_id_by_id i None db) else db)
           in (Inr True, db, clear_share_grants ids now i (snd st))))"

text \<open>\<open>DELETE /share/all\<close>: the chats are those of the first page of the user's shares.\<close>

definition unshare_all_chats :: "(nat \<Rightarrow> string) \<Rightarrow> int \<Rightarrow> user_row \<Rightarrow> share_state \<Rightarrow> string list \<times> share_state" where
  "unshare_all_chats ids now user st =
     (case st of (db, A) \<Rightarrow>
       (let chat_ids = map sc_chat_id (shared_get_by_user_id (u_id user) 0 50 db);
            db = shared_delete_all_by_user_id (u_id user) db
        in (chat_ids,
            foldl (\<lambda>db i. snd (update_chat_share_id_by_id i None db)) db chat_ids,
            foldl (\<lambda>A i. clear_share_grants ids now i A) A chat_ids)))"

text \<open>\<open>POST /shared/{id}/access/update\<close>: the grants the user may hand out become the grants of the shared chat.\<close>

definition update_shared_chat_access_by_id ::
    "pydict \<Rightarrow> pydict \<Rightarrow> (nat \<Rightarrow> string) \<Rightarrow> int \<Rightarrow> string \<Rightarrow> user_row \<Rightarrow> pyval list \<Rightarrow> group_db \<Rightarrow> share_state \<Rightarrow> chat_row res \<times> share_state" where
  "update_shared_chat_access_by_id defaults user_permissions ids now i user access_grants G st =
     (case (if u_role user = ''admin'' then get_chat_by_id i (fst st) else get_chat_by_id_and_user_id i (u_id user) (fst st)) of
        (None, db) \<Rightarrow> (Inl OtherError, db, snd st)
      | (Some c, db) \<Rightarrow>
          (case filter_allowed_for defaults user_permissions G user access_grants ''sharing.public_chats'' (Some ''sharing.open_chats'') of
             Inl e \<Rightarrow> (Inl e, db, snd st)
           | Inr gs \<Rightarrow>
               (case set_access_grants ids now (''shared_chat'', i) gs (snd st) of
                  (Inl e, A) \<Rightarrow> (Inl e, db, A) | (Inr rows, A) \<Rightarrow> (Inr c, db, A))))"

subsection \<open>Sharing keeps a snapshot\<close>

text \<open>A chat's token names no snapshot of another chat.\<close>

definition links_ok :: "chat_db \<Rightarrow> bool" where
  "links_ok db \<longleftrightarrow> (\<forall>c \<in> set (db_chats db). \<forall>r \<in> set (db_shared db). c_share_id c = Some (sc_id r) \<longrightarrow> sc_chat_id r = c_id c)"

lemma put_chat_shared [simp]: "db_shared (put_chat c db) = db_shared db" "find_shared s (put_chat c db) = find_shared s db"
  by (simp_all add: put_chat_def find_shared_def)

lemma put_shared_chats [simp]: "db_chats (put_shared r db) = db_chats db" "find_chat i (put_shared r db) = find_chat i db"
  by (simp_all add: put_shared_def find_chat_def)

lemma get_own_Some:
  assumes "get_chat_by_id_and_user_id i u db = (Some c, db1)"
  shows "\<exists>c0. find_chat i db \<noteq> None \<and> c0 \<in> set (db_chats db) \<and> c_id c0 = i \<and> c_user_id c0 = u \<and> read_row c0 = Inr c \<and> db1 = put_chat c db"
proof -
  obtain c0 where c0: "find (\<lambda>c. c_id c = i \<and> c_user_id c = u) (db_chats db) = Some c0" "read_row c0 = Inr c" "db1 = put_chat c db"
    using assms by (auto simp: get_chat_by_id_and_user_id_def split: option.splits sum.splits)
  have "c0 \<in> set (db_chats db)" "c_id c0 = i" "c_user_id c0 = u" using find_Some_iff [THEN iffD1, OF c0(1)] nth_mem by auto
  moreover from this have "find_chat i db \<noteq> None" unfolding find_chat_def find_key_None by blast
  ultimately show ?thesis using c0 by blast
qed

lemma own_chat_stored:
  assumes "get_chat_by_id_and_user_id i u db = (Some c, db1)"
  shows "c_id c = i \<and> find_chat i db1 = Some c \<and> db_shared db1 = db_shared db"
proof -
  obtain c0 where c0: "find_chat i db \<noteq> None" "c_id c0 = i" "read_row c0 = Inr c" "db1 = put_chat c db" using get_own_Some [OF assms] by blast
  then have "c_id c = i" using read_row_same by auto
  then show ?thesis using c0 chat_rows.get_put [of i c db] chat_rows.get_None [of i db] by simp
qed

lemma find_shared_append: "find_shared s (db\<lparr>db_shared := db_shared db @ [r]\<rparr>) = (case find_shared s db of Some x \<Rightarrow> Some x | None \<Rightarrow> if sc_id r = s then Some r else None)"
proof -
  have "find P (xs @ [r]) = (case find P xs of Some x \<Rightarrow> Some x | None \<Rightarrow> if P r then Some r else None)" for P xs by (induction xs) auto
  then show ?thesis by (simp add: find_shared_def)
qed

lemma shared_create_new:
  assumes "find_chat i db = Some c" and "token \<notin> sc_id ` set (db_shared db)"
  shows "\<exists>r. shared_create token now i u db = (Inr (Some r), db\<lparr>db_shared := db_shared db @ [r]\<rparr>)
     \<and> sc_id r = token \<and> sc_chat_id r = i \<and> sc_user_id r = u \<and> sc_title r = c_title c \<and> sc_chat r = c_chat c"
  using assms by (simp add: shared_create_def Let_def)

text \<open>
  Sharing keeps a snapshot. When the user may share and the chat is theirs, sharing succeeds; the chat then has a token, and under the token the
  chat is found as it was when it was shared; every other snapshot is as before, so a chat keeps its token when it is shared again.
\<close>

theorem share_keeps_snapshot:
  assumes "links_ok db" and "token \<notin> sc_id ` set (db_shared db)" and "token \<noteq> []"
    and "get_chat_by_id_and_user_id i (u_id user) db = (Some c, db1)"
    and "share_chat_by_id (Inr True) token now i user db = (Inr c', db')"
  shows "\<exists>s r. s = (if has_share c \<and> (\<exists>s. c_share_id c = Some s \<and> find_shared s db \<noteq> None) then the (c_share_id c) else token)
     \<and> find_shared s db' = Some r \<and> sc_chat_id r = i \<and> sc_title r = c_title c \<and> sc_chat r = c_chat c \<and> c_share_id c' = Some s
     \<and> (\<forall>x. x \<noteq> s \<longrightarrow> find_shared x db' = find_shared x db)"
proof -
  note own = own_chat_stored [OF assms(4)]
  obtain c0 where c0: "c0 \<in> set (db_chats db)" "c_id c0 = i" "read_row c0 = Inr c" using get_own_Some [OF assms(4)] by blast
  have link: "sc_chat_id r = i" if "c_share_id c = Some x" "find_shared x db = Some r" for x r
    using assms(1) c0 that read_row_same [OF c0(3)] find_key_Some [of sc_id x "db_shared db" r] unfolding links_ok_def find_shared_def by auto
  have same: "find_shared x db1 = find_shared x db" for x using own by (simp add: find_shared_def)
  show ?thesis
  proof (cases "\<exists>x r. c_share_id c = Some x \<and> x \<noteq> [] \<and> find_shared x db = Some r")
    case True
    then obtain x r where x: "c_share_id c = Some x" "x \<noteq> []" "find_shared x db = Some r" by blast
    let ?r = "r\<lparr>sc_title := c_title c, sc_chat := c_chat c, sc_updated_at := now\<rparr>"
    have id: "sc_id r = x" using shared_rows.get_key [OF x(3)] .
    have up: "shared_update now x db1 = (Some ?r, put_shared ?r db1)"
      using x own same link [OF x(1,3)] by (simp add: shared_update_def Let_def)
    have stored: "find_chat i (put_shared ?r db1) = Some c" using own by simp
    obtain c2 where c2: "c' = c2" "read_row c = Inr c2" "db' = put_chat c2 (put_shared ?r db1)"
      using assms(5) assms(4) x(1,2) up stored by (auto simp: share_chat_by_id_def get_chat_by_id_def split: sum.splits)
    have "find_shared y db' = (if y = x then Some ?r else find_shared y db)" for y
      using shared_rows.read_back [of x db1 r ?r y] x(3) same id c2(3) by simp
    then show ?thesis using x link [OF x(1,3)] read_row_same [OF c2(2)] c2(1)
      by (intro exI [of _ x] exI [of _ ?r]) (auto simp: has_share_def)
  next
    case False
    have up: "(case c_share_id c of None \<Rightarrow> (None, db1) | Some s \<Rightarrow> if s = [] then (None, db1) else shared_update now s db1) = (None, db1)"
      using False same by (auto simp: shared_update_def split: option.splits)
    have fresh: "token \<notin> sc_id ` set (db_shared db1)" using assms(2) own by simp
    obtain r where r: "shared_create token now i (u_id user) db1 = (Inr (Some r), db1\<lparr>db_shared := db_shared db1 @ [r]\<rparr>)"
        "sc_id r = token" "sc_chat_id r = i" "sc_title r = c_title c" "sc_chat r = c_chat c"
      using shared_create_new [of i db1 c token] own fresh by blast
    let ?db2 = "db1\<lparr>db_shared := db_shared db1 @ [r]\<rparr>"
    have stored: "find_chat i ?db2 = Some c" using own by (simp add: find_chat_def)
    have res: "c' = c\<lparr>c_share_id := Some token\<rparr>" "db' = put_chat c' ?db2"
      using assms(5) assms(4) up r(1,2) stored by (auto simp: share_chat_by_id_def update_chat_share_id_by_id_def Let_def)
    have "find_shared token db1 = None" using fresh shared_rows.get_None [of token db1] by simp
    then have "find_shared y db' = (if y = token then Some r else find_shared y db)" for y
      using find_shared_append [of y db1 r] r(2) same res(2) by (auto split: option.split)
    moreover have "\<not> (has_share c \<and> (\<exists>s. c_share_id c = Some s \<and> find_shared s db \<noteq> None))" using False by (auto simp: has_share_def)
    ultimately show ?thesis using r res(1) by (intro exI [of _ token] exI [of _ r]) auto
  qed
qed

lemma sample_read: "read_row (sample_chat i u) = Inr (sample_chat i u)"
proof -
  have "sanitize_data_for_db (PDict []) = PDict []" by (subst sanitize_eq_strip) simp_all
  then show ?thesis
    by (simp add: read_row_def sample_chat_def repair_chat_current_id_def dget_def dict_get_or_def sanitize_chat_row_def sanitize_text_for_db_def)
qed

lemma sample_own: "get_chat_by_id_and_user_id ''c'' ''u'' (empty_db\<lparr>db_chats := [sample_chat ''c'' ''u'']\<rparr>)
    = (Some (sample_chat ''c'' ''u''), empty_db\<lparr>db_chats := [sample_chat ''c'' ''u'']\<rparr>)"
proof -
  have "c_id (sample_chat ''c'' ''u'') = ''c''" "c_user_id (sample_chat ''c'' ''u'') = ''u''" by (simp_all add: sample_chat_def)
  then show ?thesis by (simp add: get_chat_by_id_and_user_id_def sample_read put_chat_def)
qed

theorem share_keeps_snapshot_witness:
  "\<exists>c' db'. share_chat_by_id (Inr True) ''s'' 1 ''c'' \<lparr>u_id = ''u'', u_role = ''user''\<rparr> (empty_db\<lparr>db_chats := [sample_chat ''c'' ''u'']\<rparr>) = (Inr c', db')
     \<and> c_share_id c' = Some ''s''"
proof -
  let ?db = "empty_db\<lparr>db_chats := [sample_chat ''c'' ''u'']\<rparr>" and ?user = "\<lparr>u_id = ''u'', u_role = ''user''\<rparr>"
  have share: "c_share_id (sample_chat ''c'' ''u'') = None" by (simp add: sample_chat_def)
  have run: "\<exists>c' db'. share_chat_by_id (Inr True) ''s'' 1 ''c'' ?user ?db = (Inr c', db')"
    by (simp add: share_chat_by_id_def sample_own share shared_create_def update_chat_share_id_by_id_def find_chat_def Let_def)
      (simp add: sample_chat_def empty_db_def)
  then obtain c' db' where r: "share_chat_by_id (Inr True) ''s'' 1 ''c'' ?user ?db = (Inr c', db')" by blast
  have links: "links_ok ?db" and fresh: "''s'' \<notin> sc_id ` set (db_shared ?db)" "''s'' \<noteq> []" by (simp_all add: links_ok_def empty_db_def)
  have "get_chat_by_id_and_user_id ''c'' (u_id ?user) ?db = (Some (sample_chat ''c'' ''u''), ?db)" using sample_own by simp
  from share_keeps_snapshot [OF links fresh this r] show ?thesis using r share by (auto simp: has_share_def)
qed

subsection \<open>Revoking\<close>

lemma clear_share_grants_eq: "clear_share_grants ids now i A = filter (\<lambda>g. resource_of g \<noteq> (''shared_chat'', i)) A"
  by (simp add: clear_share_grants_def set_access_grants_def payload_rights_def normalize_access_grants_def replace_grants_def Let_def)

definition shared_with :: "string \<Rightarrow> grants_table \<Rightarrow> bool" where
  "shared_with i A \<longleftrightarrow> (\<exists>g \<in> set A. resource_of g = (''shared_chat'', i))"

lemma shared_with_access: "has_access u (''shared_chat'', i) p given G A \<Longrightarrow> shared_with i A" "has_anyone_access (''shared_chat'', i) p A \<Longrightarrow> shared_with i A"
  by (auto simp: has_access_def has_anyone_access_def shared_with_def list_ex_iff)

lemma unshare_revokes_parts:
  assumes "delete_shared_chat_by_id ids now i user st = (Inr b, st')"
  shows "fst (get_shared_chat_by_id admin_access token reader G st') = Inr (Inl r) \<Longrightarrow> sc_chat_id r \<noteq> i"
    and "has_access u (''shared_chat'', i) permission given G (snd st') \<longleftrightarrow> False"
    and "has_anyone_access (''shared_chat'', i) permission (snd st') \<longleftrightarrow> False"
    and "map_option c_share_id (find_chat i (fst st')) = Some s \<Longrightarrow> s = None \<or> s = Some []"
proof -
  obtain c db1 where own: "get_chat_by_id_and_user_id i (u_id user) (fst st) = (Some c, db1)"
    using assms by (auto simp: delete_shared_chat_by_id_def split: prod.splits option.splits)
  let ?db2 = "delete_shared_chat_by_chat_id i db1"
  have st': "fst st' = (if has_share c then snd (update_chat_share_id_by_id i None ?db2) else ?db2)" "snd st' = clear_share_grants ids now i (snd st)"
    using assms own by (auto simp: delete_shared_chat_by_id_def Let_def)
  have grants: "\<not> shared_with i (snd st')" by (auto simp: st'(2) clear_share_grants_eq shared_with_def)
  then show "has_access u (''shared_chat'', i) permission given G (snd st') \<longleftrightarrow> False"
      "has_anyone_access (''shared_chat'', i) permission (snd st') \<longleftrightarrow> False"
    using shared_with_access by blast+
  have rows: "db_shared (fst st') = filter (\<lambda>r. sc_chat_id r \<noteq> i) (db_shared db1)"
    by (auto simp: st'(1) delete_shared_chat_by_chat_id_def update_chat_share_id_by_id_def Let_def split: option.split)
  show "sc_chat_id r \<noteq> i" if "fst (get_shared_chat_by_id admin_access token reader G st') = Inr (Inl r)"
  proof -
    have "find_shared token (fst st') = Some r"
      using that by (auto simp: get_shared_chat_by_id_def split: option.splits if_splits prod.splits)
    then have "r \<in> set (db_shared (fst st'))" using find_key_Some unfolding find_shared_def by fast
    then show ?thesis unfolding rows by simp
  qed
  show "s = None \<or> s = Some []" if "map_option c_share_id (find_chat i (fst st')) = Some s"
  proof -
    have stored: "find_chat i ?db2 = Some c" using own_chat_stored [OF own] by (simp add: delete_shared_chat_by_chat_id_def find_chat_def)
    have "c_id c = i" using own_chat_stored [OF own] by blast
    then show ?thesis
      using that stored chat_rows.read_back [OF stored, of "c\<lparr>c_share_id := None\<rparr>" i]
      by (auto simp: st'(1) has_share_def update_chat_share_id_by_id_def Let_def split: if_splits)
  qed
qed

text \<open>
  C33. Revoking a share revokes all of it. After a chat was unshared no token gives its snapshot to anyone, with an account or
  without, and no grant for it is left, so that only an administrator or someone with access to its folder can still read the chat besides its owner.
\<close>

theorem unshare_revokes:
  assumes "delete_shared_chat_by_id ids now i user st = (Inr b, st')"
  shows "(fst (get_shared_chat_by_id admin_access token reader G st') = Inr (Inl r) \<longrightarrow> sc_chat_id r \<noteq> i)
     \<and> \<not> has_access u (''shared_chat'', i) permission given G (snd st')
     \<and> \<not> has_anyone_access (''shared_chat'', i) permission (snd st')
     \<and> (map_option c_share_id (find_chat i (fst st')) = Some s \<longrightarrow> s = None \<or> s = Some [])"
  using unshare_revokes_parts [OF assms] by (intro conjI impI) blast+

theorem unshare_revokes_witness:
  "\<exists>b st'. delete_shared_chat_by_id (\<lambda>_. []) 1 ''c'' \<lparr>u_id = ''u'', u_role = ''user''\<rparr>
       (empty_db\<lparr>db_chats := [sample_chat ''c'' ''u'']\<rparr>, [new_grant 0 (''shared_chat'', ''c'') ''g'' (''user'', ''v'', ''read'')]) = (Inr b, st')
     \<and> \<not> has_access ''v'' (''shared_chat'', ''c'') ''read'' None \<lparr>gd_groups = [], gd_members = []\<rparr> (snd st')"
proof -
  let ?st = "(empty_db\<lparr>db_chats := [sample_chat ''c'' ''u'']\<rparr>, [new_grant 0 (''shared_chat'', ''c'') ''g'' (''user'', ''v'', ''read'')])"
  obtain b st' where r: "delete_shared_chat_by_id (\<lambda>_. []) 1 ''c'' \<lparr>u_id = ''u'', u_role = ''user''\<rparr> ?st = (Inr b, st')"
    by (simp add: delete_shared_chat_by_id_def sample_own Let_def)
  show ?thesis using r unshare_revokes [OF r] by blast
qed

subsection \<open>Revoking all shares\<close>

lemma clear_all: "set (foldl (\<lambda>A i. clear_share_grants ids now i A) A is') = {g \<in> set A. resource_of g \<notin> Pair ''shared_chat'' ` set is'}"
  by (induction is' arbitrary: A) (auto simp: clear_share_grants_eq)

lemma find_share_update: "find_chat j (snd (update_chat_share_id_by_id i s db)) = (if j = i then map_option (\<lambda>c. c\<lparr>c_share_id := s\<rparr>) (find_chat j db) else find_chat j db)"
proof (cases "find_chat i db")
  case (Some c)
  then show ?thesis using chat_rows.read_back [OF Some, of "c\<lparr>c_share_id := s\<rparr>" j] chat_rows.get_key [OF Some]
    by (simp add: update_chat_share_id_by_id_def Let_def)
qed (simp add: update_chat_share_id_by_id_def)

lemma find_share_updates: "find_chat j (foldl (\<lambda>db i. snd (update_chat_share_id_by_id i None db)) db is')
    = (if j \<in> set is' then map_option (\<lambda>c. c\<lparr>c_share_id := None\<rparr>) (find_chat j db) else find_chat j db)"
  by (induction is' arbitrary: db) (auto simp: find_share_update option.map_comp comp_def)

lemma shared_share_updates: "db_shared (foldl (\<lambda>db i. snd (update_chat_share_id_by_id i None db)) db is') = db_shared db"
  by (induction is' arbitrary: db) (auto simp: update_chat_share_id_by_id_def Let_def split: option.split)

text \<open>
  Revoking all shares stops at the first fifty. The request removes every snapshot of the user, but only for the chats of the fifty shares
  updated last does it clear the token and the grants; every other chat keeps both, and with them the access they give to the chat itself.
\<close>

theorem unshare_all_first_page:
  assumes "unshare_all_chats ids now user (db, A) = (chat_ids, db', A')"
  shows "chat_ids = map sc_chat_id (take 50 (newest_shared (filter (\<lambda>r. sc_user_id r = u_id user) (db_shared db))))"
    and "\<forall>r \<in> set (db_shared db'). sc_user_id r \<noteq> u_id user"
    and "find_chat i db' = (if i \<in> set chat_ids then map_option (\<lambda>c. c\<lparr>c_share_id := None\<rparr>) (find_chat i db) else find_chat i db)"
    and "has_access u (''shared_chat'', i) permission given G A' \<longleftrightarrow> i \<notin> set chat_ids \<and> has_access u (''shared_chat'', i) permission given G A"
proof -
  have run: "chat_ids = map sc_chat_id (shared_get_by_user_id (u_id user) 0 50 db)"
      "db' = foldl (\<lambda>db i. snd (update_chat_share_id_by_id i None db)) (shared_delete_all_by_user_id (u_id user) db) chat_ids"
      "A' = foldl (\<lambda>A i. clear_share_grants ids now i A) A chat_ids"
    using assms by (auto simp: unshare_all_chats_def Let_def)
  show "chat_ids = map sc_chat_id (take 50 (newest_shared (filter (\<lambda>r. sc_user_id r = u_id user) (db_shared db))))"
    by (simp add: run(1) shared_get_by_user_id_def page_rows_def)
  show "\<forall>r \<in> set (db_shared db'). sc_user_id r \<noteq> u_id user"
    by (simp add: run(2) shared_share_updates shared_delete_all_by_user_id_def)
  show "find_chat i db' = (if i \<in> set chat_ids then map_option (\<lambda>c. c\<lparr>c_share_id := None\<rparr>) (find_chat i db) else find_chat i db)"
    unfolding run(2) find_share_updates by (simp add: shared_delete_all_by_user_id_def find_chat_def)
  show "has_access u (''shared_chat'', i) permission given G A' \<longleftrightarrow> i \<notin> set chat_ids \<and> has_access u (''shared_chat'', i) permission given G A"
    unfolding has_access_def list_ex_iff run(3) clear_all by auto
qed

theorem unshare_all_first_page_witness:
  "\<exists>chat_ids db' A'. unshare_all_chats (\<lambda>_. []) 1 \<lparr>u_id = ''u'', u_role = ''user''\<rparr> (empty_db, []) = (chat_ids, db', A') \<and> chat_ids = []"
proof -
  obtain chat_ids db' A' where r: "unshare_all_chats (\<lambda>_. []) 1 \<lparr>u_id = ''u'', u_role = ''user''\<rparr> (empty_db, []) = (chat_ids, db', A')"
    by (metis prod_cases3)
  show ?thesis using r unshare_all_first_page(1) [OF r] by (auto simp: empty_db_def newest_shared_def)
qed

text \<open>Sharing through the chat table: a token whose snapshot is gone is kept, and no new snapshot is made.\<close>

lemma insert_shared_dead_link:
  assumes "find_chat i db = Some c" and "c_share_id c = Some s" and "s \<noteq> []" and "find_shared s db = None"
  shows "insert_shared_chat_by_chat_id token now i db = (Inr (Some c), db)"
  using assms by (simp add: shared_row_def has_share_def shared_update_def)

lemma insert_shared_total:
  assumes "find_chat i db = Some c" and "token \<notin> sc_id ` set (db_shared db)"
  shows "\<exists>c' db'. insert_shared_chat_by_chat_id token now i db = (Inr (Some c'), db') \<and> has_share c' = (has_share c \<or> token \<noteq> [])"
proof (cases "has_share c")
  case False
  then show ?thesis using assms shared_create_new [OF assms, of now "c_user_id c"] by (auto simp: shared_row_def has_share_def Let_def)
qed (use assms in \<open>auto simp: shared_row_def has_share_def\<close>)

end
