(* ===== verification/OWUI_Tags.thy ===== *)
theory OWUI_Tags
  imports OWUI_Sharing
begin

section \<open>Tags (models/tags.py, models/chats.py, routers/chats.py)\<close>

text \<open>
  A user's tags are rows of their own; a chat names its tags by id in its \<open>meta\<close>. The operations keep the two together: a tag
  added to a chat gets a row, a tag that no listed chat uses any more loses it. Tag ids are derived from names. \<open>arrange\<close> is the order in
  which Python lists a set. The queries follow the SQLite branch; the events that the requests publish and the tasks they cancel are not modelled.
\<close>

subsection \<open>The tag table\<close>

definition tag_id_of :: "string \<Rightarrow> string" where
  "tag_id_of name = lower (py_replace '' '' ''_'' name)"

definition find_tag :: "string \<Rightarrow> string \<Rightarrow> chat_db \<Rightarrow> tag_row option" where
  "find_tag i user_id db = find (\<lambda>r. tg_id r = i \<and> tg_user_id r = user_id) (db_tags db)"

definition new_tag :: "string \<Rightarrow> string \<Rightarrow> tag_row" where
  "new_tag name user_id = \<lparr>tg_id = tag_id_of name, tg_user_id = user_id, tg_name = name, tg_meta = None\<rparr>"

definition insert_new_tag :: "string \<Rightarrow> string \<Rightarrow> chat_db \<Rightarrow> tag_row option \<times> chat_db" where
  "insert_new_tag name user_id db =
     (if find_tag (tag_id_of name) user_id db \<noteq> None then (None, db)
      else (Some (new_tag name user_id), db\<lparr>db_tags := db_tags db @ [new_tag name user_id]\<rparr>))"

definition get_tag_by_name_and_user_id :: "string \<Rightarrow> string \<Rightarrow> chat_db \<Rightarrow> tag_row option" where
  "get_tag_by_name_and_user_id name user_id db = find_tag (tag_id_of name) user_id db"

definition get_tags_by_user_id :: "string \<Rightarrow> chat_db \<Rightarrow> tag_row list" where
  "get_tags_by_user_id user_id db = filter (\<lambda>r. tg_user_id r = user_id) (db_tags db)"

definition get_tags_by_ids_and_user_id :: "string list \<Rightarrow> string \<Rightarrow> chat_db \<Rightarrow> tag_row list" where
  "get_tags_by_ids_and_user_id ids user_id db = filter (\<lambda>r. tg_id r \<in> set ids \<and> tg_user_id r = user_id) (db_tags db)"

definition delete_tag_by_name_and_user_id :: "string \<Rightarrow> string \<Rightarrow> chat_db \<Rightarrow> chat_db" where
  "delete_tag_by_name_and_user_id name user_id db =
     db\<lparr>db_tags := filter (\<lambda>r. \<not> (tg_id r = tag_id_of name \<and> tg_user_id r = user_id)) (db_tags db)\<rparr>"

definition delete_tags_by_ids_and_user_id :: "string list \<Rightarrow> string \<Rightarrow> chat_db \<Rightarrow> chat_db" where
  "delete_tags_by_ids_and_user_id ids user_id db =
     (if ids = [] then db else db\<lparr>db_tags := filter (\<lambda>r. \<not> (tg_id r \<in> set ids \<and> tg_user_id r = user_id)) (db_tags db)\<rparr>)"

text \<open>Two new names with the same id break the primary key, and then none is added.\<close>

definition ensure_tags_exist :: "string list \<Rightarrow> string \<Rightarrow> chat_db \<Rightarrow> unit res \<times> chat_db" where
  "ensure_tags_exist names user_id db =
     (let new_tags = map (\<lambda>n. new_tag n user_id) (filter (\<lambda>n. find_tag (tag_id_of n) user_id db = None) names)
      in if distinct (map tg_id new_tags) then (Inr (), db\<lparr>db_tags := db_tags db @ new_tags\<rparr>) else (Inl OtherError, db))"

subsection \<open>The tags of a chat\<close>

text \<open>\<open>meta.get('tags', [])\<close>, and its entries where texts are expected. A number or container among them is an error.\<close>

definition tags_value :: "pydict \<Rightarrow> pyval" where
  "tags_value meta = dict_get_or meta ''tags'' (PList [])"

definition texts_of :: "pyval \<Rightarrow> string list res" where
  "texts_of v = bindE (iterate v) (\<lambda>vs. if list_all is_str vs then Inr (map the_str vs) else Inl OtherError)"

text \<open>\<open>json_each(meta, '$.tags')\<close> has the tag among its values.\<close>

definition has_tag :: "string \<Rightarrow> pydict \<Rightarrow> bool" where
  "has_tag t meta =
     (case tags_value meta of PList vs \<Rightarrow> PStr t \<in> set vs | PDict d \<Rightarrow> PStr t \<in> snd ` set d | v \<Rightarrow> v = PStr t)"

definition is_internal_row :: "chat_row \<Rightarrow> bool" where
  "is_internal_row c \<longleftrightarrow> dget (c_meta c) ''internal'' = PBool True"

definition counts_for_tag :: "string \<Rightarrow> string \<Rightarrow> chat_row \<Rightarrow> bool" where
  "counts_for_tag t user_id c \<longleftrightarrow> c_user_id c = user_id \<and> \<not> c_archived c \<and> \<not> is_internal_row c \<and> has_tag t (c_meta c)"

definition tag_count :: "string \<Rightarrow> string \<Rightarrow> chat_db \<Rightarrow> nat" where
  "tag_count t user_id db = length (filter (counts_for_tag t user_id) (db_chats db))"

definition count_chats_by_tag_ids_and_user_id :: "string list \<Rightarrow> string \<Rightarrow> chat_db \<Rightarrow> (string, nat) dict" where
  "count_chats_by_tag_ids_and_user_id tag_ids user_id db =
     foldl (\<lambda>d t. dict_set t (tag_count (tag_id_of t) user_id db) d) [] tag_ids"

definition count_chats_by_tag_name_and_user_id :: "string \<Rightarrow> string \<Rightarrow> chat_db \<Rightarrow> nat" where
  "count_chats_by_tag_name_and_user_id name user_id db =
     dict_get_or (count_chats_by_tag_ids_and_user_id [tag_id_of name] user_id db) (tag_id_of name) 0"

definition delete_orphan_tags_for_user :: "string list \<Rightarrow> string \<Rightarrow> nat \<Rightarrow> chat_db \<Rightarrow> chat_db" where
  "delete_orphan_tags_for_user tag_ids user_id threshold db =
     (let counts = count_chats_by_tag_ids_and_user_id tag_ids user_id db
      in delete_tags_by_ids_and_user_id (filter (\<lambda>t. dict_get_or counts t 0 \<le> threshold) tag_ids) user_id db)"

definition get_chat_tags_by_id_and_user_id :: "string \<Rightarrow> string \<Rightarrow> chat_db \<Rightarrow> tag_row list res" where
  "get_chat_tags_by_id_and_user_id i user_id db =
     bindE (texts_of (tags_value (case find_chat i db of None \<Rightarrow> [] | Some c \<Rightarrow> c_meta c)))
       (\<lambda>ids. Inr (get_tags_by_ids_and_user_id ids user_id db))"

text \<open>Only the meta column is written.\<close>

definition store_tags :: "string \<Rightarrow> pydict \<Rightarrow> pyval list \<Rightarrow> chat_db \<Rightarrow> chat_db" where
  "store_tags i meta vs db =
     db\<lparr>db_chats := map (\<lambda>c. if c_id c = i then c\<lparr>c_meta := dict_set ''tags'' (PList vs) meta\<rparr> else c) (db_chats db)\<rparr>"

definition update_chat_tags_by_id :: "string \<Rightarrow> string list \<Rightarrow> string \<Rightarrow> chat_db \<Rightarrow> unit res \<times> chat_db" where
  "update_chat_tags_by_id i tags user_id db =
     (case find_chat i db of
        None \<Rightarrow> (Inr (), db)
      | Some c \<Rightarrow>
          (let old_tags = tags_value (c_meta c);
               new_tags = filter (\<lambda>t. tag_id_of t \<noteq> ''none'') tags;
               new_tag_ids = map tag_id_of new_tags;
               db1 = store_tags i (c_meta c) (map PStr new_tag_ids) db
           in case ensure_tags_exist new_tags user_id db1 of
                (Inl e, db2) \<Rightarrow> (Inl e, db2)
              | (Inr _, db2) \<Rightarrow>
                  (case texts_of old_tags of
                     Inl e \<Rightarrow> (Inl e, db2)
                   | Inr olds \<Rightarrow> (Inr (), delete_orphan_tags_for_user (filter (\<lambda>t. t \<notin> set new_tag_ids) olds) user_id 0 db2))))"

definition add_chat_tag_by_id_and_user_id_and_tag_name ::
    "(pyval list \<Rightarrow> pyval list) \<Rightarrow> string \<Rightarrow> string \<Rightarrow> string \<Rightarrow> chat_db \<Rightarrow> chat_db" where
  "add_chat_tag_by_id_and_user_id_and_tag_name arrange i user_id name db =
     (let db = snd (ensure_tags_exist [name] user_id db)
      in case find_chat i db of
           None \<Rightarrow> db
         | Some c \<Rightarrow>
             (case tags_value (c_meta c) of
                PList vs \<Rightarrow>
                  if PStr (tag_id_of name) \<notin> set vs \<and> list_all hashable vs
                  then store_tags i (c_meta c) (arrange (vs @ [PStr (tag_id_of name)])) db else db
              | _ \<Rightarrow> db))"

text \<open>A missing chat is an \<open>AttributeError\<close>; every exception is caught.\<close>

definition delete_tag_by_id_and_user_id_and_tag_name :: "(pyval list \<Rightarrow> pyval list) \<Rightarrow> string \<Rightarrow> string \<Rightarrow> chat_db \<Rightarrow> bool \<times> chat_db" where
  "delete_tag_by_id_and_user_id_and_tag_name arrange i name db =
     (case find_chat i db of
        None \<Rightarrow> (False, db)
      | Some c \<Rightarrow>
          (case iterate (tags_value (c_meta c)) of
             Inl e \<Rightarrow> (False, db)
           | Inr vs \<Rightarrow>
               (let vs = filter (\<lambda>v. v \<noteq> PStr (tag_id_of name)) vs
                in if list_all hashable vs then (True, store_tags i (c_meta c) (arrange vs) db) else (False, db))))"

subsection \<open>The requests\<close>

definition get_chat_tags_by_id ::
    "bool \<Rightarrow> string \<Rightarrow> user_row \<Rightarrow> folders \<Rightarrow> group_db \<Rightarrow> grants_table \<Rightarrow> chat_db \<Rightarrow> tag_row list res \<times> chat_db" where
  "get_chat_tags_by_id admin_access i user T G A db =
     (case get_chat_by_id_for_user admin_access i user T G A db of
        (None, db) \<Rightarrow> (Inl OtherError, db)
      | (Some c, db) \<Rightarrow> (bindE (texts_of (tags_value (c_meta c))) (\<lambda>ids. Inr (get_tags_by_ids_and_user_id ids (c_user_id c) db)), db))"

text \<open>The answer of both requests below: the chat is read again and its tags are looked up.\<close>

definition tags_of_own_chat :: "string \<Rightarrow> user_row \<Rightarrow> chat_db \<Rightarrow> tag_row list res \<times> chat_db" where
  "tags_of_own_chat i user db =
     (case get_chat_by_id_and_user_id i (u_id user) db of
        (None, db) \<Rightarrow> (Inl OtherError, db)
      | (Some c, db) \<Rightarrow> (bindE (texts_of (tags_value (c_meta c))) (\<lambda>ids. Inr (get_tags_by_ids_and_user_id ids (u_id user) db)), db))"

definition add_tag_by_id_and_tag_name ::
    "(pyval list \<Rightarrow> pyval list) \<Rightarrow> string \<Rightarrow> string \<Rightarrow> user_row \<Rightarrow> chat_db \<Rightarrow> tag_row list res \<times> chat_db" where
  "add_tag_by_id_and_tag_name arrange i name user db =
     (case get_chat_by_id_and_user_id i (u_id user) db of
        (None, db) \<Rightarrow> (Inl OtherError, db)
      | (Some c, db) \<Rightarrow>
          if tag_id_of name = ''none'' then (Inl OtherError, db)
          else (case text_in (tag_id_of name) (tags_value (c_meta c)) of
                  Inl e \<Rightarrow> (Inl e, db)
                | Inr b \<Rightarrow>
                    tags_of_own_chat i user
                      (if b then db else add_chat_tag_by_id_and_user_id_and_tag_name arrange i (u_id user) name db)))"

definition delete_tag_by_id_and_tag_name ::
    "(pyval list \<Rightarrow> pyval list) \<Rightarrow> string \<Rightarrow> string \<Rightarrow> user_row \<Rightarrow> chat_db \<Rightarrow> tag_row list res \<times> chat_db" where
  "delete_tag_by_id_and_tag_name arrange i name user db =
     (case get_chat_by_id_and_user_id i (u_id user) db of
        (None, db) \<Rightarrow> (Inl OtherError, db)
      | (Some c, db) \<Rightarrow>
          (let db = snd (delete_tag_by_id_and_user_id_and_tag_name arrange i name db)
           in tags_of_own_chat i user
                (if count_chats_by_tag_name_and_user_id name (u_id user) db = 0 then delete_tag_by_name_and_user_id name (u_id user) db else db)))"

text \<open>Archiving a chat takes its tags out of the count; taking it back needs their rows again.\<close>

definition archive_chat_by_id :: "int \<Rightarrow> string \<Rightarrow> user_row \<Rightarrow> chat_db \<Rightarrow> chat_row res \<times> chat_db" where
  "archive_chat_by_id now i user db =
     (case get_chat_by_id_and_user_id i (u_id user) db of
        (None, db) \<Rightarrow> (Inl OtherError, db)
      | (Some _, db) \<Rightarrow>
          (case toggle_chat_archive_by_id now i db of
             (None, db) \<Rightarrow> (Inl OtherError, db)
           | (Some c, db) \<Rightarrow>
               (let v = tags_value (c_meta c)
                in if \<not> truthy v then (Inr c, db)
                   else (case texts_of v of
                           Inl e \<Rightarrow> (Inl e, db)
                         | Inr ids \<Rightarrow>
                             if c_archived c then (Inr c, delete_orphan_tags_for_user ids (u_id user) 0 db)
                             else (case ensure_tags_exist ids (u_id user) db of (Inl e, db) \<Rightarrow> (Inl e, db) | (Inr _, db) \<Rightarrow> (Inr c, db))))))"

definition get_internal_chat_ids_by_parent_id :: "string \<Rightarrow> string \<Rightarrow> chat_db \<Rightarrow> string list" where
  "get_internal_chat_ids_by_parent_id parent user_id db =
     map c_id (filter (\<lambda>c. c_user_id c = user_id \<and> is_internal_row c \<and> dget (c_meta c) ''parent_chat_id'' = PStr parent) (db_chats db))"

text \<open>\<open>DELETE /{id}\<close>. \<open>allowed\<close> is the answer of \<open>has_permission\<close> for \<open>chat.delete\<close>, which administrators are not asked for.\<close>

definition delete_chat_request :: "bool res \<Rightarrow> string \<Rightarrow> user_row \<Rightarrow> chat_db \<Rightarrow> bool res \<times> chat_db" where
  "delete_chat_request allowed i user db =
     (let admin = (u_role user = ''admin'')
      in case (if admin then Inr True else allowed) of
           Inl e \<Rightarrow> (Inl e, db)
         | Inr b \<Rightarrow>
             if \<not> b then (Inl OtherError, db)
             else (case (if admin then get_chat_by_id i db else get_chat_by_id_and_user_id i (u_id user) db) of
                     (None, db) \<Rightarrow> (Inl OtherError, db)
                   | (Some c, db) \<Rightarrow>
                       (case (if truthy (tags_value (c_meta c)) then texts_of (tags_value (c_meta c)) else Inr []) of
                          Inl e \<Rightarrow> (Inl e, db)
                        | Inr ids \<Rightarrow>
                            (let db = delete_orphan_tags_for_user ids (u_id user) 1 db;
                                 db = foldl (\<lambda>db j. delete_chat_by_id_and_user_id j (c_user_id c) db) db
                                        (get_internal_chat_ids_by_parent_id i (c_user_id c) db)
                             in (Inr True, if admin then delete_chat_by_id i db else delete_chat_by_id_and_user_id i (u_id user) db)))))"

subsection \<open>What the operations do to the tag table\<close>

lemma find_filter_if: "(\<And>x. P x \<Longrightarrow> Q x = b) \<Longrightarrow> find P (filter Q xs) = (if b then find P xs else None)"
  by (induction xs) auto

lemma find_append: "find P (xs @ ys) = (case find P xs of Some x \<Rightarrow> Some x | None \<Rightarrow> find P ys)"
  by (induction xs) auto

lemma find_tag_deleted: "find_tag t v (delete_tags_by_ids_and_user_id ids u db) = (if v = u \<and> t \<in> set ids then None else find_tag t v db)"
  by (auto simp: find_tag_def delete_tags_by_ids_and_user_id_def intro: trans [OF find_filter_if [where b = False]] trans [OF find_filter_if [where b = True]])

lemma find_tag_ensured:
  assumes "ensure_tags_exist names u db = (Inr x, db')"
  shows "find_tag t v db' = (case find_tag t v db of
      Some r \<Rightarrow> Some r | None \<Rightarrow> if v = u then map_option (\<lambda>n. new_tag n u) (find (\<lambda>n. tag_id_of n = t) names) else None)"
proof -
  let ?new = "\<lambda>names. map (\<lambda>n. new_tag n u) (filter (\<lambda>n. find_tag (tag_id_of n) u db = None) names)"
  have tags: "db_tags db' = db_tags db @ ?new names" using assms by (auto simp: ensure_tags_exist_def Let_def split: if_splits)
  have "find_tag t v db' = (case find_tag t v db of Some r \<Rightarrow> Some r | None \<Rightarrow> find (\<lambda>r. tg_id r = t \<and> tg_user_id r = v) (?new names))"
    by (simp only: find_tag_def [of t v db'] find_tag_def [of t v db] tags find_append)
  moreover have "find (\<lambda>r. tg_id r = t \<and> tg_user_id r = v) (?new ns) = (if v = u then map_option (\<lambda>n. new_tag n u) (find (\<lambda>n. tag_id_of n = t) ns) else None)"
    if "find_tag t v db = None" for ns using that by (induction ns) (auto simp: new_tag_def)
  ultimately show ?thesis by (cases "find_tag t v db") auto
qed

lemma ensure_chats: "db_chats (snd (ensure_tags_exist names u db)) = db_chats db"
  by (simp add: ensure_tags_exist_def Let_def)

lemma counts_lookup: "map_of (foldl (\<lambda>d t. dict_set t (f t) d) d ids) t = (if t \<in> set ids then Some (f t) else map_of d t)"
  by (induction ids arbitrary: d) auto

lemma find_tag_orphans:
  "find_tag t v (delete_orphan_tags_for_user ids u k db) = (if v = u \<and> t \<in> set ids \<and> tag_count (tag_id_of t) u db \<le> k then None else find_tag t v db)"
  by (simp add: delete_orphan_tags_for_user_def count_chats_by_tag_ids_and_user_id_def find_tag_deleted dict_get_or_def counts_lookup)

lemma orphans_chats: "db_chats (delete_orphan_tags_for_user ids u k db) = db_chats db"
  by (simp add: delete_orphan_tags_for_user_def delete_tags_by_ids_and_user_id_def Let_def)

lemma tag_count_chats: "db_chats db' = db_chats db \<Longrightarrow> tag_count t u db' = tag_count t u db"
  by (simp add: tag_count_def)

lemma store_tags_find: "find_chat j (store_tags i meta vs db) = map_option (\<lambda>c. if c_id c = i then c\<lparr>c_meta := dict_set ''tags'' (PList vs) meta\<rparr> else c) (find_chat j db)"
proof -
  have "find (\<lambda>c. c_id c = j) (map (\<lambda>c. if c_id c = i then c\<lparr>c_meta := m\<rparr> else c) cs)
      = map_option (\<lambda>c. if c_id c = i then c\<lparr>c_meta := m\<rparr> else c) (find (\<lambda>c. c_id c = j) cs)" for m cs by (induction cs) auto
  then show ?thesis by (simp add: find_chat_def store_tags_def)
qed

lemma update_one_tag:
  assumes "find_chat i db = Some c" and "texts_of (tags_value (c_meta c)) = Inr olds" and "filter (\<lambda>n. tag_id_of n \<noteq> ''none'') names = [n]"
  shows "\<exists>db'. update_chat_tags_by_id i names u db = (Inr (), db')"
proof -
  have "\<exists>db2. ensure_tags_exist [n] u d = (Inr (), db2)" for d by (simp add: ensure_tags_exist_def Let_def)
  then obtain db2 where "ensure_tags_exist [n] u (store_tags i (c_meta c) [PStr (tag_id_of n)] db) = (Inr (), db2)" by blast
  then show ?thesis using assms by (simp add: update_chat_tags_by_id_def Let_def)
qed

lemma tags_follow_chats_parts:
  assumes "find_chat i db = Some c" and "texts_of (tags_value (c_meta c)) = Inr olds"
    and "update_chat_tags_by_id i names u db = (Inr x, db')" and "ids = map tag_id_of (filter (\<lambda>n. tag_id_of n \<noteq> ''none'') names)"
  shows "find_chat i db' = Some (c\<lparr>c_meta := dict_set ''tags'' (PList (map PStr ids)) (c_meta c)\<rparr>)"
    and "t \<in> set ids \<Longrightarrow> find_tag t u db' = (case find_tag t u db of Some r \<Rightarrow> Some r
        | None \<Rightarrow> map_option (\<lambda>n. new_tag n u) (find (\<lambda>n. tag_id_of n = t) (filter (\<lambda>n. tag_id_of n \<noteq> ''none'') names)))"
    and "t \<in> set olds - set ids \<Longrightarrow> find_tag t u db' = (if tag_count (tag_id_of t) u db' = 0 then None else find_tag t u db)"
    and "t \<notin> set olds \<union> set ids \<or> v \<noteq> u \<Longrightarrow> find_tag t v db' = find_tag t v db"
proof -
  let ?names = "filter (\<lambda>n. tag_id_of n \<noteq> ''none'') names" and ?gone = "filter (\<lambda>t. t \<notin> set ids) olds"
  let ?db1 = "store_tags i (c_meta c) (map PStr ids) db"
  obtain y db2 where e: "ensure_tags_exist ?names u ?db1 = (Inr y, db2)" and db': "db' = delete_orphan_tags_for_user ?gone u 0 db2"
    using assms(1-3) unfolding assms(4) by (auto simp: update_chat_tags_by_id_def Let_def split: prod.splits sum.splits)
  have chats: "db_chats db' = db_chats ?db1" "db_chats db' = db_chats db2" using arg_cong [OF e, of snd] ensure_chats [of ?names u ?db1] by (simp_all add: db' orphans_chats)
  have same: "find_tag s v ?db1 = find_tag s v db" for s v by (simp add: find_tag_def store_tags_def)
  have member: "find (\<lambda>n. tag_id_of n = s) ns = None \<longleftrightarrow> s \<notin> tag_id_of ` set ns" for s ns by (auto simp: find_None_iff)
  have tag: "find_tag s v db' = (if v = u \<and> s \<in> set ?gone \<and> tag_count (tag_id_of s) u db' = 0 then None
      else case find_tag s v db of Some r \<Rightarrow> Some r | None \<Rightarrow> if v = u then map_option (\<lambda>n. new_tag n u) (find (\<lambda>n. tag_id_of n = s) ?names) else None)" for s v
    unfolding tag_count_chats [OF chats(2)] unfolding db' find_tag_orphans find_tag_ensured [OF e] same by simp
  show "find_chat i db' = Some (c\<lparr>c_meta := dict_set ''tags'' (PList (map PStr ids)) (c_meta c)\<rparr>)"
    using chats(1) assms(1) store_tags_find [of i i "c_meta c" "map PStr ids" db] find_chat_id [OF assms(1)] by (simp add: find_chat_def)
  show "find_tag t u db' = (case find_tag t u db of Some r \<Rightarrow> Some r | None \<Rightarrow> map_option (\<lambda>n. new_tag n u) (find (\<lambda>n. tag_id_of n = t) ?names))"
    if "t \<in> set ids" unfolding tag using that by simp
  have none: "find (\<lambda>n. tag_id_of n = s) ?names = None" if "s \<notin> set ids" for s using that unfolding assms(4) set_map member .
  show "find_tag t u db' = (if tag_count (tag_id_of t) u db' = 0 then None else find_tag t u db)" if "t \<in> set olds - set ids"
    unfolding tag using that none [of t] by (auto split: option.split)
  show "find_tag t v db' = find_tag t v db" if "t \<notin> set olds \<union> set ids \<or> v \<noteq> u"
    unfolding tag using that none [of t] by (auto split: option.split)
qed

text \<open>
  C34. Tags follow the chats. When the tags of a chat are replaced, the chat names the ids of the given tags, the name "none" left out, and each of
  them has a row, the one it had before if there was one; a tag the chat no longer has loses its row exactly when no listed chat of the user has
  it, and no other tag, of this user or another, changes.
\<close>

theorem tags_follow_chats:
  assumes "find_chat i db = Some c" and "texts_of (tags_value (c_meta c)) = Inr olds"
    and "update_chat_tags_by_id i names u db = (Inr x, db')" and "ids = map tag_id_of (filter (\<lambda>n. tag_id_of n \<noteq> ''none'') names)"
  shows "find_chat i db' = Some (c\<lparr>c_meta := dict_set ''tags'' (PList (map PStr ids)) (c_meta c)\<rparr>)
     \<and> (t \<in> set ids \<longrightarrow> find_tag t u db' = (case find_tag t u db of Some r \<Rightarrow> Some r
        | None \<Rightarrow> map_option (\<lambda>n. new_tag n u) (find (\<lambda>n. tag_id_of n = t) (filter (\<lambda>n. tag_id_of n \<noteq> ''none'') names))))
     \<and> (t \<in> set olds - set ids \<longrightarrow> find_tag t u db' = (if tag_count (tag_id_of t) u db' = 0 then None else find_tag t u db))
     \<and> (t \<notin> set olds \<union> set ids \<or> v \<noteq> u \<longrightarrow> find_tag t v db' = find_tag t v db)"
  by (intro conjI impI) (rule tags_follow_chats_parts [OF assms]; assumption)+

theorem tags_follow_chats_witness:
  "\<exists>x db'. update_chat_tags_by_id ''c'' [''A b'', ''None''] ''u'' (empty_db\<lparr>db_chats := [sample_chat ''c'' ''u'']\<rparr>) = (Inr x, db')
     \<and> map_option c_meta (find_chat ''c'' db') = Some [(''tags'', PList [PStr ''a_b''])]"
proof -
  let ?db = "empty_db\<lparr>db_chats := [sample_chat ''c'' ''u'']\<rparr>" and ?c = "sample_chat ''c'' ''u''"
  have [simp]: "tag_id_of ''A b'' = ''a_b''" "tag_id_of ''None'' = ''none''" by code_simp+
  have ids: "map tag_id_of (filter (\<lambda>n. tag_id_of n \<noteq> ''none'') [''A b'', ''None'']) = [''a_b'']" by simp
  have c: "find_chat ''c'' ?db = Some ?c" "c_meta ?c = []" by (simp_all add: find_chat_def sample_chat_def)
  have olds: "texts_of (tags_value (c_meta ?c)) = Inr []" by (simp add: c(2) texts_of_def tags_value_def dict_get_or_def)
  obtain x db' where r: "update_chat_tags_by_id ''c'' [''A b'', ''None''] ''u'' ?db = (Inr x, db')"
    using update_one_tag [OF c(1) olds, of "[''A b'', ''None'']" "''A b''" "''u''"] by auto
  show ?thesis using r tags_follow_chats [OF c(1) olds r ids [symmetric]] by (auto simp: c(2) dict_set_def)
qed

text \<open>Two names with one tag id: the request fails after the chat was changed, and no tag row was added.\<close>

lemma tags_clash:
  assumes "find_chat i db = Some c" and "tag_id_of n = tag_id_of m" and "tag_id_of n \<noteq> ''none''" and "find_tag (tag_id_of n) u db = None"
  shows "update_chat_tags_by_id i [n, m] u db = (Inl OtherError, store_tags i (c_meta c) [PStr (tag_id_of n), PStr (tag_id_of n)] db)"
  using assms by (simp add: update_chat_tags_by_id_def ensure_tags_exist_def Let_def find_tag_def store_tags_def new_tag_def)

subsection \<open>Deleting a chat counts the chat itself\<close>

lemma tag_count_put:
  assumes "find_chat i db = Some c" and "distinct (map c_id (db_chats db))" and "counts_for_tag t u c' = counts_for_tag t u c" and "c_id c' = i"
  shows "tag_count t u (put_chat c' db) = tag_count t u db"
proof -
  have row: "d = c" if "d \<in> set (db_chats db)" "c_id d = i" for d
    using that assms(2) find_chat_id [OF assms(1)] by (metis distinct_map inj_onD)
  have "length (filter P (map f xs)) = length (filter P xs)" if "\<And>x. x \<in> set xs \<Longrightarrow> P (f x) = P x" for P :: "chat_row \<Rightarrow> bool" and f xs
    using that by (induction xs) auto
  then show ?thesis unfolding tag_count_def put_chat_def using row assms(3,4) by simp
qed

lemma tag_count_drop:
  assumes "\<And>c. c \<in> set (db_chats db) \<Longrightarrow> \<not> keep c \<Longrightarrow> \<not> counts_for_tag t u c" and "db_chats db' = filter keep (db_chats db)"
  shows "tag_count t u db' = tag_count t u db"
  unfolding tag_count_def assms(2) filter_filter using assms(1) by (metis (mono_tags, lifting) filter_cong)

lemma read_row_counts: "read_row c = Inr c' \<Longrightarrow> c_archived c' = c_archived c \<and> counts_for_tag t u c' = counts_for_tag t u c"
  by (auto simp: read_row_def bindE_eq_Inr Let_def sanitize_chat_row_def counts_for_tag_def is_internal_row_def split: if_splits prod.splits)

lemma delete_chats:
  "db_chats (delete_chat_by_id_and_user_id j v db) = filter (\<lambda>c. \<not> (c_id c = j \<and> c_user_id c = v)) (db_chats db)"
  "db_chats (delete_chat_by_id j db) = filter (\<lambda>c. c_id c \<noteq> j) (db_chats db)"
  by (simp_all add: delete_chat_by_id_and_user_id_def delete_chat_by_id_def delete_shared_chat_by_chat_id_def forget_chats_def Let_def)

lemma delete_children_chats:
  "db_chats (foldl (\<lambda>db j. delete_chat_by_id_and_user_id j v db) db js) = filter (\<lambda>c. \<not> (c_id c \<in> set js \<and> c_user_id c = v)) (db_chats db)"
  by (induction js arbitrary: db) (auto simp: delete_chats intro: filter_cong)

lemma delete_family_chats:
  "\<exists>P. db_chats (if a then delete_chat_by_id i (foldl (\<lambda>db j. delete_chat_by_id_and_user_id j v db) db js)
        else delete_chat_by_id_and_user_id i v (foldl (\<lambda>db j. delete_chat_by_id_and_user_id j v db) db js)) = filter P (db_chats db)
     \<and> (\<forall>d. \<not> P d \<longrightarrow> c_id d \<in> insert i (set js))"
proof (cases a)
  case True
  show ?thesis
    by (rule exI [of _ "\<lambda>c. \<not> (c_id c \<in> set js \<and> c_user_id c = v) \<and> c_id c \<noteq> i"]) (simp add: True delete_chats delete_children_chats conj_commute)
next
  case False
  show ?thesis
    by (rule exI [of _ "\<lambda>c. \<not> (c_id c \<in> set js \<and> c_user_id c = v) \<and> \<not> (c_id c = i \<and> c_user_id c = v)"])
      (simp add: False delete_chats delete_children_chats conj_commute)
qed

lemma delete_keeps_tags:
  "find_tag t u (delete_chat_by_id_and_user_id j v db) = find_tag t u db" "find_tag t u (delete_chat_by_id j db) = find_tag t u db"
  "find_tag t u (foldl (\<lambda>db j. delete_chat_by_id_and_user_id j v db) db js) = find_tag t u db"
proof -
  show one: "find_tag t u (delete_chat_by_id_and_user_id j v db) = find_tag t u db" for j v db
    by (simp add: find_tag_def delete_chat_by_id_and_user_id_def delete_shared_chat_by_chat_id_def forget_chats_def Let_def)
  show "find_tag t u (delete_chat_by_id j db) = find_tag t u db"
    by (simp add: find_tag_def delete_chat_by_id_def delete_shared_chat_by_chat_id_def forget_chats_def Let_def)
  show "find_tag t u (foldl (\<lambda>db j. delete_chat_by_id_and_user_id j v db) db js) = find_tag t u db"
    by (induction js arbitrary: db) (simp_all add: one)
qed

text \<open>
  A chat that is archived does not count for its tags, but deleting it allows for one chat that still does: the row of a tag that one listed chat
  uses is deleted with it.
\<close>

lemma delete_archived_drops_tag:
  assumes "distinct (map c_id (db_chats db))" and "find_chat i db = Some c" and "c_user_id c = u_id user" and "c_archived c"
    and "texts_of (tags_value (c_meta c)) = Inr ids" and "t \<in> set ids" and "tag_count (tag_id_of t) (u_id user) db = 1"
    and "delete_chat_request (Inr True) i user db = (Inr b, db')"
  shows "find_tag t (u_id user) db' = None \<and> tag_count (tag_id_of t) (u_id user) db' = 1"
proof -
  let ?u = "u_id user" and ?t = "tag_id_of t"
  have own: "find (\<lambda>c. c_id c = i \<and> c_user_id c = ?u) (db_chats db) = Some c"
    using find_owned [OF assms(1), of i ?u] assms(2,3) by (simp add: find_chat_def)
  obtain c' where c': "read_row c = Inr c'"
    using assms(2,8) own by (cases "read_row c") (auto simp: delete_chat_request_def get_chat_by_id_def get_chat_by_id_and_user_id_def Let_def split: if_splits)
  note same = read_row_same [OF c'] read_row_counts [OF c', of ?t ?u]
  let ?db1 = "put_chat c' db"
  let ?db2 = "delete_orphan_tags_for_user ids ?u 1 ?db1"
  let ?js = "get_internal_chat_ids_by_parent_id i ?u ?db2"
  let ?db3 = "foldl (\<lambda>db j. delete_chat_by_id_and_user_id j ?u db) ?db2 ?js"
  have "truthy (tags_value (c_meta c))" using assms(5,6) by (cases "tags_value (c_meta c)") (auto simp: texts_of_def)
  then have db': "db' = (if u_role user = ''admin'' then delete_chat_by_id i ?db3 else delete_chat_by_id_and_user_id i ?u ?db3)"
    using assms(2,3,5,8) own c' same by (auto simp: delete_chat_request_def get_chat_by_id_def get_chat_by_id_and_user_id_def Let_def)
  have id: "c_id c = i" using find_chat_id [OF assms(2)] by simp
  have count1: "tag_count ?t ?u ?db1 = 1" using tag_count_put [OF assms(2,1), of ?t ?u c'] same id assms(7) by simp
  have ids: "distinct (map c_id (db_chats ?db1))" using assms(1) chat_rows.put_ids [of c' db] by simp
  have keep: "\<not> counts_for_tag ?t ?u d" if dk: "d \<in> set (db_chats ?db1)" "c_id d \<in> insert i (set ?js)" for d
  proof (cases "c_id d = i")
    case True
    have "find_chat i ?db1 = Some c'" using same id chat_rows.read_back [OF assms(2), of c' i] by simp
    then have "d = c'" using True dk(1) ids find_chat_id [of i ?db1 c'] by (metis distinct_map inj_onD)
    then show ?thesis using same assms(4) by (simp add: counts_for_tag_def)
  next
    case False
    then obtain e where e: "e \<in> set (db_chats ?db1)" "c_id e = c_id d" "is_internal_row e"
      using dk(2) by (auto simp: get_internal_chat_ids_by_parent_id_def orphans_chats)
    then have "e = d" using dk(1) ids by (metis distinct_map inj_onD)
    then show ?thesis using e(3) by (simp add: counts_for_tag_def)
  qed
  have "find_tag t ?u db' = None"
    by (simp add: db' delete_keeps_tags find_tag_orphans assms(6) count1)
  moreover have "\<exists>P. db_chats db' = filter P (db_chats ?db1) \<and> (\<forall>d. \<not> P d \<longrightarrow> c_id d \<in> insert i (set ?js))"
    unfolding db' using delete_family_chats [of "u_role user = ''admin''" i ?u ?db2 ?js] by (simp only: orphans_chats)
  ultimately show ?thesis using tag_count_drop [of ?db1 _ ?t ?u db'] keep count1 by (metis (no_types, lifting))
qed

end
