(* ===== verification/OWUI_Chats_Laws.thy ===== *)
theory OWUI_Chats_Laws
  imports OWUI_Tags
begin

section \<open>Laws of the chat table\<close>

text \<open>
  What holds after any sequence of the operations on chats, shares and tags: the tables refer to each other consistently and their keys are
  unique (the requests of \<open>OWUI_Sharing\<close> and \<open>OWUI_Tags\<close> are made of these operations), edits are read back, and an edit
  of one chat leaves the others alone.
\<close>

subsection \<open>No operation leaves orphans\<close>

text \<open>
  What the tables promise each other: chat ids and message ids are unique, every message row and every automation run
  belongs to a chat that exists.
\<close>

definition db_ok :: "chat_db \<Rightarrow> bool" where
  "db_ok db \<longleftrightarrow> distinct (map c_id (db_chats db)) \<and> distinct (map cm_id (db_messages db))
     \<and> (\<forall>r \<in> set (db_messages db). cm_chat_id r \<in> c_id ` set (db_chats db))
     \<and> (\<forall>r \<in> set (db_runs db). \<forall>i. ar_chat_id r = Some i \<longrightarrow> i \<in> c_id ` set (db_chats db))"

inductive chat_step :: "chat_db \<Rightarrow> chat_db \<Rightarrow> bool" where
  create: "chat_step db (snd (insert_new_chat now i u form meta timer db))"
| move: "chat_step db (snd (update_chat_folder_id_by_id_and_user_id now i u folder db))"
| move_folder: "chat_step db (move_chats_by_user_id_and_folder_id u folder folder' db)"
| delete: "chat_step db (delete_chat_by_id i db)"
| delete_own: "chat_step db (delete_chat_by_id_and_user_id i u db)"
| delete_user: "chat_step db (delete_chats_by_user_id u db)"
| delete_folder: "chat_step db (delete_chats_by_user_id_and_folder_id u folder db)"
| delete_shared: "chat_step db (delete_shared_chats_by_user_id u db)"
| edit: "chat_step db (snd (update_chat_by_id now i chat touch db))"
| variables: "chat_step db (snd (update_chat_variables_by_id now i v touch db))"
| read_at: "chat_step db (snd (update_chat_last_read_at_by_id now i u db))"
| unread: "chat_step db (snd (mark_chat_unread_by_id i u db))"
| read_folders: "chat_step db (snd (mark_chats_read_by_folder_ids u folders db))"
| read_user: "chat_step db (snd (mark_chats_read_by_user_id u db))"
| heading: "chat_step db (snd (update_chat_title_by_id i t db))"
| tasks: "chat_step db (snd (update_chat_tasks_by_id i v db))"
| upsert: "chat_step db (snd (upsert_message_to_chat_by_id_and_message_id now i k m touch db))"
| delete_message: "chat_step db (snd (delete_message_from_chat_by_id_and_message_id now i k db))"
| status: "chat_step db (snd (add_message_status_to_chat_by_id_and_message_id i k v db))"
| read: "chat_step db (snd (get_chat_by_id i db))"
| read_own: "chat_step db (snd (get_chat_by_id_and_user_id i u db))"
| backfill: "i \<in> c_id ` set (db_chats db) \<Longrightarrow> chat_step db (backfill_messages_by_chat_id now i u M db)"
| snapshot: "chat_step db (snd (shared_create token now i u db))"
| refresh: "chat_step db (snd (shared_update now token db))"
| share_id: "chat_step db (snd (update_chat_share_id_by_id i share db))"
| unshare: "chat_step db (delete_shared_chat_by_chat_id i db)"
| unshare_token: "chat_step db (shared_delete_by_id token db)"
| unshare_user: "chat_step db (shared_delete_all_by_user_id u db)"
| archive_all: "chat_step db (archive_all_chats_by_user_id u db)"
| unarchive_all: "chat_step db (unarchive_all_chats_by_user_id u db)"
| pin: "chat_step db (snd (toggle_chat_pinned_by_id now i db))"
| archive: "chat_step db (snd (toggle_chat_archive_by_id now i db))"
| new_tag: "chat_step db (snd (insert_new_tag n u db))"
| new_tags: "chat_step db (snd (ensure_tags_exist ns u db))"
| drop_tag: "chat_step db (delete_tag_by_name_and_user_id n u db)"
| drop_tags: "chat_step db (delete_tags_by_ids_and_user_id ids u db)"
| set_tags: "chat_step db (store_tags i meta vs db)"

text \<open>The tokens of snapshots and the keys of tags are unique as well.\<close>

definition tag_key :: "tag_row \<Rightarrow> string \<times> string" where
  "tag_key r = (tg_id r, tg_user_id r)"

definition keys_ok :: "chat_db \<Rightarrow> bool" where
  "keys_ok db \<longleftrightarrow> distinct (map sc_id (db_shared db)) \<and> distinct (map tag_key (db_tags db))"

text \<open>Rewriting rows in place keeps the ids and so everything.\<close>

lemma map_ids: "(\<And>c. c \<in> set cs \<Longrightarrow> c_id (f c) = c_id c) \<Longrightarrow> map c_id (map f cs) = map c_id cs"
  by simp

lemma db_ok_same_ids:
  assumes "db_ok db" and "map c_id (db_chats db') = map c_id (db_chats db)"
    and "db_messages db' = db_messages db" and "db_runs db' = db_runs db"
  shows "db_ok db'"
proof -
  have "c_id ` set (db_chats db') = c_id ` set (db_chats db)" using arg_cong [OF assms(2), of set] by simp
  then show ?thesis using assms unfolding db_ok_def by (metis (no_types, lifting))
qed

lemma db_ok_put: "db_ok db \<Longrightarrow> db_ok (put_chat c db)"
  by (erule db_ok_same_ids [OF _ chat_rows.put_ids]) (simp_all add: put_chat_def)

lemma db_ok_forget:
  assumes "db_ok db" and "\<And>c. c \<in> set (db_chats db) \<Longrightarrow> \<not> Q c \<Longrightarrow> P (c_id c)"
  shows "db_ok ((forget_chats P db)\<lparr>db_chats := filter Q (db_chats (forget_chats P db))\<rparr>)"
proof -
  have keep: "i \<in> c_id ` set (filter Q (db_chats db))" if "i \<in> c_id ` set (db_chats db)" "\<not> P i" for i
    using that assms(2) by auto
  have run: "i \<in> c_id ` set (filter Q (db_chats db))"
    if "r \<in> set (db_runs (forget_chats P db))" "ar_chat_id r = Some i" for r i
    using that assms(1) by (intro keep) (auto simp: forget_chats_def db_ok_def split: option.splits if_splits)
  have msg: "cm_chat_id r \<in> c_id ` set (filter Q (db_chats db))" if "r \<in> set (db_messages (forget_chats P db))" for r
    using that assms(1) by (intro keep) (auto simp: forget_chats_def db_ok_def)
  have "distinct (map c_id (filter Q (db_chats db)))" "distinct (map cm_id (db_messages (forget_chats P db)))"
    using assms(1) by (auto simp: db_ok_def forget_chats_def distinct_map_filter)
  moreover have "db_chats (forget_chats P db) = db_chats db" by (simp add: forget_chats_def)
  ultimately show ?thesis using run msg by (simp add: db_ok_def)
qed

lemma db_ok_shared: "db_ok db \<Longrightarrow> db_ok (db\<lparr>db_shared := s\<rparr>)"
  by (simp add: db_ok_def)

text \<open>Writing messages of a chat that exists.\<close>

definition rows_ok :: "string set \<Rightarrow> messages_table \<Rightarrow> bool" where
  "rows_ok ids T \<longleftrightarrow> distinct (map cm_id T) \<and> (\<forall>r \<in> set T. cm_chat_id r \<in> ids)"

lemma upsert_message_rows:
  assumes "upsert_message now k i u d T = Inr T'" and "rows_ok ids T" and "i \<in> ids"
  shows "rows_ok ids T'"
proof (cases "find_message (composite_id i k) T")
  case None
  then have "composite_id i k \<notin> cm_id ` set T" by (simp add: message_rows.get_None)
  then show ?thesis using assms None
    by (auto simp: upsert_message_def rows_ok_def bindE_eq_Inr build_message_def)
next
  case (Some row)
  then obtain r where r: "apply_message_data row d now = Inr r" "T' = put_message r T"
    using assms(1) by (auto simp: upsert_message_def bindE_eq_Inr)
  have same: "cm_id r = cm_id row" "cm_chat_id r = cm_chat_id row" using r(1) by (auto simp: apply_message_data_def bindE_eq_Inr)
  have "row \<in> set T" using Some find_key_Some unfolding find_message_def by fast
  then show ?thesis using assms(2) same by (auto simp: rows_ok_def r(2) message_rows.put_ids) (auto simp: put_message_def)
qed

lemma write_messages_rows: "rows_ok ids T \<Longrightarrow> i \<in> ids \<Longrightarrow> rows_ok ids (write_messages now i u ms' T)"
  by (induction now i u ms' T rule: write_messages.induct) (auto split: sum.splits dest: upsert_message_rows)

lemma upsert_messages_rows: "upsert_messages now i u ms' T = Inr T' \<Longrightarrow> rows_ok ids T \<Longrightarrow> i \<in> ids \<Longrightarrow> rows_ok ids T'"
  by (induction now i u ms' T rule: upsert_messages.induct) (auto simp: bindE_eq_Inr dest: upsert_message_rows)

lemma db_ok_rows: "db_ok db \<Longrightarrow> rows_ok (c_id ` set (db_chats db)) (db_messages db)"
  by (simp add: db_ok_def rows_ok_def)

lemma db_ok_messages: "db_ok db \<Longrightarrow> rows_ok (c_id ` set (db_chats db)) T \<Longrightarrow> db_ok (db\<lparr>db_messages := T\<rparr>)"
  by (simp add: db_ok_def rows_ok_def)

lemma db_ok_create: "db_ok db \<Longrightarrow> db_ok (snd (insert_new_chat now i u form meta timer db))"
proof -
  assume db: "db_ok db"
  show ?thesis
  proof (cases "new_chat_row now i u form meta timer")
    case (Inr c)
    then have c: "c_id c = i" by (auto simp: new_chat_row_def Let_def split: if_splits)
    have "rows_ok (insert i (c_id ` set (db_chats db))) (write_messages now i u (initial_messages (cf_chat form)) (db_messages db))"
      using db_ok_rows [OF db] by (intro write_messages_rows) (auto simp: rows_ok_def)
    then show ?thesis using db Inr c by (auto simp: insert_new_chat_def db_ok_def rows_ok_def)
  qed (simp add: insert_new_chat_def db)
qed

lemma db_ok_backfill:
  assumes "db_ok db" and "i \<in> c_id ` set (db_chats db)"
  shows "db_ok (backfill_messages_by_chat_id now i u M db)"
  using assms upsert_messages_rows [OF _ db_ok_rows [OF assms(1)] assms(2)]
  by (auto simp: backfill_messages_by_chat_id_def split: sum.splits intro: db_ok_messages)

lemma put_chat_ids: "c_id ` set (db_chats (put_chat c db)) = c_id ` set (db_chats db)"
  using arg_cong [OF chat_rows.put_ids, of set c db] by simp

lemma db_ok_dual_write:
  assumes "db_ok db" and "find_chat i db = Some c"
  shows "db_ok (case upsert_message now k i u d (db_messages (put_chat c' db)) of Inl e \<Rightarrow> put_chat c' db | Inr T \<Rightarrow> (put_chat c' db)\<lparr>db_messages := T\<rparr>)"
proof -
  have ok: "db_ok (put_chat c' db)" by (rule db_ok_put [OF assms(1)])
  have i: "i \<in> c_id ` set (db_chats (put_chat c' db))" using find_chat_id [OF assms(2)] unfolding put_chat_ids by auto
  show ?thesis using ok db_ok_messages [OF ok upsert_message_rows [OF _ db_ok_rows [OF ok] i]] by (auto split: sum.split)
qed

lemma db_ok_upsert: "db_ok db \<Longrightarrow> db_ok (snd (upsert_message_to_chat_by_id_and_message_id now i k m touch db))"
proof (cases "find_chat i db")
  case (Some c)
  assume db: "db_ok db"
  define step where "step m' = (case upsert_into_row now (sanitize_text_for_db k) m' touch c of
                Inl e \<Rightarrow> (None, db)
              | Inr (saved, c') \<Rightarrow>
                  (Some c', case upsert_message now (sanitize_text_for_db k) i (c_user_id c) saved (db_messages (put_chat c' db)) of
                                  Inl e \<Rightarrow> put_chat c' db | Inr T \<Rightarrow> (put_chat c' db)\<lparr>db_messages := T\<rparr>))" for m'
  have "db_ok (snd (step m'))" for m'
    using db db_ok_dual_write [OF db Some] by (auto simp: step_def split: sum.split)
  then show ?thesis unfolding upsert_message_to_chat_by_id_and_message_id_def Let_def Some option.case step_def by blast
qed (simp add: upsert_message_to_chat_by_id_and_message_id_def Let_def)

lemma db_ok_delete_message: "db_ok db \<Longrightarrow> db_ok (snd (delete_message_from_chat_by_id_and_message_id now i k db))"
proof (cases "find_chat i db")
  case (Some c)
  assume db: "db_ok db"
  have drop: "db_ok (db'\<lparr>db_messages := delete_message_ids_by_chat_id i gone (db_messages db')\<rparr>)" if "db_ok db'" for db' gone
    using that by (auto simp: db_ok_def delete_message_ids_by_chat_id_def distinct_map_filter)
  have "db_ok (backfill_messages_by_chat_id now i u M (put_chat c' db))" for u M c'
    by (rule db_ok_backfill [OF db_ok_put [OF db]]) (use find_chat_id [OF Some] in \<open>auto simp: put_chat_ids\<close>)
  then show ?thesis using db Some unfolding delete_message_from_chat_by_id_and_message_id_def Let_def
    by (auto split: sum.split intro!: db_ok_put drop)
qed (simp add: delete_message_from_chat_by_id_and_message_id_def)

lemma db_ok_row_op:
  assumes "db_ok db" and "snd r = db \<or> (\<exists>c. snd r = put_chat c db)"
  shows "db_ok (snd r)"
  using assms db_ok_put by auto

lemma db_ok_tags: "db_ok db \<Longrightarrow> db_ok (db\<lparr>db_tags := ts\<rparr>)"
  by (simp add: db_ok_def)

lemma update_shared_tables:
  "db_chats (snd (shared_create token now i u db)) = db_chats db" "db_chats (snd (shared_update now token db)) = db_chats db"
  "db_messages (snd (shared_create token now i u db)) = db_messages db" "db_messages (snd (shared_update now token db)) = db_messages db"
  "db_runs (snd (shared_create token now i u db)) = db_runs db" "db_runs (snd (shared_update now token db)) = db_runs db"
  by (auto simp: shared_create_def shared_update_def put_shared_def Let_def split: option.split)

lemma db_ok_same: "db_chats db' = db_chats db \<Longrightarrow> db_messages db' = db_messages db \<Longrightarrow> db_runs db' = db_runs db \<Longrightarrow> db_ok db \<Longrightarrow> db_ok db'"
  by (simp add: db_ok_def)

lemma chat_step_ok: "chat_step db db' \<Longrightarrow> db_ok db \<Longrightarrow> db_ok db'"
proof (induction rule: chat_step.induct)
  case (move_folder db u folder folder')
  then show ?case by (rule db_ok_same_ids) (auto simp: move_chats_by_user_id_and_folder_id_def)
next
  case (delete db i)
  then show ?case unfolding delete_chat_by_id_def Let_def delete_shared_chat_by_chat_id_def by (intro db_ok_shared db_ok_forget) auto
next
  case (delete_own db i u)
  then show ?case unfolding delete_chat_by_id_and_user_id_def Let_def delete_shared_chat_by_chat_id_def by (intro db_ok_shared db_ok_forget) auto
next
  case (delete_user db u)
  have "db_ok (delete_shared_chats_by_user_id u db)"
    by (rule db_ok_same_ids [OF delete_user]) (auto simp: delete_shared_chats_by_user_id_def)
  then show ?case unfolding delete_chats_by_user_id_def Let_def by (intro db_ok_forget) (auto simp: list_ex_iff)
next
  case (delete_folder db u folder)
  then show ?case unfolding delete_chats_by_user_id_and_folder_id_def Let_def by (intro db_ok_forget) (auto simp: list_ex_iff)
next
  case (delete_shared db u)
  then show ?case by (rule db_ok_same_ids) (auto simp: delete_shared_chats_by_user_id_def)
next
  case (read_folders db u folders)
  then show ?case by (rule db_ok_same_ids) (auto simp: mark_chats_read_by_folder_ids_def mark_read_def Let_def)
next
  case (read_user db u)
  then show ?case by (rule db_ok_same_ids) (auto simp: mark_chats_read_by_user_id_def mark_read_def Let_def)
next
  case (edit db now i chat touch)
  then show ?case by (rule db_ok_row_op) (auto simp: update_chat_by_id_def Let_def split: option.split sum.split)
next
  case (status db i k v)
  then show ?case by (rule db_ok_row_op) (auto simp: add_message_status_to_chat_by_id_and_message_id_def Let_def split: option.split sum.split)
next
  case (read db i)
  then show ?case by (rule db_ok_row_op) (auto simp: get_chat_by_id_def split: option.split sum.split)
next
  case (read_own db i u)
  then show ?case by (rule db_ok_row_op) (auto simp: get_chat_by_id_and_user_id_def split: option.split sum.split)
next
  case (snapshot db token now i u)
  then show ?case by (rule db_ok_same [rotated 3]) (simp_all only: update_shared_tables)
next
  case (refresh db now token)
  then show ?case by (rule db_ok_same [rotated 3]) (simp_all only: update_shared_tables)
next
  case (archive_all db u)
  then show ?case by (rule db_ok_same_ids) (auto simp: archive_all_chats_by_user_id_def)
next
  case (unarchive_all db u)
  then show ?case by (rule db_ok_same_ids) (auto simp: unarchive_all_chats_by_user_id_def)
next
  case (set_tags db i meta vs)
  then show ?case by (rule db_ok_same_ids) (auto simp: store_tags_def)
qed (auto simp: db_ok_create db_ok_upsert db_ok_backfill update_chat_share_id_by_id_def toggle_chat_pinned_by_id_def toggle_chat_archive_by_id_def
    delete_shared_chat_by_chat_id_def shared_delete_by_id_def shared_delete_all_by_user_id_def insert_new_tag_def ensure_tags_exist_def
    delete_tag_by_name_and_user_id_def delete_tags_by_ids_and_user_id_def db_ok_delete_message update_chat_folder_id_by_id_and_user_id_def update_chat_variables_by_id_def
    update_chat_last_read_at_by_id_def mark_chat_unread_by_id_def update_chat_title_by_id_def update_chat_tasks_by_id_def Let_def
    split: option.split intro: db_ok_put db_ok_shared db_ok_tags)

subsection \<open>Keys stay unique\<close>

lemma keys_ok_other [simp]:
  "keys_ok (put_chat c db) = keys_ok db" "keys_ok (db\<lparr>db_chats := cs\<rparr>) = keys_ok db" "keys_ok (db\<lparr>db_messages := T\<rparr>) = keys_ok db"
  "keys_ok (db\<lparr>db_runs := rs\<rparr>) = keys_ok db" "keys_ok (forget_chats P db) = keys_ok db"
  "keys_ok (store_tags i meta vs db) = keys_ok db" "keys_ok (backfill_messages_by_chat_id now i u M db) = keys_ok db"
  by (auto simp: keys_ok_def put_chat_def forget_chats_def store_tags_def backfill_messages_by_chat_id_def split: sum.split)

lemma keys_ok_drop [intro]:
  "keys_ok db \<Longrightarrow> keys_ok (db\<lparr>db_shared := filter P (db_shared db)\<rparr>)" "keys_ok db \<Longrightarrow> keys_ok (db\<lparr>db_tags := filter Q (db_tags db)\<rparr>)"
  by (simp_all add: keys_ok_def distinct_map_filter)

lemma keys_ok_put_shared: "keys_ok db \<Longrightarrow> keys_ok (put_shared r db)"
  using shared_rows.put_ids [of r db] by (simp add: keys_ok_def) (simp add: put_shared_def)

lemma keys_ok_create: "keys_ok db \<Longrightarrow> keys_ok (snd (shared_create token now i u db))"
  by (auto simp: shared_create_def keys_ok_def Let_def split: option.split)

lemma find_tag_None: "find_tag i u db = None \<longleftrightarrow> (i, u) \<notin> tag_key ` set (db_tags db)"
  by (auto simp: find_tag_def find_None_iff tag_key_def)

lemma disjoint_map_filter: "(\<And>n. P n \<Longrightarrow> f n \<notin> K) \<Longrightarrow> K \<inter> set (map f (filter P ns)) = {}"
  by auto

lemma new_tags_fresh:
  "set (map tag_key (db_tags db)) \<inter> set (map tag_key (map (\<lambda>n. new_tag n u) (filter (\<lambda>n. find_tag (tag_id_of n) u db = None) names))) = {}"
proof -
  have "tag_key (new_tag n u) \<notin> set (map tag_key (db_tags db))" if "find_tag (tag_id_of n) u db = None" for n
    using that unfolding find_tag_None by (simp add: new_tag_def tag_key_def)
  from disjoint_map_filter [OF this] show ?thesis by (simp only: list.map_comp comp_def)
qed

lemma keys_ok_tags: "keys_ok db \<Longrightarrow> keys_ok (snd (ensure_tags_exist names u db))" "keys_ok db \<Longrightarrow> keys_ok (snd (insert_new_tag n u db))"
proof -
  assume db: "keys_ok db"
  let ?new = "map (\<lambda>n. new_tag n u) (filter (\<lambda>n. find_tag (tag_id_of n) u db = None) names)"
  have pair: "map tag_key ?new = map (\<lambda>i. (i, u)) (map tag_id_of (filter (\<lambda>n. find_tag (tag_id_of n) u db = None) names))"
    by (simp add: new_tag_def tag_key_def)
  have ids: "map tg_id ?new = map tag_id_of (filter (\<lambda>n. find_tag (tag_id_of n) u db = None) names)" by (simp add: new_tag_def)
  have "distinct (map tag_key (db_tags db @ ?new))" if "distinct (map tg_id ?new)"
  proof -
    have "distinct (map tag_key ?new)" using that unfolding pair ids by (simp add: distinct_map inj_on_def)
    moreover have "set (map tag_key (db_tags db)) \<inter> set (map tag_key ?new) = {}" by (rule new_tags_fresh)
    ultimately show ?thesis using db by (simp add: keys_ok_def)
  qed
  then show "keys_ok (snd (ensure_tags_exist names u db))" using db by (simp add: ensure_tags_exist_def Let_def keys_ok_def)
  show "keys_ok (snd (insert_new_tag n u db))" using db find_tag_None [of "tag_id_of n" u db]
    by (auto simp: insert_new_tag_def keys_ok_def new_tag_def tag_key_def)
qed

lemma keys_ok_message: "keys_ok (snd (upsert_message_to_chat_by_id_and_message_id now i k m touch db)) = keys_ok db"
  unfolding upsert_message_to_chat_by_id_and_message_id_def Let_def by (auto split: option.split sum.split)

lemma chat_step_keys: "chat_step db db' \<Longrightarrow> keys_ok db \<Longrightarrow> keys_ok db'"
proof (induction rule: chat_step.induct)
  case (create db now i u form meta timer)
  then show ?case by (auto simp: insert_new_chat_def keys_ok_def split: sum.split)
next
  case (delete_user db u)
  then show ?case by (auto simp: delete_chats_by_user_id_def delete_shared_chats_by_user_id_def keys_ok_def forget_chats_def distinct_map_filter Let_def)
next
  case (delete_shared db u)
  then show ?case by (auto simp: delete_shared_chats_by_user_id_def keys_ok_def distinct_map_filter)
next
  case (delete db i)
  then show ?case unfolding delete_chat_by_id_def delete_shared_chat_by_chat_id_def Let_def by (intro keys_ok_drop) simp
next
  case (delete_own db i u)
  then show ?case unfolding delete_chat_by_id_and_user_id_def delete_shared_chat_by_chat_id_def Let_def by (intro keys_ok_drop) simp
next
  case (delete_message db now i k)
  then show ?case unfolding delete_message_from_chat_by_id_and_message_id_def Let_def by (auto split: option.split sum.split)
next
  case (status db i k v)
  then show ?case unfolding add_message_status_to_chat_by_id_and_message_id_def Let_def by (auto split: option.split sum.split)
next
  case (edit db now i chat touch)
  then show ?case unfolding update_chat_by_id_def Let_def by (auto split: option.split sum.split)
next
  case (refresh db now token)
  then show ?case by (auto simp: shared_update_def Let_def keys_ok_put_shared split: option.split)
qed (auto simp: keys_ok_message keys_ok_create keys_ok_tags update_chat_folder_id_by_id_and_user_id_def move_chats_by_user_id_and_folder_id_def
    delete_chats_by_user_id_and_folder_id_def update_chat_variables_by_id_def update_chat_last_read_at_by_id_def mark_chat_unread_by_id_def
    mark_chats_read_by_folder_ids_def mark_chats_read_by_user_id_def mark_read_def update_chat_title_by_id_def update_chat_tasks_by_id_def
    get_chat_by_id_def get_chat_by_id_and_user_id_def update_chat_share_id_by_id_def toggle_chat_pinned_by_id_def toggle_chat_archive_by_id_def
    archive_all_chats_by_user_id_def unarchive_all_chats_by_user_id_def
    delete_shared_chat_by_chat_id_def shared_delete_by_id_def shared_delete_all_by_user_id_def
    delete_tag_by_name_and_user_id_def delete_tags_by_ids_and_user_id_def Let_def split: option.split sum.split)



subsection \<open>Requests are made of operations\<close>

abbreviation chat_steps :: "chat_db \<Rightarrow> chat_db \<Rightarrow> bool" where
  "chat_steps \<equiv> chat_step\<^sup>*\<^sup>*"

text \<open>Following a request through its branches.\<close>

lemma steps_pair:
  "chat_steps db (snd r) \<Longrightarrow> (\<And>a db'. r = (a, db') \<Longrightarrow> chat_steps db' (snd (g a db'))) \<Longrightarrow> chat_steps db (snd (case r of (a, db') \<Rightarrow> g a db'))"
  by (cases r) (auto intro: rtranclp_trans)

lemma steps_option:
  "(x = None \<Longrightarrow> chat_steps db (snd a)) \<Longrightarrow> (\<And>c. x = Some c \<Longrightarrow> chat_steps db (snd (b c))) \<Longrightarrow> chat_steps db (snd (case x of None \<Rightarrow> a | Some c \<Rightarrow> b c))"
  by (cases x) auto

lemma steps_sum:
  "(\<And>e. chat_steps db (snd (a e))) \<Longrightarrow> (\<And>c. x = Inr c \<Longrightarrow> chat_steps db (snd (b c))) \<Longrightarrow> chat_steps db (snd (case x of Inl e \<Rightarrow> a e | Inr c \<Rightarrow> b c))"
  by (cases x) auto

lemma steps_if: "(c \<Longrightarrow> chat_steps db (snd a)) \<Longrightarrow> (\<not> c \<Longrightarrow> chat_steps db (snd b)) \<Longrightarrow> chat_steps db (snd (if c then a else b))"
  by simp

lemmas steps_branches = steps_pair steps_option steps_sum steps_if

lemma steps_fold: "(\<And>db j. chat_step db (f db j)) \<Longrightarrow> chat_steps db (foldl f db js)"
  by (induction js arbitrary: db) (auto intro: converse_rtranclp_into_rtranclp)

lemma steps_orphans: "chat_step db (delete_orphan_tags_for_user ids u k db)"
  unfolding delete_orphan_tags_for_user_def Let_def by (rule chat_step.drop_tags)

lemma steps_then: "chat_steps db db1 \<Longrightarrow> chat_step db1 db2 \<Longrightarrow> chat_steps db db2"
  by (rule rtranclp.rtrancl_into_rtrancl)

lemma share_steps: "chat_steps db (snd (share_chat_by_id allowed token now i user db))"
  unfolding share_chat_by_id_def by (intro steps_branches) (auto intro: chat_step.intros)

lemma tag_update_steps: "chat_steps db (snd (update_chat_tags_by_id i ns u db))"
proof -
  have "chat_steps db (snd (case ensure_tags_exist ns' u (store_tags i meta vs db) of (Inl e, db2) \<Rightarrow> (Inl e, db2)
      | (Inr _, db2) \<Rightarrow> (case x of Inl e \<Rightarrow> (Inl e, db2) | Inr olds \<Rightarrow> (Inr (), delete_orphan_tags_for_user (f olds) u 0 db2))))" for ns' meta vs f and x :: "'a res"
    by (intro steps_branches) (auto intro: steps_then chat_step.intros steps_orphans)
  then show ?thesis unfolding update_chat_tags_by_id_def Let_def by (intro steps_option) auto
qed

lemma tag_requests_steps:
  "chat_steps db (snd (tags_of_own_chat i user db))"
  "chat_steps db (add_chat_tag_by_id_and_user_id_and_tag_name arrange i u n db)"
  "chat_steps db (snd (delete_tag_by_id_and_user_id_and_tag_name arrange i n db))"
proof -
  show "chat_steps db (snd (tags_of_own_chat i user db))"
    unfolding tags_of_own_chat_def by (intro steps_branches) (auto intro: chat_step.intros)
  show "chat_steps db (add_chat_tag_by_id_and_user_id_and_tag_name arrange i u n db)"
    unfolding add_chat_tag_by_id_and_user_id_and_tag_name_def Let_def
    by (auto split: option.split pyval.split intro: steps_then chat_step.intros)
  show "chat_steps db (snd (delete_tag_by_id_and_user_id_and_tag_name arrange i n db))"
    unfolding delete_tag_by_id_and_user_id_and_tag_name_def Let_def by (intro steps_branches) (auto intro: chat_step.intros)
qed

lemma add_tag_steps: "chat_steps db (snd (add_tag_by_id_and_tag_name arrange i n user db))"
proof -
  have "chat_steps db (snd (tags_of_own_chat i user (if b then db else add_chat_tag_by_id_and_user_id_and_tag_name arrange i (u_id user) n db)))" for b db
    by (auto intro: tag_requests_steps rtranclp_trans)
  then show ?thesis unfolding add_tag_by_id_and_tag_name_def by (intro steps_branches) (auto intro: chat_step.intros)
qed

lemma delete_tag_steps: "chat_steps db (snd (delete_tag_by_id_and_tag_name arrange i n user db))"
proof -
  let ?del = "\<lambda>db. snd (delete_tag_by_id_and_user_id_and_tag_name arrange i n db)"
  have "chat_steps db (snd (tags_of_own_chat i user (if b then delete_tag_by_name_and_user_id n (u_id user) (?del db) else ?del db)))" for b db
    by (auto intro: rtranclp_trans [OF _ tag_requests_steps(1)] steps_then [OF tag_requests_steps(3) chat_step.drop_tag] tag_requests_steps(3))
  then show ?thesis unfolding delete_tag_by_id_and_tag_name_def Let_def by (intro steps_branches) (auto intro: chat_step.intros)
qed

lemma archive_steps: "chat_steps db (snd (archive_chat_by_id now i user db))"
  unfolding archive_chat_by_id_def Let_def by (intro steps_branches) (auto intro: chat_step.intros steps_orphans)

lemma delete_request_steps: "chat_steps db (snd (delete_chat_request allowed i user db))"
proof -
  have "chat_steps db (let db = delete_orphan_tags_for_user ids u 1 db; db = foldl (\<lambda>db j. delete_chat_by_id_and_user_id j v db) db (js db)
      in if a then delete_chat_by_id i db else delete_chat_by_id_and_user_id i u db)" for ids u v js a db
  proof -
    let ?db = "delete_orphan_tags_for_user ids u 1 db"
    have "chat_steps db (foldl (\<lambda>db j. delete_chat_by_id_and_user_id j v db) ?db (js ?db))"
      by (rule converse_rtranclp_into_rtranclp, rule steps_orphans, rule steps_fold, rule chat_step.delete_own)
    then show ?thesis unfolding Let_def by (auto intro: steps_then chat_step.intros)
  qed
  then show ?thesis unfolding delete_chat_request_def Let_def by (intro steps_branches) (auto intro: chat_step.intros)
qed

subsection \<open>Edits are read back and stay local\<close>

text \<open>
  What an edit of chat \<open>i\<close> does to the chats: it returns a row with that id and stores it, or returns nothing and stores nothing.
\<close>

definition edits_only :: "string \<Rightarrow> chat_db \<Rightarrow> chat_row option \<times> chat_db \<Rightarrow> bool" where
  "edits_only i db r \<longleftrightarrow> (\<forall>j. find_chat j (snd r) = (if j = i \<and> fst r \<noteq> None then fst r else find_chat j db))"

lemma edits_none: "edits_only i db (None, db)"
  by (simp add: edits_only_def)

lemma edits_put:
  assumes "find_chat i db = Some c" and "c_id c' = i" and "db_chats db' = db_chats (put_chat c' db)"
  shows "edits_only i db (Some c', db')"
proof -
  have "find_chat j db' = find_chat j (put_chat c' db)" for j using assms(3) by (simp add: find_chat_def)
  then show ?thesis using chat_rows.read_back [OF assms(1,2)] by (simp add: edits_only_def)
qed

lemma store_chat_id: "store_chat c chat cur = Inr c' \<Longrightarrow> c_id c' = c_id c"
  by (auto simp: store_chat_def Let_def split: if_splits)

lemma sanitize_row_id: "c_id (sanitize_chat_row c) = c_id c"
  by (simp add: sanitize_chat_row_def)

lemma touch_row_id: "c_id (touch_row touch now c) = c_id c"
  by (simp add: touch_row_def)

lemma upsert_into_row_id: "upsert_into_row now k m touch c = Inr (saved, c') \<Longrightarrow> c_id c' = c_id c"
  by (auto simp: upsert_into_row_def Let_def bindE_eq_Inr split_beta touch_row_id sanitize_row_id dest!: store_chat_id)

lemma delete_from_row_id: "delete_from_row now k c = Inr (gone, M, c') \<Longrightarrow> c_id c' = c_id c"
  by (auto simp: delete_from_row_def Let_def bindE_eq_Inr split_beta sanitize_row_id dest!: store_chat_id split: if_splits)

lemma backfill_chats: "db_chats (backfill_messages_by_chat_id now i u M db) = db_chats db"
  by (simp add: backfill_messages_by_chat_id_def split: sum.split)

lemma edit_local: "edits_only i db (update_chat_by_id now i chat touch db)"
proof (cases "find_chat i db")
  case (Some c)
  then show ?thesis using chat_rows.get_key [OF Some]
    by (auto simp: update_chat_by_id_def Let_def bindE_eq_Inr touch_row_id split: sum.split intro!: edits_none edits_put dest!: store_chat_id)
qed (simp add: update_chat_by_id_def edits_none)

lemma simple_edits_local:
  "edits_only i db (update_chat_variables_by_id now i v touch db)" "edits_only i db (update_chat_title_by_id i t db)"
  "edits_only i db (update_chat_tasks_by_id i x db)" "edits_only i db (update_chat_folder_id_by_id_and_user_id now i u folder db)"
  "edits_only i db (mark_chat_unread_by_id i u db)"
  unfolding update_chat_variables_by_id_def update_chat_title_by_id_def update_chat_tasks_by_id_def
    update_chat_folder_id_by_id_and_user_id_def mark_chat_unread_by_id_def Let_def
  by (auto simp: touch_row_id split: option.split intro!: edits_none edits_put dest: chat_rows.get_key)

lemma upsert_local: "edits_only i db (upsert_message_to_chat_by_id_and_message_id now i k m touch db)"
proof (cases "find_chat i db")
  case (Some c)
  define step where "step m' = (case upsert_into_row now (sanitize_text_for_db k) m' touch c of
                Inl e \<Rightarrow> (None, db)
              | Inr (saved, c') \<Rightarrow>
                  (Some c', case upsert_message now (sanitize_text_for_db k) i (c_user_id c) saved (db_messages (put_chat c' db)) of
                                  Inl e \<Rightarrow> put_chat c' db | Inr T \<Rightarrow> (put_chat c' db)\<lparr>db_messages := T\<rparr>))" for m'
  have "edits_only i db (step m')" for m'
    using chat_rows.get_key [OF Some] Some
    by (auto simp: step_def split: sum.split intro!: edits_none edits_put dest: upsert_into_row_id)
  then show ?thesis unfolding upsert_message_to_chat_by_id_and_message_id_def Let_def Some option.case step_def by blast
qed (simp add: upsert_message_to_chat_by_id_and_message_id_def Let_def edits_none)

lemma delete_message_local: "edits_only i db (delete_message_from_chat_by_id_and_message_id now i k db)"
proof (cases "find_chat i db")
  case (Some c)
  then show ?thesis using chat_rows.get_key [OF Some] unfolding delete_message_from_chat_by_id_and_message_id_def Let_def
    by (auto simp: backfill_chats split: sum.split intro!: edits_none edits_put dest: delete_from_row_id)
qed (simp add: delete_message_from_chat_by_id_and_message_id_def edits_none)

lemma status_local: "edits_only i db (add_message_status_to_chat_by_id_and_message_id i k v db)"
proof (cases "find_chat i db")
  case (Some c)
  then show ?thesis using chat_rows.get_key [OF Some] unfolding add_message_status_to_chat_by_id_and_message_id_def Let_def
    by (auto simp: bindE_eq_Inr sanitize_row_id split: sum.split intro!: edits_none edits_put dest!: store_chat_id)
qed (simp add: add_message_status_to_chat_by_id_and_message_id_def edits_none)


end
