(* ===== verification/Spec2Isabelle.thy ===== *)
theory Spec2Isabelle
  imports Relay_Graph_Laws Relay_Batches Relay_OpenAI Relay_Guarantees Relay_Tuning Relay_Pipe Relay_Install Relay_Cli_Laws OWUI_Chats_Laws
begin

text \<open>
  Horizon Relay, verified. The relay (\<^verbatim>\<open>relay/src/horizon_relay\<close>) answers a chat request with small local
  models when their answers can be trusted and hands it to a cloud model otherwise; an adapter
  (\<^verbatim>\<open>integrations/openwebui\<close>) puts it into Open WebUI, whose chat, message and folder tables
  (\<^verbatim>\<open>open-webui/backend/open_webui/models\<close>) it reads and writes, and whose groups and grants decide who else sees them.

  \<^bold>\<open>How the parts interact.\<close> \<^verbatim>\<open>Pipe.pipe\<close> receives a request from Open WebUI and calls the scripted demo, the
  routing tests or \<^verbatim>\<open>Relay.chat\<close>. A conversation becomes a goal and sources; \<^verbatim>\<open>RelayEngine.run\<close> asks each local
  tier, has its samples criticised, and \<^verbatim>\<open>RoutingPolicy.decide\<close> trusts or escalates. An escalated goal is answered by
  the cloud directly or planned: \<^verbatim>\<open>Plan.parse\<close> checks the planner's JSON, the subtasks run in concurrent batches on
  local or cloud workers, and a last cloud call writes the answer. \<^verbatim>\<open>CloudBudget\<close> pays for every cloud call. Each step
  publishes an event; \<^verbatim>\<open>RunGraph\<close> folds the events into the decision graph, and the adapter streams what the models
  write. The tests are saved as chats in a folder of Open WebUI.

  \<^bold>\<open>Shared theories.\<close>
  \<^item> \<open>Relay_Prelude\<close>: exceptions (\<open>exn\<close>), results \<open>'a res = exn + 'a\<close>, Python values (\<open>pyval\<close>) and insertion-ordered
    dictionaries, rounding and \<^verbatim>\<open>_clamp\<close>, with the collections \<open>res_simps\<close>, \<open>dict_simps\<close>, \<open>text_simps\<close> and \<open>run_simps\<close>.
  \<^item> \<open>Py_Text\<close>, \<open>Py_Number\<close>, \<open>Py_Regex\<close>, \<open>Py_Difflib\<close>, \<open>Py_Json\<close>: what the code uses of Python's \<^verbatim>\<open>str\<close>, number
    parsing, \<^verbatim>\<open>re\<close>, \<^verbatim>\<open>difflib\<close> and \<^verbatim>\<open>json\<close>, as executable functions.

  \<^bold>\<open>The relay.\<close> (theory, source, what is shown)
  \<^item> \<open>Relay_Settings\<close> (\<^verbatim>\<open>settings.py\<close>): \<open>Limits\<close> can be built exactly for values within the bounds.
  \<^item> \<open>Relay_Budget\<close> (\<^verbatim>\<open>budget.py\<close>): \<open>spend\<close> with every refusal; the locale \<open>call_ledger\<close> states what a ledger of paid
    calls promises, interpreted for \<open>spend\<close>; limits hold over any sequence of calls and the last call stays reserved.
  \<^item> \<open>Relay_Results\<close> (\<^verbatim>\<open>results.py\<close>): the three validators implement the acceptance predicates of the locale
    \<open>result_contract\<close>; \<open>validate_result\<close> accepts exactly the results the types describe.
  \<^item> \<open>Relay_Plan\<close> (\<^verbatim>\<open>plan.py\<close>): \<open>parse\<close> returns exactly the valid plans (bounded, typed, acyclic).
  \<^item> \<open>Relay_Tokens\<close> (\<^verbatim>\<open>tokens.py\<close>), \<open>Relay_Policy\<close> (\<^verbatim>\<open>policy.py\<close>): token statistics, assessments, critiques, the
    signals, the rules and \<open>decide\<close>: signals are bounded, the score is monotone, the exact condition under which
    the default policy trusts an answer, the order of a subtask's attempts, verbatim extraction.
  \<^item> \<open>Relay_Prompts\<close> (\<^verbatim>\<open>prompts.py\<close>), \<open>Relay_Conversation\<close> (\<^verbatim>\<open>conversation.py\<close>): what is sent to the models; no user text
    reaches a system message.
  \<^item> \<open>Relay_Provider\<close>, \<open>Relay_OpenAI\<close> (\<^verbatim>\<open>providers\<close>), \<open>Relay_Demo\<close> (\<^verbatim>\<open>simulated.py\<close>, \<^verbatim>\<open>demo.py\<close>): request and reply of a
    model call, the streamed reply cut into chunks, the scripted provider. A model server is a parameter.
  \<^item> \<open>Relay_Run\<close>, \<open>Relay_Tasks\<close>, \<open>Relay_Engine\<close> (\<^verbatim>\<open>engine.py\<close>, \<^verbatim>\<open>events.py\<close>): the state of a run, its elementary operations, the
    workers as a state machine under an arbitrary \<open>schedule\<close>, and \<open>run\<close> itself, in an exception and state monad (\<open>comp\<close>).
  \<^item> \<open>Relay_Laws\<close>: the locales \<open>run_invariant\<close>, \<open>request_invariant\<close> and \<open>whole_run\<close> lift a predicate that survives the
    elementary operations to whole runs; \<open>Relay_Guarantees\<close> interprets them (cloud spending, event numbers, local
    routes) and concludes the properties of \<open>run\<close>.
  \<^item> \<open>Relay_Batches\<close>: reachability of the interleaved workers (\<open>batch_step\<close>), local slots, and that a validated plan is
    carried out completely.
  \<^item> \<open>Relay_Graph\<close> (\<^verbatim>\<open>graph.py\<close>): \<open>RunGraph\<close> with every event handler and the page it renders; \<open>Relay_Graph_Laws\<close>: every handler keeps the
    graph consistent, an accepted plan is drawn by dependency depth (the loop ends), the inlined data cannot end its script.
  \<^item> \<open>Relay_Entry\<close> (\<^verbatim>\<open>relay.py\<close>), \<open>Relay_Evaluation\<close> (\<^verbatim>\<open>evaluation.py\<close>), \<open>Relay_Tuning\<close> (\<^verbatim>\<open>tuning.py\<close>): the facade, the routing
    tests and the policy search: the parallel-time sweep counts exactly, summaries add up, the tuner scores as the
    policy does and returns the best candidates.
  \<^item> \<open>Relay_Cli\<close> (\<^verbatim>\<open>cli.py\<close>): the commands from their options to the exit status over a console of output streams and written
    files; \<open>Relay_Cli_Laws\<close>: standard output carries the answer and nothing else, a failed run still writes its page, every routing test has
    a page of its own.

  \<^bold>\<open>The adapter and the tables of Open WebUI.\<close>
  \<^item> \<open>Relay_Stream\<close>, \<open>Relay_Pipe\<close> (\<^verbatim>\<open>horizon_relay_pipe.py\<close>): status lines, graph updates, the streamed reply (its blocks nest and it
    shows exactly the answer), the tests with their chats, the demo and the dispatch; emptying the Tests folder deletes
    exactly what it should, and a saved run reads back.
  \<^item> \<open>OWUI_Table\<close>: the locale \<open>row_store\<close>, what the operations rely on when they read a row by its key and write it back;
    interpreted for messages, chats, snapshots, groups and functions.
  \<^item> \<open>OWUI_Folders\<close> (\<^verbatim>\<open>models/folders.py\<close>): subtree and deletion loops end on cyclic tables and are exact.
  \<^item> \<open>OWUI_History\<close> (\<^verbatim>\<open>models/chats.py\<close>, \<^verbatim>\<open>utils/misc.py\<close>): cleaning, walking, merging and editing the message graph of a chat.
  \<^item> \<open>OWUI_Messages\<close> (\<^verbatim>\<open>models/chat_messages.py\<close>, \<^verbatim>\<open>utils/response.py\<close>), \<open>OWUI_Chats\<close> (\<^verbatim>\<open>models/chats.py\<close>): the tables and the
    operations that create, edit and delete chats and messages.
  \<^item> \<open>OWUI_Groups\<close> (\<^verbatim>\<open>models/groups.py\<close>), \<open>OWUI_Grants\<close> (\<^verbatim>\<open>models/access_grants.py\<close>): groups with their members and the table of grants:
    memberships stay unique, synchronising and adding members is exact, a payload of grants becomes exactly its valid rights, the old and
    the new form of access control agree, and so do the single check, the bulk check and the query filter.
  \<^item> \<open>OWUI_Access\<close> (\<^verbatim>\<open>utils/access_control\<close>): the permissions of a user, which grants the user may hand out, the walk from a model to its
    base models and from a folder to its parents; both end on cyclic tables and decide exactly.
  \<^item> \<open>OWUI_Reading\<close>, \<open>OWUI_Sharing\<close>, \<open>OWUI_Tags\<close> (\<^verbatim>\<open>models/chats.py\<close>, \<^verbatim>\<open>shared_chats.py\<close>, \<^verbatim>\<open>tags.py\<close>, \<^verbatim>\<open>routers/chats.py\<close>): who may read a chat, the
    snapshots that are shared and what revoking them revokes, the tags of chats and when their rows go.
  \<^item> \<open>OWUI_Chats_Laws\<close>: all operations on chats, shares and tags as a step relation (\<open>chat_step\<close>) that never leaves orphans or repeated keys; the
    requests are sequences of these steps; each edit is read back and stays local.
  \<^item> \<open>OWUI_Functions\<close> (\<^verbatim>\<open>models/functions.py\<close>, \<^verbatim>\<open>utils/valves.py\<close>), \<open>Relay_Install\<close> (\<^verbatim>\<open>sync_pipe.py\<close>, \<^verbatim>\<open>utils/plugin.py\<close>): the table of
    plugins, and the script that installs the pipe: it is idempotent and touches nothing else.

  \<^bold>\<open>Conventions.\<close> A text is a list of 8-bit characters; the few other characters the relay prints have stand-ins. Floats are
  real numbers with infinities and NaN (\<open>pyfloat\<close>), so rounding errors are not modelled; integers are unbounded as in Python. A table
  is the list of its rows in the order of insertion. Clocks, generated ids, servers, schedules and regular expressions of test
  fixtures are parameters.

  \<^bold>\<open>Termination and bounds.\<close> Every loop is a total function. Loops over graphs (folders, parents of messages, base models) end because what
  they have not visited shrinks; the batches of a plan because each leaves fewer pending tasks; a batch because each step
  lowers a rank of some worker. Recursion over folders takes the number of rows as its bound, and the theorems show that
  this bound is always enough.

  \<^bold>\<open>Not modelled.\<close> The argument parser of the command line; the HTTP transport; the HTML template of the
  graph page; wall-clock time beyond the deadlines of a run; failures of the database; the rest of
  Open WebUI, a vendored web application of which only what the relay reads and writes is covered: its chat table without
  import, paged and searched lists and attached files, its message table without the usage statistics, its groups without the filtered
  lists. Published events and the running tasks that some requests cancel are outside the tables and left out.
\<close>

end
